(* ===== verification/GrblPrelude.thy ===== *)
theory GrblPrelude
  imports Complex_Main "HOL-Library.Word"
begin

text \<open>
  Shared vocabulary of the development: the machine integer types of the firmware
  (\<open>uint8_t\<close> and so on as words), masks of a power of two, and the ring buffer every queue of
  the firmware uses (a head, a tail and an array whose size is a power of two, one slot always
  left free).
\<close>

unbundle bit_operations_syntax

named_theorems ring_simps \<open>facts about ring buffer contents\<close>

type_synonym u8 = "8 word"
type_synonym u16 = "16 word"
type_synonym u32 = "32 word"

text \<open>The axes of the build: X, Y, Z, A and B.\<close>

definition N_AXIS :: nat where
  "N_AXIS = 5"

section \<open>Words\<close>

lemma and_mask_unat:
  fixes w :: "'a::len word"
  assumes "n \<le> LENGTH('a)"
  shows "unat (w AND mask n) = unat w mod 2 ^ n"
proof -
  have "unat (take_bit n w) = take_bit n (unat w)"
    by (rule unsigned_take_bit_eq)
  then show ?thesis
    by (simp add: take_bit_eq_mask [symmetric] take_bit_eq_mod)
qed

lemma mask_4: "(mask 4 :: 'a::len word) = 15"
  by (simp add: mask_eq_exp_minus_1)

lemma mask_11: "(mask 11 :: 'a::len word) = 2047"
  by (simp add: mask_eq_exp_minus_1)

lemma unat_and_15: "unat ((w::u32) AND 15) = unat w mod 16"
  using and_mask_unat [of 4 w] by (simp add: mask_4)

lemma unat_and_2047: "unat ((w::u32) AND 2047) = unat w mod 2048"
  using and_mask_unat [of 11 w] by (simp add: mask_11)

lemma unat_add_1:
  fixes w :: "'a::len word"
  assumes "unat w + 1 < 2 ^ LENGTH('a)"
  shows "unat (w + 1) = unat w + 1"
  using assms by (simp add: unat_word_ariths)

text \<open>Equality of short words, bit by bit: the goal of every bit-level equation.\<close>

lemma word8_eq_iff: "(a::u8) = b \<longleftrightarrow> (\<forall>n\<in>{0,1,2,3,4,5,6,7}. bit a n = bit b n)"
proof
  assume h: "\<forall>n\<in>{0,1,2,3,4,5,6,7}. bit a n = bit b n"
  show "a = b"
  proof (rule bit_word_eqI)
    fix n assume "n < LENGTH(8)"
    then have "n \<in> {0,1,2,3,4,5,6,7}" by simp linarith
    with h show "bit a n = bit b n" by blast
  qed
qed simp

lemma word16_eq_iff:
  "(a::u16) = b \<longleftrightarrow> (\<forall>n\<in>{0,1,2,3,4,5,6,7,8,9,10,11,12,13,14,15}. bit a n = bit b n)"
proof
  assume h: "\<forall>n\<in>{0,1,2,3,4,5,6,7,8,9,10,11,12,13,14,15}. bit a n = bit b n"
  show "a = b"
  proof (rule bit_word_eqI)
    fix n assume "n < LENGTH(16)"
    then have "n \<in> {0,1,2,3,4,5,6,7,8,9,10,11,12,13,14,15}"
      by (simp add: numeral_eq_Suc less_Suc_eq)
    with h show "bit a n = bit b n" by blast
  qed
qed simp

lemma bit_double:
  "bit ((c::'a::len word) * 2) n \<longleftrightarrow> 0 < n \<and> n < LENGTH('a) \<and> bit c (n - 1)"
proof -
  have d: "c * 2 = push_bit 1 c" by (simp add: push_bit_eq_mult)
  show ?thesis unfolding d bit_push_bit_iff possible_bit_word by auto
qed

lemma bit_beyond_8: "8 \<le> n \<Longrightarrow> bit (w::u8) n = False"
  using bit_imp_le_length [of w n] by auto

lemma bit_beyond_16: "16 \<le> n \<Longrightarrow> bit (w::u16) n = False"
  using bit_imp_le_length [of w n] by auto

lemma bit_if_zero: "bit (if p then (w::'a::len word) else 0) n \<longleftrightarrow> p \<and> bit w n"
  by simp

lemmas bit_iffs = bit_double bit_beyond_8 bit_beyond_16 bit_if_zero bit_push_bit_iff bit_drop_bit_eq bit_xor_iff bit_and_iff bit_or_iff
  bit_unsigned_iff

section \<open>Results\<close>

text \<open>
  What a function of the code comes to: a result, something the language leaves undefined, or the end
  of the fuel of a loop.
\<close>

datatype 'a run = Done 'a | Undefined | NoFuel

fun bind_run :: "'a run \<Rightarrow> ('a \<Rightarrow> 'b run) \<Rightarrow> 'b run" where
  "bind_run (Done x) f = f x"
| "bind_run Undefined f = Undefined"
| "bind_run NoFuel f = NoFuel"

lemma bind_run_NoFuel: "bind_run r f = NoFuel \<longleftrightarrow> r = NoFuel \<or> (\<exists>x. r = Done x \<and> f x = NoFuel)"
  by (cases r) auto

lemma bind_run_Undefined: "bind_run r f = Undefined \<longleftrightarrow> r = Undefined \<or> (\<exists>x. r = Done x \<and> f x = Undefined)"
  by (cases r) auto

lemma bind_run_Done: "bind_run r f = Done y \<longleftrightarrow> (\<exists>x. r = Done x \<and> f x = Done y)"
  by (cases r) auto

lemmas bind_run_iff = bind_run_NoFuel bind_run_Undefined bind_run_Done

section \<open>The step segment generator's flags\<close>

record step_control =
  end_motion :: bool
  execute_hold :: bool
  execute_sys_motion :: bool
  update_spindle_rpm :: bool

section \<open>Conversions\<close>

text \<open>The conversion of a floating point value to an integer: towards zero.\<close>

definition float_trunc :: "real \<Rightarrow> int" where
  "float_trunc r = (if 0 \<le> r then \<lfloor>r\<rfloor> else \<lceil>r\<rceil>)"

text \<open>\<open>atan2f\<close> of the C library, without signed zeros.\<close>

definition atan2 :: "real \<Rightarrow> real \<Rightarrow> real" where
  "atan2 y x =
     (if x > 0 then arctan (y / x)
      else if x < 0 then (if y \<ge> 0 then arctan (y / x) + pi else arctan (y / x) - pi)
      else if y > 0 then pi / 2 else if y < 0 then - (pi / 2) else 0)"

section \<open>Ring buffers\<close>

text \<open>
  The contents of a ring of \<open>n\<close> slots with write index \<open>h\<close> and read index \<open>t\<close>, oldest
  element first.
\<close>

definition ring_used :: "nat \<Rightarrow> nat \<Rightarrow> nat \<Rightarrow> nat" where
  "ring_used n h t = (h + n - t) mod n"

definition ring_contents :: "nat \<Rightarrow> nat \<Rightarrow> nat \<Rightarrow> 'a list \<Rightarrow> 'a list" where
  "ring_contents n h t b = map (\<lambda>i. b ! ((t + i) mod n)) [0..<ring_used n h t]"

lemma ring_used_less: "0 < n \<Longrightarrow> ring_used n h t < n"
  by (simp add: ring_used_def)

lemma ring_used_cases:
  "h < n \<Longrightarrow> t < n \<Longrightarrow> ring_used n h t = (if t \<le> h then h - t else h + n - t)"
  by (auto simp: ring_used_def le_mod_geq)

lemma ring_used_0 [ring_simps]:
  "h < n \<Longrightarrow> t < n \<Longrightarrow> ring_used n h t = 0 \<longleftrightarrow> h = t"
  by (auto simp: ring_used_cases)

lemma suc_mod_cases: "(h::nat) < n \<Longrightarrow> (h + 1) mod n = (if h + 1 = n then 0 else h + 1)"
  by auto

lemma ring_full_iff:
  assumes "h < n" "t < n"
  shows "(h + 1) mod n = t \<longleftrightarrow> ring_used n h t = n - 1"
  using assms unfolding suc_mod_cases [OF assms(1)] by (auto simp: ring_used_cases)

lemma ring_used_put:
  assumes "h < n" "t < n" "(h + 1) mod n \<noteq> t"
  shows "ring_used n ((h + 1) mod n) t = Suc (ring_used n h t)"
proof (cases "h + 1 = n")
  case True
  with assms have "(h + 1) mod n = 0" "t \<noteq> 0" by auto
  with assms True show ?thesis by (simp add: ring_used_cases)
next
  case False
  with assms have "(h + 1) mod n = h + 1" "h + 1 < n" by auto
  with assms show ?thesis by (auto simp: ring_used_cases)
qed

lemma ring_used_get:
  assumes "h < n" "t < n" "h \<noteq> t"
  shows "ring_used n h t = Suc (ring_used n h ((t + 1) mod n))"
proof (cases "t + 1 = n")
  case True
  then have "(t + 1) mod n = 0" by simp
  with assms True show ?thesis by (auto simp: ring_used_cases)
next
  case False
  with assms have "(t + 1) mod n = t + 1" "t + 1 < n" by auto
  with assms show ?thesis by (auto simp: ring_used_cases)
qed

lemma length_ring_contents [simp]: "length (ring_contents n h t b) = ring_used n h t"
  by (simp add: ring_contents_def)

lemma ring_contents_empty [ring_simps]:
  "h < n \<Longrightarrow> t < n \<Longrightarrow> ring_contents n h t b = [] \<longleftrightarrow> h = t"
  using ring_used_0 [of h n t] by (simp add: ring_contents_def)

lemma ring_contents_same [simp]: "ring_contents n h h b = []"
  by (simp add: ring_contents_def ring_used_def)

lemma ring_last_slot:
  assumes "h < n" "t < n"
  shows "(t + ring_used n h t) mod n = h"
  using assms by (auto simp: ring_used_cases)

lemma ring_slot_ne:
  assumes "h < n" "t < n" "i < ring_used n h t"
  shows "(t + i) mod n \<noteq> h"
proof (cases "t + i < n")
  case True
  with assms show ?thesis by (auto simp: ring_used_cases split: if_splits)
next
  case False
  with assms have "(t + i) mod n = t + i - n"
    by (auto simp: ring_used_cases le_mod_geq split: if_splits)
  with assms False show ?thesis by (auto simp: ring_used_cases split: if_splits)
qed

lemma ring_contents_put [ring_simps]:
  assumes "h < n" "t < n" "length b = n" "(h + 1) mod n \<noteq> t"
  shows "ring_contents n ((h + 1) mod n) t (b[h := x]) = ring_contents n h t b @ [x]"
proof -
  have "map (\<lambda>i. b[h := x] ! ((t + i) mod n)) [0..<ring_used n h t] = ring_contents n h t b"
    unfolding ring_contents_def
  proof (rule map_cong)
    fix i assume "i \<in> set [0..<ring_used n h t]"
    then have "(t + i) mod n \<noteq> h" by (intro ring_slot_ne [OF assms(1,2)]) simp
    then show "b[h := x] ! ((t + i) mod n) = b ! ((t + i) mod n)"
      by (metis nth_list_update_neq)
  qed simp
  then show ?thesis
    using assms by (simp add: ring_contents_def ring_used_put [simplified] ring_last_slot)
qed

lemma ring_contents_get [ring_simps]:
  assumes "h < n" "t < n" "h \<noteq> t"
  shows "ring_contents n h t b = b ! t # ring_contents n h ((t + 1) mod n) b"
proof -
  have "map (\<lambda>i. b ! ((t + i) mod n)) [0..<Suc k]
      = b ! t # map (\<lambda>i. b ! (((t + 1) mod n + i) mod n)) [0..<k]" for k
    using assms by (simp add: upt_conv_Cons map_Suc_upt [symmetric] mod_simps del: upt_Suc)
  then show ?thesis
    using ring_used_get [OF assms] by (simp add: ring_contents_def del: upt_Suc)
qed

section \<open>The bounded queue interface\<close>

text \<open>
  What the users of a queue rely on: \<open>enq\<close> appends while there is room and drops the element
  otherwise, \<open>deq\<close> takes the oldest element. \<open>cap\<close> is the number of elements the queue holds.
\<close>

locale bounded_queue =
  fixes enq :: "'a \<Rightarrow> 'q \<Rightarrow> 'q"
    and deq :: "'q \<Rightarrow> 'a option \<times> 'q"
    and elems :: "'q \<Rightarrow> 'a list"
    and inv :: "'q \<Rightarrow> bool"
    and cap :: nat
  assumes inv_enq: "inv q \<Longrightarrow> inv (enq x q)"
    and inv_deq: "inv q \<Longrightarrow> inv (snd (deq q))"
    and elems_enq: "inv q \<Longrightarrow>
      elems (enq x q) = (if length (elems q) < cap then elems q @ [x] else elems q)"
    and fst_deq: "inv q \<Longrightarrow> fst (deq q) = (case elems q of [] \<Rightarrow> None | x # _ \<Rightarrow> Some x)"
    and elems_deq: "inv q \<Longrightarrow> elems (snd (deq q)) = tl (elems q)"
    and elems_cap: "inv q \<Longrightarrow> length (elems q) \<le> cap"
begin

primrec enq_all :: "'a list \<Rightarrow> 'q \<Rightarrow> 'q" where
  "enq_all [] q = q"
| "enq_all (x # xs) q = enq_all xs (enq x q)"

primrec deq_n :: "nat \<Rightarrow> 'q \<Rightarrow> 'a list \<times> 'q" where
  "deq_n 0 q = ([], q)"
| "deq_n (Suc n) q =
     (case deq q of (None, q') \<Rightarrow> ([], q')
      | (Some x, q') \<Rightarrow> (let (xs, q'') = deq_n n q' in (x # xs, q'')))"

lemma inv_enq_all: "inv q \<Longrightarrow> inv (enq_all xs q)"
  by (induction xs arbitrary: q) (simp_all add: inv_enq)

lemma elems_enq_all:
  "inv q \<Longrightarrow> elems (enq_all xs q) = elems q @ take (cap - length (elems q)) xs"
proof (induction xs arbitrary: q)
  case Nil
  then show ?case by simp
next
  case (Cons x xs)
  show ?case
  proof (cases "length (elems q) < cap")
    case True
    then have "cap - length (elems q) = Suc (cap - Suc (length (elems q)))" by simp
    with Cons True show ?thesis by (simp add: inv_enq elems_enq)
  next
    case False
    with Cons show ?thesis by (simp add: inv_enq elems_enq)
  qed
qed

lemma deq_n_elems: "inv q \<Longrightarrow> fst (deq_n n q) = take n (elems q)"
proof (induction n arbitrary: q)
  case 0
  then show ?case by simp
next
  case (Suc n)
  obtain r q' where d: "deq q = (r, q')" by (cases "deq q")
  from Suc.prems have q': "inv q'" "elems q' = tl (elems q)"
    using inv_deq [of q] elems_deq [of q] d by simp_all
  show ?case
  proof (cases "elems q")
    case Nil
    with fst_deq [OF Suc.prems] d show ?thesis by simp
  next
    case (Cons y ys)
    with fst_deq [OF Suc.prems] d q' Suc.IH [OF q'(1)] show ?thesis
      by (simp add: case_prod_beta)
  qed
qed

lemma inv_deq_n: "inv q \<Longrightarrow> inv (snd (deq_n n q))"
proof (induction n arbitrary: q)
  case (Suc n)
  obtain r q' where d: "deq q = (r, q')" by (cases "deq q")
  with inv_deq [OF Suc.prems] have "inv q'" by simp
  with Suc.IH [of q'] d show ?case
    by (auto simp: case_prod_beta split: option.split)
qed simp

text \<open>First in, first out: a batch queued on an empty queue is read back in order, up to \<open>cap\<close>.\<close>

lemma fifo:
  assumes "inv q" "elems q = []"
  shows "fst (deq_n (length xs) (enq_all xs q)) = take cap xs"
  using assms by (simp add: deq_n_elems inv_enq_all elems_enq_all min_def)

end

end
