(* ===== verification/Override.thy ===== *)
theory Override
  imports GrblPrelude
begin

text \<open>
  \<open>grbl/override.c\<close>: the three interrupt-to-foreground queues of realtime override commands
  (feed, spindle, coolant). \<open>uint_fast8_t\<close> is a 32-bit unsigned type on this target, so head and
  tail are \<open>u32\<close>; \<open>OVERRIDE_BUFSIZE\<close> is 16. The three pairs of functions differ only in the
  static queue they use: \<open>oq_put\<close> and \<open>oq_get\<close> are their common body.
\<close>

section \<open>State and operations\<close>

definition OVERRIDE_BUFSIZE :: u32 where
  "OVERRIDE_BUFSIZE = 16"

record override_queue =
  head :: u32
  tail :: u32
  buf :: "u8 list"

record override_state =
  feed :: override_queue
  spindle :: override_queue
  coolant :: override_queue

definition oq_put :: "u8 \<Rightarrow> override_queue \<Rightarrow> override_queue" where
  "oq_put cmd q =
     (let bptr = (head q + 1) AND (OVERRIDE_BUFSIZE - 1)
      in if bptr \<noteq> tail q
         then q\<lparr>buf := (buf q)[unat (head q) := cmd], head := bptr\<rparr>
         else q)"

definition oq_get :: "override_queue \<Rightarrow> u8 \<times> override_queue" where
  "oq_get q =
     (let bptr = tail q
      in if bptr \<noteq> head q
         then (buf q ! unat bptr, q\<lparr>tail := (bptr + 1) AND (OVERRIDE_BUFSIZE - 1)\<rparr>)
         else (0, q))"

definition enqueue_feed_override :: "u8 \<Rightarrow> override_state \<Rightarrow> override_state" where
  "enqueue_feed_override cmd s = s\<lparr>feed := oq_put cmd (feed s)\<rparr>"

definition get_feed_override :: "override_state \<Rightarrow> u8 \<times> override_state" where
  "get_feed_override s = (let (c, q) = oq_get (feed s) in (c, s\<lparr>feed := q\<rparr>))"

definition enqueue_spindle_override :: "u8 \<Rightarrow> override_state \<Rightarrow> override_state" where
  "enqueue_spindle_override cmd s = s\<lparr>spindle := oq_put cmd (spindle s)\<rparr>"

definition get_spindle_override :: "override_state \<Rightarrow> u8 \<times> override_state" where
  "get_spindle_override s = (let (c, q) = oq_get (spindle s) in (c, s\<lparr>spindle := q\<rparr>))"

definition enqueue_coolant_override :: "u8 \<Rightarrow> override_state \<Rightarrow> override_state" where
  "enqueue_coolant_override cmd s = s\<lparr>coolant := oq_put cmd (coolant s)\<rparr>"

definition get_coolant_override :: "override_state \<Rightarrow> u8 \<times> override_state" where
  "get_coolant_override s = (let (c, q) = oq_get (coolant s) in (c, s\<lparr>coolant := q\<rparr>))"

definition flush_override_buffers :: "override_state \<Rightarrow> override_state" where
  "flush_override_buffers s = s
     \<lparr>feed := (feed s)\<lparr>head := 0, tail := 0\<rparr>,
      spindle := (spindle s)\<lparr>head := 0, tail := 0\<rparr>,
      coolant := (coolant s)\<lparr>head := 0, tail := 0\<rparr>\<rparr>"

text \<open>The statically zeroed queues of a freshly started controller.\<close>

definition override_queue_zero :: override_queue where
  "override_queue_zero = \<lparr>head = 0, tail = 0, buf = replicate 16 0\<rparr>"

definition override_state_zero :: override_state where
  "override_state_zero =
     \<lparr>feed = override_queue_zero, spindle = override_queue_zero, coolant = override_queue_zero\<rparr>"

section \<open>Well-formed queues and their contents\<close>

definition oq_ok :: "override_queue \<Rightarrow> bool" where
  "oq_ok q \<longleftrightarrow> unat (head q) < 16 \<and> unat (tail q) < 16 \<and> length (buf q) = 16"

definition oq_elems :: "override_queue \<Rightarrow> u8 list" where
  "oq_elems q = ring_contents 16 (unat (head q)) (unat (tail q)) (buf q)"

definition override_ok :: "override_state \<Rightarrow> bool" where
  "override_ok s \<longleftrightarrow> oq_ok (feed s) \<and> oq_ok (spindle s) \<and> oq_ok (coolant s)"

text \<open>The dequeue operation in the form of the queue interface.\<close>

definition oq_deq :: "override_queue \<Rightarrow> u8 option \<times> override_queue" where
  "oq_deq q = (if head q = tail q then None else Some (fst (oq_get q)), snd (oq_get q))"

lemma unat_next_slot:
  assumes "unat (i::u32) < 16"
  shows "unat ((i + 1) AND (OVERRIDE_BUFSIZE - 1)) = (unat i + 1) mod 16"
  using assms by (simp add: OVERRIDE_BUFSIZE_def unat_and_15 unat_add_1)

lemma oq_ok_put: "oq_ok q \<Longrightarrow> oq_ok (oq_put x q)"
  by (simp add: oq_ok_def oq_put_def Let_def unat_next_slot [simplified])

lemma oq_ok_get: "oq_ok q \<Longrightarrow> oq_ok (snd (oq_get q))"
  by (simp add: oq_ok_def oq_get_def Let_def unat_next_slot [simplified])

lemma oq_full_iff:
  assumes "oq_ok q"
  shows "(head q + 1) AND (OVERRIDE_BUFSIZE - 1) = tail q \<longleftrightarrow> length (oq_elems q) = 15"
proof -
  have "(head q + 1) AND (OVERRIDE_BUFSIZE - 1) = tail q \<longleftrightarrow>
      (unat (head q) + 1) mod 16 = unat (tail q)"
    using unat_next_slot [of "head q"] assms
    by (metis oq_ok_def unsigned_word_eqI)
  then show ?thesis
    using assms ring_full_iff [of "unat (head q)" 16 "unat (tail q)"]
    by (simp add: oq_ok_def oq_elems_def)
qed

lemma length_oq_elems: "length (oq_elems q) \<le> 15"
  using ring_used_less [of 16 "unat (head q)" "unat (tail q)"] by (simp add: oq_elems_def)

lemma oq_elems_put:
  assumes "oq_ok q"
  shows "oq_elems (oq_put x q)
    = (if length (oq_elems q) < 15 then oq_elems q @ [x] else oq_elems q)"
proof (cases "(head q + 1) AND (OVERRIDE_BUFSIZE - 1) = tail q")
  case True
  with oq_full_iff [OF assms] show ?thesis by (simp add: oq_put_def)
next
  case False
  then have "(unat (head q) + 1) mod 16 \<noteq> unat (tail q)"
    using unat_next_slot [of "head q"] assms by (metis oq_ok_def unsigned_word_eqI)
  then have "oq_elems (oq_put x q) = oq_elems q @ [x]"
    using assms False ring_contents_put [of "unat (head q)" 16 "unat (tail q)" "buf q" x]
    by (simp add: oq_elems_def oq_put_def oq_ok_def unat_next_slot [simplified])
  moreover have "length (oq_elems q) < 15"
    using oq_full_iff [OF assms] length_oq_elems [of q] False by simp
  ultimately show ?thesis by simp
qed

lemma oq_elems_Nil: "oq_ok q \<Longrightarrow> oq_elems q = [] \<longleftrightarrow> head q = tail q"
  by (simp add: oq_ok_def oq_elems_def ring_contents_empty word_unat_eq_iff)

lemma oq_elems_get:
  assumes "oq_ok q" "head q \<noteq> tail q"
  shows "oq_elems q = fst (oq_get q) # oq_elems (snd (oq_get q))"
  using assms ring_contents_get [of "unat (head q)" 16 "unat (tail q)" "buf q"]
  by (simp add: oq_elems_def oq_get_def oq_ok_def unat_next_slot [simplified]
      word_unat_eq_iff Let_def)

interpretation override_ring: bounded_queue oq_put oq_deq oq_elems oq_ok 15
proof (unfold_locales, goal_cases)
  case (1 q x) then show ?case by (rule oq_ok_put)
next
  case (2 q) then show ?case by (simp add: oq_deq_def oq_ok_get)
next
  case (3 q x) then show ?case by (rule oq_elems_put)
next
  case (4 q) then show ?case
    using oq_elems_Nil [of q] oq_elems_get [of q] by (auto simp: oq_deq_def split: list.split)
next
  case (5 q)
  show ?case
  proof (cases "head q = tail q")
    case True
    with 5 oq_elems_Nil [of q] show ?thesis by (simp add: oq_deq_def oq_get_def)
  next
    case False
    with 5 oq_elems_get [of q] show ?thesis by (simp add: oq_deq_def)
  qed
next
  case (6 q) show ?case by (rule length_oq_elems)
qed

lemma oq_get_cases:
  "oq_ok q \<Longrightarrow> oq_get q = (case oq_elems q of [] \<Rightarrow> (0, q) | x # _ \<Rightarrow> (x, snd (oq_deq q)))"
  using oq_elems_Nil [of q] oq_elems_get [of q]
  by (cases "head q = tail q") (auto simp: oq_get_def oq_deq_def split: list.split prod.split)

section \<open>Draining a queue\<close>

text \<open>
  The foreground loop \<open>while((rt_exec = get_feed_override()))\<close> of \<open>protocol_exec_rt_system\<close>: it
  stops at the first 0, which is also what an empty queue returns. One unit of fuel per call; 16
  units are enough because a queue holds 15 commands.
\<close>

fun drain_feed :: "nat \<Rightarrow> override_state \<Rightarrow> (u8 list \<times> override_state) option" where
  "drain_feed 0 s = None"
| "drain_feed (Suc n) s =
     (let (c, s') = get_feed_override s
      in if c = 0 then Some ([], s')
         else case drain_feed n s' of None \<Rightarrow> None | Some (cs, s'') \<Rightarrow> Some (c # cs, s''))"

fun drain_spindle :: "nat \<Rightarrow> override_state \<Rightarrow> (u8 list \<times> override_state) option" where
  "drain_spindle 0 s = None"
| "drain_spindle (Suc n) s =
     (let (c, s') = get_spindle_override s
      in if c = 0 then Some ([], s')
         else case drain_spindle n s' of None \<Rightarrow> None | Some (cs, s'') \<Rightarrow> Some (c # cs, s''))"

fun drain_coolant :: "nat \<Rightarrow> override_state \<Rightarrow> (u8 list \<times> override_state) option" where
  "drain_coolant 0 s = None"
| "drain_coolant (Suc n) s =
     (let (c, s') = get_coolant_override s
      in if c = 0 then Some ([], s')
         else case drain_coolant n s' of None \<Rightarrow> None | Some (cs, s'') \<Rightarrow> Some (c # cs, s''))"

text \<open>The queue left after reading as many elements as it holds: head and tail meet.\<close>

lemma drain_feed_nonzero:
  assumes "oq_ok (feed s)" "0 \<notin> set (oq_elems (feed s))" "length (oq_elems (feed s)) < n"
  shows "\<exists>q. drain_feed n s = Some (oq_elems (feed s), s\<lparr>feed := q\<rparr>)
      \<and> oq_ok q \<and> oq_elems q = []"
  using assms
proof (induction n arbitrary: s)
  case 0
  then show ?case by simp
next
  case (Suc n)
  show ?case
  proof (cases "oq_elems (feed s)")
    case Nil
    with Suc.prems show ?thesis
      by (auto simp: get_feed_override_def oq_get_cases intro!: exI [of _ "feed s"])
  next
    case (Cons x xs)
    let ?q = "snd (oq_deq (feed s))"
    have g: "get_feed_override s = (x, s\<lparr>feed := ?q\<rparr>)"
      using Suc.prems(1) Cons by (simp add: get_feed_override_def oq_get_cases)
    have q: "oq_ok ?q" "oq_elems ?q = xs"
      using Suc.prems(1) Cons override_ring.inv_deq override_ring.elems_deq by auto
    have "\<exists>q'. drain_feed n (s\<lparr>feed := ?q\<rparr>) = Some (xs, s\<lparr>feed := q'\<rparr>)
        \<and> oq_ok q' \<and> oq_elems q' = []"
      using Suc.IH [of "s\<lparr>feed := ?q\<rparr>"] Suc.prems q Cons by auto
    moreover have "x \<noteq> 0" using Suc.prems(2) Cons by auto
    ultimately show ?thesis using g Cons by auto
  qed
qed

lemma fold_enqueue_feed:
  "feed (fold enqueue_feed_override cs s) = override_ring.enq_all cs (feed s)"
  "spindle (fold enqueue_feed_override cs s) = spindle s"
  "coolant (fold enqueue_feed_override cs s) = coolant s"
  by (induction cs arbitrary: s) (simp_all add: enqueue_feed_override_def)

lemma oq_zero: "oq_ok override_queue_zero" "oq_elems override_queue_zero = []"
  by (simp_all add: oq_ok_def override_queue_zero_def oq_elems_def)

lemma override_state_zero_ok: "override_ok override_state_zero"
  by (simp add: override_ok_def override_state_zero_def oq_zero)

section \<open>Properties\<close>

text \<open>
  The foreground loop reads the feed override commands in the order the interrupt handler
  queued them; commands beyond the 15 the ring holds are dropped, the newest first, and the
  other two queues are untouched.
\<close>

theorem feed_override_fifo:
  assumes "0 \<notin> set cmds"
  shows "\<exists>q. drain_feed 16 (fold enqueue_feed_override cmds override_state_zero)
      = Some (take 15 cmds, override_state_zero\<lparr>feed := q\<rparr>) \<and> oq_elems q = []"
proof -
  let ?s = "fold enqueue_feed_override cmds override_state_zero"
  have ok: "oq_ok (feed ?s)"
    by (simp add: fold_enqueue_feed override_ring.inv_enq_all override_state_zero_def oq_zero)
  have el: "oq_elems (feed ?s) = take 15 cmds"
    using override_ring.elems_enq_all [of override_queue_zero cmds]
    by (simp add: fold_enqueue_feed override_state_zero_def oq_zero)
  have "0 \<notin> set (take 15 cmds)" using assms by (meson in_set_takeD)
  then obtain q where "drain_feed 16 ?s = Some (take 15 cmds, ?s\<lparr>feed := q\<rparr>)"
      "oq_elems q = []"
    using drain_feed_nonzero [of ?s 16] ok el by (auto simp: min_less_iff_disj)
  moreover have "?s\<lparr>feed := q\<rparr> = override_state_zero\<lparr>feed := q\<rparr>"
    using fold_enqueue_feed [of cmds override_state_zero] by (cases "?s") (simp add: override_state_zero_def)
  ultimately show ?thesis by auto
qed

theorem feed_override_fifo_witness:
  "\<exists>q. drain_feed 16 (fold enqueue_feed_override [0x91, 0x90, 0x95] override_state_zero)
      = Some ([0x91, 0x90, 0x95], override_state_zero\<lparr>feed := q\<rparr>) \<and> oq_elems q = []"
  using feed_override_fifo [of "[0x91, 0x90, 0x95]"] by simp

end
