(* ===== verification/Checksum.thy ===== *)
theory Checksum
  imports GrblPrelude
begin

text \<open>
  \<open>grbl/crc.c\<close>: the 8-bit rotate-and-add checksum of settings in non-volatile storage, the Modbus
  CRC16 and the CCITT CRC16 of the YModem receiver. A buffer and its length are the list of its
  bytes. The error-detection lemmas are proved once in the locale \<open>byte_checksum\<close>.
\<close>

section \<open>The interface of a byte checksum\<close>

locale byte_checksum =
  fixes step :: "'s \<Rightarrow> u8 \<Rightarrow> 's"
  assumes step_inj_state: "step s b = step s' b \<Longrightarrow> s = s'"
    and step_inj_byte: "step s b = step s b' \<Longrightarrow> b = b'"
begin

lemma run_inj_state: "foldl step s bs = foldl step s' bs \<Longrightarrow> s = s'"
  by (induction bs arbitrary: s s') (auto dest: step_inj_state)

lemma single_byte_change:
  "foldl step s (pre @ b # post) = foldl step s (pre @ b' # post) \<Longrightarrow> b = b'"
  by (auto dest!: run_inj_state dest: step_inj_byte)

end

section \<open>Settings checksum\<close>

definition crc8_step :: "u8 \<Rightarrow> u8 \<Rightarrow> u8" where
  "crc8_step checksum b = (push_bit 1 checksum OR drop_bit 7 checksum) + b"

definition grbl_crc8 :: "u8 list \<Rightarrow> u16" where
  "grbl_crc8 buf = ucast (foldl crc8_step 0 buf)"

section \<open>Modbus CRC16\<close>

definition modbus_bit :: "u16 \<Rightarrow> u16" where
  "modbus_bit crc = (if crc AND 1 \<noteq> 0 then drop_bit 1 crc XOR 0xA001 else drop_bit 1 crc)"

definition modbus_byte :: "u16 \<Rightarrow> u8 \<Rightarrow> u16" where
  "modbus_byte crc b = (modbus_bit ^^ 8) (crc XOR ucast b)"

definition modbus_crc16x :: "u8 list \<Rightarrow> u16" where
  "modbus_crc16x buf = foldl modbus_byte 0xFFFF buf"

section \<open>CCITT CRC16\<close>

definition ccitt_byte :: "u16 \<Rightarrow> u8 \<Rightarrow> u16" where
  "ccitt_byte crc b =
     (let x = drop_bit 8 crc XOR ucast b;
          x = x XOR drop_bit 4 x
      in push_bit 8 crc XOR push_bit 12 x XOR push_bit 5 x XOR x)"

definition ccitt_crc16 :: "u8 list \<Rightarrow> u16" where
  "ccitt_crc16 buf = foldl ccitt_byte 0 buf"

text \<open>The reference: long division by \<open>x^16 + x^12 + x^5 + 1\<close>, most significant bit first.\<close>

definition ccitt_bit :: "u16 \<Rightarrow> u16" where
  "ccitt_bit crc = (if bit crc 15 then push_bit 1 crc XOR 0x1021 else push_bit 1 crc)"

definition ccitt_ref_byte :: "u16 \<Rightarrow> u8 \<Rightarrow> u16" where
  "ccitt_ref_byte crc b = (ccitt_bit ^^ 8) (crc XOR push_bit 8 (ucast b))"

definition ccitt_ref :: "u8 list \<Rightarrow> u16" where
  "ccitt_ref buf = foldl ccitt_ref_byte 0 buf"

section \<open>Lemmas\<close>

lemma modbus_bit_alt: "modbus_bit c = drop_bit 1 c XOR (if bit c 0 then 0xA001 else 0)"
  by (simp add: modbus_bit_def and_one_eq odd_iff_mod_2_eq_one bit_0)

lemma modbus_bit_xor: "modbus_bit (c XOR d) = modbus_bit c XOR modbus_bit d"
  unfolding modbus_bit_alt word16_eq_iff by (simp add: bit_iffs) argo

lemma modbus_bit_inj: "modbus_bit c = modbus_bit d \<Longrightarrow> c = d"
  unfolding modbus_bit_alt word16_eq_iff
  by (simp add: bit_iffs flip: numeral_2_eq_2) argo

lemma ccitt_bit_alt: "ccitt_bit c = push_bit 1 c XOR (if bit c 15 then 0x1021 else 0)"
  by (simp add: ccitt_bit_def)

lemma ccitt_bit_bits:
  "bit (ccitt_bit c) 0 = bit c 15" "bit (ccitt_bit c) 1 = bit c 0"
  "bit (ccitt_bit c) 2 = bit c 1" "bit (ccitt_bit c) 3 = bit c 2"
  "bit (ccitt_bit c) 4 = bit c 3" "bit (ccitt_bit c) 5 = (bit c 4 \<noteq> bit c 15)"
  "bit (ccitt_bit c) 6 = bit c 5" "bit (ccitt_bit c) 7 = bit c 6"
  "bit (ccitt_bit c) 8 = bit c 7" "bit (ccitt_bit c) 9 = bit c 8"
  "bit (ccitt_bit c) 10 = bit c 9" "bit (ccitt_bit c) 11 = bit c 10"
  "bit (ccitt_bit c) 12 = (bit c 11 \<noteq> bit c 15)" "bit (ccitt_bit c) 13 = bit c 12"
  "bit (ccitt_bit c) 14 = bit c 13" "bit (ccitt_bit c) 15 = bit c 14"
  unfolding ccitt_bit_alt by (simp_all add: bit_iffs)

lemma ccitt_bit_8: "(ccitt_bit ^^ 8) c = ccitt_bit (ccitt_bit (ccitt_bit (ccitt_bit
    (ccitt_bit (ccitt_bit (ccitt_bit (ccitt_bit c)))))))"
  by (simp add: numeral_eq_Suc)

lemma ccitt_byte_ref: "ccitt_byte crc b = ccitt_ref_byte crc b"
  unfolding ccitt_byte_def ccitt_ref_byte_def Let_def word16_eq_iff ccitt_bit_8
  by (simp only: ball_simps ccitt_bit_bits, simp add: bit_iffs, argo)

lemma crc8_inj_state: "crc8_step s b = crc8_step s' b \<Longrightarrow> s = s'"
proof -
  assume "crc8_step s b = crc8_step s' b"
  then have "s * 2 OR drop_bit 7 s = s' * 2 OR drop_bit 7 s'"
    by (simp add: crc8_step_def)
  then show "s = s'" unfolding word8_eq_iff by (simp add: bit_iffs)
qed

lemma ccitt_bit_inj: "ccitt_bit c = ccitt_bit d \<Longrightarrow> c = d"
proof -
  assume "ccitt_bit c = ccitt_bit d"
  then have "\<forall>n\<in>{0,1,2,3,4,5,6,7,8,9,10,11,12,13,14,15}.
      bit (ccitt_bit c) n = bit (ccitt_bit d) n" by simp
  then show "c = d"
    unfolding word16_eq_iff by (simp only: ball_simps ccitt_bit_bits) argo
qed

lemma modbus_bits_inj: "(modbus_bit ^^ n) c = (modbus_bit ^^ n) d \<longleftrightarrow> c = d"
  by (induction n) (auto dest: modbus_bit_inj)

lemma ccitt_bits_inj: "(ccitt_bit ^^ n) c = (ccitt_bit ^^ n) d \<longleftrightarrow> c = d"
  by (induction n) (auto dest: ccitt_bit_inj)

lemma xor_inj_word: "(a::'a::len word) XOR c = b XOR c \<longleftrightarrow> a = b"
  by (auto simp: bit_eq_iff bit_xor_iff)

lemma xor_inj_word': "(c::'a::len word) XOR a = c XOR b \<longleftrightarrow> a = b"
  by (auto simp: bit_eq_iff bit_xor_iff)

lemma ucast_16_inj: "(ucast (b::u8) :: u16) = ucast b' \<longleftrightarrow> b = b'"
  by (simp add: word16_eq_iff word8_eq_iff bit_iffs)

text \<open>Appending the Modbus CRC low byte first brings the register to 0.\<close>

lemma modbus_bit_bits:
  "bit (modbus_bit c) 0 = (bit c 1 \<noteq> bit c 0)" "bit (modbus_bit c) 1 = bit c 2"
  "bit (modbus_bit c) 2 = bit c 3" "bit (modbus_bit c) 3 = bit c 4"
  "bit (modbus_bit c) 4 = bit c 5" "bit (modbus_bit c) 5 = bit c 6"
  "bit (modbus_bit c) 6 = bit c 7" "bit (modbus_bit c) 7 = bit c 8"
  "bit (modbus_bit c) 8 = bit c 9" "bit (modbus_bit c) 9 = bit c 10"
  "bit (modbus_bit c) 10 = bit c 11" "bit (modbus_bit c) 11 = bit c 12"
  "bit (modbus_bit c) 12 = bit c 13" "bit (modbus_bit c) 13 = (bit c 14 \<noteq> bit c 0)"
  "bit (modbus_bit c) 14 = bit c 15" "bit (modbus_bit c) 15 = bit c 0"
  unfolding modbus_bit_alt by (simp_all add: bit_iffs eval_nat_numeral)

lemma modbus_bit_8: "(modbus_bit ^^ 8) c = modbus_bit (modbus_bit (modbus_bit (modbus_bit
    (modbus_bit (modbus_bit (modbus_bit (modbus_bit c)))))))"
  by (simp add: numeral_eq_Suc)

lemma bit_high_byte:
  "bit (push_bit 8 (ucast (b::u8)) :: u16) n \<longleftrightarrow> 8 \<le> n \<and> n < 16 \<and> bit b (n - 8)"
  unfolding bit_push_bit_iff possible_bit_word bit_unsigned_iff
  using bit_imp_le_length [of b "n - 8"] by auto

lemma push_ucast_inj: "push_bit 8 (ucast (b::u8) :: u16) = push_bit 8 (ucast b') \<longleftrightarrow> b = b'"
  unfolding word16_eq_iff word8_eq_iff by (simp only: ball_simps bit_high_byte, simp)

lemma modbus_shift_out:
  "(modbus_bit ^^ 8) (push_bit 8 (ucast (b::u8))) = ucast b"
  unfolding word16_eq_iff modbus_bit_8
  by (simp only: ball_simps modbus_bit_bits bit_high_byte bit_unsigned_iff, simp add: bit_iffs)

interpretation settings_crc: byte_checksum crc8_step
proof
  show "s = s'" if "crc8_step s b = crc8_step s' b" for s s' b
    using that by (rule crc8_inj_state)
qed (simp add: crc8_step_def)

interpretation modbus_crc: byte_checksum modbus_byte
  by unfold_locales
    (simp_all add: modbus_byte_def modbus_bits_inj xor_inj_word xor_inj_word' ucast_16_inj)

interpretation ccitt_crc: byte_checksum ccitt_byte
  by unfold_locales
    (simp_all only: ccitt_byte_ref ccitt_ref_byte_def ccitt_bits_inj xor_inj_word xor_inj_word'
      push_ucast_inj)

lemma modbus_bits_xor: "(modbus_bit ^^ n) (c XOR d) = (modbus_bit ^^ n) c XOR (modbus_bit ^^ n) d"
  by (induction n) (simp_all add: modbus_bit_xor)

lemma modbus_bits_0: "(modbus_bit ^^ n) 0 = 0"
  by (induction n) (simp_all add: modbus_bit_def)

lemma modbus_two_bytes:
  "modbus_byte (modbus_byte c a) b = (modbus_bit ^^ 16) (c XOR (ucast a XOR push_bit 8 (ucast b)))"
proof -
  have "modbus_byte (modbus_byte c a) b
      = (modbus_bit ^^ 8) ((modbus_bit ^^ 8) (c XOR ucast a) XOR (modbus_bit ^^ 8) (push_bit 8 (ucast b)))"
    by (simp only: modbus_byte_def modbus_shift_out)
  also have "\<dots> = (modbus_bit ^^ 8) ((modbus_bit ^^ 8) (c XOR (ucast a XOR push_bit 8 (ucast b))))"
    by (simp only: modbus_bits_xor [symmetric] xor.assoc)
  also have "\<dots> = (modbus_bit ^^ (8 + 8)) (c XOR (ucast a XOR push_bit 8 (ucast b)))"
    by (simp only: funpow_add o_apply)
  finally show ?thesis by simp
qed

section \<open>Properties\<close>

text \<open>
  The shift-and-xor step of \<open>ccitt_crc16\<close>, which handles a byte without looping over its
  bits, computes the bit-serial CRC with generator \<open>0x1021\<close> and initial value 0.
\<close>

theorem ccitt_crc16_is_bitwise: "ccitt_crc16 buf = ccitt_ref buf"
  by (simp add: ccitt_crc16_def ccitt_ref_def ccitt_byte_ref [abs_def])

text \<open>
  C10. The Modbus CRC detects every corruption confined to two adjacent bytes of a frame of
  any length: two frames that agree outside the two bytes and have the same CRC are equal.
\<close>

theorem modbus_crc_detects_two_adjacent_bytes:
  assumes "modbus_crc16x (pre @ a # b # post) = modbus_crc16x (pre @ a' # b' # post)"
  shows "a = a' \<and> b = b'"
proof -
  let ?w = "\<lambda>x y. ucast (x::u8) XOR push_bit 8 (ucast (y::u8)) :: u16"
  from assms have "modbus_byte (modbus_byte (foldl modbus_byte 0xFFFF pre) a) b
      = modbus_byte (modbus_byte (foldl modbus_byte 0xFFFF pre) a') b'"
    by (auto simp: modbus_crc16x_def dest!: modbus_crc.run_inj_state)
  then have "?w a b = ?w a' b'"
    by (simp only: modbus_two_bytes modbus_bits_inj xor_inj_word')
  then show ?thesis
    unfolding word16_eq_iff word8_eq_iff
    by (simp only: ball_simps bit_xor_iff bit_high_byte bit_unsigned_iff, simp add: bit_iffs)
qed

theorem modbus_crc_detects_two_adjacent_bytes_witness:
  "modbus_crc16x ([1, 3] @ 0 # 16 # [0, 2]) = modbus_crc16x ([1, 3] @ 0 # 16 # [0, 2])
    \<and> (0::u8) = 0 \<and> (16::u8) = 16"
  using modbus_crc_detects_two_adjacent_bytes [of "[1, 3]" 0 16 "[0, 2]" 0 16] by simp

text \<open>
  The 8-bit settings checksum detects every change of a single byte of a settings block.
\<close>

theorem grbl_crc8_detects_one_byte:
  assumes "grbl_crc8 (pre @ b # post) = grbl_crc8 (pre @ b' # post)"
  shows "b = b'"
proof -
  have "foldl crc8_step 0 (pre @ b # post) = foldl crc8_step 0 (pre @ b' # post)"
    using assms by (simp only: grbl_crc8_def ucast_16_inj)
  then show ?thesis by (rule settings_crc.single_byte_change)
qed

theorem grbl_crc8_detects_one_byte_witness:
  "grbl_crc8 ([7] @ 1 # [2]) = grbl_crc8 ([7] @ 1 # [2]) \<and> (1::u8) = 1"
  using grbl_crc8_detects_one_byte [of "[7]" 1 "[2]" 1] by simp

end
