(* ===== verification/Codec.thy ===== *)
theory Codec
  imports GrblPrelude "HOL-Library.Monad_Syntax"
begin

text \<open>
  \<open>networking/base64.c\<close>, \<open>networking/urldecode.c\<close> and \<open>networking/urlencode.c\<close>. A byte array is the
  list of its bytes; a C string is the list of its bytes before the terminating 0. The output
  pointers of these functions only advance, so what they write is a list that grows at its end.
  A read outside the input array is the result \<open>None\<close>.
\<close>

section \<open>Base64\<close>

definition charset :: "u8 list" where
  "charset = map of_nat ([65..<91] @ [97..<123] @ [48..<58] @ [43, 47])"

definition NEWLINE_INVL :: nat where
  "NEWLINE_INVL = 76"

definition revchar :: "u8 \<Rightarrow> u8" where
  "revchar ch =
     (if 65 \<le> ch \<and> ch \<le> 90 then ch - 65
      else if 97 \<le> ch \<and> ch \<le> 122 then ch - 97 + 26
      else if 48 \<le> ch \<and> ch \<le> 57 then ch - 48 + 52
      else if ch = 43 then 62
      else if ch = 47 then 63
      else ch)"

text \<open>
  \<open>charset[...]\<close> is always read below 64: the index is a byte shifted right by two or masked.
\<close>

definition cs :: "u8 \<Rightarrow> u8" where
  "cs i = charset ! unat i"

fun b64_enc_loop :: "bool \<Rightarrow> nat \<Rightarrow> nat \<Rightarrow> u8 list \<Rightarrow> u8 list" where
  "b64_enc_loop newline_flag idx2 newline_count (a # b # c # rest) =
     [cs (drop_bit 2 a),
      cs (push_bit 4 (a AND 3) OR drop_bit 4 b),
      cs (push_bit 2 (b AND 15) OR drop_bit 6 c),
      cs (c AND 63)] @
     (if (idx2 - newline_count + 4) mod NEWLINE_INVL = 0 \<and> newline_flag
      then 10 # b64_enc_loop newline_flag (idx2 + 1 + 4) (newline_count + 1) rest
      else b64_enc_loop newline_flag (idx2 + 4) newline_count rest)"
| "b64_enc_loop newline_flag idx2 newline_count [a] =
     [cs (drop_bit 2 a), cs (push_bit 4 (a AND 3)), 61, 61]"
| "b64_enc_loop newline_flag idx2 newline_count [a, b] =
     [cs (drop_bit 2 a), cs (push_bit 4 (a AND 3) OR drop_bit 4 b),
      cs (push_bit 2 (b AND 15)), 61]"
| "b64_enc_loop newline_flag idx2 newline_count [] = []"

text \<open>\<open>base64_encode\<close> with an output array, and its size query (\<open>out == NULL\<close>).\<close>

definition base64_encode :: "u8 list \<Rightarrow> bool \<Rightarrow> u8 list" where
  "base64_encode inp newline_flag = b64_enc_loop newline_flag 0 0 inp"

definition base64_encode_size :: "nat \<Rightarrow> bool \<Rightarrow> nat" where
  "base64_encode_size len newline_flag =
     (let blks = len div 3;
          left_over = len mod 3;
          idx2 = blks * 4;
          idx2 = (if left_over \<noteq> 0 then idx2 + 4 else idx2)
      in if newline_flag then idx2 + len div 57 else idx2)"

function b64_dec_loop :: "nat \<Rightarrow> nat \<Rightarrow> u8 list \<Rightarrow> (u8 list \<times> u8 list) option" where
  "b64_dec_loop idx2 blk_ceiling rest =
     (if idx2 < blk_ceiling then
        let (i, r) = (case rest of c # r \<Rightarrow> if c = 10 then (idx2 + 1, r) else (idx2, rest)
                      | [] \<Rightarrow> (idx2, rest))
        in (case r of
              a # b # c # d # r' \<Rightarrow> do {
                (out, fin) \<leftarrow> b64_dec_loop (i + 4) blk_ceiling r';
                Some ([push_bit 2 (revchar a) OR drop_bit 4 (revchar b AND 0x30),
                       push_bit 4 (revchar b) OR drop_bit 2 (revchar c),
                       push_bit 6 (revchar c) OR revchar d] @ out, fin) }
            | _ \<Rightarrow> None)
      else Some ([], rest))"
  by pat_completeness auto
termination
  by (relation "measure (\<lambda>(i, c, r). c - i)") (auto split: list.splits if_splits)

declare b64_dec_loop.simps [simp del]

text \<open>The length without trailing \<open>=\<close> characters; \<open>in[len - 1]\<close> with \<open>len = 0\<close> is outside.\<close>

definition b64_strip1 :: "u8 list \<Rightarrow> nat \<Rightarrow> nat option" where
  "b64_strip1 inp len =
     (if len = 0 then None else Some (if inp ! (len - 1) = 61 then len - 1 else len))"

definition base64_decode :: "u8 list \<Rightarrow> u8 list option" where
  "base64_decode inp = do {
     len \<leftarrow> b64_strip1 inp (length inp);
     len \<leftarrow> b64_strip1 inp len;
     (out, fin) \<leftarrow> b64_dec_loop 0 (len div 4 * 4) inp;
     (if len mod 4 = 2 then
        (case fin of a # b # _ \<Rightarrow>
           Some (out @ [push_bit 2 (revchar a) OR drop_bit 4 (revchar b AND 0x30)])
         | _ \<Rightarrow> None)
      else if len mod 4 = 3 then
        (case fin of a # b # c # _ \<Rightarrow>
           Some (out @ [push_bit 2 (revchar a) OR drop_bit 4 (revchar b AND 0x30),
                        push_bit 4 (revchar b) OR drop_bit 2 (revchar c)])
         | _ \<Rightarrow> None)
      else Some out) }"

text \<open>The size query of \<open>base64_decode\<close>, on the length left after the \<open>=\<close> characters.\<close>

definition base64_decode_size :: "u8 list \<Rightarrow> nat option" where
  "base64_decode_size inp = do {
     len \<leftarrow> b64_strip1 inp (length inp);
     len \<leftarrow> b64_strip1 inp len;
     (let len = (if 77 \<le> len \<and> inp ! NEWLINE_INVL = 10
                 then len - len div (NEWLINE_INVL + 1) else len);
          idx = len div 4 * 3
      in Some (if len mod 4 = 2 then idx + 1
               else if len mod 4 = 3 then idx + 2 else idx)) }"

subsection \<open>Lemmas\<close>

lemma charset_facts:
  "map revchar charset = map of_nat [0..<64]" "10 \<notin> set charset" "61 \<notin> set charset"
  "length charset = 64"
  by code_simp+

lemma revchar_cs:
  assumes "unat i < 64"
  shows "revchar (cs i) = i" "cs i \<noteq> 10" "cs i \<noteq> 61"
proof -
  have "map revchar charset ! unat i = map of_nat [0..<64] ! unat i"
    by (simp only: charset_facts)
  with assms show "revchar (cs i) = i" by (simp add: cs_def charset_facts(4))
  have "cs i \<in> set charset" using assms by (simp add: cs_def charset_facts(4))
  then show "cs i \<noteq> 10" "cs i \<noteq> 61" using charset_facts by auto
qed

lemma and_63_less: "unat ((w::u8) AND 63) < 64"
  using and_mask_unat [of 6 w] by (simp add: mask_eq_exp_minus_1)

lemma sextet_bounds:
  "unat (drop_bit 2 (a::u8)) < 64"
  "unat (push_bit 4 (a AND 3) OR drop_bit 4 (b::u8)) < 64"
  "unat (push_bit 2 (b AND 15) OR drop_bit 6 (c::u8)) < 64"
  "unat (push_bit 4 (a AND 3)) < 64"
  "unat (push_bit 2 (b AND 15)) < 64"
proof -
  have *: "unat w < 64" if "w AND 63 = w" for w :: u8
    using that and_63_less [of w] by simp
  show "unat (drop_bit 2 a) < 64"
    "unat (push_bit 4 (a AND 3) OR drop_bit 4 b) < 64"
    "unat (push_bit 2 (b AND 15) OR drop_bit 6 c) < 64"
    "unat (push_bit 4 (a AND 3)) < 64"
    "unat (push_bit 2 (b AND 15)) < 64"
    by (rule *, unfold word8_eq_iff, simp only: ball_simps bit_iffs, simp add: bit_iffs)+
qed


lemma sextets_join:
  "push_bit 2 (drop_bit 2 a) OR drop_bit 4 ((push_bit 4 (a AND 3) OR drop_bit 4 b) AND 0x30) = (a::u8)"
  "push_bit 4 (push_bit 4 (a AND 3) OR drop_bit 4 b) OR
     drop_bit 2 (push_bit 2 (b AND 15) OR drop_bit 6 c) = (b::u8)"
  "push_bit 6 (push_bit 2 (b AND 15) OR drop_bit 6 c) OR (c AND 63) = (c::u8)"
  "push_bit 2 (drop_bit 2 a) OR drop_bit 4 (push_bit 4 (a AND 3) AND 0x30) = a"
  "push_bit 4 (push_bit 4 (a AND 3) OR drop_bit 4 b) OR drop_bit 2 (push_bit 2 (b AND 15)) = b"
  by (unfold word8_eq_iff, simp_all only: ball_simps bit_iffs, simp_all add: bit_iffs)

lemmas sextet_simps = revchar_cs sextet_bounds [simplified] and_63_less sextets_join [simplified]

text \<open>Without newlines the counters play no role: the encoder is a map over 3-byte groups.\<close>

fun b64_plain :: "u8 list \<Rightarrow> u8 list" where
  "b64_plain (a # b # c # rest) =
     [cs (drop_bit 2 a), cs (push_bit 4 (a AND 3) OR drop_bit 4 b),
      cs (push_bit 2 (b AND 15) OR drop_bit 6 c), cs (c AND 63)] @ b64_plain rest"
| "b64_plain [a] = [cs (drop_bit 2 a), cs (push_bit 4 (a AND 3)), 61, 61]"
| "b64_plain [a, b] = [cs (drop_bit 2 a), cs (push_bit 4 (a AND 3) OR drop_bit 4 b),
      cs (push_bit 2 (b AND 15)), 61]"
| "b64_plain [] = []"

lemma b64_enc_nonl: "b64_enc_loop False i n xs = b64_plain xs"
  by (induction False i n xs rule: b64_enc_loop.induct) simp_all

lemma length_b64_plain: "length (b64_plain xs) = (length xs + 2) div 3 * 4"
proof (induction xs rule: b64_plain.induct)
  case (1 a b c rest)
  have "(5 + length rest) div 3 = Suc ((length rest + 2) div 3)" by presburger
  with 1 show ?case by simp
qed simp_all

lemma b64_plain_append:
  "length xs mod 3 = 0 \<Longrightarrow> b64_plain (xs @ ys) = b64_plain xs @ b64_plain ys"
  by (induction xs rule: b64_plain.induct) simp_all

text \<open>Decoding the groups of a whole number of 3-byte blocks.\<close>

lemma b64_dec_blocks:
  "length xs mod 3 = 0 \<Longrightarrow>
   b64_dec_loop i (i + length (b64_plain xs)) (b64_plain xs @ t) = Some (xs, t)"
proof (induction xs arbitrary: i rule: b64_plain.induct)
  case (1 a b c rest)
  have IH: "b64_dec_loop (i + 4) (i + 4 + length (b64_plain rest)) (b64_plain rest @ t)
      = Some (rest, t)"
    by (rule 1(1)) (use 1(2) in simp)
  have e: "i + length (b64_plain (a # b # c # rest)) = i + 4 + length (b64_plain rest)" by simp
  show ?case
    unfolding e by (subst b64_dec_loop.simps) (simp add: sextet_simps IH)
next
  case 4
  show ?case by (subst b64_dec_loop.simps) simp
qed simp_all

lemma b64_plain_last:
  "length xs mod 3 = 0 \<Longrightarrow> xs \<noteq> [] \<Longrightarrow> last (b64_plain xs) \<noteq> 61"
proof (induction xs rule: b64_plain.induct)
  case (1 a b c rest)
  then show ?case by (cases "rest = []") (auto simp: sextet_simps dest: b64_plain.elims)
qed simp_all

lemma b64_plain_Nil: "b64_plain xs = [] \<longleftrightarrow> xs = []"
  by (cases xs rule: b64_plain.cases) simp_all

lemma split_blocks:
  obtains ys t where "xs = ys @ t" "length ys mod 3 = 0" "length t = length xs mod 3"
proof
  let ?k = "length xs div 3 * 3"
  have "?k \<le> length xs" by simp
  then show "length (take ?k xs) mod 3 = 0" by (simp add: min_absorb2)
  show "xs = take ?k xs @ drop ?k xs" by simp
  show "length (drop ?k xs) = length xs mod 3" by (simp add: minus_div_mult_eq_mod)
qed

text \<open>\<open>base64_decode\<close> once the padding is known and the whole groups are decoded.\<close>

lemma base64_decode_eq:
  assumes "b64_strip1 inp (length inp) = Some l1" "b64_strip1 inp l1 = Some l2"
    and "b64_dec_loop 0 (l2 div 4 * 4) inp = Some (out, fin)"
  shows "base64_decode inp =
     (if l2 mod 4 = 2 then
        (case fin of a # b # _ \<Rightarrow>
           Some (out @ [push_bit 2 (revchar a) OR drop_bit 4 (revchar b AND 0x30)])
         | _ \<Rightarrow> None)
      else if l2 mod 4 = 3 then
        (case fin of a # b # c # _ \<Rightarrow>
           Some (out @ [push_bit 2 (revchar a) OR drop_bit 4 (revchar b AND 0x30),
                        push_bit 4 (revchar b) OR drop_bit 2 (revchar c)])
         | _ \<Rightarrow> None)
      else Some out)"
  using assms by (simp add: base64_decode_def)

lemma b64_roundtrip:
  assumes "xs \<noteq> []"
  shows "base64_decode (b64_plain xs) = Some xs"
proof -
  obtain ys t where xs: "xs = ys @ t" "length ys mod 3 = 0" "length t = length xs mod 3"
    by (rule split_blocks)
  let ?E = "b64_plain ys"
  let ?X = "?E @ b64_plain t"
  have X: "b64_plain xs = ?X"
    using xs by (simp add: b64_plain_append)
  have E4: "length ?E mod 4 = 0" by (simp add: length_b64_plain)
  then have E4': "length ?E div 4 * 4 = length ?E" by presburger
  have dec: "b64_dec_loop 0 (length ?E) (?E @ r) = Some (ys, r)" for r
    using b64_dec_blocks [OF xs(2), of 0 r] by simp
  have "length t < 3" using xs(3) by simp
  then consider "t = []" | a where "t = [a]" | a b where "t = [a, b]"
    by (cases t rule: b64_plain.cases) auto
  then have "base64_decode ?X = Some xs"
  proof cases
    case 1
    then have "?E \<noteq> []" "last ?E \<noteq> 61"
      using assms xs(1,2) b64_plain_last [of ys] by (auto simp: b64_plain_Nil)
    then have "b64_strip1 ?E (length ?E) = Some (length ?E)"
      by (simp add: b64_strip1_def last_conv_nth)
    then show ?thesis
      using 1 xs(1) base64_decode_eq [of ?E _ _ ys "[]"] dec [of "[]"] E4 E4' by simp
  next
    case 2
    have s1: "b64_strip1 ?X (length ?X) = Some (length ?E + 3)"
      using 2 by (simp add: b64_strip1_def nth_append)
    have s2: "b64_strip1 ?X (length ?E + 3) = Some (length ?E + 2)"
      using 2 by (simp add: b64_strip1_def nth_append)
    have l: "(length ?E + 2) div 4 * 4 = length ?E" "(length ?E + 2) mod 4 = 2"
      using E4 by presburger+
    show ?thesis
      unfolding base64_decode_eq [OF s1 s2, unfolded l, OF dec]
      using 2 xs(1) by (simp add: sextet_simps)
  next
    case 3
    have s1: "b64_strip1 ?X (length ?X) = Some (length ?E + 3)"
      using 3 by (simp add: b64_strip1_def nth_append)
    have s2: "b64_strip1 ?X (length ?E + 3) = Some (length ?E + 3)"
      using 3 by (simp add: b64_strip1_def nth_append sextet_simps)
    have l: "(length ?E + 3) div 4 * 4 = length ?E" "(length ?E + 3) mod 4 = 3"
      using E4 by presburger+
    show ?thesis
      unfolding base64_decode_eq [OF s1 s2, unfolded l, OF dec]
      using 3 xs(1) by (simp add: sextet_simps)
  qed
  with X show ?thesis by simp
qed

text \<open>The newline counter of the encoder: newlines are written every 19 groups.\<close>

lemma length_groups: "(5 + n) div 3 = Suc ((n + 2) div (3::nat))"
  "Suc (Suc (Suc n)) div 3 = Suc (n div 3)"
  by presburger+

lemma div_3_up: "(n + 2) div 3 = n div 3 + (if n mod 3 = 0 then 0 else 1 :: nat)"
proof -
  have "n mod 3 < 3" by simp
  then have "n mod 3 = 0 \<or> n mod 3 = 1 \<or> n mod 3 = 2" by linarith
  then show ?thesis unfolding div_add1_eq [of n 2] by auto
qed

lemma mod_76: "(4 * k) mod 76 = 0 \<longleftrightarrow> (k::nat) mod 19 = 0"
  by presburger

lemma length_b64_enc_loop:
  assumes "idx2 = 4 * g + n" "n = g div 19"
  shows "length (b64_enc_loop True idx2 n xs) + g div 19
    = (length xs + 2) div 3 * 4 + (g + length xs div 3) div 19"
  using assms
proof (induction True idx2 n xs arbitrary: g rule: b64_enc_loop.induct)
  case (1 idx2 n a b c rest)
  have "idx2 - n + 4 = 4 * Suc g" using "1.prems" by simp
  then have q: "(idx2 - n + 4) mod 76 = 0 \<longleftrightarrow> Suc g mod 19 = 0"
    by (simp only: mod_76)
  have d: "(length (a # b # c # rest) + 2) div 3 * 4 = 4 + (length rest + 2) div 3 * 4"
    "g + length (a # b # c # rest) div 3 = Suc g + length rest div 3"
    by (simp_all add: length_groups)
  show ?case
  proof (cases "Suc g mod 19 = 0")
    case True
    then have g: "Suc g div 19 = g div 19 + 1" by (simp add: div_Suc)
    have "length (b64_enc_loop True (idx2 + 1 + 4) (n + 1) rest) + Suc g div 19
        = (length rest + 2) div 3 * 4 + (Suc g + length rest div 3) div 19"
      using "1.hyps"(1) [of "Suc g"] "1.prems" True q g by (simp add: NEWLINE_INVL_def)
    with True q g show ?thesis unfolding d by (simp add: NEWLINE_INVL_def)
  next
    case False
    then have g: "Suc g div 19 = g div 19" by (simp add: div_Suc)
    have "length (b64_enc_loop True (idx2 + 4) n rest) + Suc g div 19
        = (length rest + 2) div 3 * 4 + (Suc g + length rest div 3) div 19"
      using "1.hyps"(2) [of "Suc g"] "1.prems" False q g by (simp add: NEWLINE_INVL_def)
    with False q g show ?thesis unfolding d by (simp add: NEWLINE_INVL_def)
  qed
qed simp_all

section \<open>Properties\<close>

text \<open>
  C11. Base64 without line breaks round trips: decoding the encoding of any non-empty byte
  string returns the byte string, and no read falls outside the encoded text.
\<close>

theorem base64_roundtrip:
  assumes "xs \<noteq> []"
  shows "base64_decode (base64_encode xs False) = Some xs"
  using b64_roundtrip [OF assms] by (simp add: base64_encode_def b64_enc_nonl)

theorem base64_roundtrip_witness:
  "base64_decode (base64_encode [104, 105] False) = Some [104, 105]"
  by (rule base64_roundtrip) simp

text \<open>
  The size query of \<open>base64_encode\<close> (\<open>out == NULL\<close>) is exact, with and without line
  breaks: it is the number of bytes the encoder then writes.
\<close>

theorem base64_size_query_exact:
  "length (base64_encode xs newline_flag) = base64_encode_size (length xs) newline_flag"
proof -
  have d: "(length xs + 2) div 3 * 4
      = length xs div 3 * 4 + (if length xs mod 3 \<noteq> 0 then 4 else 0)" by (simp only: div_3_up) simp
  have n: "length xs div 3 div 19 = length xs div 57" by (simp add: div_mult2_eq [symmetric])
  show ?thesis
  proof (cases newline_flag)
    case True
    with length_b64_enc_loop [of 0 0 0 xs, unfolded d] n show ?thesis
      by (simp add: base64_encode_def base64_encode_size_def Let_def)
  next
    case False
    with length_b64_plain [of xs, unfolded d] show ?thesis
      by (simp add: base64_encode_def base64_encode_size_def b64_enc_nonl Let_def)
  qed
qed

text \<open>
  With line breaks the round trip fails: \<open>base64_decode\<close> derives the number of characters
  left over after the last whole group from a length that still counts the line breaks, so 58
  bytes decode to 59.
\<close>

theorem base64_newline_roundtrip_fails:
  "map_option length (base64_decode (base64_encode (replicate 58 1) True)) = Some 59"
  by code_simp

end
