(* ===== verification/Url.thy ===== *)
theory Url
  imports GrblPrelude
begin

text \<open>
  \<open>networking/urldecode.c\<close> and \<open>networking/urlencode.c\<close>. A C string is the list of its bytes
  before the terminating 0 (bytes are unsigned on this target). \<open>urlencode\<close> writes through a
  pointer into a buffer of \<open>size\<close> bytes with the size counted down in a 32-bit \<open>size_t\<close>; the model
  keeps the bytes written before the write pointer and one past the highest byte written, so
  that an overrun is visible.
\<close>

section \<open>Decoding\<close>

definition isxdigit :: "u8 \<Rightarrow> bool" where
  "isxdigit c \<longleftrightarrow> 48 \<le> c \<and> c \<le> 57 \<or> 65 \<le> c \<and> c \<le> 70 \<or> 97 \<le> c \<and> c \<le> 102"

definition hex_value :: "u8 \<Rightarrow> u8" where
  "hex_value a =
     (let a = (if 97 \<le> a then a - (97 - 65) else a)
      in if 65 \<le> a then a - (65 - 10) else a - 48)"

fun urldecode :: "u8 list \<Rightarrow> u8 list" where
  "urldecode [] = []"
| "urldecode (c # src) =
     (case (c = 37, src) of
        (True, a # b # src') \<Rightarrow>
          if isxdigit a \<and> isxdigit b
          then (16 * hex_value a + hex_value b) # urldecode src'
          else c # urldecode src
      | _ \<Rightarrow> (if c = 43 then 32 # urldecode src else c # urldecode src))"

section \<open>Encoding\<close>

definition isalnum :: "u8 \<Rightarrow> bool" where
  "isalnum c \<longleftrightarrow> 48 \<le> c \<and> c \<le> 57 \<or> 65 \<le> c \<and> c \<le> 90 \<or> 97 \<le> c \<and> c \<le> 122"

text \<open>The \<open>encode\<close> table.\<close>

definition url_encode_table :: "u8 \<Rightarrow> bool" where
  "url_encode_table c \<longleftrightarrow> c > 126 \<or> \<not> (isalnum c \<or> c = 126 \<or> c = 45 \<or> c = 46 \<or> c = 95)"

text \<open>The digits \<open>itoa(c, s, 16)\<close> writes, without the terminating 0 it adds.\<close>

definition hex_digit :: "u8 \<Rightarrow> u8" where
  "hex_digit d = (if d < 10 then 48 + d else 87 + d)"

definition itoa16 :: "u8 \<Rightarrow> u8 list" where
  "itoa16 c = (if c < 16 then [hex_digit c] else [hex_digit (drop_bit 4 c), hex_digit (c AND 15)])"

record url_out =
  written :: "u8 list"  \<comment> \<open>the bytes before \<open>s2\<close>\<close>
  extent :: nat         \<comment> \<open>one past the highest byte written\<close>
  room :: u32           \<comment> \<open>\<open>size\<close>\<close>

text \<open>
  The escape branch: \<open>%\<close>, the digits, and the 0 of \<open>itoa\<close>. The write pointer advances by three,
  past the 0 when there is one digit only.
\<close>

definition put_escape :: "u8 \<Rightarrow> url_out \<Rightarrow> url_out" where
  "put_escape c s =
     (let ds = itoa16 c
      in s\<lparr>written := written s @ 37 # take 2 (ds @ [0]),
           extent := max (extent s) (length (written s) + 1 + length ds + 1),
           room := room s - 2 - 1\<rparr>)"

definition put_plain :: "u8 \<Rightarrow> url_out \<Rightarrow> url_out" where
  "put_plain c s =
     s\<lparr>written := written s @ [c], extent := max (extent s) (length (written s) + 1),
       room := room s - 1\<rparr>"

fun urlencode_loop :: "u8 list \<Rightarrow> url_out \<Rightarrow> url_out" where
  "urlencode_loop [] s = s"
| "urlencode_loop (c # uri) s =
     (if room s = 0 then s
      else urlencode_loop uri (if url_encode_table c then put_escape c s else put_plain c s))"

text \<open>The return value and the final state of the buffer.\<close>

definition urlencode :: "u8 list \<Rightarrow> u32 \<Rightarrow> int \<times> url_out" where
  "urlencode uri bufsize =
     (let s = urlencode_loop uri \<lparr>written = [], extent = 0, room = bufsize\<rparr>
      in if room s \<noteq> 0
         then (0, s\<lparr>extent := max (extent s) (length (written s) + 1)\<rparr>)
         else (-1, s))"

section \<open>Lemmas\<close>

text \<open>What is written while the buffer has room for the worst case of three bytes a character.\<close>

definition url_piece :: "u8 \<Rightarrow> u8 list" where
  "url_piece c = (if url_encode_table c then 37 # take 2 (itoa16 c @ [0]) else [c])"

lemma room_minus:
  "3 \<le> unat (r::u32) \<Longrightarrow> unat (r - 3) = unat r - 3"
  "1 \<le> unat r \<Longrightarrow> unat (r - 1) = unat r - 1"
  using unat_sub [of 3 r] unat_sub [of 1 r] by (simp_all add: word_le_nat_alt)

lemma urldecode_escape:
  "isxdigit a \<Longrightarrow> isxdigit b \<Longrightarrow>
   urldecode (37 # a # b # r) = (16 * hex_value a + hex_value b) # urldecode r"
  by simp

lemma urldecode_plain: "c \<noteq> 37 \<Longrightarrow> c \<noteq> 43 \<Longrightarrow> urldecode (c # r) = c # urldecode r"
  by simp

declare urldecode.simps(2) [simp del]

lemma urlencode_loop_writes:
  assumes "length (written s) + 3 * length uri < unat (room s) + length (written s)"
    and "extent s \<le> length (written s) + 1"
  shows "written (urlencode_loop uri s) = written s @ concat (map url_piece uri)
    \<and> unat (room (urlencode_loop uri s)) + length (concat (map url_piece uri)) \<le> unat (room s)
    \<and> unat (room s) \<le> unat (room (urlencode_loop uri s)) + 3 * length uri
    \<and> extent (urlencode_loop uri s) \<le> length (written (urlencode_loop uri s)) + 1"
  using assms
proof (induction uri arbitrary: s)
  case Nil
  then show ?case by simp
next
  case (Cons c uri)
  from Cons.prems have r: "unat (room s) > 3 + 3 * length uri" by simp
  have r3: "unat (room s - 3) = unat (room s) - 3"
    using room_minus(1) [of "room s"] r by simp
  have r1: "unat (room s - 1) = unat (room s) - 1"
    using room_minus(2) [of "room s"] r by simp
  have nz: "room s \<noteq> 0" using r by auto
  show ?case
  proof (cases "url_encode_table c")
    case True
    let ?s = "put_escape c s"
    have "room ?s = room s - 3" by (simp add: put_escape_def Let_def)
    with Cons.IH [of ?s] r r3 Cons.prems True nz show ?thesis
      by (auto simp: put_escape_def url_piece_def itoa16_def Let_def)
  next
    case False
    let ?s = "put_plain c s"
    have "room ?s = room s - 1" by (simp add: put_plain_def)
    with Cons.IH [of ?s] r r1 Cons.prems False nz show ?thesis
      by (auto simp: put_plain_def url_piece_def)
  qed
qed

lemma hex_digit_all:
  "list_all (\<lambda>d. isxdigit (hex_digit d) \<and> hex_value (hex_digit d) = d) (map of_nat [0..<16])"
  by code_simp

lemma of_nat_unat_u8: "of_nat (unat (d::u8)) = d"
  by simp

lemma hex_digit_ok: "d < 16 \<Longrightarrow> isxdigit (hex_digit d) \<and> hex_value (hex_digit d) = d"
proof -
  assume "d < 16"
  then have "unat d \<in> {0..<16}" by (simp add: word_less_nat_alt)
  then have "of_nat (unat d) \<in> set (map of_nat [0..<16] :: u8 list)" by (simp only: set_map set_upt) blast
  then show ?thesis using hex_digit_all unfolding list_all_iff of_nat_unat_u8
    by blast
qed

lemma nibbles: "16 * drop_bit 4 c + (c AND 15) = (c::u8)"
  using bits_ident [of 4 c] by (simp add: take_bit_eq_mask mask_4 push_bit_eq_mult mult.commute)

lemma nibbles_less: "drop_bit 4 (c::u8) < 16" "(c::u8) AND 15 < 16"
  using unsigned_less [of c, where 'a = nat] and_mask_unat [of 4 c]
  by (simp_all add: word_less_nat_alt drop_bit_eq_div unat_div mask_4)

lemma url_piece_escape:
  "16 \<le> c \<Longrightarrow> url_encode_table c \<Longrightarrow>
   url_piece c = [37, hex_digit (drop_bit 4 c), hex_digit (c AND 15)]"
  by (simp add: url_piece_def itoa16_def not_less [symmetric])

lemma url_plain_ne: "\<not> url_encode_table c \<Longrightarrow> c \<noteq> 37 \<and> c \<noteq> 43"
  by (auto simp: url_encode_table_def isalnum_def)

lemma urldecode_pieces: "\<forall>c\<in>set uri. 16 \<le> c \<Longrightarrow> urldecode (concat (map url_piece uri)) = uri"
proof (induction uri)
  case (Cons c uri)
  then have IH: "urldecode (concat (map url_piece uri)) = uri" and c: "16 \<le> c" by simp_all
  show ?case
  proof (cases "url_encode_table c")
    case True
    with c IH show ?thesis
      by (simp add: url_piece_escape urldecode_escape hex_digit_ok nibbles nibbles_less)
  next
    case False
    then have "url_piece c = [c]" by (simp add: url_piece_def)
    with IH url_plain_ne [OF False] show ?thesis by (simp add: urldecode_plain)
  qed
qed simp

section \<open>Properties\<close>

text \<open>
  C12. Encoding a string whose bytes are all 16 or above into a buffer with more than three bytes
  per character succeeds, stays inside the buffer, and decodes to the string.
\<close>

theorem urlencode_roundtrip:
  assumes "\<forall>c\<in>set uri. 16 \<le> c" and "3 * length uri < unat bufsize"
  shows "fst (urlencode uri bufsize) = 0
    \<and> urldecode (written (snd (urlencode uri bufsize))) = uri
    \<and> extent (snd (urlencode uri bufsize)) \<le> unat bufsize"
proof -
  let ?s = "urlencode_loop uri \<lparr>written = [], extent = 0, room = bufsize\<rparr>"
  have L: "written ?s = concat (map url_piece uri)
     \<and> unat (room ?s) + length (concat (map url_piece uri)) \<le> unat bufsize
     \<and> unat bufsize \<le> unat (room ?s) + 3 * length uri \<and> extent ?s \<le> length (written ?s) + 1"
    using urlencode_loop_writes [of "\<lparr>written = [], extent = 0, room = bufsize\<rparr>" uri] assms(2)
    by auto
  then have "0 < unat (room ?s)" using assms(2) by linarith
  then have "room ?s \<noteq> 0" by (metis unsigned_0 less_irrefl)
  moreover have "length (written ?s) + 1 \<le> unat bufsize"
    using L \<open>0 < unat (room ?s)\<close> by simp
  moreover have "extent ?s \<le> unat bufsize"
    using L calculation(2) by linarith
  moreover have "urldecode (written ?s) = uri"
    using L urldecode_pieces [OF assms(1)] by simp
  ultimately show ?thesis
    unfolding urlencode_def Let_def by simp
qed

theorem urlencode_roundtrip_witness:
  "fst (urlencode [97, 47, 32] 10) = 0
    \<and> urldecode (written (snd (urlencode [97, 47, 32] 10))) = [97, 47, 32]
    \<and> extent (snd (urlencode [97, 47, 32] 10)) \<le> unat (10::u32)"
  by (rule urlencode_roundtrip) simp_all

text \<open>
  The room check is too weak: with one or two bytes left an escape still writes three
  bytes and the remaining size wraps around to almost \<open>2 ^ 32\<close>, so the next characters are
  written past the end of the buffer and the call reports success.
\<close>

theorem urlencode_overrun:
  "fst (urlencode [47, 97, 98] 2) = 0 \<and> extent (snd (urlencode [47, 97, 98] 2)) = 6"
  by code_simp

end
