(* ===== verification/Codes.thy ===== *)
theory Codes
  imports GrblPrelude
begin

text \<open>
  The numeric codes of \<open>grbl/errors.h\<close>, \<open>grbl/alarms.h\<close> and \<open>grbl/system.h\<close>: status and alarm
  codes are packed (8-bit) enumerations, the realtime request flags and the system states are
  bits of a word. G-code can raise any status code (\<open>o<n> ERROR\<close>), so a status is a number and not
  one of a fixed set of constructors.
\<close>

type_synonym status_code = u8
type_synonym alarm_code = u8
type_synonym rt_exec = u32
type_synonym sys_state = u32

section \<open>Status codes\<close>

abbreviation Status_OK :: u8 where
  "Status_OK \<equiv> 0"

abbreviation Status_ExpectedCommandLetter :: u8 where
  "Status_ExpectedCommandLetter \<equiv> 1"

abbreviation Status_BadNumberFormat :: u8 where
  "Status_BadNumberFormat \<equiv> 2"

abbreviation Status_InvalidStatement :: u8 where
  "Status_InvalidStatement \<equiv> 3"

abbreviation Status_NegativeValue :: u8 where
  "Status_NegativeValue \<equiv> 4"

abbreviation Status_HomingDisabled :: u8 where
  "Status_HomingDisabled \<equiv> 5"

abbreviation Status_SettingStepPulseMin :: u8 where
  "Status_SettingStepPulseMin \<equiv> 6"

abbreviation Status_SettingReadFail :: u8 where
  "Status_SettingReadFail \<equiv> 7"

abbreviation Status_IdleError :: u8 where
  "Status_IdleError \<equiv> 8"

abbreviation Status_SystemGClock :: u8 where
  "Status_SystemGClock \<equiv> 9"

abbreviation Status_SoftLimitError :: u8 where
  "Status_SoftLimitError \<equiv> 10"

abbreviation Status_Overflow :: u8 where
  "Status_Overflow \<equiv> 11"

abbreviation Status_MaxStepRateExceeded :: u8 where
  "Status_MaxStepRateExceeded \<equiv> 12"

abbreviation Status_CheckDoor :: u8 where
  "Status_CheckDoor \<equiv> 13"

abbreviation Status_LineLengthExceeded :: u8 where
  "Status_LineLengthExceeded \<equiv> 14"

abbreviation Status_TravelExceeded :: u8 where
  "Status_TravelExceeded \<equiv> 15"

abbreviation Status_InvalidJogCommand :: u8 where
  "Status_InvalidJogCommand \<equiv> 16"

abbreviation Status_SettingDisabledLaser :: u8 where
  "Status_SettingDisabledLaser \<equiv> 17"

abbreviation Status_Reset :: u8 where
  "Status_Reset \<equiv> 18"

abbreviation Status_NonPositiveValue :: u8 where
  "Status_NonPositiveValue \<equiv> 19"

abbreviation Status_GcodeUnsupportedCommand :: u8 where
  "Status_GcodeUnsupportedCommand \<equiv> 20"

abbreviation Status_GcodeModalGroupViolation :: u8 where
  "Status_GcodeModalGroupViolation \<equiv> 21"

abbreviation Status_GcodeUndefinedFeedRate :: u8 where
  "Status_GcodeUndefinedFeedRate \<equiv> 22"

abbreviation Status_GcodeCommandValueNotInteger :: u8 where
  "Status_GcodeCommandValueNotInteger \<equiv> 23"

abbreviation Status_GcodeAxisCommandConflict :: u8 where
  "Status_GcodeAxisCommandConflict \<equiv> 24"

abbreviation Status_GcodeWordRepeated :: u8 where
  "Status_GcodeWordRepeated \<equiv> 25"

abbreviation Status_GcodeNoAxisWords :: u8 where
  "Status_GcodeNoAxisWords \<equiv> 26"

abbreviation Status_GcodeInvalidLineNumber :: u8 where
  "Status_GcodeInvalidLineNumber \<equiv> 27"

abbreviation Status_GcodeValueWordMissing :: u8 where
  "Status_GcodeValueWordMissing \<equiv> 28"

abbreviation Status_GcodeUnsupportedCoordSys :: u8 where
  "Status_GcodeUnsupportedCoordSys \<equiv> 29"

abbreviation Status_GcodeG53InvalidMotionMode :: u8 where
  "Status_GcodeG53InvalidMotionMode \<equiv> 30"

abbreviation Status_GcodeAxisWordsExist :: u8 where
  "Status_GcodeAxisWordsExist \<equiv> 31"

abbreviation Status_GcodeNoAxisWordsInPlane :: u8 where
  "Status_GcodeNoAxisWordsInPlane \<equiv> 32"

abbreviation Status_GcodeInvalidTarget :: u8 where
  "Status_GcodeInvalidTarget \<equiv> 33"

abbreviation Status_GcodeArcRadiusError :: u8 where
  "Status_GcodeArcRadiusError \<equiv> 34"

abbreviation Status_GcodeNoOffsetsInPlane :: u8 where
  "Status_GcodeNoOffsetsInPlane \<equiv> 35"

abbreviation Status_GcodeUnusedWords :: u8 where
  "Status_GcodeUnusedWords \<equiv> 36"

abbreviation Status_GcodeG43DynamicAxisError :: u8 where
  "Status_GcodeG43DynamicAxisError \<equiv> 37"

abbreviation Status_GcodeIllegalToolTableEntry :: u8 where
  "Status_GcodeIllegalToolTableEntry \<equiv> 38"

abbreviation Status_GcodeValueOutOfRange :: u8 where
  "Status_GcodeValueOutOfRange \<equiv> 39"

abbreviation Status_GcodeToolChangePending :: u8 where
  "Status_GcodeToolChangePending \<equiv> 40"

abbreviation Status_GcodeSpindleNotRunning :: u8 where
  "Status_GcodeSpindleNotRunning \<equiv> 41"

abbreviation Status_GcodeIllegalPlane :: u8 where
  "Status_GcodeIllegalPlane \<equiv> 42"

abbreviation Status_GcodeMaxFeedRateExceeded :: u8 where
  "Status_GcodeMaxFeedRateExceeded \<equiv> 43"

abbreviation Status_GcodeRPMOutOfRange :: u8 where
  "Status_GcodeRPMOutOfRange \<equiv> 44"

abbreviation Status_LimitsEngaged :: u8 where
  "Status_LimitsEngaged \<equiv> 45"

abbreviation Status_HomingRequired :: u8 where
  "Status_HomingRequired \<equiv> 46"

abbreviation Status_GCodeToolError :: u8 where
  "Status_GCodeToolError \<equiv> 47"

abbreviation Status_ValueWordConflict :: u8 where
  "Status_ValueWordConflict \<equiv> 48"

abbreviation Status_SelfTestFailed :: u8 where
  "Status_SelfTestFailed \<equiv> 49"

abbreviation Status_EStop :: u8 where
  "Status_EStop \<equiv> 50"

abbreviation Status_MotorFault :: u8 where
  "Status_MotorFault \<equiv> 51"

abbreviation Status_SettingValueOutOfRange :: u8 where
  "Status_SettingValueOutOfRange \<equiv> 52"

abbreviation Status_SettingDisabled :: u8 where
  "Status_SettingDisabled \<equiv> 53"

abbreviation Status_GcodeInvalidRetractPosition :: u8 where
  "Status_GcodeInvalidRetractPosition \<equiv> 54"

abbreviation Status_IllegalHomingConfiguration :: u8 where
  "Status_IllegalHomingConfiguration \<equiv> 55"

abbreviation Status_GCodeCoordSystemLocked :: u8 where
  "Status_GCodeCoordSystemLocked \<equiv> 56"

abbreviation Status_UnexpectedDemarcation :: u8 where
  "Status_UnexpectedDemarcation \<equiv> 57"

abbreviation Status_AuxiliaryPortUnavailable :: u8 where
  "Status_AuxiliaryPortUnavailable \<equiv> 58"

abbreviation Status_SDMountError :: u8 where
  "Status_SDMountError \<equiv> 60"

abbreviation Status_FileReadError :: u8 where
  "Status_FileReadError \<equiv> 61"

abbreviation Status_FsFailedOpenDir :: u8 where
  "Status_FsFailedOpenDir \<equiv> 62"

abbreviation Status_FSDirNotFound :: u8 where
  "Status_FSDirNotFound \<equiv> 63"

abbreviation Status_SDNotMounted :: u8 where
  "Status_SDNotMounted \<equiv> 64"

abbreviation Status_FsNotMounted :: u8 where
  "Status_FsNotMounted \<equiv> 65"

abbreviation Status_FsReadOnly :: u8 where
  "Status_FsReadOnly \<equiv> 66"

abbreviation Status_BTInitError :: u8 where
  "Status_BTInitError \<equiv> 70"

abbreviation Status_ExpressionUknownOp :: u8 where
  "Status_ExpressionUknownOp \<equiv> 71"

abbreviation Status_ExpressionDivideByZero :: u8 where
  "Status_ExpressionDivideByZero \<equiv> 72"

abbreviation Status_ExpressionArgumentOutOfRange :: u8 where
  "Status_ExpressionArgumentOutOfRange \<equiv> 73"

abbreviation Status_ExpressionInvalidArgument :: u8 where
  "Status_ExpressionInvalidArgument \<equiv> 74"

abbreviation Status_ExpressionSyntaxError :: u8 where
  "Status_ExpressionSyntaxError \<equiv> 75"

abbreviation Status_ExpressionInvalidResult :: u8 where
  "Status_ExpressionInvalidResult \<equiv> 76"

abbreviation Status_AuthenticationRequired :: u8 where
  "Status_AuthenticationRequired \<equiv> 77"

abbreviation Status_AccessDenied :: u8 where
  "Status_AccessDenied \<equiv> 78"

abbreviation Status_NotAllowedCriticalEvent :: u8 where
  "Status_NotAllowedCriticalEvent \<equiv> 79"

abbreviation Status_FlowControlNotExecutingMacro :: u8 where
  "Status_FlowControlNotExecutingMacro \<equiv> 80"

abbreviation Status_FlowControlSyntaxError :: u8 where
  "Status_FlowControlSyntaxError \<equiv> 81"

abbreviation Status_FlowControlStackOverflow :: u8 where
  "Status_FlowControlStackOverflow \<equiv> 82"

abbreviation Status_FlowControlOutOfMemory :: u8 where
  "Status_FlowControlOutOfMemory \<equiv> 83"

abbreviation Status_FileOpenFailed :: u8 where
  "Status_FileOpenFailed \<equiv> 84"

abbreviation Status_FsFormatFailed :: u8 where
  "Status_FsFormatFailed \<equiv> 85"

abbreviation Status_AuxiliaryPortUnusable :: u8 where
  "Status_AuxiliaryPortUnusable \<equiv> 86"

abbreviation Status_ToolInSPindle :: u8 where
  "Status_ToolInSPindle \<equiv> 87"

abbreviation Status_NoToolInSPindle :: u8 where
  "Status_NoToolInSPindle \<equiv> 88"

abbreviation Status_UserException :: u8 where
  "Status_UserException \<equiv> 253"

abbreviation Status_Handled :: u8 where
  "Status_Handled \<equiv> 254"

abbreviation Status_Unhandled :: u8 where
  "Status_Unhandled \<equiv> 255"

section \<open>Alarm codes\<close>

abbreviation Alarm_None :: u8 where
  "Alarm_None \<equiv> 0"

abbreviation Alarm_HardLimit :: u8 where
  "Alarm_HardLimit \<equiv> 1"

abbreviation Alarm_SoftLimit :: u8 where
  "Alarm_SoftLimit \<equiv> 2"

abbreviation Alarm_AbortCycle :: u8 where
  "Alarm_AbortCycle \<equiv> 3"

abbreviation Alarm_ProbeFailInitial :: u8 where
  "Alarm_ProbeFailInitial \<equiv> 4"

abbreviation Alarm_ProbeFailContact :: u8 where
  "Alarm_ProbeFailContact \<equiv> 5"

abbreviation Alarm_HomingFailReset :: u8 where
  "Alarm_HomingFailReset \<equiv> 6"

abbreviation Alarm_HomingFailDoor :: u8 where
  "Alarm_HomingFailDoor \<equiv> 7"

abbreviation Alarm_FailPulloff :: u8 where
  "Alarm_FailPulloff \<equiv> 8"

abbreviation Alarm_HomingFailApproach :: u8 where
  "Alarm_HomingFailApproach \<equiv> 9"

abbreviation Alarm_EStop :: u8 where
  "Alarm_EStop \<equiv> 10"

abbreviation Alarm_HomingRequired :: u8 where
  "Alarm_HomingRequired \<equiv> 11"

abbreviation Alarm_LimitsEngaged :: u8 where
  "Alarm_LimitsEngaged \<equiv> 12"

abbreviation Alarm_ProbeProtect :: u8 where
  "Alarm_ProbeProtect \<equiv> 13"

abbreviation Alarm_Spindle :: u8 where
  "Alarm_Spindle \<equiv> 14"

abbreviation Alarm_HomingFailAutoSquaringApproach :: u8 where
  "Alarm_HomingFailAutoSquaringApproach \<equiv> 15"

abbreviation Alarm_SelftestFailed :: u8 where
  "Alarm_SelftestFailed \<equiv> 16"

abbreviation Alarm_MotorFault :: u8 where
  "Alarm_MotorFault \<equiv> 17"

abbreviation Alarm_HomingFail :: u8 where
  "Alarm_HomingFail \<equiv> 18"

abbreviation Alarm_ModbusException :: u8 where
  "Alarm_ModbusException \<equiv> 19"

abbreviation Alarm_ExpanderException :: u8 where
  "Alarm_ExpanderException \<equiv> 20"

abbreviation Alarm_NVS_Failed :: u8 where
  "Alarm_NVS_Failed \<equiv> 21"

definition alarm_is_critical :: "alarm_code \<Rightarrow> bool" where
  "alarm_is_critical alarm \<longleftrightarrow>
     alarm = Alarm_HardLimit \<or> alarm = Alarm_SoftLimit \<or> alarm = Alarm_EStop \<or>
     alarm = Alarm_MotorFault \<or> alarm = Alarm_ExpanderException"

section \<open>Realtime request flags\<close>

abbreviation EXEC_STATUS_REPORT :: rt_exec where
  "EXEC_STATUS_REPORT \<equiv> 0x1"

abbreviation EXEC_CYCLE_START :: rt_exec where
  "EXEC_CYCLE_START \<equiv> 0x2"

abbreviation EXEC_CYCLE_COMPLETE :: rt_exec where
  "EXEC_CYCLE_COMPLETE \<equiv> 0x4"

abbreviation EXEC_FEED_HOLD :: rt_exec where
  "EXEC_FEED_HOLD \<equiv> 0x8"

abbreviation EXEC_STOP :: rt_exec where
  "EXEC_STOP \<equiv> 0x10"

abbreviation EXEC_RESET :: rt_exec where
  "EXEC_RESET \<equiv> 0x20"

abbreviation EXEC_SAFETY_DOOR :: rt_exec where
  "EXEC_SAFETY_DOOR \<equiv> 0x40"

abbreviation EXEC_MOTION_CANCEL :: rt_exec where
  "EXEC_MOTION_CANCEL \<equiv> 0x80"

abbreviation EXEC_MOTION_CANCEL_FAST :: rt_exec where
  "EXEC_MOTION_CANCEL_FAST \<equiv> 0x80"

abbreviation EXEC_SLEEP :: rt_exec where
  "EXEC_SLEEP \<equiv> 0x200"

abbreviation EXEC_TOOL_CHANGE :: rt_exec where
  "EXEC_TOOL_CHANGE \<equiv> 0x400"

abbreviation EXEC_PID_REPORT :: rt_exec where
  "EXEC_PID_REPORT \<equiv> 0x800"

abbreviation EXEC_GCODE_REPORT :: rt_exec where
  "EXEC_GCODE_REPORT \<equiv> 0x1000"

abbreviation EXEC_TLO_REPORT :: rt_exec where
  "EXEC_TLO_REPORT \<equiv> 0x2000"

abbreviation EXEC_RT_COMMAND :: rt_exec where
  "EXEC_RT_COMMAND \<equiv> 0x4000"

abbreviation EXEC_DOOR_CLOSED :: rt_exec where
  "EXEC_DOOR_CLOSED \<equiv> 0x8000"

section \<open>System states\<close>

abbreviation STATE_IDLE :: sys_state where
  "STATE_IDLE \<equiv> 0x0"

abbreviation STATE_ALARM :: sys_state where
  "STATE_ALARM \<equiv> 0x1"

abbreviation STATE_CHECK_MODE :: sys_state where
  "STATE_CHECK_MODE \<equiv> 0x2"

abbreviation STATE_HOMING :: sys_state where
  "STATE_HOMING \<equiv> 0x4"

abbreviation STATE_CYCLE :: sys_state where
  "STATE_CYCLE \<equiv> 0x8"

abbreviation STATE_HOLD :: sys_state where
  "STATE_HOLD \<equiv> 0x10"

abbreviation STATE_JOG :: sys_state where
  "STATE_JOG \<equiv> 0x20"

abbreviation STATE_SAFETY_DOOR :: sys_state where
  "STATE_SAFETY_DOOR \<equiv> 0x40"

abbreviation STATE_SLEEP :: sys_state where
  "STATE_SLEEP \<equiv> 0x80"

abbreviation STATE_ESTOP :: sys_state where
  "STATE_ESTOP \<equiv> 0x100"

abbreviation STATE_TOOL_CHANGE :: sys_state where
  "STATE_TOOL_CHANGE \<equiv> 0x200"

end
