(* ===== verification/Inspector.thy ===== *)
theory Inspector
  imports Codes
begin

text \<open>
  \<open>grbl/kinematics/inspector.c\<close>: forward and inverse kinematics of the Inspector arm, the CoreXY
  mixing of its motors, the segmentation callback of the planner and the joint command \<open>M100\<close>.
  The C code computes in single precision; the model computes with real numbers (the decimal
  constants of the source, exact arithmetic), so rounding is outside it. Arrays of \<open>N_AXIS = 5\<close>
  floats are the record \<open>axes\<close>. The text of the debug messages is replaced by the values printed.
\<close>

section \<open>Constants and state\<close>

record axes =
  axX :: real
  axY :: real
  axZ :: real
  axA :: real
  axB :: real

definition INSPECTOR_Y_SCALE :: real where
  "INSPECTOR_Y_SCALE = 6.88"

definition DEG2RAD :: real where
  "DEG2RAD = 3.14159265 / 180"

definition RAD2DEG :: real where
  "RAD2DEG = 180 / 3.14159265"

definition L1 :: real where "L1 = 0.20"

definition L2 :: real where "L2 = 0.06"

definition L3 :: real where "L3 = 0.06"

definition D :: real where "D = 0.03 + 0.00 + 0.02"

definition LINK1_LIMIT :: real where "LINK1_LIMIT = 3.14159265"

definition LINK4_LIMIT :: real where "LINK4_LIMIT = 1.74533"

definition LINK23_LIMIT_HIGH :: real where "LINK23_LIMIT_HIGH = 180"

definition LINK_LIMIT_EPS :: real where "LINK_LIMIT_EPS = 0.001"

lemmas inspector_consts = INSPECTOR_Y_SCALE_def DEG2RAD_def RAD2DEG_def L1_def L2_def L3_def D_def
  LINK1_LIMIT_def LINK4_LIMIT_def LINK23_LIMIT_HIGH_def LINK_LIMIT_EPS_def

text \<open>The values written to the stream by the inverse kinematics.\<close>

datatype ik_report =
    IkJoints real real real real  \<comment> \<open>\<open>q1\<close>, \<open>q2\<close> and \<open>q3\<close> in mm, \<open>q4\<close>\<close>
  | IkRejected
  | Q1Out real
  | Q2Out real
  | Q3Out real
  | Q4Out real

record inspector =
  joint_mode :: bool
  joint_limit_violation :: bool
  iterations :: u32
  trsf :: axes
  stream_out :: "ik_report list"

section \<open>Forward kinematics\<close>

definition transform_to_cartesian :: "axes \<Rightarrow> axes \<Rightarrow> axes" where
  "transform_to_cartesian target position =
     (let a = axX position;
          b = axY position;
          q3 = - (a + b) * 0.5 / 1000;
          q4_deg = (b - a) * 0.5 * INSPECTOR_Y_SCALE;
          q4 = q4_deg * DEG2RAD;
          q2 = axZ position / 1000;
          q1 = axA position;
          gamma = q3 + D * cos q4 - L1 + L3;
          pz = q2 + L2 - D * sin q4
      in target\<lparr>axX := gamma * cos q1 * 1000, axY := gamma * sin q1 * 1000, axZ := pz * 1000,
                axA := q4_deg, axB := q1 / DEG2RAD\<rparr>)"

section \<open>Inverse kinematics\<close>

definition q1_in :: "real \<Rightarrow> bool" where
  "q1_in q1 \<longleftrightarrow> - LINK1_LIMIT - LINK_LIMIT_EPS \<le> q1 \<and> q1 \<le> LINK1_LIMIT + LINK_LIMIT_EPS"

definition q23_in :: "real \<Rightarrow> bool" where
  "q23_in q_mm \<longleftrightarrow> 0 - LINK_LIMIT_EPS \<le> q_mm \<and> q_mm \<le> LINK23_LIMIT_HIGH + LINK_LIMIT_EPS"

definition q4_in :: "real \<Rightarrow> bool" where
  "q4_in q4 \<longleftrightarrow> - LINK4_LIMIT - LINK_LIMIT_EPS \<le> q4 \<and> q4 \<le> LINK4_LIMIT + LINK_LIMIT_EPS"

text \<open>
  The loop over the two signs of \<open>gamma\<close>: \<open>s = 0\<close> is the negative branch, which is kept when
  neither branch is inside the limits. The result is \<open>(q1, q3, branch_found)\<close>.
\<close>

definition ik_candidate :: "real \<Rightarrow> real \<Rightarrow> real \<Rightarrow> real \<Rightarrow> real \<times> real" where
  "ik_candidate px py q4 gamma =
     (if \<bar>gamma\<bar> < 1 / 10 ^ 9 then 0 else atan2 (py / gamma) (px / gamma),
      gamma - D * cos q4 + L1 - L3)"

fun ik_branch_loop :: "nat \<Rightarrow> nat \<Rightarrow> real \<Rightarrow> real \<Rightarrow> real \<Rightarrow> real \<times> real \<times> bool \<Rightarrow> real \<times> real \<times> bool"
where
  "ik_branch_loop 0 s px py q4 acc = acc"
| "ik_branch_loop (Suc n) s px py q4 (q1, q3, branch_found) =
     (if branch_found then (q1, q3, branch_found)
      else
        let r = sqrt (px * px + py * py);
            sgn = (if s = 0 then -1 else 1);
            (c1, c3) = ik_candidate px py q4 (sgn * r);
            inside = q1_in c1 \<and> q23_in (c3 * 1000)
        in ik_branch_loop n (s + 1) px py q4
             (if inside \<or> s = 0 then (c1, c3, inside) else (q1, q3, inside)))"

definition limit_reports :: "real \<Rightarrow> real \<Rightarrow> real \<Rightarrow> real \<Rightarrow> ik_report list" where
  "limit_reports q1 q2_mm q3_mm q4 =
     IkRejected #
     (if \<not> q1_in q1 then [Q1Out q1] else []) @
     (if \<not> q23_in q2_mm then [Q2Out q2_mm] else []) @
     (if \<not> q23_in q3_mm then [Q3Out q3_mm] else []) @
     (if \<not> q4_in q4 then [Q4Out q4] else [])"

definition transform_from_cartesian :: "axes \<Rightarrow> axes \<Rightarrow> inspector \<Rightarrow> axes \<times> inspector" where
  "transform_from_cartesian target position s =
     (if joint_mode s then
        let jq3 = axX position;
            jq4 = axY position
        in (target\<lparr>axX := - jq3 - jq4 / INSPECTOR_Y_SCALE, axY := - jq3 + jq4 / INSPECTOR_Y_SCALE,
                   axZ := axZ position, axA := axA position, axB := 0\<rparr>,
            s\<lparr>joint_limit_violation := False\<rparr>)
      else
        let px = axX position / 1000;
            py = axY position / 1000;
            pz = axZ position / 1000;
            q4 = axA position * DEG2RAD;
            q2 = pz - L2 + D * sin q4;
            (q1, q3, branch_found) = ik_branch_loop 2 0 px py q4 (0, 0, False);
            q2_mm = q2 * 1000;
            q3_mm = q3 * 1000;
            violation = \<not> (q1_in q1 \<and> q23_in q2_mm \<and> q23_in q3_mm \<and> q4_in q4)
        in (target\<lparr>axX := - q3_mm - q4 * RAD2DEG / INSPECTOR_Y_SCALE,
                   axY := - q3_mm + q4 * RAD2DEG / INSPECTOR_Y_SCALE,
                   axZ := q2_mm, axA := q1\<rparr>,
            s\<lparr>joint_limit_violation := violation,
              stream_out := stream_out s @ [IkJoints q1 q2_mm q3_mm q4] @
                (if violation then limit_reports q1 q2_mm q3_mm q4 else [])\<rparr>))"

section \<open>Callbacks of the planner\<close>

text \<open>\<open>steps_per_mm\<close> is \<open>settings.axis[idx].steps_per_mm\<close>.\<close>

record steps =
  stX :: int
  stY :: int
  stZ :: int
  stA :: int
  stB :: int

definition inspector_convert_array_steps_to_mpos :: "axes \<Rightarrow> axes \<Rightarrow> steps \<Rightarrow> axes" where
  "inspector_convert_array_steps_to_mpos steps_per_mm position st =
     transform_to_cartesian position
       \<lparr>axX = of_int (stX st) / axX steps_per_mm, axY = of_int (stY st) / axY steps_per_mm,
        axZ = of_int (stZ st) / axZ steps_per_mm, axA = of_int (stA st) / axA steps_per_mm,
        axB = of_int (stB st) / axB steps_per_mm\<rparr>"

text \<open>The part of \<open>plan_line_data_t\<close> the plugin reads or writes.\<close>

record plan_line_data =
  target_validated :: bool
  target_valid :: bool
  rapid_motion :: bool
  plan_feed_rate :: real
  plan_overrides :: nat
  plan_spindle :: nat

definition inspector_segment_line ::
  "axes \<Rightarrow> plan_line_data option \<Rightarrow> bool \<Rightarrow> inspector \<Rightarrow>
     axes option \<times> plan_line_data option \<times> inspector" where
  "inspector_segment_line target pl_data init s =
     (let (pl_data, s) =
        (if init then
           let (t, s) = transform_from_cartesian (trsf s) target (s\<lparr>iterations := 2\<rparr>);
               s = s\<lparr>trsf := t\<rparr>
           in (if joint_limit_violation s
               then map_option (\<lambda>d. d\<lparr>target_validated := True, target_valid := False\<rparr>) pl_data
               else pl_data, s)
         else (pl_data, s))
      in (if iterations s = 0 then None else Some (trsf s), pl_data,
          s\<lparr>iterations := iterations s - 1\<rparr>))"

text \<open>
  How \<open>mc_line\<close> uses the callback: one initialising call whose result is checked against the
  limits, then a call per segment handed to the planner until the callback returns \<open>NULL\<close>.
\<close>

fun segment_targets :: "nat \<Rightarrow> axes \<Rightarrow> inspector \<Rightarrow> (axes list \<times> inspector) option" where
  "segment_targets 0 target s = None"
| "segment_targets (Suc n) target s =
     (case inspector_segment_line target None False s of
        (None, _, s') \<Rightarrow> Some ([], s')
      | (Some t, _, s') \<Rightarrow>
          (case segment_targets n t s' of None \<Rightarrow> None | Some (ts, s'') \<Rightarrow> Some (t # ts, s'')))"

section \<open>The joint command M100\<close>

datatype user_mcode_type = UserMCode_Unsupported | UserMCode_Normal | UserMCode_NoValueWords

definition INSPECTOR_MCODE_JOINTS :: nat where
  "INSPECTOR_MCODE_JOINTS = 100"

text \<open>A word's value is a real or NaN (\<open>None\<close>); a handler not registered is \<open>None\<close>.\<close>

record jwords =
  wp :: bool
  wq :: bool
  wr :: bool
  wd :: bool

record parser_block =
  user_mcode :: nat
  words :: jwords
  val_p :: "real option"
  val_q :: "real option"
  val_r :: "real option"
  val_d :: "real option"

definition mcode_check :: "(nat \<Rightarrow> user_mcode_type) option \<Rightarrow> nat \<Rightarrow> user_mcode_type" where
  "mcode_check next_check mcode =
     (if mcode = INSPECTOR_MCODE_JOINTS then UserMCode_Normal
      else case next_check of Some check \<Rightarrow> check mcode | None \<Rightarrow> UserMCode_Unsupported)"

definition mcode_validate ::
  "(parser_block \<Rightarrow> status_code \<times> parser_block) option \<Rightarrow> parser_block \<Rightarrow>
     status_code \<times> parser_block" where
  "mcode_validate next_validate gc =
     (if user_mcode gc = INSPECTOR_MCODE_JOINTS then
        ((if wp (words gc) \<and> val_p gc = None \<or> wq (words gc) \<and> val_q gc = None \<or>
             wr (words gc) \<and> val_r gc = None \<or> wd (words gc) \<and> val_d gc = None
          then Status_BadNumberFormat else Status_OK),
         gc\<lparr>words := (words gc)\<lparr>wp := False, wq := False, wr := False, wd := False\<rparr>\<rparr>)
      else case next_validate of Some validate \<Rightarrow> validate gc | None \<Rightarrow> (Status_Unhandled, gc))"

text \<open>
  \<open>gc_execute_block\<close> around the handlers (\<open>gcode.c\<close>): the words the validation clears are the
  words "taken", and only those are set again for the execution.
\<close>

definition words_xor :: "jwords \<Rightarrow> jwords \<Rightarrow> jwords" where
  "words_xor a b = \<lparr>wp = (wp a \<noteq> wp b), wq = (wq a \<noteq> wq b), wr = (wr a \<noteq> wr b), wd = (wd a \<noteq> wd b)\<rparr>"

definition user_mcode_dispatch ::
  "(parser_block \<Rightarrow> status_code \<times> parser_block) \<Rightarrow> parser_block \<Rightarrow> status_code + parser_block" where
  "user_mcode_dispatch validate gc =
     (let (status, gc') = validate gc
      in if status \<noteq> Status_OK then Inl status
         else Inr (gc'\<lparr>words := words_xor (words gc) (words gc')\<rparr>))"

text \<open>
  The state the execution reads: the planner position, the modal feed rate, overrides and
  spindle of the parser, and the soft limit mask. \<open>value_of\<close> reads a word's float; a NaN never
  reaches it because validation rejects it.
\<close>

record mcode_env =
  planner_pos :: axes
  env_feed_rate :: real
  env_overrides :: nat
  env_spindle :: nat
  soft_limits_mask :: nat

definition value_of :: "real option \<Rightarrow> real" where
  "value_of v = (case v of Some x \<Rightarrow> x | None \<Rightarrow> 0)"

text \<open>The target and planner data \<open>mcode_execute\<close> passes to \<open>mc_line\<close>.\<close>

definition mcode_target :: "mcode_env \<Rightarrow> parser_block \<Rightarrow> axes" where
  "mcode_target env gc =
     (let mpos = planner_pos env;
          q3 = - (axX mpos + axY mpos) * 0.5;
          q4 = (axY mpos - axX mpos) * 0.5 * INSPECTOR_Y_SCALE
      in \<lparr>axX = (if wr (words gc) then value_of (val_r gc) else q3),
          axY = (if wd (words gc) then value_of (val_d gc) else q4),
          axZ = (if wq (words gc) then value_of (val_q gc) else axZ mpos),
          axA = (if wp (words gc) then value_of (val_p gc) else axA mpos),
          axB = 0\<rparr>)"

definition mcode_plan_data :: "mcode_env \<Rightarrow> plan_line_data" where
  "mcode_plan_data env =
     \<lparr>target_validated = (soft_limits_mask env = 0), target_valid = (soft_limits_mask env = 0),
      rapid_motion = \<not> env_feed_rate env > 0,
      plan_feed_rate = (if env_feed_rate env > 0 then env_feed_rate env else 0),
      plan_overrides = env_overrides env, plan_spindle = env_spindle env\<rparr>"

text \<open>
  \<open>mc_line\<close> and the handler registered before are arguments; \<open>mc_line\<close> returns the new planner
  position. The result is the parser position written back, the environment and the state.
\<close>

definition mcode_execute ::
  "(axes \<Rightarrow> plan_line_data \<Rightarrow> inspector \<Rightarrow> axes \<times> inspector) \<Rightarrow>
   (parser_block \<Rightarrow> axes \<Rightarrow> axes) option \<Rightarrow> mcode_env \<Rightarrow> axes \<Rightarrow> parser_block \<Rightarrow> inspector \<Rightarrow>
     axes \<times> mcode_env \<times> inspector" where
  "mcode_execute mc_line next_execute env gc_position gc s =
     (if user_mcode gc = INSPECTOR_MCODE_JOINTS then
        let (pos, s) = mc_line (mcode_target env gc) (mcode_plan_data env) (s\<lparr>joint_mode := True\<rparr>);
            s = s\<lparr>joint_mode := False\<rparr>
        in (transform_to_cartesian gc_position pos, env\<lparr>planner_pos := pos\<rparr>, s)
      else case next_execute of
          Some execute \<Rightarrow> (execute gc gc_position, env, s)
        | None \<Rightarrow> (gc_position, env, s))"

section \<open>Angles\<close>

lemma unit_circle_arctan:
  assumes "x * x + y * y = (1::real)" "0 < x"
  shows "cos (arctan (y / x)) = x" "sin (arctan (y / x)) = y"
proof -
  have "1 + (y / x)\<^sup>2 = (1 / x)\<^sup>2"
    using assms by (simp add: field_simps power2_eq_square)
  then have "sqrt (1 + (y / x)\<^sup>2) = 1 / x"
    using assms by (simp add: real_sqrt_unique)
  then show "cos (arctan (y / x)) = x" "sin (arctan (y / x)) = y"
    using assms by (simp_all add: cos_arctan sin_arctan)
qed

lemma atan2_unit:
  assumes "x * x + y * y = 1"
  shows "cos (atan2 y x) = x \<and> sin (atan2 y x) = y"
proof -
  consider "0 < x" | "x < 0" | "x = 0" by linarith
  then show ?thesis
  proof cases
    case 1
    with unit_circle_arctan [OF assms 1] show ?thesis by (simp add: atan2_def)
  next
    case 2
    then have "cos (arctan ((- y) / (- x))) = - x" "sin (arctan ((- y) / (- x))) = - y"
      using assms by (intro unit_circle_arctan; simp)+
    with 2 show ?thesis by (simp add: atan2_def cos_diff sin_diff)
  next
    case 3
    with assms have "y = 1 \<or> y = -1" by (simp add: square_eq_1_iff)
    with 3 show ?thesis by (auto simp: atan2_def)
  qed
qed

lemma atan2_range: "- pi \<le> atan2 y x" "atan2 y x \<le> pi"
proof -
  have a: "- (pi / 2) < arctan (y / x)" "arctan (y / x) < pi / 2"
    by (rule arctan_lbound, rule arctan_ubound)
  have neg: "arctan (y / x) \<le> 0" if "x < 0" "y \<ge> 0"
    using that by (simp add: divide_nonneg_neg)
  have pos: "0 \<le> arctan (y / x)" if "x < 0" "y < 0"
    using that by (simp add: divide_neg_neg order.strict_implies_order)
  show "- pi \<le> atan2 y x"
    using a pos pi_gt_zero unfolding atan2_def by (auto simp: not_le) 
  show "atan2 y x \<le> pi"
    using a neg pi_gt_zero unfolding atan2_def by auto
qed

lemma arctan_upper: "0 \<le> x \<Longrightarrow> arctan x \<le> x - x ^ 3 / 3 + x ^ 5 / 5"
proof -
  assume x: "0 \<le> x"
  let ?f = "\<lambda>t. t - t ^ 3 / 3 + t ^ 5 / 5 - arctan t"
  have "?f 0 \<le> ?f x"
  proof (rule DERIV_nonneg_imp_nondecreasing [OF x])
    fix t :: real assume "0 \<le> t" "t \<le> x"
    have d: "(?f has_real_derivative (1 - t ^ 2 + t ^ 4 - inverse (1 + t ^ 2))) (at t)"
      by (auto intro!: derivative_eq_intros)
    have "1 - t ^ 2 + t ^ 4 - inverse (1 + t ^ 2) = t ^ 6 / (1 + t ^ 2)"
      by (simp add: field_simps power2_eq_square power_numeral_reduce add_nonneg_eq_0_iff)
    then show "\<exists>y. (?f has_real_derivative y) (at t) \<and> 0 \<le> y" using d by auto
  qed
  then show ?thesis by simp
qed

lemma arctan_lower: "0 \<le> x \<Longrightarrow> x - x ^ 3 / 3 \<le> arctan x"
proof -
  assume x: "0 \<le> x"
  let ?f = "\<lambda>t. arctan t - (t - t ^ 3 / 3)"
  have "?f 0 \<le> ?f x"
  proof (rule DERIV_nonneg_imp_nondecreasing [OF x])
    fix t :: real assume "0 \<le> t" "t \<le> x"
    have d: "(?f has_real_derivative (inverse (1 + t ^ 2) - (1 - t ^ 2))) (at t)"
      by (auto intro!: derivative_eq_intros)
    have "inverse (1 + t ^ 2) - (1 - t ^ 2) = t ^ 4 / (1 + t ^ 2)"
      by (simp add: field_simps power2_eq_square power_numeral_reduce add_nonneg_eq_0_iff)
    then show "\<exists>y. (?f has_real_derivative y) (at t) \<and> 0 \<le> y" using d by auto
  qed
  then show ?thesis by simp
qed

lemma pi_upper: "pi \<le> 3.1425"
proof -
  have a: "arctan (1 / 5) \<le> 1 / 5 - (1 / 5) ^ 3 / 3 + (1 / 5) ^ 5 / (5::real)"
    by (rule arctan_upper) simp
  have b: "1 / 239 - (1 / 239) ^ 3 / 3 \<le> arctan (1 / 239 :: real)"
    by (rule arctan_lower) simp
  have "pi = 16 * arctan (1 / 5) - 4 * arctan (1 / 239)"
    using machin by simp
  also have "\<dots> \<le> 16 * (1 / 5 - (1 / 5) ^ 3 / 3 + (1 / 5) ^ 5 / 5) - 4 * (1 / 239 - (1 / 239) ^ 3 / 3)"
    using a b by simp
  also have "\<dots> \<le> 3.1425" by (simp add: field_simps)
  finally show ?thesis .
qed

text \<open>The base angle the inverse kinematics computes is always inside its limits.\<close>

lemma q1_in_atan2: "q1_in (atan2 y x)"
  using atan2_range [of y x] pi_upper by (simp add: q1_in_def inspector_consts)

lemma q1_in_0: "q1_in 0"
  by (simp add: q1_in_def inspector_consts)

lemma q1_in_candidate: "q1_in (fst (ik_candidate px py q4 g))"
  by (simp add: ik_candidate_def q1_in_atan2 q1_in_0)

section \<open>The branch loop\<close>

definition cand_ok :: "real \<times> real \<Rightarrow> bool" where
  "cand_ok c \<longleftrightarrow> q1_in (fst c) \<and> q23_in (snd c * 1000)"

text \<open>The loop in closed form: the negative branch unless only the positive one fits.\<close>

lemma ik_branch_loop_eq:
  "ik_branch_loop 2 0 px py q4 acc =
     (let cm = ik_candidate px py q4 (- sqrt (px * px + py * py));
          cp = ik_candidate px py q4 (sqrt (px * px + py * py));
          c = (if cand_ok cm \<or> \<not> cand_ok cp then cm else cp)
      in if snd (snd acc) then acc else (fst c, snd c, cand_ok cm \<or> cand_ok cp))"
  unfolding numeral_2_eq_2
  by (cases acc) (auto simp: cand_ok_def case_prod_beta Let_def)

lemma ik_branch_loop_gamma:
  obtains g where "g = sqrt (px * px + py * py) \<or> g = - sqrt (px * px + py * py)"
    "fst (ik_branch_loop 2 0 px py q4 (0, 0, False)) = fst (ik_candidate px py q4 g)"
    "fst (snd (ik_branch_loop 2 0 px py q4 (0, 0, False))) = snd (ik_candidate px py q4 g)"
proof -
  let ?r = "sqrt (px * px + py * py)"
  let ?g = "if cand_ok (ik_candidate px py q4 (- ?r)) \<or> \<not> cand_ok (ik_candidate px py q4 ?r)
            then - ?r else ?r"
  show thesis
    by (rule that [of ?g]) (simp_all add: ik_branch_loop_eq Let_def)
qed

text \<open>The motor coordinates of a joint configuration (\<open>q2\<close>, \<open>q3\<close> in mm, \<open>q4\<close> in degrees).\<close>

definition motors :: "real \<Rightarrow> real \<Rightarrow> real \<Rightarrow> real \<Rightarrow> real \<Rightarrow> axes" where
  "motors q1 q2 q3 q4 b =
     \<lparr>axX = - q3 - q4 / INSPECTOR_Y_SCALE, axY = - q3 + q4 / INSPECTOR_Y_SCALE, axZ = q2,
      axA = q1, axB = b\<rparr>"

lemma unmix:
  "- (axX (motors q1 q2 q3 q4 b) + axY (motors q1 q2 q3 q4 b)) * 0.5 = q3"
  "(axY (motors q1 q2 q3 q4 b) - axX (motors q1 q2 q3 q4 b)) * 0.5 * INSPECTOR_Y_SCALE = q4"
  "axZ (motors q1 q2 q3 q4 b) = q2" "axA (motors q1 q2 q3 q4 b) = q1"
  "axB (motors q1 q2 q3 q4 b) = b"
  by (simp_all add: motors_def inspector_consts)

lemma fk_motors:
  "transform_to_cartesian t (motors q1 q2 q3 q4 b) =
     (let g = q3 / 1000 + D * cos (q4 * DEG2RAD) - L1 + L3
      in t\<lparr>axX := g * cos q1 * 1000, axY := g * sin q1 * 1000,
           axZ := (q2 / 1000 + L2 - D * sin (q4 * DEG2RAD)) * 1000, axA := q4,
           axB := q1 / DEG2RAD\<rparr>)"
  unfolding transform_to_cartesian_def Let_def unmix ..

lemma deg_rad: "x * DEG2RAD * RAD2DEG = x" "x * RAD2DEG * DEG2RAD = x"
  by (simp_all add: inspector_consts)

lemma ik_candidate_point:
  assumes "g = sqrt (px * px + py * py) \<or> g = - sqrt (px * px + py * py)"
    and "1 / 10 ^ 9 \<le> sqrt (px * px + py * py)"
  shows "g * cos (fst (ik_candidate px py q4 g)) = px"
    "g * sin (fst (ik_candidate px py q4 g)) = py"
proof -
  have "0 < 1 / (10::real) ^ 9" by simp
  then have r: "0 < sqrt (px * px + py * py)" using assms(2) by (rule order.strict_trans2)
  have g0: "g \<noteq> 0" "\<not> \<bar>g\<bar> < 1 / 10 ^ 9" using assms r by auto
  have "g * g = px * px + py * py" using assms(1) by (auto simp: real_sqrt_mult_self)
  then have "px / g * (px / g) + py / g * (py / g) = 1"
    using g0(1) by (auto simp: add_divide_distrib [symmetric])
  from atan2_unit [OF this] show "g * cos (fst (ik_candidate px py q4 g)) = px"
    "g * sin (fst (ik_candidate px py q4 g)) = py"
    using g0 by (simp_all add: ik_candidate_def)
qed

lemma atan2_gt_minus_pi: "- pi < atan2 y x"
proof -
  have a: "- (pi / 2) < arctan (y / x)" by (rule arctan_lbound)
  have "0 < arctan (y / x)" if "x < 0" "y < 0" using that by (simp add: divide_neg_neg)
  moreover have "- pi < arctan (y / x)" "- pi < arctan (y / x) + pi"
    using a pi_gt_zero by linarith+
  ultimately show ?thesis using a pi_gt_zero unfolding atan2_def by (auto; linarith)
qed

lemma atan2_sin_cos:
  assumes "- pi < q" "q \<le> pi"
  shows "atan2 (sin q) (cos q) = q"
proof -
  let ?a = "atan2 (sin q) (cos q)"
  have "cos q * cos q + sin q * sin q = 1"
    using sin_cos_squared_add2 [of q] by (simp add: power2_eq_square)
  from atan2_unit [OF this] have "sin ?a = sin q \<and> cos ?a = cos q" by simp
  then obtain n :: int where n: "?a = q + 2 * pi * n" by (auto simp: sin_cos_eq_iff)
  have "\<bar>2 * pi * n\<bar> < 2 * pi"
    using n assms atan2_gt_minus_pi [of "sin q" "cos q"] atan2_range [of "sin q" "cos q"] by linarith
  then have "\<bar>real_of_int n\<bar> < 1" by (simp add: abs_mult)
  then have "n = 0" by linarith
  with n show ?thesis by simp
qed

text \<open>The distance of the tool from the base axis, in metres and signed, at a joint configuration.\<close>

definition reach :: "real \<Rightarrow> real \<Rightarrow> real" where
  "reach q3 q4 = q3 / 1000 + D * cos (q4 * DEG2RAD) - L1 + L3"

lemma sqrt_reach:
  "sqrt (g * cos q * (g * cos q) + g * sin q * (g * sin q)) = \<bar>g\<bar>"
proof -
  have "g * cos q * (g * cos q) + g * sin q * (g * sin q) = g * g * ((sin q)\<^sup>2 + (cos q)\<^sup>2)"
    by (simp only: power2_eq_square algebra_simps)
  then show ?thesis by simp
qed

lemma ik_candidate_same:
  assumes "- pi < q" "q \<le> pi" "1 / 10 ^ 9 \<le> \<bar>g\<bar>"
  shows "ik_candidate (g * cos q) (g * sin q) q4 g = (q, g - D * cos q4 + L1 - L3)"
proof -
  have "0 < 1 / (10::real) ^ 9" by simp
  then have "g \<noteq> 0" "\<not> \<bar>g\<bar> < 1 / 10 ^ 9" using assms(3) by auto
  then show ?thesis by (simp add: ik_candidate_def atan2_sin_cos assms(1,2))
qed

text \<open>The motor coordinates of the inverse kinematics, and those of the pose of a joint configuration.\<close>

lemma ik_motors:
  assumes "\<not> joint_mode s"
  shows "fst (transform_from_cartesian t pos s) =
     (let q4 = axA pos * DEG2RAD;
          l = ik_branch_loop 2 0 (axX pos / 1000) (axY pos / 1000) q4 (0, 0, False)
      in motors (fst l) ((axZ pos / 1000 - L2 + D * sin q4) * 1000) (fst (snd l) * 1000) (axA pos)
           (axB t))"
  using assms by (simp add: transform_from_cartesian_def motors_def Let_def case_prod_beta deg_rad)

lemma ik_of_fk:
  assumes "\<not> joint_mode s"
    and "ik_branch_loop 2 0 (reach q3 q4 * cos q1) (reach q3 q4 * sin q1) (q4 * DEG2RAD) (0, 0, False)
      = (q1', q3' / 1000, found)"
  shows "fst (transform_from_cartesian t (transform_to_cartesian t' (motors q1 q2 q3 q4 b)) s)
     = motors q1' q2 q3' q4 (axB t)"
proof -
  have z: "((q2 / 1000 + L2 - D * sin (q4 * DEG2RAD)) * 1000 / 1000 - L2 + D * sin (q4 * DEG2RAD)) * 1000
      = q2" by (simp add: algebra_simps add_divide_distrib diff_divide_distrib)
  have div: "x * 1000 / 1000 = x" for x :: real by simp
  show ?thesis
    unfolding ik_motors [OF assms(1)] fk_motors reach_def [symmetric] Let_def
    by (cases t') (simp only: axes.select_convs axes.update_convs div assms(2) z fst_conv snd_conv, simp)
qed

lemma cand_ok_pair: "cand_ok (q, x) \<longleftrightarrow> q1_in q \<and> q23_in (x * 1000)"
  by (simp add: cand_ok_def)

text \<open>The state after a reset, for the concrete instances below.\<close>

abbreviation origin :: axes where
  "origin \<equiv> \<lparr>axX = 0, axY = 0, axZ = 0, axA = 0, axB = 0\<rparr>"

abbreviation fresh :: inspector where
  "fresh \<equiv> \<lparr>joint_mode = False, joint_limit_violation = False, iterations = 0, trsf = origin,
     stream_out = []\<rparr>"

section \<open>Properties\<close>

text \<open>
  C1. The forward kinematics undoes the inverse kinematics: for every Cartesian target whose
  distance from the base axis is at least a nanometre, whether or not its joints are inside
  their limits, the pose computed from the motor coordinates has the target's X, Y, Z and A; the
  B word is not an input.
\<close>

theorem fk_after_ik:
  assumes "\<not> joint_mode s"
    and "1 / 10 ^ 9 \<le> sqrt ((axX pos / 1000) * (axX pos / 1000) + (axY pos / 1000) * (axY pos / 1000))"
  shows "\<exists>b. transform_to_cartesian t (fst (transform_from_cartesian t' pos s)) = t
     \<lparr>axX := axX pos, axY := axY pos, axZ := axZ pos, axA := axA pos, axB := b\<rparr>"
proof -
  let ?px = "axX pos / 1000" and ?py = "axY pos / 1000"
  let ?q4 = "axA pos * DEG2RAD"
  let ?l = "ik_branch_loop 2 0 ?px ?py ?q4 (0, 0, False)"
  obtain g where g: "g = sqrt (?px * ?px + ?py * ?py) \<or> g = - sqrt (?px * ?px + ?py * ?py)"
    and q1: "fst ?l = fst (ik_candidate ?px ?py ?q4 g)"
    and q3: "fst (snd ?l) = snd (ik_candidate ?px ?py ?q4 g)"
    by (rule ik_branch_loop_gamma)
  have xy: "g * cos (fst ?l) = ?px" "g * sin (fst ?l) = ?py"
    using ik_candidate_point [OF g assms(2), of ?q4] q1 by simp_all
  have gam: "fst (snd ?l) + D * cos ?q4 - L1 + L3 = g"
    using q3 by (simp add: ik_candidate_def)
  note m = ik_motors [OF assms(1), unfolded Let_def]
  have z: "((axZ pos / 1000 - L2 + D * sin ?q4) * 1000 / 1000 + L2 - D * sin ?q4) * 1000 = axZ pos"
    by (simp add: algebra_simps add_divide_distrib diff_divide_distrib)
  have gam': "fst (snd ?l) * 1000 / 1000 + D * cos ?q4 - L1 + L3 = g"
    using gam by simp
  show ?thesis
    unfolding m fk_motors Let_def z gam' xy by (rule exI [of _ "fst ?l / DEG2RAD"]) simp
qed

theorem fk_after_ik_witness:
  "\<exists>b. transform_to_cartesian origin (fst (transform_from_cartesian origin
       \<lparr>axX = 100, axY = 50, axZ = 80, axA = 10, axB = 0\<rparr>
       fresh))
   = origin\<lparr>axX := 100, axY := 50, axZ := 80, axA := 10, axB := b\<rparr>"
proof -
  have "1 / 10 ^ 9 \<le> sqrt ((100 / 1000) * (100 / 1000) + (50 / 1000) * (50 / 1000) :: real)"
    by (rule real_le_rsqrt) (simp add: power2_eq_square)
  then show ?thesis
    using fk_after_ik [of "fresh" "\<lparr>axX = 100, axY = 50, axZ = 80, axA = 10, axB = 0\<rparr>" origin origin] by simp
qed

text \<open>
  C2. The limit flag is exact: after the inverse kinematics of any Cartesian target,
  \<open>joint_limit_violation\<close> is set precisely when the motor coordinates handed to the planner put
  \<open>q2\<close> or \<open>q3\<close>, or the target puts \<open>q4\<close>, outside its limits. The base angle never causes a
  rejection: the value \<open>atan2f\<close> returns always passes its check.
\<close>

theorem ik_violation_exact:
  assumes "\<not> joint_mode s"
  shows "case transform_from_cartesian t pos s of (m, s') \<Rightarrow>
     q1_in (axA m) \<and>
     (joint_limit_violation s' \<longleftrightarrow>
        \<not> (q23_in (axZ m) \<and> q23_in (- (axX m + axY m) * 0.5) \<and> q4_in (axA pos * DEG2RAD)))"
proof -
  have q1: "q1_in (fst (ik_branch_loop 2 0 px py q4 (0, 0, False)))" for px py q4
    by (rule ik_branch_loop_gamma [of px py q4]) (simp add: q1_in_candidate)
  then show ?thesis
    using assms by (simp add: transform_from_cartesian_def Let_def case_prod_beta mult.commute)
qed

theorem ik_violation_exact_witness:
  "case transform_from_cartesian origin \<lparr>axX = 0, axY = 0, axZ = 500, axA = 0, axB = 0\<rparr>
       fresh of
     (m, s') \<Rightarrow> q1_in (axA m) \<and> (joint_limit_violation s' \<longleftrightarrow>
       \<not> (q23_in (axZ m) \<and> q23_in (- (axX m + axY m) * 0.5) \<and> q4_in (0 * DEG2RAD)))"
  using ik_violation_exact [where pos = "\<lparr>axX = 0, axY = 0, axZ = 500, axA = 0, axB = 0\<rparr>"
    and s = "fresh"] by simp

text \<open>
  C3. The inverse kinematics undoes the forward kinematics on the poses with the tool on the
  near side of the base (the signed reach is negative): motor coordinates come back unchanged.
\<close>

theorem ik_after_fk:
  assumes "\<not> joint_mode s"
    and "- pi < q1" "q1 \<le> pi" "q23_in q3" "reach q3 q4 \<le> - 1 / 10 ^ 9"
  shows "fst (transform_from_cartesian t (transform_to_cartesian t' (motors q1 q2 q3 q4 b)) s)
     = motors q1 q2 q3 q4 (axB t)"
proof (rule ik_of_fk [OF assms(1)])
  let ?g = "reach q3 q4"
  have neg: "?g \<le> 0" "1 / 10 ^ 9 \<le> \<bar>?g\<bar>" using assms(5) by simp_all
  have q3: "?g - D * cos (q4 * DEG2RAD) + L1 - L3 = q3 / 1000" by (simp add: reach_def)
  have c: "ik_candidate (?g * cos q1) (?g * sin q1) (q4 * DEG2RAD) ?g = (q1, q3 / 1000)"
    using ik_candidate_same [OF assms(2,3) neg(2), of "q4 * DEG2RAD"] q3 by simp
  then have "cand_ok (ik_candidate (?g * cos q1) (?g * sin q1) (q4 * DEG2RAD) ?g)"
    using assms(4) q1_in_candidate [of "?g * cos q1" "?g * sin q1" "q4 * DEG2RAD" ?g]
    by (simp add: cand_ok_pair)
  with c neg(1) show "ik_branch_loop 2 0 (?g * cos q1) (?g * sin q1) (q4 * DEG2RAD) (0, 0, False)
      = (q1, q3 / 1000, True)"
    by (simp add: ik_branch_loop_eq sqrt_reach Let_def)
qed

theorem ik_after_fk_witness:
  "fst (transform_from_cartesian origin (transform_to_cartesian origin (motors 1 10 0 0 0))
     fresh) = motors 1 10 0 0 (axB origin)"
  by (rule ik_after_fk) (use pi_ge_two in \<open>simp_all add: reach_def q23_in_def inspector_consts\<close>)

text \<open>
  On the far side of the base (positive reach) the inverse kinematics does not return to the
  same joints: whenever \<open>q3\<close> retracted by twice the reach is inside its limits, the negative branch
  is taken first, and the pose is reached with the base swung by half a turn.
\<close>

theorem ik_branch_flip:
  assumes "\<not> joint_mode s"
    and "- pi < q1" "q1 \<le> 0" "1 / 10 ^ 9 \<le> reach q3 q4" "q23_in (q3 - 2000 * reach q3 q4)"
  shows "fst (transform_from_cartesian t (transform_to_cartesian t' (motors q1 q2 q3 q4 b)) s)
     = motors (q1 + pi) q2 (q3 - 2000 * reach q3 q4) q4 (axB t)"
proof (rule ik_of_fk [OF assms(1)])
  let ?g = "reach q3 q4"
  have pos: "0 \<le> ?g" "1 / 10 ^ 9 \<le> \<bar>- ?g\<bar>" using assms(4) order_trans [of 0 "1 / 10 ^ 9" ?g] by simp_all
  have q3: "- ?g - D * cos (q4 * DEG2RAD) + L1 - L3 = (q3 - 2000 * ?g) / 1000"
    by (simp add: reach_def field_simps)
  have c: "ik_candidate (?g * cos q1) (?g * sin q1) (q4 * DEG2RAD) (- ?g)
      = (q1 + pi, (q3 - 2000 * ?g) / 1000)"
    using ik_candidate_same [of "q1 + pi" "- ?g" "q4 * DEG2RAD"] assms(2,3) pos(2) q3 by simp
  then have "cand_ok (ik_candidate (?g * cos q1) (?g * sin q1) (q4 * DEG2RAD) (- ?g))"
    using assms(5) q1_in_candidate [of "?g * cos q1" "?g * sin q1" "q4 * DEG2RAD" "- ?g"]
    by (simp add: cand_ok_pair diff_divide_distrib)
  with c pos(1) show "ik_branch_loop 2 0 (?g * cos q1) (?g * sin q1) (q4 * DEG2RAD) (0, 0, False)
      = (q1 + pi, (q3 - 2000 * ?g) / 1000, True)"
    by (simp add: ik_branch_loop_eq sqrt_reach Let_def)
qed

theorem ik_branch_flip_witness:
  "fst (transform_from_cartesian origin (transform_to_cartesian origin (motors 0 0 120 0 0))
     fresh) = motors (0 + pi) 0 (120 - 2000 * reach 120 0) 0 (axB origin)"
  by (rule ik_branch_flip) (use pi_gt_zero in \<open>simp_all add: reach_def q23_in_def inspector_consts\<close>)

text \<open>
  One planner move per line: the initialising call of the segmentation callback returns the
  motor coordinates of the target and flags the planner data as validated and invalid exactly
  when the joints are out of limits; the calls that follow hand the planner that one target and
  then \<open>NULL\<close>.
\<close>

theorem segment_line_one_target:
  "case inspector_segment_line target (Some pd) True s of (t, pd', s') \<Rightarrow>
     t = Some (fst (transform_from_cartesian (trsf s) target (s\<lparr>iterations := 2\<rparr>))) \<and>
     pd' = Some (if joint_limit_violation s'
                 then pd\<lparr>target_validated := True, target_valid := False\<rparr> else pd) \<and>
     (case segment_targets 2 target s' of
        None \<Rightarrow> False
      | Some (ts, s'') \<Rightarrow> ts = [the t] \<and> trsf s'' = the t)"
proof -
  have it: "iterations (snd (transform_from_cartesian a b c)) = iterations c" for a b c
    by (simp add: transform_from_cartesian_def Let_def case_prod_beta)
  show ?thesis
    by (simp add: inspector_segment_line_def Let_def case_prod_beta it numeral_2_eq_2)
qed



end
