(* ===== verification/StateMachine.thy ===== *)
theory StateMachine
  imports Override Codes "HOL-Library.Monad_Syntax"
begin

text \<open>
  \<open>grbl/state_machine.c\<close>: the controller's state machine. Every state handler, \<open>state_set\<close>,
  \<open>initiate_hold\<close> and \<open>state_suspend_manager\<close> is a definition of its own, on one record
  \<open>machine\<close> that holds the module's static variables, the fields of \<open>sys\<close>, \<open>gc_state\<close> and
  \<open>settings\<close> it uses and what it sees of the hardware. The handlers call each other through
  \<open>stateHandler\<close>: each takes the dispatcher as its first argument, and \<open>sm_call\<close> ties the
  knot with fuel. Reports and calls into the stepper and planner modules are recorded as events.
  \<open>N_SYS_SPINDLE\<close> is 1, so a loop over the spindles is its single iteration.
\<close>

section \<open>State\<close>

datatype handler =
    StIdle | StCycle | StAwaitHold | StNoop | StAwaitMotionCancel | StAwaitResume
  | StAwaitToolchanged | StAwaitWaypointRetract | StRestore | StAwaitResumed
  | StAwaitRestartRetract

datatype parking_state =
  Parking_DoorClosed | Parking_DoorAjar | Parking_Retracting | Parking_Cancel | Parking_Resuming

datatype hold_state = Hold_NotHolding | Hold_Complete | Hold_Pending

definition step_control_0 :: step_control where
  "step_control_0 = \<lparr>end_motion = False, execute_hold = False, execute_sys_motion = False,
     update_spindle_rpm = False\<rparr>"

record spindle_stop =
  ss_enabled :: bool
  ss_initiate :: bool
  ss_restore :: bool
  ss_restore_cycle :: bool

definition spindle_stop_0 :: spindle_stop where
  "spindle_stop_0 = \<lparr>ss_enabled = False, ss_initiate = False, ss_restore = False,
     ss_restore_cycle = False\<rparr>"

record spindle_state =
  sp_on :: bool
  sp_ccw :: bool
  sp_synchronized :: bool

definition spindle_state_0 :: spindle_state where
  "spindle_state_0 = \<lparr>sp_on = False, sp_ccw = False, sp_synchronized = False\<rparr>"

text \<open>\<open>spindle_t\<close>; a spindle's HAL is the number of the spindle, \<open>None\<close> the null pointer.\<close>

record spindle_t =
  sp_hal :: "nat option"
  sp_rpm :: real
  sp_state :: spindle_state

record plan_block =
  pb_spindle :: spindle_t
  pb_coolant :: u8
  pb_units_per_rev :: bool

record park_plan_data =
  pd_feed_rate :: real
  pd_coolant :: u8
  pd_spindle :: spindle_t
  pd_system_motion :: bool
  pd_no_feed_override :: bool
  pd_line_number :: nat

record parking_data =
  pk_target :: "real list"
  pk_restore_target :: "real list"
  pk_retract_waypoint :: real
  pk_active :: bool
  pk_motion :: bool
  pk_restart :: bool
  pk_restoring :: bool
  pk_plan_data :: park_plan_data

record sys_t =
  sys_abort :: bool
  sys_cancel :: bool
  suspend :: bool
  steppers_deenergize :: bool
  blocking_event :: bool
  driver_started :: bool
  soft_limit :: bool
  feed_hold_pending :: bool
  is_homing :: bool
  is_parking :: bool
  step_ctrl :: step_control
  spindle_stop_ovr :: spindle_stop
  feed_hold_disable :: bool
  ovr_sync :: bool
  parking_disable :: bool
  parking_st :: parking_state
  holding_st :: hold_state
  rt_exec_state :: rt_exec
  rt_exec_alarm :: u32
  sys_alarm :: alarm_code
  alarm_pending :: alarm_code
  homed_mask :: u8
  probing_active :: bool

record sm_settings =
  parking_enabled :: bool
  parking_axis :: nat
  parking_target :: real
  parking_rate :: real
  pullout_rate :: real
  pullout_increment :: real
  laser_mode :: bool
  keep_coolant_on :: bool
  disable_laser_during_hold :: bool
  restore_after_feed_hold :: bool

datatype sm_message =
    Message_None | Message_SafetyDoorAjar | Message_SleepMode | Message_SpindleRestore

datatype sm_event =
    EvStateChange sys_state
  | EvFeedback sm_message
  | EvAlarmMessage alarm_code
  | EvStGoIdle
  | EvPlanParams bool  \<comment> \<open>\<open>st_update_plan_block_parameters\<close>\<close>
  | EvPrepBuffer
  | EvWakeUp
  | EvParkingMotion "real list" park_plan_data
  | EvParkingRestoreBuffer
  | EvPlanReset
  | EvStReset
  | EvSyncPosition
  | EvPlanReinit
  | EvSuspendRead bool
  | EvToolChanged
  | EvSpindleProgrammed nat spindle_state real
  | EvSpindleAllOff
  | EvGcSpindleOff
  | EvOverrideChanged

text \<open>
  What the machine sees of the hardware and of the other modules: the current block of the
  planner, the programmed spindle and coolant of the parser, spindle and coolant outputs, the
  door switch, the machine position, whether the planner accepts a parking move, the readings of
  the index counter and clock while it waits for a synchronised spindle, and the realtime requests
  that arrive during each power-up delay of the spindle.
\<close>

record env =
  cur_block :: "plan_block option"
  gc_spindle :: spindle_t
  gc_coolant_modal :: u8
  tool_change :: bool
  spindle_hw :: "nat \<Rightarrow> spindle_state"
  spindle_param_rpm :: "nat \<Rightarrow> real"
  spindle_rpm0 :: bool
  spindle_laser :: "nat \<Rightarrow> bool"
  coolant_hw :: u8
  door_ajar :: bool
  probe_triggered :: bool
  cur_mpos :: "real list"
  plan_accepts :: "real list \<Rightarrow> park_plan_data \<Rightarrow> bool"
  sync_first :: u32
  sync_obs :: "(u32 \<times> u32 \<times> rt_exec) list"
  delay_events :: "rt_exec list list"

record machine =
  handler :: handler
  sm_state :: sys_state
  pending_state :: sys_state
  rc_coolant :: u8
  rc_spindle :: spindle_t
  park :: parking_data
  sys :: sys_t
  env :: env
  settings :: sm_settings
  overrides :: override_state
  null_deref :: bool
  events :: "sm_event list"

datatype smcall = SetState sys_state | Handler rt_exec | AwaitHold rt_exec | Update rt_exec

type_synonym sm = "machine \<Rightarrow> machine option"
type_synonym dispatcher = "smcall \<Rightarrow> sm"

abbreviation istrue :: "u32 \<Rightarrow> u32 \<Rightarrow> bool" where
  "istrue x msk \<equiv> x AND msk \<noteq> 0"

definition emit :: "sm_event list \<Rightarrow> machine \<Rightarrow> machine" where
  "emit es m = m\<lparr>events := events m @ es\<rparr>"

definition upd_sys :: "(sys_t \<Rightarrow> sys_t) \<Rightarrow> machine \<Rightarrow> machine" where
  "upd_sys f m = m\<lparr>sys := f (sys m)\<rparr>"

definition upd_env :: "(env \<Rightarrow> env) \<Rightarrow> machine \<Rightarrow> machine" where
  "upd_env f m = m\<lparr>env := f (env m)\<rparr>"

definition upd_park :: "(parking_data \<Rightarrow> parking_data) \<Rightarrow> machine \<Rightarrow> machine" where
  "upd_park f m = m\<lparr>park := f (park m)\<rparr>"

definition set_handler :: "handler \<Rightarrow> machine \<Rightarrow> machine" where
  "set_handler h m = m\<lparr>handler := h\<rparr>"

text \<open>Reading through the HAL pointer of a spindle; a null pointer is recorded.\<close>

definition deref :: "nat option \<Rightarrow> machine \<Rightarrow> machine" where
  "deref h m = (if h = None then m\<lparr>null_deref := True\<rparr> else m)"

definition hal_on :: "nat option \<Rightarrow> machine \<Rightarrow> bool" where
  "hal_on h m = (case h of None \<Rightarrow> False | Some n \<Rightarrow> sp_on (spindle_hw (env m) n))"

definition hal_laser :: "nat option \<Rightarrow> machine \<Rightarrow> bool" where
  "hal_laser h m = (case h of None \<Rightarrow> False | Some n \<Rightarrow> spindle_laser (env m) n)"

definition system_set_exec_state_flag :: "rt_exec \<Rightarrow> machine \<Rightarrow> machine" where
  "system_set_exec_state_flag flags =
     upd_sys (\<lambda>s. s\<lparr>rt_exec_state := rt_exec_state s OR flags\<rparr>)"

definition system_set_exec_alarm :: "alarm_code \<Rightarrow> machine \<Rightarrow> machine" where
  "system_set_exec_alarm a = upd_sys (\<lambda>s. s\<lparr>rt_exec_alarm := ucast a\<rparr>)"

section \<open>Functions of other modules\<close>

text \<open>\<open>spindle_all_off\<close> (\<open>spindle_control.c\<close>), with the one system spindle.\<close>

definition spindle_all_off :: "machine \<Rightarrow> machine" where
  "spindle_all_off m =
     emit [EvSpindleAllOff]
       (upd_env (\<lambda>e. e\<lparr>spindle_hw := (case sp_hal (gc_spindle e) of
            None \<Rightarrow> spindle_hw e | Some h \<Rightarrow> (spindle_hw e)(h := spindle_state_0)),
          spindle_param_rpm := (case sp_hal (gc_spindle e) of
            None \<Rightarrow> spindle_param_rpm e | Some h \<Rightarrow> (spindle_param_rpm e)(h := 0))\<rparr>) m)"

definition coolant_set_hw :: "u8 \<Rightarrow> machine \<Rightarrow> machine" where
  "coolant_set_hw c = upd_env (\<lambda>e. e\<lparr>coolant_hw := c\<rparr>)"

definition gc_coolant :: "u8 \<Rightarrow> machine \<Rightarrow> machine" where
  "gc_coolant c m = coolant_set_hw c (upd_env (\<lambda>e. e\<lparr>gc_coolant_modal := c\<rparr>) m)"

definition gc_spindle_off :: "machine \<Rightarrow> machine" where
  "gc_spindle_off m =
     emit [EvGcSpindleOff]
       (spindle_all_off (upd_env (\<lambda>e. e\<lparr>gc_spindle :=
          (gc_spindle e)\<lparr>sp_rpm := 0, sp_state := spindle_state_0\<rparr>\<rparr>) m))"

definition feedback_message :: "sm_message \<Rightarrow> machine \<Rightarrow> machine" where
  "feedback_message msg = emit [EvFeedback msg]"

text \<open>
  The realtime requests that arrive while \<open>delay_sec\<close> waits are handled by nested calls of
  \<open>state_update\<close>.
\<close>

fun run_updates :: "dispatcher \<Rightarrow> rt_exec list \<Rightarrow> sm" where
  "run_updates call [] m = Some m"
| "run_updates call (rt # rts) m = Option.bind (call (Update rt) m) (run_updates call rts)"

definition delay_sec :: "dispatcher \<Rightarrow> sm" where
  "delay_sec call m =
     (case delay_events (env m) of
        [] \<Rightarrow> Some m
      | rts # rest \<Rightarrow> run_updates call rts (upd_env (\<lambda>e. e\<lparr>delay_events := rest\<rparr>) m))"

text \<open>
  \<open>_spindle_set_state\<close> and \<open>spindle_restore\<close>, without ramping: an abort blocks the change; a laser
  gets its power when the cycle starts; another spindle is set and waited for, unless it already
  is in the state wanted.
\<close>

definition spindle_set_state :: "nat \<Rightarrow> spindle_state \<Rightarrow> real \<Rightarrow> machine \<Rightarrow> bool \<times> machine" where
  "spindle_set_state h st rpm m =
     (if sys_abort (sys m) \<or> sys_cancel (sys m) then (False, m)
      else (True, upd_env (\<lambda>e. e
        \<lparr>spindle_hw := (spindle_hw e)(h := if sp_on st then st else spindle_state_0),
         spindle_param_rpm := (spindle_param_rpm e)(h := if sp_on st then rpm else 0)\<rparr>) m))"

definition spindle_restore :: "dispatcher \<Rightarrow> nat \<Rightarrow> spindle_state \<Rightarrow> real \<Rightarrow> sm" where
  "spindle_restore call h st rpm m =
     (if spindle_laser (env m) h then
        let (ok, m) = spindle_set_state h st 0 m
        in Some (upd_sys (\<lambda>s. s\<lparr>step_ctrl := (step_ctrl s)\<lparr>update_spindle_rpm := ok\<rparr>\<rparr>) m)
      else if (let hw = spindle_hw (env m) h
               in sp_on hw = sp_on st \<and> sp_ccw hw = sp_ccw st \<and> spindle_param_rpm (env m) h = rpm)
      then Some m
      else if sm_state m = STATE_CHECK_MODE then Some m
      else let (ok, m) = spindle_set_state h st rpm m in if ok then delay_sec call m else Some m)"

definition coolant_restore :: "dispatcher \<Rightarrow> u8 \<Rightarrow> sm" where
  "coolant_restore call mode m =
     (if mode \<noteq> coolant_hw (env m)
      then (if mode \<noteq> 0 then delay_sec call (coolant_set_hw mode m)
            else Some (coolant_set_hw mode m))
      else Some m)"

text \<open>\<open>mc_parking_motion\<close> (\<open>motion_control.c\<close>).\<close>

definition mc_parking_motion :: "real list \<Rightarrow> park_plan_data \<Rightarrow> machine \<Rightarrow> bool \<times> machine" where
  "mc_parking_motion target pd m =
     (if sys_abort (sys m) then (False, m)
      else if plan_accepts (env m) target pd
      then (True, emit [EvParkingMotion target pd, EvPrepBuffer, EvWakeUp]
        (upd_sys (\<lambda>s. s\<lparr>step_ctrl := (step_ctrl s)\<lparr>execute_sys_motion := True, end_motion := False\<rparr>\<rparr>) m))
      else (False, m))"

text \<open>\<open>system_raise_alarm\<close> (\<open>system.c\<close>).\<close>

definition system_raise_alarm :: "dispatcher \<Rightarrow> alarm_code \<Rightarrow> sm" where
  "system_raise_alarm call alarm m =
     (if sm_state m = STATE_HOMING \<and> \<not> istrue (rt_exec_state (sys m)) EXEC_RESET
      then Some (system_set_exec_alarm alarm m)
      else if sys_alarm (sys m) \<noteq> alarm then
        if \<not> (sm_state m = STATE_ESTOP \<or> blocking_event (sys m)) then
          let m = upd_sys (\<lambda>s. s\<lparr>sys_alarm := alarm,
                    alarm_pending := if alarm = alarm_pending s then Alarm_None else alarm_pending s,
                    blocking_event := alarm_is_critical alarm\<rparr>) m
          in Option.bind
               (call (SetState (if alarm = Alarm_EStop then STATE_ESTOP else STATE_ALARM)) m)
               (\<lambda>m. Some (if driver_started (sys m) \<or> sys_alarm (sys m) = Alarm_SelftestFailed
                          then emit [EvAlarmMessage alarm] m else m))
        else Some (upd_sys (\<lambda>s. s\<lparr>alarm_pending := alarm\<rparr>) m)
      else Some m)"

section \<open>Restore conditions and sleep\<close>

definition state_spindle_restore :: "dispatcher \<Rightarrow> spindle_t \<Rightarrow> sm" where
  "state_spindle_restore call sp m =
     (case sp_hal sp of
        None \<Rightarrow> Some m
      | Some h \<Rightarrow>
          spindle_restore call h (sp_state sp) (sp_rpm sp)
            (emit [EvSpindleProgrammed h (sp_state sp) (sp_rpm sp)] m))"

definition state_restore_conditions :: "dispatcher \<Rightarrow> sm" where
  "state_restore_conditions call m =
     (if \<not> parking_enabled (settings m) \<or> \<not> pk_restart (park m) then
        let m = upd_park (\<lambda>p. p\<lparr>pk_restoring := True\<rparr>) m
        in Option.bind (state_spindle_restore call (rc_spindle m) m) (\<lambda>m.
           Option.bind
             (if gc_coolant_modal (env m) \<noteq> coolant_hw (env m)
              then Option.bind (coolant_restore call (rc_coolant m) m)
                     (\<lambda>m. Some (gc_coolant (rc_coolant m) m))
              else Some m) (\<lambda>m.
           Some (upd_sys (\<lambda>s. s\<lparr>spindle_stop_ovr := spindle_stop_0\<rparr>)
                  (upd_park (\<lambda>p. p\<lparr>pk_restoring := False\<rparr>) m))))
      else Some m)"

definition enter_sleep :: "machine \<Rightarrow> machine" where
  "enter_sleep m =
     set_handler StNoop
       (feedback_message Message_SleepMode
         (coolant_set_hw 0 (spindle_all_off (emit [EvStGoIdle] m))))"

section \<open>Feed hold and state changes\<close>

definition CMD_OVERRIDE_SPINDLE_STOP :: u8 where
  "CMD_OVERRIDE_SPINDLE_STOP = 0x9E"

definition PARKING_MOTION_LINE_NUMBER :: nat where
  "PARKING_MOTION_LINE_NUMBER = 0"

text \<open>The part of \<open>plan_data_init\<close> (\<open>planner.c\<close>) the parking moves use, with the fields set by \<open>initiate_hold\<close>.\<close>

definition park_plan_init :: "machine \<Rightarrow> park_plan_data" where
  "park_plan_init m =
     \<lparr>pd_feed_rate = 0, pd_coolant = 0,
      pd_spindle = \<lparr>sp_hal = sp_hal (gc_spindle (env m)), sp_rpm = 0, sp_state = spindle_state_0\<rparr>,
      pd_system_motion = True, pd_no_feed_override = True,
      pd_line_number = PARKING_MOTION_LINE_NUMBER\<rparr>"

text \<open>The conditions stored for the resume: those of the current block, else the programmed ones.\<close>

definition hold_spindle :: "machine \<Rightarrow> spindle_t" where
  "hold_spindle m =
     (let sp = gc_spindle (env m);
          stored = (if sp_hal sp \<noteq> None then sp else (rc_spindle m)\<lparr>sp_hal := None\<rparr>)
      in case cur_block (env m) of
           None \<Rightarrow> stored
         | Some b \<Rightarrow> if sp_hal (pb_spindle b) = sp_hal sp then pb_spindle b else stored)"

definition hold_coolant :: "machine \<Rightarrow> u8" where
  "hold_coolant m =
     (case cur_block (env m) of
        Some b \<Rightarrow> pb_coolant b
      | None \<Rightarrow> gc_coolant_modal (env m) OR coolant_hw (env m))"

definition initiate_hold :: "sys_state \<Rightarrow> machine \<Rightarrow> bool \<times> machine" where
  "initiate_hold new_state m =
     (let m = (if parking_enabled (settings m)
               then upd_park (\<lambda>p. p\<lparr>pk_plan_data := park_plan_init m\<rparr>) m else m);
          m = m\<lparr>rc_spindle := hold_spindle m, rc_coolant := hold_coolant m\<rparr>;
          m = deref (sp_hal (rc_spindle m)) m;
          m = (if hal_laser (sp_hal (rc_spindle m)) m \<and> disable_laser_during_hold (settings m)
               then m\<lparr>overrides := enqueue_spindle_override CMD_OVERRIDE_SPINDLE_STOP (overrides m)\<rparr>
               else m);
          m = (if istrue (sm_state m) (STATE_CYCLE OR STATE_JOG)
               then set_handler StAwaitHold (emit [EvPlanParams False]
                      (upd_sys (\<lambda>s. s\<lparr>step_ctrl := (step_ctrl s)\<lparr>execute_hold := True\<rparr>\<rparr>) m))
               else m);
          m = (if new_state = STATE_HOLD
               then upd_sys (\<lambda>s. s\<lparr>holding_st := Hold_Pending\<rparr>) m
               else upd_park (\<lambda>p. p\<lparr>pk_active := False, pk_motion := False, pk_restart := False,
                                    pk_restoring := False\<rparr>)
                      (upd_sys (\<lambda>s. s\<lparr>parking_st := Parking_Retracting\<rparr>) m));
          m = upd_sys (\<lambda>s. s\<lparr>suspend := \<not> soft_limit s\<rparr>) m;
          m = m\<lparr>pending_state := (if sm_state m = STATE_JOG then new_state else STATE_IDLE)\<rparr>
      in (sm_state m = STATE_CYCLE, m))"

definition state_door_reopened :: "machine \<Rightarrow> bool" where
  "state_door_reopened m \<longleftrightarrow> parking_enabled (settings m) \<and> pk_restart (park m)"

definition state_get_substate :: "machine \<Rightarrow> int" where
  "state_get_substate m =
     (if sm_state m = STATE_CYCLE then
        (if feed_hold_pending (sys m) then 1
         else if probing_active (sys m) \<or> probe_triggered (env m) then 2 else 0)
      else if sm_state m = STATE_HOLD then
        (case holding_st (sys m) of Hold_NotHolding \<Rightarrow> 255 | Hold_Complete \<Rightarrow> 0 | Hold_Pending \<Rightarrow> 1)
      else if sm_state m = STATE_ESTOP \<or> sm_state m = STATE_ALARM then uint (sys_alarm (sys m))
      else if sm_state m = STATE_SAFETY_DOOR then
        (case parking_st (sys m) of Parking_DoorClosed \<Rightarrow> 0 | Parking_DoorAjar \<Rightarrow> 1
           | Parking_Retracting \<Rightarrow> 2 | Parking_Cancel \<Rightarrow> 3 | Parking_Resuming \<Rightarrow> 4)
      else 0)"

text \<open>
  The wait for two index pulses of a synchronised spindle: each observation is the index count,
  the milliseconds since the start of the wait and the realtime flags. No observation left means
  that the wait has not ended.
\<close>

datatype sync_result = SyncOk | SyncTimeout | SyncReset rt_exec

fun sync_wait :: "u32 \<Rightarrow> (u32 \<times> u32 \<times> rt_exec) list \<Rightarrow> sync_result option" where
  "sync_wait index [] = None"
| "sync_wait index ((count, ms, rt) # obs) =
     (if index = count then Some SyncOk
      else if ms > 5000 then Some SyncTimeout
      else if istrue rt (EXEC_RESET OR EXEC_STOP) then Some (SyncReset rt)
      else sync_wait index obs)"

text \<open>The statements after the switch of \<open>state_set\<close>; the early returns skip them.\<close>

definition state_set_end :: "sys_state \<Rightarrow> machine \<Rightarrow> machine" where
  "state_set_end org_state m =
     (let m = upd_sys (\<lambda>s. s\<lparr>is_homing := (sm_state m = STATE_HOMING)\<rparr>) m;
          m = (if \<not> istrue (sm_state m) (STATE_ALARM OR STATE_ESTOP)
               then upd_sys (\<lambda>s. s\<lparr>sys_alarm := Alarm_None\<rparr>) m else m)
      in if sm_state m \<noteq> org_state then emit [EvStateChange (sm_state m)] m else m)"

definition state_set_idle :: "machine \<Rightarrow> machine" where
  "state_set_idle m =
     (let m = upd_sys (\<lambda>s. s\<lparr>suspend := False, step_ctrl := step_control_0,
                parking_st := Parking_DoorClosed, holding_st := Hold_NotHolding\<rparr>) m;
          m = m\<lparr>sm_state := STATE_IDLE, pending_state := STATE_IDLE\<rparr>;
          m = upd_park (\<lambda>p. p\<lparr>pk_active := False, pk_motion := False, pk_restart := False,
                              pk_restoring := False\<rparr>) m;
          m = set_handler StIdle m
      in if feed_hold_pending (sys m)
         then system_set_exec_state_flag EXEC_FEED_HOLD (m\<lparr>pending_state := STATE_HOLD\<rparr>)
         else m)"

text \<open>The result says whether the case ended with an early return.\<close>

definition state_set_cycle :: "dispatcher \<Rightarrow> machine \<Rightarrow> (bool \<times> machine) option" where
  "state_set_cycle call m =
     (if sm_state m \<noteq> STATE_IDLE then Some (False, m)
      else case cur_block (env m) of
          None \<Rightarrow> Some (False, m)
        | Some block \<Rightarrow>
            let m = emit [EvPrepBuffer] (upd_sys (\<lambda>s. s\<lparr>steppers_deenergize := False\<rparr>)
                      (m\<lparr>sm_state := STATE_CYCLE\<rparr>));
                start = (\<lambda>m. Some (False, set_handler StCycle (emit [EvWakeUp] m)))
            in if sp_synchronized (sp_state (pb_spindle block)) then
                 let m = deref (sp_hal (pb_spindle block)) m
                 in if \<not> pb_units_per_rev block then
                      (case sync_wait (sync_first (env m) + 2) (sync_obs (env m)) of
                         None \<Rightarrow> None
                       | Some SyncOk \<Rightarrow> start m
                       | Some SyncTimeout \<Rightarrow>
                           Option.bind (system_raise_alarm call Alarm_Spindle m) (\<lambda>m. Some (True, m))
                       | Some (SyncReset rt) \<Rightarrow>
                           Some (True, upd_sys (\<lambda>s. s\<lparr>rt_exec_state := rt OR EXEC_RESET\<rparr>) m))
                    else if spindle_rpm0 (env m) then
                      Option.bind (system_raise_alarm call Alarm_Spindle m) (\<lambda>m. Some (True, m))
                    else start m
               else start m)"

definition state_set_hold :: "machine \<Rightarrow> machine" where
  "state_set_hold m =
     (if \<not> (istrue (sm_state m) STATE_JOG \<or> feed_hold_disable (sys m)) \<or>
         (pending_state m = STATE_HOLD \<and> feed_hold_pending (sys m)) then
        let (decelerating, m) = initiate_hold STATE_HOLD m;
            m = (if \<not> decelerating
                 then set_handler StAwaitResume (upd_sys (\<lambda>s. s\<lparr>holding_st := Hold_Complete\<rparr>) m)
                 else m)
        in upd_sys (\<lambda>s. s\<lparr>feed_hold_pending := False\<rparr>) (m\<lparr>sm_state := STATE_HOLD\<rparr>)
      else if ovr_sync (sys m) \<and> feed_hold_disable (sys m)
      then upd_sys (\<lambda>s. s\<lparr>feed_hold_pending := True\<rparr>) m
      else m)"

definition state_set_park :: "dispatcher \<Rightarrow> sys_state \<Rightarrow> sm" where
  "state_set_park call new_state m =
     (let m = upd_sys (\<lambda>s. s\<lparr>parking_st := Parking_Retracting\<rparr>) m;
          (decelerating, m) = initiate_hold new_state m
      in Option.bind
           (if \<not> decelerating
            then (if pending_state m \<noteq> new_state
                  then call (AwaitHold EXEC_CYCLE_COMPLETE) (m\<lparr>sm_state := new_state\<rparr>)
                  else Some m)
            else Some (m\<lparr>sm_state := new_state\<rparr>))
           (\<lambda>m. Some (if sm_state m = STATE_SLEEP \<and> handler m \<noteq> StAwaitWaypointRetract
                      then enter_sleep m else m)))"

definition state_set :: "dispatcher \<Rightarrow> sys_state \<Rightarrow> sm" where
  "state_set call new_state m =
     (if new_state = sm_state m then Some m
      else
        let org = sm_state m; finish = (\<lambda>m. Some (state_set_end org m))
        in if new_state = STATE_IDLE then finish (state_set_idle m)
           else if new_state = STATE_CYCLE then
             Option.bind (state_set_cycle call m)
               (\<lambda>(returned, m). if returned then Some m else finish m)
           else if new_state = STATE_JOG then
             finish (set_handler StCycle
               ((if sm_state m = STATE_TOOL_CHANGE then m\<lparr>pending_state := STATE_TOOL_CHANGE\<rparr> else m)
                  \<lparr>sm_state := new_state\<rparr>))
           else if new_state = STATE_TOOL_CHANGE then
             finish (set_handler StAwaitToolchanged (m\<lparr>sm_state := new_state\<rparr>))
           else if new_state = STATE_HOLD then finish (state_set_hold m)
           else if new_state = STATE_SAFETY_DOOR then
             if istrue (sm_state m) (STATE_ALARM OR STATE_ESTOP OR STATE_SLEEP OR STATE_CHECK_MODE)
             then Some m
             else Option.bind
                    (state_set_park call new_state (feedback_message Message_SafetyDoorAjar m)) finish
           else if new_state = STATE_SLEEP then
             Option.bind (state_set_park call new_state m) finish
           else if new_state = STATE_ALARM \<or> new_state = STATE_ESTOP \<or> new_state = STATE_HOMING \<or>
             new_state = STATE_CHECK_MODE then
             finish (set_handler StNoop
               (upd_sys (\<lambda>s. s\<lparr>suspend := False\<rparr>) (m\<lparr>sm_state := new_state\<rparr>)))
           else finish m)"

text \<open>The suspend manager: spindle overrides while the machine is held.\<close>

definition state_suspend_manager :: "dispatcher \<Rightarrow> sm" where
  "state_suspend_manager call m =
     (if handler m \<noteq> StAwaitResume \<or> \<not> sp_on (sp_state (gc_spindle (env m))) then Some m
      else
        let stop = spindle_stop_ovr (sys m); sp = rc_spindle m
        in if stop \<noteq> spindle_stop_0 then
             let m = (if ss_initiate stop then
                        let m = upd_sys (\<lambda>s. s\<lparr>spindle_stop_ovr := spindle_stop_0\<rparr>) m
                        in case sp_hal sp of
                             None \<Rightarrow> m
                           | Some h \<Rightarrow>
                               if hal_on (Some h) m then
                                 emit [EvOverrideChanged]
                                   (upd_sys (\<lambda>s. s\<lparr>spindle_stop_ovr :=
                                               (spindle_stop_ovr s)\<lparr>ss_enabled := True\<rparr>\<rparr>)
                                     (snd (spindle_set_state h spindle_state_0 0
                                       (emit [EvSpindleProgrammed h spindle_state_0 0] m))))
                               else m
                      else m)
             in if ss_restore (spindle_stop_ovr (sys m)) then
                  Option.bind (state_spindle_restore call sp (feedback_message Message_SpindleRestore m))
                    (\<lambda>m. Some (emit [EvOverrideChanged]
                       (upd_sys (\<lambda>s. s\<lparr>spindle_stop_ovr := spindle_stop_0\<rparr>) m)))
                else Some m
           else if update_spindle_rpm (step_ctrl (sys m)) then
             let m = deref (sp_hal sp) m
             in if hal_on (sp_hal sp) m then
                  Option.bind (state_spindle_restore call sp m)
                    (\<lambda>m. Some (upd_sys (\<lambda>s. s\<lparr>step_ctrl := (step_ctrl s)\<lparr>update_spindle_rpm := False\<rparr>\<rparr>) m))
                else Some m
           else Some m)"

section \<open>State handlers\<close>

definition when_set :: "bool \<Rightarrow> sm \<Rightarrow> sm" where
  "when_set b f m = (if b then f m else Some m)"

definition state_noop :: "rt_exec \<Rightarrow> sm" where
  "state_noop rt m = Some m"

definition state_idle :: "dispatcher \<Rightarrow> rt_exec \<Rightarrow> sm" where
  "state_idle call rt m =
     Option.bind (when_set (istrue rt EXEC_CYCLE_START) (call (SetState STATE_CYCLE)) m) (\<lambda>m.
     Option.bind (when_set (istrue rt EXEC_FEED_HOLD) (call (SetState STATE_HOLD)) m) (\<lambda>m.
     Option.bind (when_set (istrue rt EXEC_TOOL_CHANGE)
       (\<lambda>m. call (SetState STATE_TOOL_CHANGE) (emit [EvSuspendRead True] m)) m) (\<lambda>m.
     when_set (istrue rt EXEC_SLEEP) (call (SetState STATE_SLEEP)) m)))"

definition state_cycle :: "dispatcher \<Rightarrow> rt_exec \<Rightarrow> sm" where
  "state_cycle call rt m =
     (if rt = EXEC_CYCLE_START then Some m
      else
        let m = (if istrue rt EXEC_TOOL_CHANGE then emit [EvSuspendRead True] m else m)
        in Option.bind
             (when_set (istrue rt EXEC_CYCLE_COMPLETE)
               (\<lambda>m. call (SetState (if tool_change (env m) then STATE_TOOL_CHANGE else STATE_IDLE)) m) m) (\<lambda>m.
           let m = (if istrue rt (EXEC_MOTION_CANCEL OR EXEC_MOTION_CANCEL_FAST) then
                      set_handler StAwaitMotionCancel
                        (upd_sys (\<lambda>s. s\<lparr>suspend := True,
                                       step_ctrl := (step_ctrl s)\<lparr>execute_hold := True\<rparr>\<rparr>)
                          (emit [EvPlanParams (istrue rt EXEC_MOTION_CANCEL_FAST)] m))
                    else m)
           in when_set (istrue rt EXEC_FEED_HOLD) (call (SetState STATE_HOLD)) m))"

definition state_await_toolchanged :: "dispatcher \<Rightarrow> rt_exec \<Rightarrow> sm" where
  "state_await_toolchanged call rt m =
     (if istrue rt EXEC_CYCLE_START then
        let m = (if \<not> tool_change (env m) then emit [EvSuspendRead False, EvToolChanged] m else m);
            m = m\<lparr>pending_state := (if tool_change (env m) then STATE_TOOL_CHANGE else STATE_IDLE)\<rparr>
        in Option.bind (call (SetState STATE_IDLE) m) (\<lambda>m.
           Option.bind (call (SetState STATE_CYCLE) m) (\<lambda>m.
           Some (system_set_exec_state_flag EXEC_STATUS_REPORT m)))
      else Some m)"

definition state_await_motion_cancel :: "dispatcher \<Rightarrow> rt_exec \<Rightarrow> sm" where
  "state_await_motion_cancel call rt m =
     (if istrue rt EXEC_CYCLE_COMPLETE then
        let m = (if sm_state m = STATE_JOG then
                   upd_sys (\<lambda>s. s\<lparr>step_ctrl := step_control_0, suspend := False\<rparr>)
                     (emit [EvPlanReset, EvStReset, EvSyncPosition] m)
                 else m)
        in Option.bind (call (SetState (pending_state m)) m) (\<lambda>m.
             if alarm_pending (sys m) \<noteq> Alarm_None
             then Some (system_set_exec_alarm (alarm_pending (sys m)) m)
             else when_set (tool_change (env m)) (call (SetState STATE_TOOL_CHANGE)) m)
      else Some m)"

text \<open>No parking motion: spindle off, coolant off unless kept on, and the door state is read.\<close>

definition park_deenergize :: "machine \<Rightarrow> machine" where
  "park_deenergize m =
     (let m = spindle_all_off m;
          m = (if is_parking (sys m) \<or> sm_state m = STATE_SLEEP \<or> \<not> keep_coolant_on (settings m)
               then coolant_set_hw 0 m else m)
      in upd_sys (\<lambda>s. s\<lparr>parking_st := (if door_ajar (env m) then Parking_DoorAjar else Parking_DoorClosed)\<rparr>) m)"

text \<open>The pull-out motion that starts a retraction; the result says whether it is under way.\<close>

definition park_pullout :: "machine \<Rightarrow> bool \<times> machine" where
  "park_pullout m =
     (let axis = parking_axis (settings m);
          m = set_handler StAwaitWaypointRetract m;
          m = (if pk_restart (park m)
               then upd_park (\<lambda>p. p\<lparr>pk_target := cur_mpos (env m)\<rparr>) m
               else upd_park (\<lambda>p. p\<lparr>pk_target := pk_restore_target p,
                      pk_retract_waypoint :=
                        min (pullout_increment (settings m) + pk_restore_target p ! axis)
                            (parking_target (settings m))\<rparr>) m);
          (await_motion, m) =
            (if pk_target (park m) ! axis < pk_retract_waypoint (park m) then
               let m = upd_park (\<lambda>p. p\<lparr>pk_target := (pk_target p)[axis := pk_retract_waypoint p],
                         pk_plan_data := (pk_plan_data p)
                           \<lparr>pd_feed_rate := pullout_rate (settings m), pd_coolant := rc_coolant m,
                            pd_spindle := rc_spindle m\<rparr>\<rparr>) m
               in mc_parking_motion (pk_target (park m)) (pk_plan_data (park m)) m
             else (False, m))
      in (await_motion,
          if \<not> pk_restart (park m) then upd_park (\<lambda>p. p\<lparr>pk_motion := await_motion\<rparr>) m else m))"

text \<open>The parking manager of \<open>state_await_hold\<close>; the result says whether the handler was changed.\<close>

definition park_retract :: "dispatcher \<Rightarrow> machine \<Rightarrow> (bool \<times> machine) option" where
  "park_retract call m =
     (let axis = parking_axis (settings m);
          done = upd_sys (\<lambda>s. s\<lparr>is_parking := False\<rparr>);
          m = upd_sys (\<lambda>s. s\<lparr>spindle_stop_ovr := spindle_stop_0\<rparr>) m
      in if parking_enabled (settings m) \<and> \<not> parking_disable (sys m) \<and> \<not> laser_mode (settings m) then
           let m = (if \<not> pk_active (park m)
                    then upd_park (\<lambda>p. p\<lparr>pk_active := True, pk_restore_target := cur_mpos (env m)\<rparr>) m
                    else m)
           in if bit (homed_mask (sys m)) axis \<and>
                 pk_restore_target (park m) ! axis < parking_target (settings m) then
                let (await_motion, m) = park_pullout m
                in Option.bind (when_set (\<not> await_motion) (call (Handler EXEC_CYCLE_COMPLETE)) m)
                     (\<lambda>m. Some (True, done m))
              else Some (False, done (park_deenergize m))
         else Some (False, done (park_deenergize m)))"

definition hold_stopped :: "machine \<Rightarrow> machine" where
  "hold_stopped m =
     (let m = upd_sys (\<lambda>s. s\<lparr>step_ctrl := step_control_0\<rparr>) (emit [EvPlanReinit] m)
      in if alarm_pending (sys m) \<noteq> Alarm_None
         then system_set_exec_alarm (alarm_pending (sys m)) m else m)"

definition state_await_hold :: "dispatcher \<Rightarrow> rt_exec \<Rightarrow> sm" where
  "state_await_hold call rt m =
     (if istrue rt EXEC_CYCLE_COMPLETE then
        let m = hold_stopped m
        in Option.bind
             (if sm_state m = STATE_TOOL_CHANGE
              then Some (False, coolant_set_hw 0 (spindle_all_off m))
              else if sm_state m = STATE_SLEEP \<or> sm_state m = STATE_SAFETY_DOOR
              then park_retract call m
              else Some (False, m))
             (\<lambda>(handler_changed, m).
                if handler_changed then Some m
                else if soft_limit (sys m) then call (SetState STATE_IDLE) m
                else Some (set_handler StAwaitResume (upd_sys (\<lambda>s. s\<lparr>holding_st := Hold_Complete\<rparr>) m)))
      else Some m)"

text \<open>The end of a parking motion: the step segment buffer goes back to normal operation.\<close>

definition end_sys_motion :: "machine \<Rightarrow> machine" where
  "end_sys_motion m =
     (if execute_sys_motion (step_ctrl (sys m))
      then emit [EvParkingRestoreBuffer]
             (upd_sys (\<lambda>s. s\<lparr>step_ctrl := (step_ctrl s)\<lparr>execute_sys_motion := False\<rparr>\<rparr>) m)
      else m)"

definition read_door :: "machine \<Rightarrow> machine" where
  "read_door m =
     upd_sys (\<lambda>s. s\<lparr>parking_st := (if door_ajar (env m) then Parking_DoorAjar else Parking_DoorClosed)\<rparr>) m"

text \<open>The fast return to the pull-out position.\<close>

definition fast_restore :: "machine \<Rightarrow> bool \<times> machine" where
  "fast_restore m =
     (let axis = parking_axis (settings m)
      in if pk_motion (park m) then
           let m = upd_park (\<lambda>p. p\<lparr>pk_restart := False\<rparr>) m
           in if pk_restore_target (park m) ! axis \<le> parking_target (settings m) then
                let target = (pk_restore_target (park m))[axis := pk_retract_waypoint (park m)];
                    m = upd_park (\<lambda>p. p\<lparr>pk_plan_data :=
                          (pk_plan_data p)\<lparr>pd_feed_rate := parking_rate (settings m)\<rparr>\<rparr>) m
                in mc_parking_motion target (pk_plan_data (park m)) m
              else (False, m)
         else (False, m))"

text \<open>The safety door case of the resume.\<close>

definition resume_door :: "dispatcher \<Rightarrow> sm" where
  "resume_door call m =
     (if pk_restart (park m) \<or> \<not> door_ajar (env m) then
        let m = upd_sys (\<lambda>s. s\<lparr>parking_st := Parking_Resuming\<rparr>) (set_handler StRestore m);
            (await_motion, m) = fast_restore m
        in when_set (\<not> await_motion) (call (Handler EXEC_CYCLE_COMPLETE)) m
      else Some m)"

text \<open>The default case: spindle and coolant after a feed hold.\<close>

definition resume_hold :: "dispatcher \<Rightarrow> sm" where
  "resume_hold call m =
     (let sp = rc_spindle m; m = deref (sp_hal sp) m
      in if \<not> restore_after_feed_hold (settings m) then
           Some (upd_sys (\<lambda>s. s\<lparr>spindle_stop_ovr := spindle_stop_0\<rparr>)
             (if \<not> hal_on (sp_hal sp) m then gc_spindle_off m else m))
         else
           Option.bind (when_set (sp_on (sp_state sp) \<noteq> hal_on (sp_hal sp) m)
             (\<lambda>m. state_spindle_restore call sp (feedback_message Message_SpindleRestore m)) m) (\<lambda>m.
           Option.bind (when_set (rc_coolant m \<noteq> coolant_hw (env m))
             (\<lambda>m. Option.bind (coolant_restore call (rc_coolant m) m)
                    (\<lambda>m. Some (gc_coolant (rc_coolant m) m))) m) (\<lambda>m.
           Some (feedback_message Message_None
             (upd_sys (\<lambda>s. s\<lparr>spindle_stop_ovr := spindle_stop_0\<rparr>) m)))))"

definition restart_cycle :: "dispatcher \<Rightarrow> sm" where
  "restart_cycle call m =
     (if \<not> istrue (sm_state m) (STATE_SLEEP OR STATE_SAFETY_DOOR) then
        let step_control = step_ctrl (sys m)
        in Option.bind (call (SetState STATE_IDLE) m) (\<lambda>m.
             call (SetState STATE_CYCLE) (upd_sys (\<lambda>s. s\<lparr>step_ctrl := step_control\<rparr>) m))
      else Some m)"

definition state_await_resume :: "dispatcher \<Rightarrow> rt_exec \<Rightarrow> sm" where
  "state_await_resume call rt m =
     (let parked = istrue rt EXEC_CYCLE_COMPLETE \<and> parking_enabled (settings m);
          m = (if parked then read_door (end_sys_motion m) else m)
      in if parked \<and> sm_state m = STATE_SLEEP then Some (enter_sleep m)
         else
           Option.bind (when_set (istrue rt EXEC_SLEEP) (call (SetState STATE_SLEEP)) m) (\<lambda>m.
             if istrue rt EXEC_SAFETY_DOOR then Some (read_door m)
             else if istrue rt EXEC_CYCLE_START then
               let m = (if sm_state m = STATE_HOLD \<and> spindle_stop_ovr (sys m) = spindle_stop_0
                        then upd_sys (\<lambda>s. s\<lparr>spindle_stop_ovr :=
                                        (spindle_stop_ovr s)\<lparr>ss_restore_cycle := True\<rparr>\<rparr>) m
                        else m)
               in Option.bind
                    (if sm_state m = STATE_TOOL_CHANGE \<or> sm_state m = STATE_SLEEP then Some m
                     else if sm_state m = STATE_SAFETY_DOOR then resume_door call m
                     else resume_hold call m)
                    (restart_cycle call)
             else if istrue rt EXEC_DOOR_CLOSED \<and> \<not> door_ajar (env m)
             then Some (upd_sys (\<lambda>s. s\<lparr>parking_st := Parking_DoorClosed\<rparr>) m)
             else Some m))"

section \<open>Safety door handlers\<close>

definition state_await_restart_retract :: "dispatcher \<Rightarrow> rt_exec \<Rightarrow> sm" where
  "state_await_restart_retract call rt m =
     (if istrue rt EXEC_CYCLE_COMPLETE
      then call (Handler EXEC_CYCLE_COMPLETE) (set_handler StAwaitHold (end_sys_motion m))
      else Some m)"

definition restart_retract :: "dispatcher \<Rightarrow> sm" where
  "restart_retract call m =
     (let m = set_handler StAwaitRestartRetract (feedback_message Message_SafetyDoorAjar m);
          m = upd_park (\<lambda>p. p\<lparr>pk_restart := True\<rparr>) m;
          m = upd_sys (\<lambda>s. s\<lparr>parking_st := Parking_Retracting\<rparr>) m
      in if execute_sys_motion (step_ctrl (sys m)) then
           Some (upd_sys (\<lambda>s. s\<lparr>step_ctrl :=
                            (step_ctrl s)\<lparr>execute_hold := True, execute_sys_motion := True\<rparr>\<rparr>)
             (emit [EvPlanParams False] m))
         else call (Handler EXEC_CYCLE_COMPLETE) m)"

text \<open>At the retract waypoint: spindle off, coolant off unless kept on.\<close>

definition waypoint_deenergize :: "machine \<Rightarrow> machine" where
  "waypoint_deenergize m =
     (let m = upd_park (\<lambda>p. p\<lparr>pk_plan_data := (pk_plan_data p)\<lparr>pd_spindle :=
                  (pd_spindle (pk_plan_data p))\<lparr>sp_state := spindle_state_0, sp_rpm := 0\<rparr>\<rparr>\<rparr>) m;
          h = sp_hal (pd_spindle (pk_plan_data (park m)));
          m = deref h m;
          m = (case h of None \<Rightarrow> m
               | Some n \<Rightarrow> upd_env (\<lambda>e. e\<lparr>spindle_hw := (spindle_hw e)(n := spindle_state_0)\<rparr>) m)
      in if \<not> keep_coolant_on (settings m)
         then coolant_set_hw 0 (upd_park (\<lambda>p. p\<lparr>pk_plan_data :=
                (pk_plan_data p)\<lparr>pd_coolant := 0\<rparr>\<rparr>) m)
         else m)"

text \<open>The fast retraction to the parking position.\<close>

definition fast_retract :: "machine \<Rightarrow> bool \<times> machine" where
  "fast_retract m =
     (let axis = parking_axis (settings m)
      in if pk_motion (park m) \<and> pk_target (park m) ! axis < parking_target (settings m) then
           let target = (pk_target (park m))[axis := parking_target (settings m)];
               m = upd_park (\<lambda>p. p\<lparr>pk_plan_data :=
                     (pk_plan_data p)\<lparr>pd_feed_rate := parking_rate (settings m)\<rparr>\<rparr>) m
           in mc_parking_motion target (pk_plan_data (park m)) m
         else (False, m))"

definition state_await_waypoint_retract :: "dispatcher \<Rightarrow> rt_exec \<Rightarrow> sm" where
  "state_await_waypoint_retract call rt m =
     (if istrue rt EXEC_CYCLE_COMPLETE then
        let m = set_handler StAwaitResume (waypoint_deenergize (end_sys_motion m));
            (await_motion, m) = fast_retract m
        in when_set (\<not> await_motion) (call (Handler EXEC_CYCLE_COMPLETE)) m
      else Some m)"

text \<open>The slow plunge from the pull-out position to where the motion was stopped.\<close>

definition slow_plunge :: "machine \<Rightarrow> bool \<times> machine" where
  "slow_plunge m =
     (if pk_motion (park m) then
        let m = upd_sys (\<lambda>s. s\<lparr>parking_st := Parking_Resuming\<rparr>) m;
            m = upd_park (\<lambda>p. p\<lparr>pk_plan_data := (pk_plan_data p)
                  \<lparr>pd_feed_rate := pullout_rate (settings m), pd_coolant := rc_coolant m,
                   pd_spindle := (pd_spindle (pk_plan_data p))
                     \<lparr>sp_state := sp_state (rc_spindle m), sp_rpm := sp_rpm (rc_spindle m)\<rparr>\<rparr>\<rparr>) m
        in mc_parking_motion (pk_restore_target (park m)) (pk_plan_data (park m)) m
      else (False, m))"

definition state_restore :: "dispatcher \<Rightarrow> rt_exec \<Rightarrow> sm" where
  "state_restore call rt m =
     (if istrue rt EXEC_SAFETY_DOOR then
        (if pk_restoring (park m) then Some (upd_park (\<lambda>p. p\<lparr>pk_restart := True\<rparr>) m)
         else restart_retract call m)
      else if istrue rt EXEC_CYCLE_COMPLETE then
        let m = end_sys_motion m;
            m = set_handler StAwaitResumed (upd_park (\<lambda>p. p\<lparr>pk_restart := False\<rparr>) m)
        in Option.bind (state_restore_conditions call m) (\<lambda>m.
             if pk_restart (park m) then restart_retract call m
             else
               let (await_motion, m) = slow_plunge m
               in when_set (\<not> await_motion) (call (Handler EXEC_CYCLE_COMPLETE)) m)
      else Some m)"

definition state_await_resumed :: "dispatcher \<Rightarrow> rt_exec \<Rightarrow> sm" where
  "state_await_resumed call rt m =
     (if istrue rt EXEC_SAFETY_DOOR then restart_retract call m
      else if istrue rt EXEC_CYCLE_COMPLETE then
        let m = upd_sys (\<lambda>s. s\<lparr>parking_st := Parking_DoorClosed\<rparr>) m;
            m = upd_park (\<lambda>p. p\<lparr>pk_active := False, pk_motion := False, pk_restart := False,
                                pk_restoring := False\<rparr>) m;
            m = (if execute_sys_motion (step_ctrl (sys m))
                 then emit [EvParkingRestoreBuffer] (upd_sys (\<lambda>s. s\<lparr>step_ctrl := step_control_0\<rparr>) m)
                 else m)
        in Option.bind (call (SetState STATE_IDLE) m) (call (SetState STATE_CYCLE))
      else Some m)"

section \<open>Dispatch\<close>

definition state_handler :: "dispatcher \<Rightarrow> rt_exec \<Rightarrow> sm" where
  "state_handler call rt m =
     (case handler m of
        StIdle \<Rightarrow> state_idle call rt m
      | StCycle \<Rightarrow> state_cycle call rt m
      | StAwaitHold \<Rightarrow> state_await_hold call rt m
      | StNoop \<Rightarrow> state_noop rt m
      | StAwaitMotionCancel \<Rightarrow> state_await_motion_cancel call rt m
      | StAwaitResume \<Rightarrow> state_await_resume call rt m
      | StAwaitToolchanged \<Rightarrow> state_await_toolchanged call rt m
      | StAwaitWaypointRetract \<Rightarrow> state_await_waypoint_retract call rt m
      | StRestore \<Rightarrow> state_restore call rt m
      | StAwaitResumed \<Rightarrow> state_await_resumed call rt m
      | StAwaitRestartRetract \<Rightarrow> state_await_restart_retract call rt m)"

definition state_update_body :: "dispatcher \<Rightarrow> rt_exec \<Rightarrow> sm" where
  "state_update_body call rt m =
     Option.bind (when_set (istrue rt EXEC_SAFETY_DOOR \<and> sm_state m \<noteq> STATE_SAFETY_DOOR)
       (call (SetState STATE_SAFETY_DOOR)) m) (call (Handler rt))"

fun sm_call :: "nat \<Rightarrow> dispatcher" where
  "sm_call 0 c m = None"
| "sm_call (Suc n) c m =
     (case c of
        SetState st \<Rightarrow> state_set (sm_call n) st m
      | Handler rt \<Rightarrow> state_handler (sm_call n) rt m
      | AwaitHold rt \<Rightarrow> state_await_hold (sm_call n) rt m
      | Update rt \<Rightarrow> state_update_body (sm_call n) rt m)"

text \<open>The public entry points, with the fuel the termination theorem shows to be enough.\<close>

definition sm_fuel :: nat where
  "sm_fuel = 12"

definition state_update :: "rt_exec \<Rightarrow> sm" where
  "state_update rt = sm_call sm_fuel (Update rt)"

definition set_state :: "sys_state \<Rightarrow> sm" where
  "set_state st = sm_call sm_fuel (SetState st)"

end
