(* ===== verification/StateInvariant.thy ===== *)
theory StateInvariant
  imports StateMachine
begin

text \<open>
  A small program logic for the state machine (\<open>returns\<close>), the control invariant of its states and
  the proof that every handler returns and keeps it. The nesting of handler calls is bounded by
  \<open>depth\<close>, one number per call.
\<close>

section \<open>Program logic\<close>

text \<open>\<open>returns r Q\<close>: the computation returns, in a state satisfying \<open>Q\<close>.\<close>

definition returns :: "'a option \<Rightarrow> ('a \<Rightarrow> bool) \<Rightarrow> bool" where
  "returns r Q = (case r of None \<Rightarrow> False | Some m \<Rightarrow> Q m)"

lemma returns_simps [simp]:
  "returns (Some m) Q = Q m"
  "\<not> returns None Q"
  "returns (Option.bind r f) Q = returns r (\<lambda>m. returns (f m) Q)"
  "returns (when_set b g x) P = (if b then returns (g x) P else P x)"
  by (simp_all add: returns_def when_set_def split: option.splits)

lemma returns_if [simp]: "returns (if b then x else y) Q = (if b then returns x Q else returns y Q)"
  by simp

lemma returns_mono: "returns r P \<Longrightarrow> (\<And>m. P m \<Longrightarrow> Q m) \<Longrightarrow> returns r Q"
  by (simp add: returns_def split: option.splits)

lemma returns_Some: "returns r Q \<longleftrightarrow> (\<exists>m. r = Some m \<and> Q m)"
  by (simp add: returns_def split: option.splits)

section \<open>The invariant\<close>

definition sys_states :: "sys_state list" where
  "sys_states = [STATE_IDLE, STATE_ALARM, STATE_CHECK_MODE, STATE_HOMING, STATE_CYCLE, STATE_HOLD,
     STATE_JOG, STATE_SAFETY_DOOR, STATE_SLEEP, STATE_ESTOP, STATE_TOOL_CHANGE]"

definition locked :: "sys_state \<Rightarrow> bool" where
  "locked st \<longleftrightarrow> st = STATE_ALARM \<or> st = STATE_ESTOP \<or> st = STATE_HOMING \<or> st = STATE_CHECK_MODE"

text \<open>Nothing arrives during a delay, and the wait for a synchronised spindle ends.\<close>

definition settled :: "env \<Rightarrow> bool" where
  "settled e \<longleftrightarrow> delay_events e = [] \<and> sync_wait (sync_first e + 2) (sync_obs e) \<noteq> None"

definition inv_base :: "machine \<Rightarrow> bool" where
  "inv_base m \<longleftrightarrow> settled (env m) \<and> sm_state m \<in> set sys_states \<and> pending_state m \<in> set sys_states \<and>
     (locked (sm_state m) \<longrightarrow> handler m = StNoop)"

definition noop_ok :: "machine \<Rightarrow> bool" where
  "noop_ok m \<longleftrightarrow> (handler m = StNoop \<longrightarrow> locked (sm_state m) \<or> sm_state m = STATE_SLEEP)"

definition sm_inv :: "machine \<Rightarrow> bool" where
  "sm_inv m \<longleftrightarrow> inv_base m \<and> noop_ok m"

lemmas inv_defs = sm_inv_def inv_base_def noop_ok_def

text \<open>What each call relies on, and how deep it nests.\<close>

fun call_pre :: "smcall \<Rightarrow> machine \<Rightarrow> bool" where
  "call_pre (SetState st) m \<longleftrightarrow> st \<in> set sys_states \<and> inv_base m \<and>
     (noop_ok m \<or> st = STATE_IDLE \<and> sm_state m \<noteq> STATE_IDLE)"
| "call_pre (AwaitHold rt) m \<longleftrightarrow> rt = EXEC_CYCLE_COMPLETE \<and> inv_base m \<and> \<not> locked (sm_state m) \<and>
     sm_state m \<noteq> STATE_IDLE"
| "call_pre (Handler rt) m \<longleftrightarrow> sm_inv m"
| "call_pre (Update rt) m \<longleftrightarrow> sm_inv m"

fun depth :: "smcall \<Rightarrow> machine \<Rightarrow> nat" where
  "depth (SetState st) m =
     (if st = STATE_CYCLE then 2 else if st = STATE_SAFETY_DOOR \<or> st = STATE_SLEEP then 4 else 1)"
| "depth (AwaitHold rt) m = 3"
| "depth (Update rt) m = 9"
| "depth (Handler rt) m =
     (case handler m of
        StNoop \<Rightarrow> 1
      | StAwaitResume \<Rightarrow> (if rt = EXEC_CYCLE_COMPLETE then 1 else 8)
      | StAwaitWaypointRetract \<Rightarrow> 2
      | StAwaitHold \<Rightarrow> 4
      | StAwaitRestartRetract \<Rightarrow> 5
      | StAwaitResumed \<Rightarrow> 6
      | StRestore \<Rightarrow> 7
      | _ \<Rightarrow> 5)"

section \<open>Every operation returns and keeps the invariant\<close>

lemmas upd_defs = emit_def upd_sys_def upd_env_def upd_park_def set_handler_def deref_def
  feedback_message_def coolant_set_hw_def system_set_exec_state_flag_def system_set_exec_alarm_def

text \<open>Reading a field after an update.\<close>

lemma upd_fields [simp]:
  "handler (upd_sys g m) = handler m" "handler (upd_park k m) = handler m"
  "handler (upd_env j m) = handler m" "handler (emit es m) = handler m"
  "handler (deref p m) = handler m" "sm_state (upd_sys g m) = sm_state m"
  "sm_state (upd_park k m) = sm_state m" "sm_state (upd_env j m) = sm_state m"
  "sm_state (set_handler h m) = sm_state m" "sm_state (emit es m) = sm_state m"
  "sm_state (deref p m) = sm_state m" "pending_state (upd_sys g m) = pending_state m"
  "pending_state (upd_park k m) = pending_state m" "pending_state (upd_env j m) = pending_state m"
  "pending_state (set_handler h m) = pending_state m" "pending_state (emit es m) = pending_state m"
  "pending_state (deref p m) = pending_state m" "settings (upd_sys g m) = settings m"
  "settings (upd_park k m) = settings m" "settings (upd_env j m) = settings m"
  "settings (set_handler h m) = settings m" "settings (emit es m) = settings m"
  "settings (deref p m) = settings m" "rc_coolant (upd_sys g m) = rc_coolant m"
  "rc_coolant (upd_park k m) = rc_coolant m" "rc_coolant (upd_env j m) = rc_coolant m"
  "rc_coolant (set_handler h m) = rc_coolant m" "rc_coolant (emit es m) = rc_coolant m"
  "rc_coolant (deref p m) = rc_coolant m" "rc_spindle (upd_sys g m) = rc_spindle m"
  "rc_spindle (upd_park k m) = rc_spindle m" "rc_spindle (upd_env j m) = rc_spindle m"
  "rc_spindle (set_handler h m) = rc_spindle m" "rc_spindle (emit es m) = rc_spindle m"
  "rc_spindle (deref p m) = rc_spindle m" "null_deref (upd_sys g m) = null_deref m"
  "null_deref (upd_park k m) = null_deref m" "null_deref (upd_env j m) = null_deref m"
  "null_deref (set_handler h m) = null_deref m" "null_deref (emit es m) = null_deref m"
  "overrides (upd_sys g m) = overrides m" "overrides (upd_park k m) = overrides m"
  "overrides (upd_env j m) = overrides m" "overrides (set_handler h m) = overrides m"
  "overrides (emit es m) = overrides m" "overrides (deref p m) = overrides m"
  "env (upd_sys g m) = env m" "env (upd_park k m) = env m"
  "env (set_handler h m) = env m" "env (emit es m) = env m"
  "env (deref p m) = env m" "sys (upd_park k m) = sys m"
  "sys (upd_env j m) = sys m" "sys (set_handler h m) = sys m"
  "sys (emit es m) = sys m" "sys (deref p m) = sys m"
  "park (upd_sys g m) = park m" "park (upd_env j m) = park m"
  "park (set_handler h m) = park m" "park (emit es m) = park m"
  "park (deref p m) = park m" "events (upd_sys g m) = events m"
  "events (upd_park k m) = events m" "events (upd_env j m) = events m"
  "events (set_handler h m) = events m" "events (deref p m) = events m"
  "sys (upd_sys g m) = g (sys m)" "park (upd_park k m) = k (park m)"
  "env (upd_env j m) = j (env m)" "handler (set_handler h m) = h"
  "events (emit es m) = events m @ es"
  by (simp_all add: upd_defs)

lemmas if_fields = if_distrib [of handler] if_distrib [of sm_state] if_distrib [of pending_state] if_distrib
  [of settings] if_distrib [of rc_coolant] if_distrib [of rc_spindle] if_distrib [of
  null_deref] if_distrib [of overrides] if_distrib [of env] if_distrib [of sys] if_distrib
  [of park] if_distrib [of events]

lemma settled_upd [simp]:
  "settled (e\<lparr>spindle_hw := a\<rparr>) = settled e" "settled (e\<lparr>spindle_param_rpm := b\<rparr>) = settled e"
  "settled (e\<lparr>coolant_hw := c\<rparr>) = settled e" "settled (e\<lparr>gc_coolant_modal := d\<rparr>) = settled e"
  "settled (e\<lparr>gc_spindle := f\<rparr>) = settled e"
  by (simp_all add: settled_def)

text \<open>A function that leaves the control state alone.\<close>

definition same_ctl :: "machine \<Rightarrow> machine \<Rightarrow> bool" where
  "same_ctl m m' \<longleftrightarrow> sm_state m' = sm_state m \<and> pending_state m' = pending_state m \<and>
     handler m' = handler m \<and>
     (settled (env m) \<longrightarrow> settled (env m'))"

lemma same_ctl_inv:
  assumes "same_ctl m m'"
  shows "inv_base m \<Longrightarrow> inv_base m'" "noop_ok m \<Longrightarrow> noop_ok m'"
    "sm_inv m \<Longrightarrow> sm_inv m'"
  using assms by (simp_all add: same_ctl_def inv_defs)

lemma same_ctl_refl [simp]: "same_ctl m m"
  by (simp add: same_ctl_def)

lemma same_ctl_trans: "same_ctl a b \<Longrightarrow> same_ctl b c \<Longrightarrow> same_ctl a c"
  by (simp add: same_ctl_def)

lemma same_ctl_upd [simp]:
  "same_ctl m (upd_sys f x) = same_ctl m x" "same_ctl m (upd_park g x) = same_ctl m x"
  "same_ctl m (emit es x) = same_ctl m x" "same_ctl m (deref h x) = same_ctl m x"
  "same_ctl m (coolant_set_hw c x) = same_ctl m x" "same_ctl m (feedback_message msg x) = same_ctl m x"
  "same_ctl m (upd_env (\<lambda>e. e\<lparr>spindle_hw := k e\<rparr>) x) = same_ctl m x"
  by (simp_all add: same_ctl_def upd_defs)

lemma same_spindle_all_off [simp]: "same_ctl m (spindle_all_off m)"
  by (simp add: spindle_all_off_def upd_defs same_ctl_def)

lemma same_park_deenergize [simp]: "same_ctl m (park_deenergize m)"
  by (simp add: park_deenergize_def spindle_all_off_def upd_defs same_ctl_def Let_def)

lemma same_gc_spindle_off [simp]: "same_ctl m (gc_spindle_off m)"
  by (simp add: gc_spindle_off_def spindle_all_off_def upd_defs same_ctl_def)

lemma same_end_sys_motion [simp]: "same_ctl m (end_sys_motion m)"
  by (simp add: end_sys_motion_def upd_defs same_ctl_def)

lemma same_read_door [simp]: "same_ctl m (read_door m)"
  by (simp add: read_door_def upd_defs same_ctl_def)

lemma same_mc_parking [simp]: "same_ctl m (snd (mc_parking_motion t pd m))"
  by (simp add: mc_parking_motion_def upd_defs same_ctl_def)

lemma same_spindle_set [simp]: "same_ctl m (snd (spindle_set_state h st rpm m))"
  by (simp add: spindle_set_state_def upd_defs same_ctl_def)

lemma delay_settled: "settled (env m) \<Longrightarrow> delay_sec call m = Some m"
  by (simp add: delay_sec_def settled_def)

lemma spindle_restore_same:
  "settled (env m) \<Longrightarrow> returns (spindle_restore call h st rpm m) (same_ctl m)"
  by (auto simp: spindle_restore_def spindle_set_state_def Let_def delay_settled upd_defs same_ctl_def)

lemma state_spindle_restore_same:
  "settled (env m) \<Longrightarrow> returns (state_spindle_restore call sp m) (same_ctl m)"
  unfolding state_spindle_restore_def
  by (auto split: option.split intro!: returns_mono [OF spindle_restore_same]
      simp: upd_defs same_ctl_def)

lemma coolant_restore_same:
  "settled (env m) \<Longrightarrow> returns (coolant_restore call c m) (same_ctl m)"
  by (simp add: coolant_restore_def delay_settled upd_defs same_ctl_def)

lemma gc_coolant_same [simp]: "same_ctl m (gc_coolant c m)"
  by (simp add: gc_coolant_def upd_defs same_ctl_def)

lemma same_ctl_settled: "same_ctl m m' \<Longrightarrow> settled (env m) \<Longrightarrow> settled (env m')"
  by (simp add: same_ctl_def)

lemma state_restore_conditions_same:
  assumes "settled (env m)"
  shows "returns (state_restore_conditions call m) (same_ctl m)"
proof -
  let ?m = "upd_park (\<lambda>p. p\<lparr>pk_restoring := True\<rparr>) m"
  have s: "same_ctl m ?m" "settled (env ?m)" using assms by (simp_all add: upd_defs same_ctl_def)
  have fin: "same_ctl m (upd_sys (\<lambda>s. s\<lparr>spindle_stop_ovr := spindle_stop_0\<rparr>)
      (upd_park (\<lambda>p. p\<lparr>pk_restoring := False\<rparr>) x))" if "same_ctl m x" for x
    using that by (simp add: upd_defs same_ctl_def)
  have cool: "returns (coolant_restore call c x) (\<lambda>y. same_ctl m (gc_coolant (rc_coolant y) y))"
    if "same_ctl m x" for x c
    using that assms
    by (intro returns_mono [OF coolant_restore_same])
      (auto elim: same_ctl_trans intro: same_ctl_trans [OF _ gc_coolant_same] same_ctl_settled)
  show ?thesis
    unfolding state_restore_conditions_def Let_def
    by (auto intro!: returns_mono [OF state_spindle_restore_same] fin cool
        intro: same_ctl_trans [OF s(1)] s(2))
qed


definition calls_ok :: "nat \<Rightarrow> dispatcher \<Rightarrow> bool" where
  "calls_ok n call \<longleftrightarrow>
     (\<forall>c m. depth c m \<le> n \<longrightarrow> call_pre c m \<longrightarrow>
        returns (call c m) (\<lambda>m'. sm_inv m' \<and>
          (\<forall>st \<in> {STATE_IDLE, STATE_TOOL_CHANGE}. c = SetState st \<longrightarrow> sm_state m' = st)))"

lemma calls_okD:
  assumes "calls_ok n call" "depth c m \<le> n" "call_pre c m"
  shows "returns (call c m) sm_inv"
proof -
  have "returns (call c m) (\<lambda>m'. sm_inv m' \<and>
      (\<forall>st \<in> {STATE_IDLE, STATE_TOOL_CHANGE}. c = SetState st \<longrightarrow> sm_state m' = st))"
    using assms unfolding calls_ok_def by blast
  then show ?thesis by (rule returns_mono) blast
qed

lemma sm_inv_parts:
  "sm_inv m \<Longrightarrow> inv_base m" "sm_inv m \<Longrightarrow> noop_ok m"
  "inv_base m \<Longrightarrow> settled (env m)" "inv_base m \<Longrightarrow> sm_state m \<in> set sys_states"
  "inv_base m \<Longrightarrow> pending_state m \<in> set sys_states"
  by (simp_all add: inv_defs)

lemma sm_inv_emit [simp]: "sm_inv (emit es m) = sm_inv m"
  by (simp add: inv_defs emit_def)

lemma states_mem [simp]:
  "STATE_IDLE \<in> set sys_states" "STATE_ALARM \<in> set sys_states" "STATE_CHECK_MODE \<in> set sys_states"
  "STATE_HOMING \<in> set sys_states" "STATE_CYCLE \<in> set sys_states" "STATE_HOLD \<in> set sys_states"
  "STATE_JOG \<in> set sys_states" "STATE_SAFETY_DOOR \<in> set sys_states" "STATE_SLEEP \<in> set sys_states"
  "STATE_ESTOP \<in> set sys_states" "STATE_TOOL_CHANGE \<in> set sys_states"
  by (simp_all add: sys_states_def)

lemma istrue_simps:
  assumes "st \<in> set sys_states"
  shows "st AND 40 = 0 \<longleftrightarrow> st \<noteq> STATE_CYCLE \<and> st \<noteq> STATE_JOG"
    and "st AND 0x101 = 0 \<longleftrightarrow> st \<noteq> STATE_ALARM \<and> st \<noteq> STATE_ESTOP"
    and "st AND 0x183 = 0 \<longleftrightarrow>
      st \<noteq> STATE_ALARM \<and> st \<noteq> STATE_ESTOP \<and> st \<noteq> STATE_SLEEP \<and> st \<noteq> STATE_CHECK_MODE"
    and "st AND 0xC0 = 0 \<longleftrightarrow> st \<noteq> STATE_SLEEP \<and> st \<noteq> STATE_SAFETY_DOOR"
    and "st AND 32 = 0 \<longleftrightarrow> st \<noteq> STATE_JOG"
  using assms by (auto simp: sys_states_def)

lemma state_set_end_inv:
  assumes "inv_base m" "noop_ok m"
  shows "sm_inv (state_set_end org m)"
  using assms by (auto simp: state_set_end_def Let_def upd_defs inv_defs istrue_simps)

lemma state_set_idle_ctl:
  "sm_state (state_set_idle m) = STATE_IDLE" "handler (state_set_idle m) = StIdle"
  "pending_state (state_set_idle m) \<in> set sys_states" "env (state_set_idle m) = env m"
  by (simp_all add: state_set_idle_def Let_def upd_defs)

lemma raise_alarm_inv:
  assumes C: "calls_ok n call" and n: "1 \<le> n" and i: "sm_inv m"
  shows "returns (system_raise_alarm call a m) sm_inv"
proof -
  let ?m = "upd_sys (\<lambda>s. s\<lparr>sys_alarm := a, alarm_pending := if a = alarm_pending s then Alarm_None
    else alarm_pending s, blocking_event := alarm_is_critical a\<rparr>) m"
  have "inv_base ?m" "noop_ok ?m" using i by (simp_all add: inv_defs upd_defs)
  then have "returns (call (SetState (if a = Alarm_EStop then STATE_ESTOP else STATE_ALARM)) ?m) sm_inv"
    using n by (intro calls_okD [OF C]) auto
  then have "returns (call (SetState (if a = Alarm_EStop then STATE_ESTOP else STATE_ALARM)) ?m)
      (\<lambda>m. sm_inv (if driver_started (sys m) \<or> sys_alarm (sys m) = Alarm_SelftestFailed
                          then emit [EvAlarmMessage a] m else m))"
    by (rule returns_mono) simp
  moreover have "sm_inv (system_set_exec_alarm a m)" "sm_inv (upd_sys (\<lambda>s. s\<lparr>alarm_pending := a\<rparr>) m)"
    using i by (simp_all add: inv_defs upd_defs)
  ultimately show ?thesis using i by (simp add: system_raise_alarm_def Let_def)
qed

lemma state_set_cycle_inv:
  assumes C: "calls_ok n call" and n: "1 \<le> n" and i: "sm_inv m"
  shows "returns (state_set_cycle call m) (\<lambda>(b, m). sm_inv m)"
proof (cases "sm_state m = STATE_IDLE")
  case True
  let ?m = "emit [EvPrepBuffer] (upd_sys (\<lambda>s. s\<lparr>steppers_deenergize := False\<rparr>) (m\<lparr>sm_state := STATE_CYCLE\<rparr>))"
  have i': "sm_inv ?m" "sm_inv (deref h ?m)" for h
    using i True by (auto simp: inv_defs upd_defs locked_def)
  have start: "sm_inv (set_handler StCycle (emit [EvWakeUp] ?m))"
    "sm_inv (set_handler StCycle (emit [EvWakeUp] (deref h ?m)))"
    "sm_inv (upd_sys (\<lambda>s. s\<lparr>rt_exec_state := f s\<rparr>) (deref h ?m))" for h f
    using i True by (auto simp: inv_defs upd_defs locked_def)
  have e: "env (deref h ?m) = env m" for h by (simp add: upd_defs)
  have al: "returns (system_raise_alarm call Alarm_Spindle (deref h ?m)) sm_inv" for h
    by (rule raise_alarm_inv [OF C n i'(2)])
  have "settled (env m)" using i by (simp add: inv_defs)
  then show ?thesis
    using al start True i
    unfolding state_set_cycle_def Let_def e
    by (auto simp: settled_def split: option.split sync_result.split)
qed (use i in \<open>simp add: state_set_cycle_def\<close>)

lemma initiate_hold_ctl:
  assumes "sm_state m \<in> set sys_states" "new_state \<in> set sys_states"
  shows "fst (initiate_hold new_state m) \<longleftrightarrow> sm_state m = STATE_CYCLE"
    "sm_state (snd (initiate_hold new_state m)) = sm_state m"
    "env (snd (initiate_hold new_state m)) = env m"
    "settings (snd (initiate_hold new_state m)) = settings m"
    "handler (snd (initiate_hold new_state m)) =
       (if sm_state m = STATE_CYCLE \<or> sm_state m = STATE_JOG then StAwaitHold else handler m)"
    "pending_state (snd (initiate_hold new_state m)) =
       (if sm_state m = STATE_JOG then new_state else STATE_IDLE)"
  using assms(1)
  by (simp_all add: initiate_hold_def Let_def istrue_simps if_fields)

lemma state_set_hold_inv:
  assumes "sm_inv m"
  shows "inv_base (state_set_hold m)" "noop_ok (state_set_hold m)"
proof -
  have s: "sm_state m \<in> set sys_states" "settled (env m)" using assms by (simp_all add: inv_defs)
  note h = initiate_hold_ctl [OF s(1), of STATE_HOLD]
  show "inv_base (state_set_hold m)" "noop_ok (state_set_hold m)"
    using assms s h
    by (auto simp: state_set_hold_def Let_def case_prod_beta inv_defs upd_defs locked_def)
qed

lemma enter_sleep_inv:
  "inv_base m \<Longrightarrow> sm_state m = STATE_SLEEP \<Longrightarrow> inv_base (enter_sleep m) \<and> noop_ok (enter_sleep m)"
  "sm_inv m \<Longrightarrow> sm_state m = STATE_SLEEP \<Longrightarrow> sm_inv (enter_sleep m)"
  by (auto simp: enter_sleep_def spindle_all_off_def upd_defs inv_defs)

lemma state_set_park_inv:
  assumes C: "calls_ok n call" and n: "3 \<le> n" and i: "sm_inv m"
    and st: "st = STATE_SAFETY_DOOR \<or> st = STATE_SLEEP"
  shows "returns (state_set_park call st m) (\<lambda>m. inv_base m \<and> noop_ok m)"
proof -
  let ?m = "upd_sys (\<lambda>s. s\<lparr>parking_st := Parking_Retracting\<rparr>) m"
  define h where "h = snd (initiate_hold st ?m)"
  have s: "sm_state ?m \<in> set sys_states" "st \<in> set sys_states"
    using i st by (auto simp: inv_defs upd_defs)
  have sm: "sm_state ?m = sm_state m" "env ?m = env m"
    "handler ?m = handler m" by (simp_all add: upd_defs)
  note hf = initiate_hold_ctl [OF s, folded h_def, unfolded sm]
  have fin: "inv_base x \<and> noop_ok x \<Longrightarrow> inv_base (if sm_state x = STATE_SLEEP \<and>
      handler x \<noteq> StAwaitWaypointRetract then enter_sleep x else x) \<and>
      noop_ok (if sm_state x = STATE_SLEEP \<and> handler x \<noteq> StAwaitWaypointRetract then enter_sleep x else x)" for x
    by (cases "sm_state x = STATE_SLEEP \<and> handler x \<noteq> StAwaitWaypointRetract")
      (simp_all only: if_True if_False enter_sleep_inv(1) simp_thms)
  have e: "settled (env m)" using i by (simp add: inv_defs)
  have p: "call_pre (AwaitHold EXEC_CYCLE_COMPLETE) (h\<lparr>sm_state := st\<rparr>)"
    if "sm_state m \<noteq> STATE_JOG" "sm_state m \<noteq> STATE_CYCLE"
    using st by (elim disjE) (simp_all add: inv_defs locked_def hf e that)
  have ah: "returns (call (AwaitHold EXEC_CYCLE_COMPLETE) (h\<lparr>sm_state := st\<rparr>))
      (\<lambda>m. inv_base m \<and> noop_ok m)" if "sm_state m \<noteq> STATE_JOG" "sm_state m \<noteq> STATE_CYCLE"
    using calls_okD [OF C _ p] n that by (auto intro: returns_mono simp: sm_inv_def)
  have cyc: "inv_base (h\<lparr>sm_state := st\<rparr>) \<and> noop_ok (h\<lparr>sm_state := st\<rparr>)" if "sm_state m = STATE_CYCLE"
    using st by (elim disjE) (simp_all add: inv_defs locked_def hf e that)
  have jog: "inv_base h \<and> noop_ok h" if "sm_state m = STATE_JOG"
    using st by (elim disjE) (simp_all add: inv_defs locked_def hf e that)
  consider "sm_state m = STATE_CYCLE" | "sm_state m = STATE_JOG"
    | "sm_state m \<noteq> STATE_JOG" "sm_state m \<noteq> STATE_CYCLE" by blast
  then have "returns (if \<not> fst (initiate_hold st ?m)
            then (if pending_state h \<noteq> st
                  then call (AwaitHold EXEC_CYCLE_COMPLETE) (h\<lparr>sm_state := st\<rparr>)
                  else Some h)
            else Some (h\<lparr>sm_state := st\<rparr>)) (\<lambda>m. inv_base m \<and> noop_ok m)"
  proof cases
    case 1
    then show ?thesis using cyc hf(1) by simp
  next
    case 2
    then show ?thesis using jog hf(1,6) by simp
  next
    case 3
    moreover have "st \<noteq> STATE_IDLE" using st by auto
    ultimately show ?thesis using ah hf(1,6) by simp
  qed
  then show ?thesis
    unfolding state_set_park_def Let_def case_prod_beta h_def
    by (simp only: returns_simps) (erule returns_mono, rule fin)
qed


lemma inv_base_door [simp]:
  "inv_base (feedback_message msg m) = inv_base m" "noop_ok (feedback_message msg m) = noop_ok m"
  "sm_inv (feedback_message msg m) = sm_inv m"
  by (simp_all add: inv_defs feedback_message_def emit_def)

lemma state_set_inv:
  assumes C: "calls_ok n call" and n: "depth (SetState st) m \<le> Suc n"
    and pre: "call_pre (SetState st) m"
  shows "returns (state_set call st m) sm_inv"
proof (cases "st = sm_state m")
  case True
  with pre show ?thesis by (auto simp: state_set_def sm_inv_def)
next
  case False
  have base: "inv_base m" and st: "st \<in> set sys_states" using pre by simp_all
  have inv: "sm_inv m" if "st \<noteq> STATE_IDLE" using pre that by (auto simp: sm_inv_def)
  have fin: "sm_inv (state_set_end org x)" if "inv_base x \<and> noop_ok x" for org x
    using that by (simp add: state_set_end_inv)
  have e: "settled (env m)" using base by (simp add: inv_defs)
  consider "st = STATE_IDLE" | "st = STATE_CYCLE" | "st = STATE_JOG" | "st = STATE_TOOL_CHANGE"
    | "st = STATE_HOLD" | "st = STATE_SAFETY_DOOR" | "st = STATE_SLEEP" | "locked st"
    using st by (auto simp: sys_states_def locked_def)
  then show ?thesis
  proof cases
    case 1
    have "inv_base (state_set_idle m) \<and> noop_ok (state_set_idle m)"
      using e by (simp add: inv_defs state_set_idle_ctl locked_def)
    with 1 False show ?thesis by (simp add: state_set_def Let_def fin)
  next
    case 2
    have "returns (state_set_cycle call m) (\<lambda>(b, m). sm_inv m)"
      using state_set_cycle_inv [OF C _ inv] n 2 by simp
    then have "returns (state_set_cycle call m)
        (\<lambda>x. (fst x \<longrightarrow> sm_inv (snd x)) \<and> (\<not> fst x \<longrightarrow> sm_inv (state_set_end (sm_state m) (snd x))))"
      by (rule returns_mono) (auto intro!: state_set_end_inv dest: sm_inv_parts)
    then show ?thesis
      using 2 False by (simp add: state_set_def Let_def case_prod_beta)
  next
    case 3
    let ?x = "set_handler StCycle ((if sm_state m = STATE_TOOL_CHANGE
      then m\<lparr>pending_state := STATE_TOOL_CHANGE\<rparr> else m)\<lparr>sm_state := STATE_JOG\<rparr>)"
    have "inv_base ?x \<and> noop_ok ?x"
      using base by (simp add: inv_defs upd_defs locked_def)
    from fin [OF this] show ?thesis using 3 False by (simp add: state_set_def Let_def)
  next
    case 4
    have "inv_base (set_handler StAwaitToolchanged (m\<lparr>sm_state := STATE_TOOL_CHANGE\<rparr>)) \<and>
        noop_ok (set_handler StAwaitToolchanged (m\<lparr>sm_state := STATE_TOOL_CHANGE\<rparr>))"
      using base by (simp add: inv_defs upd_defs locked_def)
    from fin [OF this] show ?thesis using 4 False by (simp add: state_set_def Let_def)
  next
    case 5
    then show ?thesis using False state_set_hold_inv [OF inv]
      by (simp add: state_set_def Let_def fin)
  next
    case 6
    let ?m = "feedback_message Message_SafetyDoorAjar m"
    have "returns (state_set_park call st ?m) (\<lambda>m. inv_base m \<and> noop_ok m)"
      using n 6 inv by (intro state_set_park_inv [OF C]) simp_all
    then have "returns (state_set_park call st ?m) (\<lambda>x. sm_inv (state_set_end (sm_state m) x))"
      by (rule returns_mono) (rule fin)
    then show ?thesis using 6 False inv by (simp add: state_set_def Let_def)
  next
    case 7
    have "returns (state_set_park call st m) (\<lambda>m. inv_base m \<and> noop_ok m)"
      using n 7 inv by (intro state_set_park_inv [OF C]) simp_all
    then have "returns (state_set_park call st m) (\<lambda>x. sm_inv (state_set_end (sm_state m) x))"
      by (rule returns_mono) (rule fin)
    then show ?thesis using 7 False by (simp add: state_set_def Let_def)
  next
    case 8
    have "inv_base (set_handler StNoop (upd_sys (\<lambda>s. s\<lparr>suspend := False\<rparr>) (m\<lparr>sm_state := st\<rparr>))) \<and>
        noop_ok (set_handler StNoop (upd_sys (\<lambda>s. s\<lparr>suspend := False\<rparr>) (m\<lparr>sm_state := st\<rparr>)))"
      using 8 base st by (simp add: inv_defs)
    from fin [OF this] show ?thesis using 8 False
      by (auto simp: state_set_def Let_def locked_def)
  qed
qed

lemma inv_base_upd_sys [simp]: "inv_base (upd_sys f m) = inv_base m"
  by (simp add: inv_base_def)

lemma sm_state_deenergize [simp]: "sm_state (park_deenergize m) = sm_state m"
  using same_park_deenergize [of m] by (simp add: same_ctl_def)

lemma same_pullout: "same_ctl (set_handler StAwaitWaypointRetract m) (snd (park_pullout m))"
  by (simp add: park_pullout_def Let_def case_prod_beta mc_parking_motion_def if_distrib [of snd])

lemma park_retract_inv:
  assumes C: "calls_ok n call" and n: "2 \<le> n" and i: "inv_base m" "\<not> locked (sm_state m)"
    "sm_state m \<noteq> STATE_IDLE"
  shows "returns (park_retract call m)
     (\<lambda>(changed, m'). if changed then sm_inv m' else inv_base m' \<and> \<not> locked (sm_state m') \<and> sm_state m' \<noteq> STATE_IDLE)"
proof -
  have way: "returns (call (Handler EXEC_CYCLE_COMPLETE) x)
      (\<lambda>x. sm_inv (upd_sys (\<lambda>s. s\<lparr>is_parking := False\<rparr>) x))"
    if "same_ctl (set_handler StAwaitWaypointRetract m) x" for x
  proof -
    have "handler x = StAwaitWaypointRetract" "sm_inv x"
      using that i by (auto simp: same_ctl_def inv_defs upd_defs)
    then have "returns (call (Handler EXEC_CYCLE_COMPLETE) x) sm_inv"
      using n by (intro calls_okD [OF C]) simp_all
    then show ?thesis by (rule returns_mono) (simp add: inv_defs upd_defs)
  qed
  have way': "sm_inv (upd_sys (\<lambda>s. s\<lparr>is_parking := False\<rparr>) x)"
    if "same_ctl (set_handler StAwaitWaypointRetract m) x" for x
    using that i by (auto simp: same_ctl_def inv_defs upd_defs)
  have off: "inv_base (park_deenergize x)" if "same_ctl m x" for x
    using same_ctl_inv(1) [OF same_ctl_trans [OF that same_park_deenergize]] i(1) .
  have p: "same_ctl (set_handler StAwaitWaypointRetract m) (snd (park_pullout x))" if "same_ctl m x" for x
    by (rule same_ctl_trans [OF _ same_pullout]) (use that in \<open>simp add: same_ctl_def\<close>)
  show ?thesis
    unfolding park_retract_def Let_def case_prod_beta
    by (simp add: way way' p off i(2,3))
qed

lemma state_await_hold_inv:
  assumes C: "calls_ok n call" and n: "2 \<le> n"
    and pre: "call_pre (AwaitHold rt) m \<or> sm_inv m \<and> handler m = StAwaitHold"
  shows "returns (state_await_hold call rt m) sm_inv"
proof (cases "istrue rt EXEC_CYCLE_COMPLETE")
  case False
  with pre show ?thesis by (auto simp: state_await_hold_def)
next
  case True
  let ?m = "hold_stopped m"
  have i: "inv_base m" "\<not> locked (sm_state m)" using pre by (auto simp: inv_defs)
  have nid: "sm_state m \<noteq> STATE_IDLE \<or> noop_ok m \<and> handler m \<noteq> StNoop" using pre by (auto simp: inv_defs)
  have s: "same_ctl m ?m" by (simp add: hold_stopped_def Let_def same_ctl_def upd_defs)
  have fin: "returns (call (SetState STATE_IDLE) x) sm_inv"
    "sm_inv (set_handler StAwaitResume (upd_sys (\<lambda>s. s\<lparr>holding_st := Hold_Complete\<rparr>) x))"
    if "inv_base x" "\<not> locked (sm_state x)" "sm_state x \<noteq> STATE_IDLE \<or> noop_ok x" for x
    using that n by (intro calls_okD [OF C]; auto) (use that in \<open>simp add: inv_defs upd_defs\<close>)
  have tc: "inv_base (coolant_set_hw 0 (spindle_all_off x))" "\<not> locked (sm_state (coolant_set_hw 0 (spindle_all_off x)))"
    "sm_state (coolant_set_hw 0 (spindle_all_off x)) \<noteq> STATE_IDLE \<or> noop_ok (coolant_set_hw 0 (spindle_all_off x))"
    if "inv_base x" "\<not> locked (sm_state x)" "sm_state x \<noteq> STATE_IDLE \<or> noop_ok x" for x
    using that by (auto simp: inv_defs upd_defs spindle_all_off_def)
  have m': "inv_base ?m" "\<not> locked (sm_state ?m)" "sm_state ?m \<noteq> STATE_IDLE \<or> noop_ok ?m"
    using i nid s same_ctl_inv(1,2) [OF s] by (auto simp: same_ctl_def)
  have pr: "returns (park_retract call ?m) (\<lambda>x.
        (soft_limit (sys (snd x)) \<longrightarrow> (fst x \<longrightarrow> sm_inv (snd x)) \<and>
           (\<not> fst x \<longrightarrow> returns (call (SetState STATE_IDLE) (snd x)) sm_inv)) \<and>
        (\<not> soft_limit (sys (snd x)) \<longrightarrow> (fst x \<longrightarrow> sm_inv (snd x)) \<and>
           (\<not> fst x \<longrightarrow> sm_inv (set_handler StAwaitResume
              (upd_sys (\<lambda>s. s\<lparr>holding_st := Hold_Complete\<rparr>) (snd x))))))"
    if "sm_state ?m = STATE_SLEEP \<or> sm_state ?m = STATE_SAFETY_DOOR"
  proof -
    have "sm_state ?m \<noteq> STATE_IDLE" using that by auto
    from park_retract_inv [OF C n m'(1,2) this] show ?thesis
      by (rule returns_mono) (auto intro!: fin split: if_splits)
  qed
  show ?thesis
    using True pr fin [OF m'] fin [OF tc [OF m']]
    unfolding state_await_hold_def Let_def case_prod_beta
    by simp
qed


lemma set_call:
  assumes "calls_ok n call" "sm_inv m" "st \<in> set sys_states"
    "(if st = STATE_CYCLE then 2 else if st = STATE_SAFETY_DOOR \<or> st = STATE_SLEEP then 4 else 1) \<le> n"
  shows "returns (call (SetState st) m) sm_inv"
  using assms by (intro calls_okD [OF assms(1)]) (auto dest: sm_inv_parts)

lemma sm_inv_upd_sys [simp]: "sm_inv (upd_sys f m) = sm_inv m"
  by (simp add: inv_defs upd_defs)

lemma sm_inv_upd_park [simp]: "sm_inv (upd_park f m) = sm_inv m"
  by (simp add: inv_defs upd_defs)

lemma sm_inv_deref [simp]: "sm_inv (deref h m) = sm_inv m"
  by (simp add: inv_defs upd_defs)

lemma sm_inv_exec_state [simp]: "sm_inv (system_set_exec_state_flag f m) = sm_inv m"
  by (simp add: inv_defs upd_defs)

lemma sm_inv_exec_alarm [simp]: "sm_inv (system_set_exec_alarm f m) = sm_inv m"
  by (simp add: inv_defs upd_defs)

lemma state_idle_inv:
  assumes C: "calls_ok n call" and "4 \<le> n" "sm_inv m"
  shows "returns (state_idle call rt m) sm_inv"
  using assms unfolding state_idle_def
  by (auto intro!: returns_mono [OF set_call [OF C]] set_call [OF C] simp del: One_nat_def)

lemma set_call_state:
  assumes "calls_ok n call" "sm_inv m" "st = STATE_IDLE \<or> st = STATE_TOOL_CHANGE" "1 \<le> n"
  shows "returns (call (SetState st) m) (\<lambda>x. sm_inv x \<and> sm_state x = st)"
proof -
  have "call_pre (SetState st) m" "depth (SetState st) m \<le> n"
    using assms by (auto dest: sm_inv_parts)
  then have "returns (call (SetState st) m) (\<lambda>m'. sm_inv m' \<and>
      (\<forall>st' \<in> {STATE_IDLE, STATE_TOOL_CHANGE}. SetState st = SetState st' \<longrightarrow> sm_state m' = st'))"
    using assms(1) unfolding calls_ok_def by blast
  then show ?thesis by (rule returns_mono) (use assms(3) in auto)
qed

lemma state_cycle_inv:
  assumes C: "calls_ok n call" and n: "4 \<le> n" and i: "sm_inv m" "handler m = StCycle"
  shows "returns (state_cycle call rt m) sm_inv"
proof -
  have nl: "\<not> locked (sm_state m)" using i by (auto simp: inv_defs)
  have cancel: "sm_inv (set_handler StAwaitMotionCancel (upd_sys f (emit es x)))"
    if "sm_inv x" "\<not> locked (sm_state x)" for x f es
    using that by (simp add: inv_defs upd_defs)
  have hold: "returns (call (SetState STATE_HOLD) x) sm_inv" if "sm_inv x" for x
    using that n by (intro set_call [OF C]) auto
  let ?c = "\<lambda>x. if istrue rt (EXEC_MOTION_CANCEL OR EXEC_MOTION_CANCEL_FAST)
    then set_handler StAwaitMotionCancel (upd_sys (\<lambda>s. s\<lparr>suspend := True,
        step_ctrl := (step_ctrl s)\<lparr>execute_hold := True\<rparr>\<rparr>)
      (emit [EvPlanParams (istrue rt EXEC_MOTION_CANCEL_FAST)] x))
    else x"
  have rest: "returns (when_set (istrue rt EXEC_FEED_HOLD) (call (SetState STATE_HOLD)) (?c x)) sm_inv"
    if "sm_inv x" "\<not> locked (sm_state x)" for x
  proof -
    have "sm_inv (?c x)" using that cancel by simp
    then show ?thesis using hold by (simp del: returns_if)
  qed
  let ?m = "if istrue rt EXEC_TOOL_CHANGE then emit [EvSuspendRead True] m else m"
  have m: "sm_inv ?m" "\<not> locked (sm_state ?m)" using i nl by (simp_all add: emit_def inv_defs)
  let ?st = "if tool_change (env ?m) then STATE_TOOL_CHANGE else STATE_IDLE"
  have st: "?st = STATE_IDLE \<or> ?st = STATE_TOOL_CHANGE" by simp
  have set: "returns (call (SetState ?st) ?m)
      (\<lambda>x. returns (when_set (istrue rt EXEC_FEED_HOLD) (call (SetState STATE_HOLD)) (?c x)) sm_inv)"
  proof (rule returns_mono [OF set_call_state [OF C m(1) st]])
    show "1 \<le> n" using n by simp
    fix x assume x: "sm_inv x \<and> sm_state x = ?st"
    then have "\<not> locked (sm_state x)" by (simp add: locked_def)
    then show "returns (when_set (istrue rt EXEC_FEED_HOLD) (call (SetState STATE_HOLD)) (?c x)) sm_inv"
      by (rule rest [OF conjunct1 [OF x]])
  qed
  show ?thesis
    unfolding state_cycle_def Let_def
    using i set rest [OF m] by (simp del: returns_if)
qed


lemma sm_state_feedback [simp]: "sm_state (feedback_message msg m) = sm_state m"
  by (simp add: feedback_message_def emit_def)

lemma sm_inv_pending: "sm_inv m \<Longrightarrow> st \<in> set sys_states \<Longrightarrow> sm_inv (m\<lparr>pending_state := st\<rparr>)"
  by (simp add: inv_defs)

lemma sm_inv_set_handler:
  "sm_inv m \<Longrightarrow> \<not> locked (sm_state m) \<Longrightarrow> h \<noteq> StNoop \<Longrightarrow> sm_inv (set_handler h m)"
  by (simp add: inv_defs upd_defs)

lemma idle_then_cycle:
  assumes C: "calls_ok n call" and n: "2 \<le> n" and "sm_inv m" and f: "\<And>x. sm_inv x \<Longrightarrow> sm_inv (f x)"
  shows "returns (call (SetState STATE_IDLE) m)
     (\<lambda>x. returns (call (SetState STATE_CYCLE) (f x)) sm_inv)"
proof (rule returns_mono [OF set_call [OF C assms(3)]])
  fix x assume "sm_inv x"
  from f [OF this] n show "returns (call (SetState STATE_CYCLE) (f x)) sm_inv"
    by (intro set_call [OF C]) simp_all
qed (use n in simp_all)

lemma state_await_toolchanged_inv:
  assumes C: "calls_ok n call" and n: "4 \<le> n" and i: "sm_inv m"
  shows "returns (state_await_toolchanged call rt m) sm_inv"
proof -
  have n2: "2 \<le> n" using n by simp
  have "returns (call (SetState STATE_IDLE) x) (\<lambda>x. returns (call (SetState STATE_CYCLE) x)
      (\<lambda>x. sm_inv (system_set_exec_state_flag EXEC_STATUS_REPORT x)))" if "sm_inv x" for x
    using idle_then_cycle [OF C n2 that, of "\<lambda>x. x"] by simp
  then show ?thesis
    using i by (simp add: state_await_toolchanged_def Let_def sm_inv_pending)
qed

lemma state_await_motion_cancel_inv:
  assumes C: "calls_ok n call" and n: "4 \<le> n" and i: "sm_inv m"
  shows "returns (state_await_motion_cancel call rt m) sm_inv"
proof -
  have tool: "returns (call (SetState STATE_TOOL_CHANGE) x) sm_inv" if "sm_inv x" for x
    using that n by (intro set_call [OF C]) simp_all
  have fin: "returns (if alarm_pending (sys x) \<noteq> Alarm_None
      then Some (system_set_exec_alarm (alarm_pending (sys x)) x)
      else when_set (tool_change (env x)) (call (SetState STATE_TOOL_CHANGE)) x) sm_inv" if "sm_inv x" for x
    using that tool by simp
  have "returns (call (SetState (pending_state x)) x) (\<lambda>x. returns (if alarm_pending (sys x) \<noteq> Alarm_None
      then Some (system_set_exec_alarm (alarm_pending (sys x)) x)
      else when_set (tool_change (env x)) (call (SetState STATE_TOOL_CHANGE)) x) sm_inv)"
    if "sm_inv x" for x
  proof (rule returns_mono [OF set_call [OF C that]])
    show "pending_state x \<in> set sys_states" using that by (simp add: inv_defs)
    show "(if pending_state x = STATE_CYCLE then 2 else if pending_state x = STATE_SAFETY_DOOR \<or>
        pending_state x = STATE_SLEEP then 4 else 1) \<le> n" using n by auto
  qed (rule fin)
  then show ?thesis
    using i by (simp add: state_await_motion_cancel_def Let_def del: returns_if)
qed

text \<open>The handlers that end a parking motion with a call of the next handler.\<close>

lemma handler_call:
  assumes C: "calls_ok n call" and "sm_inv m" "depth (Handler EXEC_CYCLE_COMPLETE) m \<le> n"
  shows "returns (call (Handler EXEC_CYCLE_COMPLETE) m) sm_inv"
  using assms by (intro calls_okD [OF C]) simp_all

lemma same_ctl_handler: "same_ctl (set_handler h m) x \<Longrightarrow> handler x = h"
  by (simp add: same_ctl_def upd_defs)

lemma set_handler_same:
  "same_ctl (set_handler h m) x \<Longrightarrow> sm_inv m \<Longrightarrow> \<not> locked (sm_state m) \<Longrightarrow> h \<noteq> StNoop \<Longrightarrow> sm_inv x"
  using same_ctl_inv(3) sm_inv_set_handler by blast

lemma state_await_restart_retract_inv:
  assumes C: "calls_ok n call" and n: "4 \<le> n" and i: "sm_inv m" "\<not> locked (sm_state m)"
  shows "returns (state_await_restart_retract call rt m) sm_inv"
proof -
  have "same_ctl m (end_sys_motion m)" by simp
  then have x: "sm_inv (set_handler StAwaitHold (end_sys_motion m))"
    using i same_ctl_inv(3) [OF same_end_sys_motion] by (simp add: sm_inv_set_handler end_sys_motion_def)
  have "returns (call (Handler EXEC_CYCLE_COMPLETE) (set_handler StAwaitHold (end_sys_motion m))) sm_inv"
    by (rule handler_call [OF C x]) (use n in \<open>simp add: set_handler_def\<close>)
  then show ?thesis using i by (simp add: state_await_restart_retract_def)
qed

lemma restart_retract_inv:
  assumes C: "calls_ok n call" and n: "5 \<le> n" and i: "sm_inv m" "\<not> locked (sm_state m)"
  shows "returns (restart_retract call m) sm_inv"
proof -
  let ?m = "upd_sys (\<lambda>s. s\<lparr>parking_st := Parking_Retracting\<rparr>) (upd_park (\<lambda>p. p\<lparr>pk_restart := True\<rparr>)
    (set_handler StAwaitRestartRetract (feedback_message Message_SafetyDoorAjar m)))"
  have x: "sm_inv ?m" using i by (simp add: sm_inv_set_handler)
  have "returns (call (Handler EXEC_CYCLE_COMPLETE) ?m) sm_inv"
    by (rule handler_call [OF C x]) (use n in \<open>simp add: upd_defs\<close>)
  with x show ?thesis by (simp add: restart_retract_def Let_def)
qed

lemma same_motions [simp]:
  "same_ctl m (waypoint_deenergize m)" "same_ctl m (snd (fast_retract m))"
  "same_ctl m (snd (fast_restore m))" "same_ctl m (snd (slow_plunge m))"
  by (simp_all add: waypoint_deenergize_def fast_retract_def fast_restore_def slow_plunge_def
      mc_parking_motion_def Let_def split: option.split)

lemma motion_then_call:
  assumes C: "calls_ok n call" and i: "sm_inv m" "\<not> locked (sm_state m)" "h \<noteq> StNoop"
    and s: "same_ctl (set_handler h m) x" and d: "\<And>y. handler y = h \<Longrightarrow> depth (Handler EXEC_CYCLE_COMPLETE) y \<le> n"
  shows "returns (when_set (\<not> b) (call (Handler EXEC_CYCLE_COMPLETE)) x) sm_inv"
proof -
  have x: "sm_inv x" by (rule set_handler_same [OF s i])
  have "returns (call (Handler EXEC_CYCLE_COMPLETE) x) sm_inv"
    by (rule handler_call [OF C x d [OF same_ctl_handler [OF s]]])
  with x show ?thesis by simp
qed

lemma state_await_waypoint_retract_inv:
  assumes C: "calls_ok n call" and n: "1 \<le> n" and i: "sm_inv m" "\<not> locked (sm_state m)"
  shows "returns (state_await_waypoint_retract call rt m) sm_inv"
proof -
  let ?x = "waypoint_deenergize (end_sys_motion m)"
  have s: "same_ctl m ?x" by (rule same_ctl_trans [OF same_end_sys_motion same_motions(1)])
  have x: "sm_inv ?x" "\<not> locked (sm_state ?x)" using i same_ctl_inv(3) [OF s] s by (simp_all add: same_ctl_def)
  have "returns (when_set (\<not> fst (fast_retract (set_handler StAwaitResume ?x)))
      (call (Handler EXEC_CYCLE_COMPLETE)) (snd (fast_retract (set_handler StAwaitResume ?x)))) sm_inv"
    by (rule motion_then_call [OF C x _ same_motions(2)]) (use n in simp_all)
  then show ?thesis
    unfolding state_await_waypoint_retract_def Let_def case_prod_beta using i by (simp del: returns_simps(4))
qed

lemma state_restore_inv:
  assumes C: "calls_ok n call" and n: "6 \<le> n" and i: "sm_inv m" "\<not> locked (sm_state m)"
  shows "returns (state_restore call rt m) sm_inv"
proof -
  have n5: "5 \<le> n" using n by simp
  let ?m = "set_handler StAwaitResumed (upd_park (\<lambda>p. p\<lparr>pk_restart := False\<rparr>) (end_sys_motion m))"
  have s: "same_ctl (set_handler StAwaitResumed m) ?m"
    using same_end_sys_motion [of m] by (simp add: same_ctl_def)
  have rest: "(pk_restart (park x) \<longrightarrow> returns (restart_retract call x) sm_inv) \<and>
      (\<not> pk_restart (park x) \<longrightarrow> returns (when_set (\<not> fst (slow_plunge x))
         (call (Handler EXEC_CYCLE_COMPLETE)) (snd (slow_plunge x))) sm_inv)"
    if x: "same_ctl ?m x" for x
  proof -
    have s': "same_ctl (set_handler StAwaitResumed m) x" by (rule same_ctl_trans [OF s x])
    have ix: "sm_inv x" "\<not> locked (sm_state x)"
      using set_handler_same [OF s' i] s' i(2) by (simp_all add: same_ctl_def)
    have p: "same_ctl (set_handler StAwaitResumed m) (snd (slow_plunge x))"
      by (rule same_ctl_trans [OF s']) simp
    show ?thesis
      using restart_retract_inv [OF C n5 ix] motion_then_call [OF C i _ p] n by (simp del: returns_simps(4))
  qed
  have "settled (env ?m)" using i s by (simp add: same_ctl_def inv_defs)
  from returns_mono [OF state_restore_conditions_same [OF this] rest]
  have "returns (state_restore_conditions call ?m) (\<lambda>x. (pk_restart (park x) \<longrightarrow> returns (restart_retract call x) sm_inv) \<and>
      (\<not> pk_restart (park x) \<longrightarrow> returns (when_set (\<not> fst (slow_plunge x))
         (call (Handler EXEC_CYCLE_COMPLETE)) (snd (slow_plunge x))) sm_inv))" .
  moreover have "returns (restart_retract call m) sm_inv" by (rule restart_retract_inv [OF C n5 i])
  ultimately show ?thesis
    using i by (simp add: state_restore_def Let_def case_prod_beta del: returns_simps(4))
qed

lemma state_await_resumed_inv:
  assumes C: "calls_ok n call" and n: "5 \<le> n" and i: "sm_inv m" "\<not> locked (sm_state m)"
  shows "returns (state_await_resumed call rt m) sm_inv"
proof -
  have n2: "2 \<le> n" using n by simp
  show ?thesis
    using restart_retract_inv [OF C n i] idle_then_cycle [OF C n2, of _ "\<lambda>x. x"] i
    by (simp add: state_await_resumed_def Let_def)
qed

lemma resume_door_inv:
  assumes C: "calls_ok n call" and n: "7 \<le> n" and i: "sm_inv m" "\<not> locked (sm_state m)"
  shows "returns (resume_door call m) sm_inv"
proof -
  have p: "same_ctl (set_handler StRestore m)
      (snd (fast_restore (upd_sys (\<lambda>s. s\<lparr>parking_st := Parking_Resuming\<rparr>) (set_handler StRestore m))))"
    by (rule same_ctl_trans [OF _ same_motions(3)]) simp
  show ?thesis
    using motion_then_call [OF C i _ p] n i
    by (simp add: resume_door_def Let_def case_prod_beta del: returns_simps(4))
qed

lemma resume_hold_same:
  assumes "settled (env m)"
  shows "returns (resume_hold call m) (same_ctl m)"
proof -
  let ?m = "deref (sp_hal (rc_spindle m)) m"
  let ?f = "\<lambda>x. feedback_message Message_None (upd_sys (\<lambda>s. s\<lparr>spindle_stop_ovr := spindle_stop_0\<rparr>) x)"
  have cool: "returns (coolant_restore call c x) (\<lambda>y. same_ctl m (gc_coolant (rc_coolant y) y))"
    if "same_ctl m x" for x c
    using that assms
    by (intro returns_mono [OF coolant_restore_same])
      (auto elim: same_ctl_trans intro: same_ctl_trans [OF _ gc_coolant_same] same_ctl_settled)
  let ?c = "\<lambda>x. (rc_coolant x \<noteq> coolant_hw (env x) \<longrightarrow>
      returns (coolant_restore call (rc_coolant x) x) (\<lambda>y. same_ctl m (gc_coolant (rc_coolant y) y))) \<and>
      (rc_coolant x = coolant_hw (env x) \<longrightarrow> same_ctl m x)"
  have c: "?c x" if "same_ctl m x" for x using cool that by simp
  have e: "settled (env ?m)" using assms by simp
  have sp: "returns (state_spindle_restore call (rc_spindle m) (feedback_message Message_SpindleRestore ?m)) ?c"
    by (rule returns_mono [OF state_spindle_restore_same]) (use e in \<open>auto simp: feedback_message_def intro!: c elim: same_ctl_trans [rotated]\<close>)
  have off: "same_ctl m (gc_spindle_off ?m)" by (rule same_ctl_trans [OF _ same_gc_spindle_off]) simp
  have "rc_coolant ?m = rc_coolant m" "env ?m = env m" by simp_all
  with sp off c [of ?m] show ?thesis
    by (simp add: resume_hold_def Let_def)
qed

lemma restart_cycle_inv:
  assumes C: "calls_ok n call" and n: "2 \<le> n" and i: "sm_inv m"
  shows "returns (restart_cycle call m) sm_inv"
  using idle_then_cycle [OF C n i, of "upd_sys (\<lambda>s. s\<lparr>step_ctrl := step_ctrl (sys m)\<rparr>)"] i
  by (simp add: restart_cycle_def Let_def)

lemma if_intro3:
  "returns x Q \<Longrightarrow> returns y Q \<Longrightarrow> returns z Q \<Longrightarrow> returns (if a then x else if b then y else z) Q"
  by simp

lemma if_bind_intro:
  assumes "b \<Longrightarrow> returns x Q" "returns (f y) (\<lambda>z. returns (g z) Q)" "returns (g y) Q"
  shows "returns (if b then x else Option.bind (when_set c f y) g) Q"
  using assms by simp

lemma state_await_resume_inv:
  assumes C: "calls_ok n call" and n: "rt \<noteq> EXEC_CYCLE_COMPLETE \<Longrightarrow> 7 \<le> n"
    and i: "sm_inv m" "handler m = StAwaitResume"
  shows "returns (state_await_resume call rt m) sm_inv"
proof -
  let ?p = "istrue rt EXEC_CYCLE_COMPLETE \<and> parking_enabled (settings m)"
  let ?m = "if ?p then read_door (end_sys_motion m) else m"
  have s: "same_ctl m ?m" by (auto intro: same_ctl_trans [OF same_end_sys_motion same_read_door])
  then have m: "sm_inv ?m" "\<not> locked (sm_state ?m)"
    using i same_ctl_inv(3) [OF s] by (auto simp: same_ctl_def inv_defs)
  show ?thesis
  proof (cases "rt = EXEC_CYCLE_COMPLETE")
    case True
    then show ?thesis
      using m enter_sleep_inv(2) [OF m(1)]
      by (cases "parking_enabled (settings m)") (simp_all add: state_await_resume_def Let_def)
  next
    case False
    have n7: "7 \<le> n" using n False by blast
    have n2: "2 \<le> n" using n7 by simp
    let ?r = "\<lambda>x. if sm_state x = STATE_HOLD \<and> spindle_stop_ovr (sys x) = spindle_stop_0
      then upd_sys (\<lambda>s. s\<lparr>spindle_stop_ovr := (spindle_stop_ovr s)\<lparr>ss_restore_cycle := True\<rparr>\<rparr>) x else x"
    let ?d = "\<lambda>x. if sm_state x = STATE_TOOL_CHANGE \<or> sm_state x = STATE_SLEEP then Some x
      else if sm_state x = STATE_SAFETY_DOOR then resume_door call x else resume_hold call x"
    have d: "returns (?d x) sm_inv" if "sm_inv x" for x
    proof -
      have "settled (env x)" using that by (simp add: inv_defs)
      then have "returns (resume_hold call x) sm_inv"
        by (rule returns_mono [OF resume_hold_same]) (rule same_ctl_inv(3) [OF _ that])
      moreover have "returns (resume_door call x) sm_inv" if "sm_state x = STATE_SAFETY_DOOR"
        using resume_door_inv [OF C n7 \<open>sm_inv x\<close>] that by (simp add: locked_def)
      ultimately show ?thesis using that by simp
    qed
    have start: "returns (?d (?r x)) (\<lambda>y. returns (restart_cycle call y) sm_inv)" if "sm_inv x" for x
      by (rule returns_mono [OF d restart_cycle_inv [OF C n2]]) (use that in simp_all)
    let ?rest = "\<lambda>x. if istrue rt EXEC_SAFETY_DOOR then Some (read_door x)
      else if istrue rt EXEC_CYCLE_START then Option.bind (?d (?r x)) (restart_cycle call)
      else if istrue rt EXEC_DOOR_CLOSED \<and> \<not> door_ajar (env x)
      then Some (upd_sys (\<lambda>s. s\<lparr>parking_st := Parking_DoorClosed\<rparr>) x)
      else Some x"
    have rest: "returns (?rest x) sm_inv" if "sm_inv x" for x
    proof -
      have "returns (Some (read_door x)) sm_inv" using same_ctl_inv(3) [OF same_read_door that] by simp
      moreover have "returns (Option.bind (?d (?r x)) (restart_cycle call)) sm_inv"
        unfolding returns_simps(3) by (rule start [OF that])
      moreover have "returns (if istrue rt EXEC_DOOR_CLOSED \<and> \<not> door_ajar (env x)
          then Some (upd_sys (\<lambda>s. s\<lparr>parking_st := Parking_DoorClosed\<rparr>) x) else Some x) sm_inv"
        using that by simp
      ultimately show ?thesis by (rule if_intro3)
    qed
    define R where "R = ?rest"
    define M where "M = ?m"
    have RI: "returns (R x) sm_inv" if "sm_inv x" for x unfolding R_def by (rule rest [OF that])
    have iM: "sm_inv M" unfolding M_def by (rule m(1))
    have sleep: "returns (call (SetState STATE_SLEEP) M) (\<lambda>x. returns (R x) sm_inv)"
      by (rule returns_mono [OF set_call [OF C iM] RI]) (use n7 in simp_all)
    have body: "state_await_resume call rt m =
      (if ?p \<and> sm_state M = STATE_SLEEP then Some (enter_sleep M)
       else Option.bind (when_set (istrue rt EXEC_SLEEP) (call (SetState STATE_SLEEP)) M) R)"
      unfolding state_await_resume_def Let_def R_def M_def ..
    show ?thesis
      unfolding body
    proof (rule if_bind_intro)
      assume "?p \<and> sm_state M = STATE_SLEEP"
      then show "returns (Some (enter_sleep M)) sm_inv"
        using enter_sleep_inv(2) [OF iM] by simp
    next
      show "returns (call (SetState STATE_SLEEP) M) (\<lambda>x. returns (R x) sm_inv)" by (rule sleep)
    next
      show "returns (R M) sm_inv" by (rule RI [OF iM])
    qed
  qed
qed

lemma state_handler_inv:
  assumes C: "calls_ok n call" and n: "depth (Handler rt) m \<le> Suc n" and i: "sm_inv m"
  shows "returns (state_handler call rt m) sm_inv"
proof -
  have nl: "\<not> locked (sm_state m)" if "handler m \<noteq> StNoop" using i that by (auto simp: inv_defs)
  show ?thesis
    using n nl i
    by (cases "handler m")
      (auto simp: state_handler_def state_noop_def simp del: returns_simps
        intro!: state_idle_inv [OF C] state_cycle_inv [OF C] state_await_hold_inv [OF C]
          state_await_motion_cancel_inv [OF C] state_await_resume_inv [OF C]
          state_await_toolchanged_inv [OF C] state_await_waypoint_retract_inv [OF C]
          state_restore_inv [OF C] state_await_resumed_inv [OF C] state_await_restart_retract_inv [OF C]
        intro: returns_simps(1) [THEN iffD2])
qed

lemma state_set_sets:
  "st = STATE_IDLE \<or> st = STATE_TOOL_CHANGE \<Longrightarrow> returns (state_set call st m) (\<lambda>x. sm_state x = st)"
  by (auto simp: state_set_def Let_def state_set_end_def state_set_idle_ctl)

lemma returns_conj: "returns r P \<Longrightarrow> returns r Q \<Longrightarrow> returns r (\<lambda>x. P x \<and> Q x)"
  by (simp add: returns_def split: option.splits)

lemma sm_call_ok: "calls_ok n (sm_call n)"
proof (induction n)
  case 0
  have "depth c m \<noteq> 0" for c m by (cases c) (auto split: handler.splits)
  then show ?case unfolding calls_ok_def by (metis le_zero_eq)
next
  case (Suc n)
  have "returns (sm_call (Suc n) c m) (\<lambda>m'. sm_inv m' \<and>
      (\<forall>st \<in> {STATE_IDLE, STATE_TOOL_CHANGE}. c = SetState st \<longrightarrow> sm_state m' = st))"
    if d: "depth c m \<le> Suc n" and p: "call_pre c m" for c m
  proof (rule returns_conj)
    show "returns (sm_call (Suc n) c m) sm_inv"
    proof (cases c)
      case (SetState st)
      then show ?thesis using state_set_inv [OF Suc.IH] d p by simp
    next
      case (Handler rt)
      then show ?thesis using state_handler_inv [OF Suc.IH] d p by simp
    next
      case (AwaitHold rt)
      then show ?thesis using state_await_hold_inv [OF Suc.IH] d p by simp
    next
      case (Update rt)
      then have n8: "8 \<le> n" and i: "sm_inv m" using d p by simp_all
      have h: "returns (sm_call n (Handler rt) x) sm_inv" if "sm_inv x" for x
        by (rule calls_okD [OF Suc.IH]) (use n8 that in \<open>auto split: handler.splits\<close>)
      have "returns (sm_call n (SetState STATE_SAFETY_DOOR) m) (\<lambda>x. returns (sm_call n (Handler rt) x) sm_inv)"
        by (rule returns_mono [OF set_call [OF Suc.IH i] h]) (use n8 in simp_all)
      then show ?thesis using Update h [OF i] by (simp add: state_update_body_def)
    qed
    show "returns (sm_call (Suc n) c m)
        (\<lambda>m'. \<forall>st \<in> {STATE_IDLE, STATE_TOOL_CHANGE}. c = SetState st \<longrightarrow> sm_state m' = st)"
    proof (cases "\<exists>st \<in> {STATE_IDLE, STATE_TOOL_CHANGE}. c = SetState st")
      case True
      then obtain st where "c = SetState st" "st = STATE_IDLE \<or> st = STATE_TOOL_CHANGE" by blast
      then show ?thesis using state_set_sets [of st "sm_call n" m] by (auto elim: returns_mono)
    next
      case False
      then show ?thesis
        using \<open>returns (sm_call (Suc n) c m) sm_inv\<close> by (auto elim!: returns_mono)
    qed
  qed
  then show ?case unfolding calls_ok_def by blast
qed

section \<open>Every request returns\<close>

text \<open>
  The state machine never loops and never loses its control invariant: for every realtime
  request, in every state that satisfies \<open>sm_inv\<close> (no realtime request arriving during a spindle
  delay, a synchronised spindle that turns or times out), \<open>state_update\<close> returns within twelve
  nested handler calls, in a state that satisfies \<open>sm_inv\<close> again: the state is one of the
  eleven, alarm, emergency stop, homing and check mode have the handler that ignores all requests,
  and that handler is installed in no other state but sleep.
\<close>

lemma state_update_total:
  assumes "sm_inv m"
  shows "\<exists>m'. state_update rt m = Some m' \<and> sm_inv m'"
proof -
  have "returns (sm_call sm_fuel (Update rt) m) sm_inv"
    by (rule calls_okD [OF sm_call_ok]) (use assms in \<open>simp_all add: sm_fuel_def\<close>)
  then show ?thesis by (simp add: state_update_def returns_Some)
qed

end
