(* ===== verification/StateBehaviour.thy ===== *)
theory StateBehaviour
  imports StateInvariant
begin

text \<open>
  What the state machine does on the paths that matter on the shop floor: feed hold and resume,
  the safety door, the locked states and the cancellation of a jog.
\<close>

lemma sm_call_num [simp]:
  "sm_call (numeral k) c m =
     (case c of
        SetState st \<Rightarrow> state_set (sm_call (pred_numeral k)) st m
      | Handler rt \<Rightarrow> state_handler (sm_call (pred_numeral k)) rt m
      | AwaitHold rt \<Rightarrow> state_await_hold (sm_call (pred_numeral k)) rt m
      | Update rt \<Rightarrow> state_update_body (sm_call (pred_numeral k)) rt m)"
  by (simp add: numeral_eq_Suc)

lemmas run_defs = state_update_def sm_fuel_def state_update_body_def state_handler_def when_set_def

lemma update_handler:
  "\<not> istrue rt EXEC_SAFETY_DOOR \<Longrightarrow> state_update rt m = state_handler (sm_call 10) rt m"
proof -
  assume d: "\<not> istrue rt EXEC_SAFETY_DOOR"
  have n: "(12::nat) = Suc (Suc 10)" by simp
  show ?thesis
    using d unfolding state_update_def sm_fuel_def n
    by (simp only: sm_call.simps smcall.case state_update_body_def when_set_def simp_thms if_False Option.bind.simps)
qed

section \<open>A concrete machine\<close>

text \<open>
  A machine with one spindle, running or idle, with a block in the planner and the door as given;
  the instances of the theorems below are evaluated on it.
\<close>

definition demo_spindle :: spindle_t where
  "demo_spindle = \<lparr>sp_hal = Some 0, sp_rpm = 1000, sp_state = \<lparr>sp_on = True, sp_ccw = False,
     sp_synchronized = False\<rparr>\<rparr>"

definition demo_env :: "bool \<Rightarrow> env" where
  "demo_env door =
     \<lparr>cur_block = Some \<lparr>pb_spindle = demo_spindle, pb_coolant = 1, pb_units_per_rev = False\<rparr>,
      gc_spindle = demo_spindle, gc_coolant_modal = 1, tool_change = False,
      spindle_hw = (\<lambda>_. sp_state demo_spindle), spindle_param_rpm = (\<lambda>_. 1000), spindle_rpm0 = False,
      spindle_laser = (\<lambda>_. False), coolant_hw = 1, door_ajar = door, probe_triggered = False,
      cur_mpos = [0, 0, 0, 0, 0], plan_accepts = (\<lambda>_ _. True), sync_first = 0,
      sync_obs = [(2, 0, 0)], delay_events = []\<rparr>"

definition demo_sys :: sys_t where
  "demo_sys =
     \<lparr>sys_abort = False, sys_cancel = False, suspend = False, steppers_deenergize = False,
      blocking_event = False, driver_started = True, soft_limit = False, feed_hold_pending = False,
      is_homing = False, is_parking = False, step_ctrl = step_control_0,
      spindle_stop_ovr = spindle_stop_0, feed_hold_disable = False, ovr_sync = False,
      parking_disable = False, parking_st = Parking_DoorClosed, holding_st = Hold_NotHolding,
      rt_exec_state = 0, rt_exec_alarm = 0, sys_alarm = Alarm_None, alarm_pending = Alarm_None,
      homed_mask = 0, probing_active = False\<rparr>"

definition demo_machine :: "sys_state \<Rightarrow> handler \<Rightarrow> bool \<Rightarrow> machine" where
  "demo_machine st h door =
     \<lparr>handler = h, sm_state = st, pending_state = STATE_IDLE, rc_coolant = 1, rc_spindle = demo_spindle,
      park = \<lparr>pk_target = [], pk_restore_target = [], pk_retract_waypoint = 0, pk_active = False,
              pk_motion = False, pk_restart = False, pk_restoring = False,
              pk_plan_data = \<lparr>pd_feed_rate = 0, pd_coolant = 0, pd_spindle = demo_spindle,
                pd_system_motion = True, pd_no_feed_override = True, pd_line_number = 0\<rparr>\<rparr>,
      sys = demo_sys, env = demo_env door,
      settings = \<lparr>parking_enabled = False, parking_axis = 2, parking_target = 0, parking_rate = 0,
        pullout_rate = 0, pullout_increment = 0, laser_mode = False, keep_coolant_on = False,
        disable_laser_during_hold = False, restore_after_feed_hold = True\<rparr>,
      overrides = override_state_zero, null_deref = False, events = []\<rparr>"

lemmas demo_defs = demo_machine_def demo_sys_def demo_env_def demo_spindle_def

lemma demo_inv: "sm_inv (demo_machine STATE_IDLE StIdle False)" "sm_inv (demo_machine STATE_ALARM StNoop False)"
  by (simp_all add: inv_defs settled_def locked_def demo_defs)

section \<open>Behaviour\<close>

text \<open>
  Alarm, emergency stop and check mode lock the machine: no realtime request of any kind,
  the safety door included, has an effect on a machine in one of them.
\<close>

theorem locked_ignores_requests:
  assumes "sm_inv m" "sm_state m = STATE_ALARM \<or> sm_state m = STATE_ESTOP \<or> sm_state m = STATE_CHECK_MODE"
  shows "state_update rt m = Some m"
proof -
  have h: "handler m = StNoop" using assms by (auto simp: inv_defs locked_def)
  have "istrue (sm_state m) (STATE_ALARM OR STATE_ESTOP OR STATE_SLEEP OR STATE_CHECK_MODE)"
    using assms(2) by auto
  moreover have "sm_state m \<noteq> STATE_SAFETY_DOOR" using assms(2) by auto
  ultimately show ?thesis
    using h by (simp add: run_defs state_set_def state_noop_def)
qed

theorem locked_ignores_requests_witness:
  "state_update EXEC_SAFETY_DOOR (demo_machine STATE_ALARM StNoop False)
     = Some (demo_machine STATE_ALARM StNoop False)"
  by (rule locked_ignores_requests [OF demo_inv(2)]) (simp add: demo_defs)

text \<open>A feed hold during a cycle, the end of the deceleration and the resume.\<close>

lemma hold_from_cycle:
  assumes "sm_state m = STATE_CYCLE" "handler m = StCycle" "\<not> feed_hold_disable (sys m)"
  shows "state_update EXEC_FEED_HOLD m =
     Some (state_set_end STATE_CYCLE (upd_sys (\<lambda>s. s\<lparr>feed_hold_pending := False\<rparr>)
       ((snd (initiate_hold STATE_HOLD m))\<lparr>sm_state := STATE_HOLD\<rparr>)))"
  using assms initiate_hold_ctl(1) [of m STATE_HOLD]
  by (simp add: run_defs state_cycle_def state_set_def state_set_hold_def Let_def case_prod_beta)

text \<open>
  C6. A feed hold requested during a cycle decelerates: the machine enters the hold state with
  the step generator told to recompute and the hold pending, and does not resume before the
  motion has stopped.
\<close>

theorem feed_hold_decelerates:
  assumes "sm_state m = STATE_CYCLE" "handler m = StCycle" "\<not> feed_hold_disable (sys m)"
  shows "\<exists>m'. state_update EXEC_FEED_HOLD m = Some m' \<and>
     sm_state m' = STATE_HOLD \<and> handler m' = StAwaitHold \<and> holding_st (sys m') = Hold_Pending \<and>
     execute_hold (step_ctrl (sys m')) \<and> EvPlanParams False \<in> set (events m') \<and>
     suspend (sys m') = (\<not> soft_limit (sys m)) \<and>
     state_update EXEC_CYCLE_START m' = Some m'"
proof -
  let ?m = "state_set_end STATE_CYCLE (upd_sys (\<lambda>s. s\<lparr>feed_hold_pending := False\<rparr>)
       ((snd (initiate_hold STATE_HOLD m))\<lparr>sm_state := STATE_HOLD\<rparr>))"
  have h: "handler ?m = StAwaitHold" "sm_state ?m = STATE_HOLD" "holding_st (sys ?m) = Hold_Pending"
    "execute_hold (step_ctrl (sys ?m))" "EvPlanParams False \<in> set (events ?m)"
    "suspend (sys ?m) = (\<not> soft_limit (sys m))"
    using assms
    by (simp_all add: state_set_end_def initiate_hold_def Let_def if_fields)
  moreover from h(1,2) have "state_update EXEC_CYCLE_START ?m = Some ?m"
    by (simp add: run_defs state_await_hold_def)
  ultimately show ?thesis using hold_from_cycle [OF assms] by blast
qed

theorem feed_hold_decelerates_witness:
  "\<exists>m'. state_update EXEC_FEED_HOLD (demo_machine STATE_CYCLE StCycle False) = Some m' \<and>
     sm_state m' = STATE_HOLD \<and> suspend (sys m')"
proof -
  obtain m' where "state_update EXEC_FEED_HOLD (demo_machine STATE_CYCLE StCycle False) = Some m'"
    "sm_state m' = STATE_HOLD" "suspend (sys m') = (\<not> soft_limit (sys (demo_machine STATE_CYCLE StCycle False)))"
    using feed_hold_decelerates [of "demo_machine STATE_CYCLE StCycle False"] by (auto simp: demo_defs)
  then show ?thesis by (auto simp: demo_defs)
qed

text \<open>The spindle and coolant restored on a resume.\<close>

lemma state_spindle_restore_effect:
  assumes "sp_hal sp = Some h" "\<not> sys_abort (sys m)" "\<not> sys_cancel (sys m)"
    and "sm_state m \<noteq> STATE_CHECK_MODE" "delay_events (env m) = []"
  shows "\<exists>x. state_spindle_restore call sp m = Some x \<and>
     sp_on (spindle_hw (env x) h) = sp_on (sp_state sp) \<and> coolant_hw (env x) = coolant_hw (env m) \<and>
     cur_block (env x) = cur_block (env m) \<and> delay_events (env x) = [] \<and>
     sm_state x = sm_state m \<and> handler x = handler m \<and> settings x = settings m \<and>
     rc_coolant x = rc_coolant m \<and> rc_spindle x = rc_spindle m \<and> park x = park m \<and>
     feed_hold_pending (sys x) = feed_hold_pending (sys m)"
  using assms
  by (auto simp: state_spindle_restore_def spindle_restore_def spindle_set_state_def Let_def delay_sec_def
      spindle_state_0_def)

lemma coolant_restore_effect:
  assumes "delay_events (env m) = []"
  shows "coolant_restore call c m = Some (if c = coolant_hw (env m) then m else coolant_set_hw c m)"
  using assms by (simp add: coolant_restore_def delay_sec_def coolant_set_hw_def)

lemma resume_hold_effect:
  assumes "sp_hal (rc_spindle m) = Some h" "\<not> sys_abort (sys m)" "\<not> sys_cancel (sys m)"
    and "sm_state m \<noteq> STATE_CHECK_MODE" "delay_events (env m) = []" "restore_after_feed_hold (settings m)"
  shows "\<exists>x. resume_hold call m = Some x \<and>
     sp_on (spindle_hw (env x) h) = sp_on (sp_state (rc_spindle m)) \<and> coolant_hw (env x) = rc_coolant m \<and>
     cur_block (env x) = cur_block (env m) \<and> sm_state x = sm_state m \<and> handler x = handler m"
proof -
  let ?r = "\<lambda>x. Option.bind (when_set (rc_coolant x \<noteq> coolant_hw (env x))
      (\<lambda>m. Option.bind (coolant_restore call (rc_coolant m) m) (\<lambda>m. Some (gc_coolant (rc_coolant m) m))) x)
      (\<lambda>x. Some (feedback_message Message_None (upd_sys (\<lambda>s. s\<lparr>spindle_stop_ovr := spindle_stop_0\<rparr>) x)))"
  have r: "\<exists>y. ?r x = Some y \<and> sp_on (spindle_hw (env y) h) = sp_on (spindle_hw (env x) h) \<and>
      coolant_hw (env y) = rc_coolant x \<and> cur_block (env y) = cur_block (env x) \<and>
      sm_state y = sm_state x \<and> handler y = handler x" if "delay_events (env x) = []" for x
    using that
    by (simp add: when_set_def coolant_restore_effect gc_coolant_def coolant_set_hw_def feedback_message_def)
  let ?m = "feedback_message Message_SpindleRestore m"
  obtain x where x: "state_spindle_restore call (rc_spindle m) ?m = Some x"
    "sp_on (spindle_hw (env x) h) = sp_on (sp_state (rc_spindle m))"
    "cur_block (env x) = cur_block (env m)" "delay_events (env x) = []" "sm_state x = sm_state m"
    "handler x = handler m" "rc_coolant x = rc_coolant m"
    using state_spindle_restore_effect [OF assms(1), of ?m call] assms
    by (auto simp: feedback_message_def)
  have e: "resume_hold call m =
      Option.bind (when_set (sp_on (sp_state (rc_spindle m)) \<noteq> hal_on (Some h) m)
        (\<lambda>m. state_spindle_restore call (rc_spindle m) (feedback_message Message_SpindleRestore m)) m) ?r"
    using assms(1,6) by (simp add: resume_hold_def Let_def deref_def when_set_def)
  show ?thesis
  proof (cases "sp_on (sp_state (rc_spindle m)) = hal_on (Some h) m")
    case True
    with r [OF assms(5)] show ?thesis unfolding e by (auto simp: when_set_def hal_on_def)
  next
    case False
    with r [OF x(4)] x show ?thesis unfolding e by (auto simp: when_set_def)
  qed
qed

lemma restart_cycle_effect:
  assumes "cur_block (env m) = Some b" "\<not> sp_synchronized (sp_state (pb_spindle b))"
    and "sm_state m = STATE_HOLD" "n = Suc (Suc k)"
  shows "\<exists>x. restart_cycle (sm_call n) m = Some x \<and> sm_state x = STATE_CYCLE \<and> handler x = StCycle \<and>
     \<not> suspend (sys x) \<and> holding_st (sys x) = Hold_NotHolding \<and> EvWakeUp \<in> set (events x) \<and>
     spindle_hw (env x) = spindle_hw (env m) \<and> coolant_hw (env x) = coolant_hw (env m)"
  using assms
  by (simp add: restart_cycle_def state_set_def state_set_idle_def state_set_cycle_def state_set_end_def
      Let_def if_fields system_set_exec_state_flag_def)



lemma door_from_cycle:
  assumes "sm_state m = STATE_CYCLE" "handler m = StCycle"
  shows "\<exists>m'. state_update EXEC_SAFETY_DOOR m = Some m' \<and> sm_state m' = STATE_SAFETY_DOOR \<and>
     handler m' = StAwaitHold \<and> execute_hold (step_ctrl (sys m')) \<and> settings m' = settings m \<and>
     env m' = env m \<and> soft_limit (sys m') = soft_limit (sys m) \<and> \<not> pk_restart (park m') \<and>
     is_parking (sys m') = is_parking (sys m)"
proof -
  let ?x = "emit [EvFeedback Message_SafetyDoorAjar] m"
  let ?y = "upd_sys (\<lambda>s. s\<lparr>parking_st := Parking_Retracting\<rparr>) ?x"
  let ?h = "(snd (initiate_hold STATE_SAFETY_DOOR ?y))\<lparr>sm_state := STATE_SAFETY_DOOR\<rparr>"
  have f: "fst (initiate_hold STATE_SAFETY_DOOR ?y)"
    using assms initiate_hold_ctl(1) [of ?y STATE_SAFETY_DOOR] by simp
  have e: "state_update EXEC_SAFETY_DOOR m = Some (state_set_end STATE_CYCLE ?h)"
    using assms f
    by (simp add: run_defs state_set_def state_set_park_def Let_def case_prod_beta feedback_message_def
        state_await_hold_def state_set_end_def initiate_hold_ctl if_fields)
  have "handler ?h = StAwaitHold" "env ?h = env m" "settings ?h = settings m"
    using assms initiate_hold_ctl [of ?y STATE_SAFETY_DOOR] by simp_all
  moreover have "execute_hold (step_ctrl (sys ?h))" "soft_limit (sys ?h) = soft_limit (sys m)"
    "is_parking (sys ?h) = is_parking (sys m)" "\<not> pk_restart (park ?h)"
    using assms by (simp_all add: initiate_hold_def Let_def if_fields)
  ultimately show ?thesis unfolding e by (simp add: state_set_end_def Let_def if_fields)
qed



text \<open>
  C9. A race: a jog cancelled in the same pass in which its last step is reported complete ends
  in the idle state with \<open>sys.suspend\<close> set and a handler that waits for a motion to end. Nothing is
  moving, and every request except another "cycle complete" and the safety door (feed hold,
  cycle start, sleep, a new cancellation) leaves the machine as it is: the suspend loop of the
  protocol is not left without a reset.
\<close>

theorem jog_cancel_race:
  assumes "sm_state m = STATE_JOG" "handler m = StCycle" "\<not> tool_change (env m)"
  shows "\<exists>m'. state_update (EXEC_CYCLE_COMPLETE OR EXEC_MOTION_CANCEL) m = Some m' \<and>
     sm_state m' = STATE_IDLE \<and> suspend (sys m') \<and>
     (\<forall>rt. \<not> istrue rt EXEC_CYCLE_COMPLETE \<longrightarrow> \<not> istrue rt EXEC_SAFETY_DOOR \<longrightarrow> state_update rt m' = Some m')"
proof -
  let ?m = "state_set_end STATE_JOG (state_set_idle m)"
  let ?m' = "set_handler StAwaitMotionCancel
    (upd_sys (\<lambda>s. s\<lparr>suspend := True, step_ctrl := (step_ctrl s)\<lparr>execute_hold := True\<rparr>\<rparr>)
      (emit [EvPlanParams True] ?m))"
  have s: "sm_state ?m = STATE_IDLE"
    by (simp add: state_set_end_def state_set_idle_ctl Let_def if_fields)
  have "state_update (EXEC_CYCLE_COMPLETE OR EXEC_MOTION_CANCEL) m = Some ?m'"
    using assms by (simp add: run_defs state_cycle_def state_set_def)
  moreover have "state_update rt ?m' = Some ?m'"
    if "\<not> istrue rt EXEC_CYCLE_COMPLETE" "\<not> istrue rt EXEC_SAFETY_DOOR" for rt
    using that by (simp add: update_handler state_handler_def state_await_motion_cancel_def)
  ultimately show ?thesis using s by (intro exI [of _ ?m']) simp
qed

theorem jog_cancel_race_witness:
  "\<exists>m'. state_update (EXEC_CYCLE_COMPLETE OR EXEC_MOTION_CANCEL) (demo_machine STATE_JOG StCycle False) = Some m' \<and>
     sm_state m' = STATE_IDLE \<and> suspend (sys m')"
proof -
  have h: "sm_state (demo_machine STATE_JOG StCycle False) = STATE_JOG"
    "handler (demo_machine STATE_JOG StCycle False) = StCycle"
    "\<not> tool_change (env (demo_machine STATE_JOG StCycle False))"
    by (simp_all add: demo_defs)
  from jog_cancel_race [OF h] show ?thesis by blast
qed

end
