(* ===== verification/StateReach.thy ===== *)
theory StateReach
  imports StateBehaviour Reach
begin

text \<open>
  The controller as a transition system: realtime requests and state changes asked for by other
  modules, in any order, with the rest of the machine changing in between.
\<close>

text \<open>The start: idle, no request ignored; a spindle delay is undisturbed and a wait for it ends.\<close>

definition machine_start :: "machine \<Rightarrow> bool" where
  "machine_start m \<longleftrightarrow> handler m = StIdle \<and> sm_state m = STATE_IDLE \<and> pending_state m = STATE_IDLE \<and>
     settled (env m)"

inductive machine_step :: "machine \<Rightarrow> machine \<Rightarrow> bool" where
  step_update: "state_update rt m = Some m' \<Longrightarrow> machine_step m m'"
| step_set: "st \<in> set sys_states \<Longrightarrow> set_state st m = Some m' \<Longrightarrow> machine_step m m'"
| step_world: "settled e \<Longrightarrow> machine_step m (m\<lparr>env := e, sys := s, settings := c, overrides := q, events := es\<rparr>)"

inductive_cases machine_stepE: "machine_step m m'"

lemma set_state_total:
  assumes "sm_inv m" "st \<in> set sys_states"
  shows "\<exists>m'. set_state st m = Some m' \<and> sm_inv m'"
proof -
  have "call_pre (SetState st) m" using assms by (simp add: sm_inv_def)
  moreover have "depth (SetState st) m \<le> sm_fuel" by (simp add: sm_fuel_def)
  ultimately have "returns (sm_call sm_fuel (SetState st) m) sm_inv"
    by (intro calls_okD [OF sm_call_ok])
  then show ?thesis by (simp add: set_state_def returns_Some)
qed

interpretation sm: inductive_invariant machine_start machine_step sm_inv
proof
  show "sm_inv m" if "machine_start m" for m
    using that by (simp add: machine_start_def inv_defs sys_states_def locked_def)
  show "sm_inv m'" if "sm_inv m" "machine_step m m'" for m m'
    using that(2)
  proof (rule machine_stepE)
    show "state_update rt m = Some m' \<Longrightarrow> sm_inv m'" for rt
      using state_update_total [OF that(1), of rt] by auto
    show "st \<in> set sys_states \<Longrightarrow> set_state st m = Some m' \<Longrightarrow> sm_inv m'" for st
      using set_state_total [OF that(1)] by fastforce
    show "m' = m\<lparr>env := e, sys := s, settings := c, overrides := q, events := es\<rparr> \<Longrightarrow> settled e \<Longrightarrow> sm_inv m'" for e s c q es
      using that(1) by (simp add: inv_defs)
  qed
qed



end
