(* ===== verification/Chains.thy ===== *)
theory Chains
  imports GrblPrelude
begin

text \<open>
  Singly linked lists searched by key, as the parameter stores and the macro bookkeeping use them:
  a chain is the list of its nodes in link order, a new node goes to the end, a search takes the
  first match. The locale \<open>keyed_store\<close> states what a client relies on; the number of
  allocations that can still succeed is \<open>room\<close>.
\<close>

fun upd_first :: "('e \<Rightarrow> bool) \<Rightarrow> ('e \<Rightarrow> 'e) \<Rightarrow> 'e list \<Rightarrow> 'e list" where
  "upd_first p f [] = []"
| "upd_first p f (x # xs) = (if p x then f x # xs else x # upd_first p f xs)"

fun remove_first :: "('e \<Rightarrow> bool) \<Rightarrow> 'e list \<Rightarrow> 'e list" where
  "remove_first p [] = []"
| "remove_first p (x # xs) = (if p x then xs else x # remove_first p xs)"

lemma find_append: "find p (xs @ ys) = (case find p xs of Some x \<Rightarrow> Some x | None \<Rightarrow> find p ys)"
  by (induction xs) auto

lemma find_upd_first_same:
  assumes "find p xs = Some x" "p (f x)"
  shows "find p (upd_first p f xs) = Some (f x)"
  using assms by (induction xs) (auto split: if_splits)

lemma find_upd_first_other:
  assumes "\<And>x. p x \<Longrightarrow> \<not> q x \<and> \<not> q (f x)"
  shows "find q (upd_first p f xs) = find q xs"
  using assms by (induction xs) auto

lemma find_remove_first_other:
  assumes "\<And>x. p x \<Longrightarrow> \<not> q x"
  shows "find q (remove_first p xs) = find q xs"
  using assms by (induction xs) auto

lemma find_filter: "(\<And>x. q x \<Longrightarrow> p x) \<Longrightarrow> find q (filter p xs) = find q xs"
  by (induction xs) auto

lemma find_filter_none: "(\<And>x. q x \<Longrightarrow> \<not> p x) \<Longrightarrow> find q (filter p xs) = None"
  by (auto simp: find_None_iff)

lemma map_upd_first: "(\<And>x. p x \<Longrightarrow> g (f x) = g x) \<Longrightarrow> map g (upd_first p f xs) = map g xs"
  by (induction xs) auto

lemma distinct_remove_first: "distinct (map g xs) \<Longrightarrow> distinct (map g (remove_first p xs))"
proof (induction xs)
  case (Cons x xs)
  have "set (remove_first p xs) \<subseteq> set xs" by (induction xs) auto
  with Cons show ?case by auto
qed simp

lemma set_remove_first: "set (remove_first p xs) \<subseteq> set xs"
  by (induction xs) auto

lemma find_remove_first_distinct:
  assumes "distinct (map g xs)"
  shows "find (\<lambda>x. g x = k) (remove_first (\<lambda>x. g x = k) xs) = None"
  using assms by (induction xs) (auto simp: find_None_iff image_iff)

lemma find_pred_cong: "(\<And>x. p x = q x) \<Longrightarrow> find p xs = find q xs"
  by (induction xs) auto

section \<open>The interface of a keyed store\<close>

text \<open>
  Names that have the same key denote the same entry. \<open>ok\<close> holds of the names the store accepts
  for writing; writing under another name changes nothing.
\<close>

locale keyed_store =
  fixes get :: "'s \<Rightarrow> 'n \<Rightarrow> 'w"
    and put :: "'n \<Rightarrow> 'v \<Rightarrow> 's \<Rightarrow> 's"
    and key :: "'n \<Rightarrow> 'k"
    and ok :: "'n \<Rightarrow> bool"
    and img :: "'v \<Rightarrow> 'w"
    and inv :: "'s \<Rightarrow> bool"
    and room :: "'s \<Rightarrow> nat"
  assumes put_inv: "inv s \<Longrightarrow> inv (put k v s)"
    and get_put_same: "inv s \<Longrightarrow> 0 < room s \<Longrightarrow> ok k \<Longrightarrow> key k' = key k \<Longrightarrow> get (put k v s) k' = img v"
    and get_put_other: "inv s \<Longrightarrow> key k' \<noteq> key k \<Longrightarrow> get (put k v s) k' = get s k'"
    and put_room: "inv s \<Longrightarrow> room s \<le> Suc (room (put k v s))"
begin

definition put_all :: "('n \<times> 'v) list \<Rightarrow> 's \<Rightarrow> 's" where
  "put_all kvs s = fold (\<lambda>(k, v). put k v) kvs s"

lemma put_all_simps [simp]:
  "put_all [] s = s" "put_all ((k, v) # kvs) s = put_all kvs (put k v s)"
  by (simp_all add: put_all_def)

lemma put_all_inv: "inv s \<Longrightarrow> inv (put_all kvs s)"
  by (induction kvs arbitrary: s) (auto simp: put_inv)

lemma put_all_room: "inv s \<Longrightarrow> room s \<le> length kvs + room (put_all kvs s)"
proof (induction kvs arbitrary: s)
  case (Cons kv kvs)
  obtain k v where kv: "kv = (k, v)" by (cases kv)
  show ?case using Cons.IH [OF put_inv [OF Cons.prems, of k v]] put_room [OF Cons.prems, of k v] kv by simp
qed simp

lemma get_put_all_other:
  "inv s \<Longrightarrow> key k \<notin> key ` fst ` set kvs \<Longrightarrow> get (put_all kvs s) k = get s k"
proof (induction kvs arbitrary: s)
  case (Cons kv kvs)
  obtain k' v where kv: "kv = (k', v)" by (cases kv)
  have "inv (put k' v s)" using Cons.prems put_inv by auto
  then show ?case using Cons kv get_put_other [of s k k' v] by auto
qed simp

text \<open>After a batch of writes a name reads as the last value written under its key.\<close>

lemma get_put_all:
  assumes "inv s" "length kvs + length kvs' < room s" "ok k"
    and "key k' = key k" "key k' \<notin> key ` fst ` set kvs'"
  shows "get (put_all (kvs @ (k, v) # kvs') s) k' = img v"
  using assms
proof (induction kvs arbitrary: s)
  case Nil
  then show ?case
    using get_put_all_other [OF put_inv [OF Nil.prems(1)], of k' kvs' k v] get_put_same [of s k k' v] by simp
next
  case (Cons kv kvs)
  obtain k1 v1 where kv: "kv = (k1, v1)" by (cases kv)
  have "length kvs + length kvs' < room (put k1 v1 s)"
    using Cons.prems put_room [OF Cons.prems(1), of k1 v1] by simp
  with Cons.IH [OF put_inv [OF Cons.prems(1), of k1 v1]] Cons.prems kv show ?case by simp
qed

end

end
