(* ===== verification/NgcParams.thy ===== *)
theory NgcParams
  imports Chains Codes "HOL-Library.Char_ord" Complex_Main
begin

text \<open>
  \<open>grbl/ngc_params.c\<close>: numbered, named and string parameters of G-code programs, the saved modal
  state and the call levels that own local parameters. The three linked lists are chains
  (\<open>Chains\<close>); a context pointer is a number, \<open>None\<close> the null pointer. \<open>heap_left\<close> counts the
  allocations that will still succeed. What the read-only parameters report is an argument: the
  getters read the state of other modules.
\<close>

section \<open>State\<close>

type_synonym ngc_param_id = u16
type_synonym ngc_string_id = u32
type_synonym call_ctx = "nat option"

record rw_param =
  rp_context :: call_ctx
  rp_id :: ngc_param_id
  rp_value :: real

record named_rw_param =
  np_context :: call_ctx
  np_name :: string
  np_value :: real

record string_param =
  str_id :: ngc_string_id
  str_len :: nat
  str_value :: string

text \<open>A saved modal state: what the parser saved, its feed rate and the restore flag.\<close>

record modal_snapshot =
  ms_modal :: nat
  ms_override :: nat
  ms_feed_rate :: real
  ms_auto_restore :: bool

record param_context =
  pc_context :: call_ctx
  pc_modal_state :: "modal_snapshot option"

record ngc_state =
  call_level :: int
  call_context :: call_ctx
  modal_state :: "modal_snapshot option"
  call_levels :: "param_context list"
  rw_params :: "rw_param list"
  rw_global_params :: "named_rw_param list"
  ref_id :: ngc_string_id
  ngc_string_params :: "string_param list"
  heap_left :: nat
  restored :: "modal_snapshot list"
  ngc_aborted :: bool

definition NGC_MAX_CALL_LEVEL :: nat where
  "NGC_MAX_CALL_LEVEL = 10"

definition NGC_MAX_PARAM_LENGTH :: nat where
  "NGC_MAX_PARAM_LENGTH = 30"

definition NGC_MAX_PARAM_ID :: u32 where
  "NGC_MAX_PARAM_ID = 65535"

text \<open>The values the module's variables start with.\<close>

definition ngc_initial :: "nat \<Rightarrow> ngc_state" where
  "ngc_initial heap = \<lparr>call_level = -1, call_context = None, modal_state = None,
     call_levels = replicate NGC_MAX_CALL_LEVEL \<lparr>pc_context = None, pc_modal_state = None\<rparr>,
     rw_params = [], rw_global_params = [], ref_id = -1, ngc_string_params = [],
     heap_left = heap, restored = [], ngc_aborted = False\<rparr>"

section \<open>Numbered parameters\<close>

definition ngc_ro_params :: "(ngc_param_id \<times> ngc_param_id) list" where
  "ngc_ro_params =
     [(5061, 5069), (5070, 5070), (5161, 5169), (5181, 5189), (5191, 5199), (5210, 5210),
      (5211, 5219), (5220, 5220), (5221, 5230), (5241, 5250), (5261, 5270), (5281, 5290),
      (5301, 5310), (5321, 5330), (5341, 5350), (5361, 5370), (5381, 5390), (5399, 5399),
      (5400, 5400), (5401, 5409), (5420, 5428), (5599, 5599)]"

definition ngc_param_is_rw :: "ngc_param_id \<Rightarrow> bool" where
  "ngc_param_is_rw pid \<longleftrightarrow> 0 < pid \<and> pid < fst (hd ngc_ro_params)"

definition ngc_param_exists :: "ngc_param_id \<Rightarrow> bool" where
  "ngc_param_exists pid \<longleftrightarrow> 0 < pid \<and> pid \<le> snd (last ngc_ro_params)"

text \<open>Local parameters (1 to 30) belong to the current call, the others to no context.\<close>

definition param_context_of :: "ngc_param_id \<Rightarrow> ngc_state \<Rightarrow> call_ctx" where
  "param_context_of pid s = (if 30 < pid then None else call_context s)"

definition is_rw_param :: "call_ctx \<Rightarrow> ngc_param_id \<Rightarrow> rw_param \<Rightarrow> bool" where
  "is_rw_param ctx pid p \<longleftrightarrow> rp_context p = ctx \<and> rp_id p = pid"

definition ngc_param_get ::
  "(ngc_param_id \<Rightarrow> real) \<Rightarrow> ngc_param_id \<Rightarrow> ngc_state \<Rightarrow> bool \<times> real" where
  "ngc_param_get ro_get pid s =
     (if 0 < pid \<and> pid < fst (hd ngc_ro_params) then
        (True, case find (is_rw_param (param_context_of pid s) pid) (rw_params s) of
                 Some p \<Rightarrow> rp_value p | None \<Rightarrow> 0)
      else case find (\<lambda>(id_min, id_max). id_min \<le> pid \<and> pid \<le> id_max) (rev ngc_ro_params) of
          Some _ \<Rightarrow> (True, ro_get pid)
        | None \<Rightarrow> (False, 0))"

definition ngc_param_set :: "ngc_param_id \<Rightarrow> real \<Rightarrow> ngc_state \<Rightarrow> bool \<times> ngc_state" where
  "ngc_param_set pid value s =
     (if 0 < pid \<and> pid < fst (hd ngc_ro_params) then
        let ctx = param_context_of pid s
        in case find (is_rw_param ctx pid) (rw_params s) of
             Some _ \<Rightarrow> (True, s\<lparr>rw_params :=
               upd_first (is_rw_param ctx pid) (\<lambda>p. p\<lparr>rp_value := value\<rparr>) (rw_params s)\<rparr>)
           | None \<Rightarrow>
               if value \<noteq> 0 \<and> 0 < heap_left s
               then (True, s\<lparr>rw_params := rw_params s @ [\<lparr>rp_context = ctx, rp_id = pid, rp_value = value\<rparr>],
                             heap_left := heap_left s - 1\<rparr>)
               else (value = 0, s)
      else (False, s))"

section \<open>Named parameters\<close>

definition ngc_named_ro_param :: "string list" where
  "ngc_named_ro_param =
     [''_vmajor'', ''_vminor'', ''_line'', ''_motion_mode'', ''_plane'', ''_ccomp'', ''_metric'',
      ''_imperial'', ''_absolute'', ''_incremental'', ''_inverse_time'', ''_units_per_minute'',
      ''_units_per_rev'', ''_coord_system'', ''_tool_offset'', ''_retract_r_plane'',
      ''_retract_old_z'', ''_spindle_rpm_mode'', ''_spindle_css_mode'', ''_ijk_absolute_mode'',
      ''_lathe_diameter_mode'', ''_lathe_radius_mode'', ''_spindle_on'', ''_spindle_cw'',
      ''_mist'', ''_flood'', ''_speed_override'', ''_feed_override'', ''_adaptive_feed'',
      ''_feed_hold'', ''_feed'', ''_rpm'', ''_x'', ''_y'', ''_z'', ''_a'', ''_b'', ''_c'',
      ''_u'', ''_v'', ''_w'', ''_abs_x'', ''_abs_y'', ''_abs_z'', ''_abs_a'', ''_abs_b'',
      ''_abs_c'', ''_abs_u'', ''_abs_v'', ''_abs_w'', ''_current_tool'', ''_current_pocket'',
      ''_selected_tool'', ''_selected_pocket'', ''_call_level'', ''_probe_state'',
      ''_probe2_state'', ''_toolsetter_state'', ''_active_probe'', ''_homed_state'',
      ''_homed_axes'', ''_tool_table_size'', ''_free_memory'']"

text \<open>
  Lower case without blanks and control characters, at most 31 characters: the loop stops when
  \<open>len\<close> has reached \<open>NGC_MAX_PARAM_LENGTH + 1\<close>. The buffer has room for 30 and the terminator.
\<close>

definition lcaps :: "char \<Rightarrow> char" where
  "lcaps c = (if CHR ''A'' \<le> c \<and> c \<le> CHR ''Z'' then char_of (of_char c OR 0x20 :: nat) else c)"

fun name_loop :: "nat \<Rightarrow> string \<Rightarrow> string" where
  "name_loop len [] = []"
| "name_loop len (c # s) =
     (if len \<le> NGC_MAX_PARAM_LENGTH then
        (if CHR '' '' < c then lcaps c # name_loop (len + 1) s else name_loop len s)
      else [])"

definition ngc_name_tolower :: "string \<Rightarrow> string" where
  "ngc_name_tolower s = name_loop 0 s"

definition global_name :: "string \<Rightarrow> bool" where
  "global_name name \<longleftrightarrow> name \<noteq> [] \<and> hd name = CHR ''_''"

definition no_name :: "string \<Rightarrow> bool" where
  "no_name name \<longleftrightarrow> (if global_name name then tl name = [] else name = [])"

definition named_context :: "string \<Rightarrow> ngc_state \<Rightarrow> call_ctx" where
  "named_context name s = (if global_name name then None else call_context s)"

definition is_named_param :: "call_ctx \<Rightarrow> string \<Rightarrow> named_rw_param \<Rightarrow> bool" where
  "is_named_param ctx name p \<longleftrightarrow> np_context p = ctx \<and> np_name p = name"

definition ngc_named_param_get :: "(string \<Rightarrow> real) \<Rightarrow> string \<Rightarrow> ngc_state \<Rightarrow> bool \<times> real option" where
  "ngc_named_param_get ro_get name s =
     (let name = ngc_name_tolower name
      in if no_name name then (False, None)
         else if global_name name \<and> name \<in> set ngc_named_ro_param then (True, Some (ro_get name))
         else case find (is_named_param (named_context name s) name) (rw_global_params s) of
             Some p \<Rightarrow> (True, Some (np_value p))
           | None \<Rightarrow> (False, Some 0))"

definition ngc_named_param_exists :: "(string \<Rightarrow> real) \<Rightarrow> string \<Rightarrow> ngc_state \<Rightarrow> bool" where
  "ngc_named_param_exists ro_get name s = fst (ngc_named_param_get ro_get name s)"

text \<open>
  The setter returns a pointer to the value: null, the value of a node, or, for a read-only
  parameter, the address of the value field of a null node, which is not null either.
\<close>

datatype value_ptr = NullPtr | NodeValue | BogusPtr

definition ngc_named_param_set :: "string \<Rightarrow> real \<Rightarrow> ngc_state \<Rightarrow> value_ptr \<times> ngc_state" where
  "ngc_named_param_set name value s =
     (let name = ngc_name_tolower name
      in if no_name name then (NullPtr, s)
         else if global_name name \<and> name \<in> set ngc_named_ro_param then (BogusPtr, s)
         else if length name \<le> NGC_MAX_PARAM_LENGTH then
           let ctx = named_context name s
           in case find (is_named_param ctx name) (rw_global_params s) of
                Some _ \<Rightarrow> (NodeValue, s\<lparr>rw_global_params :=
                  upd_first (is_named_param ctx name) (\<lambda>p. p\<lparr>np_value := value\<rparr>) (rw_global_params s)\<rparr>)
              | None \<Rightarrow>
                  if 0 < heap_left s
                  then (NodeValue, s\<lparr>rw_global_params := rw_global_params s @
                          [\<lparr>np_context = ctx, np_name = name, np_value = value\<rparr>],
                        heap_left := heap_left s - 1\<rparr>)
                  else (NullPtr, s)
         else (NullPtr, s))"

section \<open>String parameters\<close>

definition sp_get_by_name :: "string \<Rightarrow> ngc_state \<Rightarrow> string_param option" where
  "sp_get_by_name name s =
     find (\<lambda>p. NGC_MAX_PARAM_ID < str_id p \<and> str_value p = name) (ngc_string_params s)"

definition ngc_string_param_delete :: "ngc_string_id \<Rightarrow> ngc_state \<Rightarrow> ngc_state" where
  "ngc_string_param_delete pid s =
     s\<lparr>ngc_string_params := remove_first (\<lambda>p. str_id p = pid) (ngc_string_params s)\<rparr>"

text \<open>
  A longer value needs a reallocation, after which the node keeps its place in the list; a value
  that fits is copied in place. When the reallocation fails, or the value is longer than 255
  characters, the parameter is deleted.
\<close>

definition sp_set :: "ngc_string_id \<Rightarrow> string \<Rightarrow> ngc_state \<Rightarrow> string_param option \<times> ngc_state" where
  "sp_set pid value s =
     (let sp = find (\<lambda>p. str_id p = pid) (ngc_string_params s)
      in if length value \<le> 255 then
           (case sp of
              None \<Rightarrow>
                if 0 < heap_left s then
                  let node = \<lparr>str_id = pid, str_len = length value, str_value = value\<rparr>
                  in (Some node, s\<lparr>ngc_string_params := ngc_string_params s @ [node],
                                   heap_left := heap_left s - 1\<rparr>)
                else (None, s)
            | Some p \<Rightarrow>
                if str_len p < length value then
                  if 0 < heap_left s then
                    let node = p\<lparr>str_len := length value, str_value := value\<rparr>
                    in (Some node, s\<lparr>ngc_string_params :=
                          upd_first (\<lambda>p. str_id p = pid) (\<lambda>_. node) (ngc_string_params s),
                        heap_left := heap_left s - 1\<rparr>)
                  else (None, ngc_string_param_delete (str_id p) s)
                else
                  let node = p\<lparr>str_value := value\<rparr>
                  in (Some node, s\<lparr>ngc_string_params :=
                        upd_first (\<lambda>p. str_id p = pid) (\<lambda>_. node) (ngc_string_params s)\<rparr>))
         else case sp of
             None \<Rightarrow> (None, s)
           | Some p \<Rightarrow> (None, ngc_string_param_delete (str_id p) s))"

definition ngc_string_param_get :: "ngc_string_id \<Rightarrow> ngc_state \<Rightarrow> string option" where
  "ngc_string_param_get pid s =
     map_option str_value (find (\<lambda>p. str_id p = pid) (ngc_string_params s))"

definition ngc_string_param_exists :: "ngc_string_id \<Rightarrow> ngc_state \<Rightarrow> bool" where
  "ngc_string_param_exists pid s \<longleftrightarrow> ngc_string_param_get pid s \<noteq> None"

definition ngc_string_param_set :: "ngc_param_id \<Rightarrow> string \<Rightarrow> ngc_state \<Rightarrow> bool \<times> ngc_state" where
  "ngc_string_param_set pid value s =
     (if 0 < pid then let (sp, s) = sp_set (ucast pid) value s in (sp \<noteq> None, s) else (False, s))"

definition ngc_string_param_set_name :: "string \<Rightarrow> ngc_state \<Rightarrow> ngc_string_id \<times> ngc_state" where
  "ngc_string_param_set_name name s =
     (if name = [] then (0, s)
      else case sp_get_by_name name s of
          Some p \<Rightarrow> (str_id p, s)
        | None \<Rightarrow>
            let s = s\<lparr>ref_id := ref_id s - 1\<rparr>; (sp, s) = sp_set (ref_id s) name s
            in (case sp of Some p \<Rightarrow> str_id p | None \<Rightarrow> 0, s))"

section \<open>Modal state and call levels\<close>

text \<open>The slot of the saved state: the module's own at level -1, else that of the level.\<close>

definition saved_state :: "ngc_state \<Rightarrow> modal_snapshot option" where
  "saved_state s =
     (if call_level s = -1 then modal_state s else pc_modal_state (call_levels s ! nat (call_level s)))"

definition set_saved_state :: "modal_snapshot option \<Rightarrow> ngc_state \<Rightarrow> ngc_state" where
  "set_saved_state v s =
     (if call_level s = -1 then s\<lparr>modal_state := v\<rparr>
      else s\<lparr>call_levels := (call_levels s)[nat (call_level s) :=
               (call_levels s ! nat (call_level s))\<lparr>pc_modal_state := v\<rparr>]\<rparr>)"

definition ngc_modal_state_save ::
  "nat \<Rightarrow> nat \<Rightarrow> real \<Rightarrow> bool \<Rightarrow> ngc_state \<Rightarrow> bool \<times> ngc_state" where
  "ngc_modal_state_save state overrides feed_rate auto_restore s =
     (let snap = \<lparr>ms_modal = state, ms_override = overrides, ms_feed_rate = feed_rate,
                 ms_auto_restore = auto_restore\<rparr>
      in if saved_state s \<noteq> None then (True, set_saved_state (Some snap) s)
         else if 0 < heap_left s
         then (True, set_saved_state (Some snap) (s\<lparr>heap_left := heap_left s - 1\<rparr>))
         else (False, s))"

definition ngc_modal_state_invalidate :: "ngc_state \<Rightarrow> ngc_state" where
  "ngc_modal_state_invalidate s = set_saved_state None s"

definition ngc_modal_state_get :: "ngc_state \<Rightarrow> modal_snapshot option" where
  "ngc_modal_state_get s = saved_state s"

text \<open>
  \<open>gc_modal_state_restore\<close> of the parser is recorded; it does nothing for a null pointer and
  after an abort.
\<close>

definition gc_modal_state_restore :: "modal_snapshot option \<Rightarrow> ngc_state \<Rightarrow> bool \<times> ngc_state" where
  "gc_modal_state_restore snap s =
     (case snap of
        None \<Rightarrow> (False, s)
      | Some v \<Rightarrow> if ngc_aborted s then (False, s) else (True, s\<lparr>restored := restored s @ [v]\<rparr>))"

definition ngc_modal_state_restore :: "ngc_state \<Rightarrow> bool \<times> ngc_state" where
  "ngc_modal_state_restore s = gc_modal_state_restore (saved_state s) s"

definition ngc_call_push :: "call_ctx \<Rightarrow> ngc_state \<Rightarrow> bool \<times> ngc_state" where
  "ngc_call_push ctx s =
     (if call_level s < int NGC_MAX_CALL_LEVEL - 1 then
        let n = call_level s + 1
        in (True, s\<lparr>call_level := n, call_context := ctx,
              call_levels := (call_levels s)[nat n := (call_levels s ! nat n)\<lparr>pc_context := ctx\<rparr>]\<rparr>)
      else (False, s))"

definition ngc_call_pop :: "ngc_state \<Rightarrow> bool \<times> ngc_state" where
  "ngc_call_pop s =
     (let s =
        (if call_level s \<ge> 0 then
           let s = (if call_context s \<noteq> None then
                      s\<lparr>rw_params := filter (\<lambda>p. rp_context p \<noteq> call_context s) (rw_params s),
                        rw_global_params :=
                          filter (\<lambda>p. np_context p \<noteq> call_context s) (rw_global_params s)\<rparr>
                    else s);
               snap = saved_state s;
               s = (if snap \<noteq> None then
                      set_saved_state None
                        (if map_option ms_auto_restore snap = Some True
                         then snd (gc_modal_state_restore snap s) else s)
                    else s);
               n = call_level s - 1
           in s\<lparr>call_level := n,
                call_context := (if n \<ge> 0 then pc_context (call_levels s ! nat n) else None)\<rparr>
         else s)
      in (call_level s \<ge> 0, s))"

definition ngc_call_level :: "ngc_state \<Rightarrow> nat" where
  "ngc_call_level s = nat (call_level s + 1)"

end
