(* ===== verification/NgcStore.thy ===== *)
theory NgcStore
  imports NgcParams
begin

text \<open>
  The parameter stores as keyed stores (numbered, named and string parameters), the scoping of
  local parameters by call levels, and what the name buffer of the named parameters holds.
\<close>

section \<open>Numbered parameters\<close>

lemma ro_params_first: "fst (hd ngc_ro_params) = 5061"
  by (simp add: ngc_ro_params_def)

lemma is_rw_iff: "ngc_param_is_rw pid \<longleftrightarrow> 0 < pid \<and> pid < 5061"
  by (simp add: ngc_param_is_rw_def ro_params_first)

lemma param_get_rw:
  "ngc_param_is_rw pid \<Longrightarrow> ngc_param_get ro pid s =
     (True, case find (is_rw_param (param_context_of pid s) pid) (rw_params s) of
              Some p \<Rightarrow> rp_value p | None \<Rightarrow> 0)"
  by (simp add: ngc_param_get_def ngc_param_is_rw_def)

lemma param_get_ro:
  "\<not> ngc_param_is_rw pid \<Longrightarrow> ngc_param_get ro pid s' = ngc_param_get ro pid s"
  by (auto simp add: ngc_param_get_def ngc_param_is_rw_def)

lemma param_set_ro: "\<not> ngc_param_is_rw pid \<Longrightarrow> ngc_param_set pid v s = (False, s)"
  by (auto simp add: ngc_param_set_def ngc_param_is_rw_def)

text \<open>What a write leaves alone: everything but the list of numbered parameters and the heap.\<close>

lemma param_set_fields:
  "call_level (snd (ngc_param_set pid v s)) = call_level s"
  "call_context (snd (ngc_param_set pid v s)) = call_context s"
  "call_levels (snd (ngc_param_set pid v s)) = call_levels s"
  "modal_state (snd (ngc_param_set pid v s)) = modal_state s"
  "rw_global_params (snd (ngc_param_set pid v s)) = rw_global_params s"
  "ngc_string_params (snd (ngc_param_set pid v s)) = ngc_string_params s"
  by (simp_all add: ngc_param_set_def Let_def split: option.split)

lemma param_context_set [simp]:
  "param_context_of k (snd (ngc_param_set pid v s)) = param_context_of k s"
  by (simp add: param_context_of_def param_set_fields)

lemma param_set_room: "heap_left s \<le> Suc (heap_left (snd (ngc_param_set pid v s)))"
  by (simp add: ngc_param_set_def Let_def split: option.split)

text \<open>A write under one key of the list (context and number) does not show under another.\<close>

lemma param_set_find_other:
  assumes "ctx \<noteq> param_context_of pid s \<or> k \<noteq> pid"
  shows "find (is_rw_param ctx k) (rw_params (snd (ngc_param_set pid v s)))
    = find (is_rw_param ctx k) (rw_params s)"
proof -
  have "find (is_rw_param ctx k) (upd_first (is_rw_param (param_context_of pid s) pid)
          (\<lambda>p. p\<lparr>rp_value := v\<rparr>) (rw_params s)) = find (is_rw_param ctx k) (rw_params s)"
    by (rule find_upd_first_other) (use assms in \<open>auto simp: is_rw_param_def\<close>)
  moreover have "\<not> is_rw_param ctx k \<lparr>rp_context = param_context_of pid s, rp_id = pid, rp_value = v\<rparr>"
    using assms by (auto simp: is_rw_param_def)
  ultimately show ?thesis
    by (auto simp: ngc_param_set_def Let_def find_append split: option.split)
qed

lemma param_set_find_same:
  assumes "ngc_param_is_rw pid" "0 < heap_left s"
  shows "(case find (is_rw_param (param_context_of pid s) pid) (rw_params (snd (ngc_param_set pid v s)))
          of Some p \<Rightarrow> rp_value p | None \<Rightarrow> 0) = v"
proof (cases "find (is_rw_param (param_context_of pid s) pid) (rw_params s)")
  case None
  then show ?thesis using assms
    by (auto simp: ngc_param_set_def ngc_param_is_rw_def Let_def find_append is_rw_param_def)
next
  case (Some p)
  then have "is_rw_param (param_context_of pid s) pid p" by (metis find_Some_iff)
  then have "find (is_rw_param (param_context_of pid s) pid)
      (upd_first (is_rw_param (param_context_of pid s) pid) (\<lambda>p. p\<lparr>rp_value := v\<rparr>) (rw_params s))
      = Some (p\<lparr>rp_value := v\<rparr>)"
    by (intro find_upd_first_same [OF Some]) (simp add: is_rw_param_def)
  with Some assms show ?thesis
    by (simp add: ngc_param_set_def ngc_param_is_rw_def Let_def)
qed

interpretation num: keyed_store
  "\<lambda>s pid. snd (ngc_param_get ro pid s)" "\<lambda>pid v s. snd (ngc_param_set pid v s)"
  "\<lambda>pid. pid" ngc_param_is_rw "\<lambda>v. v" "\<lambda>s. True" heap_left for ro
proof
  fix s k k' v
  show "snd (ngc_param_get ro k' (snd (ngc_param_set k v s))) = v"
    if "0 < heap_left s" "ngc_param_is_rw k" "k' = k"
    using that by (simp add: param_get_rw param_set_find_same)
  show "snd (ngc_param_get ro k' (snd (ngc_param_set k v s))) = snd (ngc_param_get ro k' s)"
    if "k' \<noteq> k"
  proof (cases "ngc_param_is_rw k'")
    case True
    with that show ?thesis by (simp add: param_get_rw param_set_find_other)
  next
    case False
    show ?thesis by (rule arg_cong [OF param_get_ro [OF False]])
  qed
qed (simp_all add: param_set_room)

section \<open>Named parameters\<close>

definition name_settable :: "string \<Rightarrow> bool" where
  "name_settable name \<longleftrightarrow>
     \<not> no_name (ngc_name_tolower name) \<and>
     \<not> (global_name (ngc_name_tolower name) \<and> ngc_name_tolower name \<in> set ngc_named_ro_param) \<and>
     length (ngc_name_tolower name) \<le> NGC_MAX_PARAM_LENGTH"

lemma named_set_fields:
  "call_level (snd (ngc_named_param_set n v s)) = call_level s"
  "call_context (snd (ngc_named_param_set n v s)) = call_context s"
  "call_levels (snd (ngc_named_param_set n v s)) = call_levels s"
  "modal_state (snd (ngc_named_param_set n v s)) = modal_state s"
  "rw_params (snd (ngc_named_param_set n v s)) = rw_params s"
  "ngc_string_params (snd (ngc_named_param_set n v s)) = ngc_string_params s"
  by (simp_all add: ngc_named_param_set_def Let_def split: option.split)

lemma named_context_set [simp]:
  "named_context k (snd (ngc_named_param_set n v s)) = named_context k s"
  by (simp add: named_context_def named_set_fields)

lemma named_set_room: "heap_left s \<le> Suc (heap_left (snd (ngc_named_param_set n v s)))"
  by (simp add: ngc_named_param_set_def Let_def split: option.split)

lemma named_set_find_other:
  assumes "ctx \<noteq> named_context (ngc_name_tolower n) s \<or> k \<noteq> ngc_name_tolower n"
  shows "find (is_named_param ctx k) (rw_global_params (snd (ngc_named_param_set n v s)))
    = find (is_named_param ctx k) (rw_global_params s)"
proof -
  define m where "m = ngc_name_tolower n"
  have "find (is_named_param ctx k) (upd_first (is_named_param (named_context m s) m)
          (\<lambda>p. p\<lparr>np_value := w\<rparr>) (rw_global_params s)) = find (is_named_param ctx k) (rw_global_params s)"
    for w
    by (rule find_upd_first_other) (use assms in \<open>auto simp: is_named_param_def m_def\<close>)
  moreover have "\<not> is_named_param ctx k \<lparr>np_context = named_context m s, np_name = m, np_value = v\<rparr>"
    using assms by (auto simp: is_named_param_def m_def)
  ultimately show ?thesis
    by (simp add: ngc_named_param_set_def Let_def find_append m_def [symmetric] split: option.split)
qed

lemma named_set_find_same:
  assumes "name_settable n" "0 < heap_left s"
  defines "m \<equiv> ngc_name_tolower n"
  shows "map_option np_value (find (is_named_param (named_context m s) m)
           (rw_global_params (snd (ngc_named_param_set n v s)))) = Some v"
proof (cases "find (is_named_param (named_context m s) m) (rw_global_params s)")
  case None
  then show ?thesis using assms(1,2)
    by (simp add: ngc_named_param_set_def name_settable_def Let_def find_append is_named_param_def
        m_def [symmetric])
next
  case (Some p)
  then have "is_named_param (named_context m s) m p" by (metis find_Some_iff)
  then have "find (is_named_param (named_context m s) m)
      (upd_first (is_named_param (named_context m s) m) (\<lambda>p. p\<lparr>np_value := v\<rparr>) (rw_global_params s))
      = Some (p\<lparr>np_value := v\<rparr>)"
    by (intro find_upd_first_same [OF Some]) (simp add: is_named_param_def)
  with Some assms(1,2) show ?thesis
    by (auto simp: ngc_named_param_set_def name_settable_def Let_def m_def [symmetric])
qed

lemma named_get_settable:
  assumes "name_settable n"
  shows "ngc_named_param_get ro n s =
    (case find (is_named_param (named_context (ngc_name_tolower n) s) (ngc_name_tolower n)) (rw_global_params s) of
       Some p \<Rightarrow> (True, Some (np_value p)) | None \<Rightarrow> (False, Some 0))"
  using assms by (auto simp: ngc_named_param_get_def name_settable_def Let_def)

lemma name_settable_key: "ngc_name_tolower k' = ngc_name_tolower k \<Longrightarrow> name_settable k' = name_settable k"
  by (simp add: name_settable_def)

interpretation named: keyed_store
  "\<lambda>s n. ngc_named_param_get ro n s" "\<lambda>n v s. snd (ngc_named_param_set n v s)"
  ngc_name_tolower name_settable "\<lambda>v. (True, Some v)" "\<lambda>s. True" heap_left for ro
proof
  fix s k k' v
  show "ngc_named_param_get ro k' (snd (ngc_named_param_set k v s)) = (True, Some v)"
    if "0 < heap_left s" "name_settable k" "ngc_name_tolower k' = ngc_name_tolower k"
    using that named_set_find_same [of k s v] name_settable_key [of k' k]
    by (auto simp: named_get_settable split: option.split)
  show "ngc_named_param_get ro k' (snd (ngc_named_param_set k v s)) = ngc_named_param_get ro k' s"
    if "ngc_name_tolower k' \<noteq> ngc_name_tolower k"
    using that by (simp add: ngc_named_param_get_def Let_def named_set_find_other)
qed (simp_all add: named_set_room)

section \<open>String parameters\<close>

text \<open>Every node has its own identifier, and the value fits the node.\<close>

definition strings_ok :: "ngc_state \<Rightarrow> bool" where
  "strings_ok s \<longleftrightarrow> distinct (map str_id (ngc_string_params s)) \<and>
     (\<forall>p\<in>set (ngc_string_params s). length (str_value p) \<le> str_len p \<and> str_len p \<le> 255)"

lemma find_str_id_none: "find (\<lambda>p. str_id p = pid) ps = None \<longleftrightarrow> pid \<notin> str_id ` set ps"
  by (auto simp: find_None_iff)

lemma set_upd_first: "set (upd_first p f xs) \<subseteq> set xs \<union> f ` {x\<in>set xs. p x}"
  by (induction xs) auto

lemma strings_ok_delete: "strings_ok s \<Longrightarrow> strings_ok (ngc_string_param_delete pid s)"
  using set_remove_first [of "\<lambda>p. str_id p = pid" "ngc_string_params s"]
  by (auto simp: strings_ok_def ngc_string_param_delete_def distinct_remove_first)

lemma strings_ok_replace:
  assumes "strings_ok s" "str_id node = pid" "length (str_value node) \<le> str_len node" "str_len node \<le> 255"
  shows "strings_ok (s\<lparr>ngc_string_params :=
    upd_first (\<lambda>p. str_id p = pid) (\<lambda>_. node) (ngc_string_params s), heap_left := h\<rparr>)"
  using assms set_upd_first [of "\<lambda>p. str_id p = pid" "\<lambda>_. node" "ngc_string_params s"]
  by (auto simp: strings_ok_def map_upd_first)

lemma strings_ok_heap: "strings_ok (s\<lparr>heap_left := h\<rparr>) = strings_ok s"
  by (simp add: strings_ok_def)

lemma sp_set_ok:
  assumes "strings_ok s"
  shows "strings_ok (snd (sp_set pid v s))"
proof (cases "find (\<lambda>p. str_id p = pid) (ngc_string_params s)")
  case None
  then have "pid \<notin> str_id ` set (ngc_string_params s)" by (simp add: find_str_id_none)
  with None assms show ?thesis by (auto simp: sp_set_def strings_ok_def Let_def)
next
  case (Some p)
  then have p: "str_id p = pid" "p \<in> set (ngc_string_params s)" by (auto simp: find_Some_iff)
  then have "str_len p \<le> 255" using assms by (simp add: strings_ok_def)
  moreover have "s\<lparr>ngc_string_params := q\<rparr> = s\<lparr>ngc_string_params := q, heap_left := heap_left s\<rparr>" for q
    by simp
  ultimately show ?thesis
    using Some p strings_ok_replace [OF assms, of "p\<lparr>str_value := v\<rparr>" pid "heap_left s"]
      strings_ok_replace [OF assms, of "p\<lparr>str_len := length v, str_value := v\<rparr>" pid "heap_left s - 1"]
      strings_ok_delete [OF assms, of pid]
    by (auto simp: sp_set_def Let_def)
qed

lemma sp_set_get_other:
  assumes "k \<noteq> pid"
  shows "ngc_string_param_get k (snd (sp_set pid v s)) = ngc_string_param_get k s"
proof -
  have u: "find (\<lambda>p. str_id p = k) (upd_first (\<lambda>p. str_id p = pid) (\<lambda>_. node) (ngc_string_params s))
      = find (\<lambda>p. str_id p = k) (ngc_string_params s)" if "str_id node = pid" for node
    by (rule find_upd_first_other) (use assms that in auto)
  have r: "find (\<lambda>p. str_id p = k) (remove_first (\<lambda>p. str_id p = pid) (ngc_string_params s))
      = find (\<lambda>p. str_id p = k) (ngc_string_params s)"
    by (rule find_remove_first_other) (use assms in auto)
  show ?thesis
  proof (cases "find (\<lambda>p. str_id p = pid) (ngc_string_params s)")
    case None
    with assms show ?thesis
      by (auto simp: sp_set_def ngc_string_param_get_def Let_def find_append split: option.split)
  next
    case (Some p)
    then have "str_id p = pid" by (auto simp: find_Some_iff)
    with Some show ?thesis
      by (simp add: sp_set_def ngc_string_param_get_def ngc_string_param_delete_def Let_def u r)
  qed
qed

lemma sp_set_get_same:
  assumes "0 < heap_left s" "length v \<le> 255"
  shows "ngc_string_param_get pid (snd (sp_set pid v s)) = Some v"
proof (cases "find (\<lambda>p. str_id p = pid) (ngc_string_params s)")
  case None
  with assms show ?thesis by (simp add: sp_set_def ngc_string_param_get_def Let_def find_append)
next
  case (Some p)
  then have "str_id p = pid" by (auto simp: find_Some_iff)
  then have "find (\<lambda>p. str_id p = pid) (upd_first (\<lambda>p. str_id p = pid) (\<lambda>_. node) (ngc_string_params s))
      = Some node" if "str_id node = pid" for node
    using find_upd_first_same [OF Some, of "\<lambda>_. node"] that by simp
  with Some assms \<open>str_id p = pid\<close> show ?thesis
    by (simp add: sp_set_def ngc_string_param_get_def Let_def)
qed

lemma sp_set_room: "heap_left s \<le> Suc (heap_left (snd (sp_set pid v s)))"
  by (simp add: sp_set_def ngc_string_param_delete_def Let_def split: option.split)

text \<open>A value that is too long, or for which memory runs out, leaves no parameter behind.\<close>

lemma sp_set_fails:
  assumes "strings_ok s" "fst (sp_set pid v s) = None"
  shows "ngc_string_param_get pid (snd (sp_set pid v s)) = None"
proof (cases "find (\<lambda>p. str_id p = pid) (ngc_string_params s)")
  case None
  with assms show ?thesis by (auto simp: sp_set_def ngc_string_param_get_def Let_def split: if_splits)
next
  case (Some p)
  then have "str_id p = pid" by (auto simp: find_Some_iff)
  with Some assms show ?thesis
    by (auto simp: sp_set_def ngc_string_param_get_def ngc_string_param_delete_def strings_ok_def Let_def
        find_remove_first_distinct split: if_splits)
qed

text \<open>Values of at most 255 characters, as the type of what a client may write.\<close>

interpretation strs: keyed_store
  "\<lambda>s pid. ngc_string_param_get pid s" "\<lambda>pid v s. snd (sp_set pid (take 255 v) s)"
  "\<lambda>pid. pid" "\<lambda>pid. True" "\<lambda>v. Some (take 255 v)" strings_ok heap_left
  by unfold_locales (auto simp: sp_set_ok sp_set_get_same sp_set_get_other sp_set_room)

section \<open>Call levels\<close>

definition call_ok :: "ngc_state \<Rightarrow> bool" where
  "call_ok s \<longleftrightarrow> -1 \<le> call_level s \<and> call_level s < int NGC_MAX_CALL_LEVEL \<and>
     length (call_levels s) = NGC_MAX_CALL_LEVEL \<and>
     call_context s = (if call_level s \<ge> 0 then pc_context (call_levels s ! nat (call_level s)) else None)"

lemma set_saved_state_fields [simp]:
  "call_level (set_saved_state v s) = call_level s"
  "call_context (set_saved_state v s) = call_context s"
  "rw_params (set_saved_state v s) = rw_params s"
  "rw_global_params (set_saved_state v s) = rw_global_params s"
  "length (call_levels (set_saved_state v s)) = length (call_levels s)"
  by (simp_all add: set_saved_state_def)

lemma set_saved_state_contexts [simp]:
  "map pc_context (call_levels (set_saved_state v s)) = map pc_context (call_levels s)"
proof (cases "nat (call_level s) < length (call_levels s)")
  case True
  then show ?thesis by (simp add: set_saved_state_def map_update list_update_same_conv)
next
  case False
  then show ?thesis by (simp add: set_saved_state_def list_update_beyond)
qed

lemma gc_restore_fields [simp]:
  "call_level (snd (gc_modal_state_restore v s)) = call_level s"
  "call_context (snd (gc_modal_state_restore v s)) = call_context s"
  "rw_params (snd (gc_modal_state_restore v s)) = rw_params s"
  "rw_global_params (snd (gc_modal_state_restore v s)) = rw_global_params s"
  "call_levels (snd (gc_modal_state_restore v s)) = call_levels s"
  by (simp_all add: gc_modal_state_restore_def split: option.split)

lemma call_ok_cong:
  assumes "call_level s' = call_level s" "call_context s' = call_context s"
    and "map pc_context (call_levels s') = map pc_context (call_levels s)"
  shows "call_ok s' = call_ok s"
proof -
  have l: "length (call_levels s') = length (call_levels s)"
    using assms(3) by (metis length_map)
  have "pc_context (call_levels s' ! i) = pc_context (call_levels s ! i)" if "i < length (call_levels s)" for i
    using assms(3) that l by (metis nth_map)
  with l assms(1,2) show ?thesis by (auto simp: call_ok_def)
qed

lemma pop_fields:
  assumes "0 \<le> call_level s"
  shows "call_level (snd (ngc_call_pop s)) = call_level s - 1"
    and "map pc_context (call_levels (snd (ngc_call_pop s))) = map pc_context (call_levels s)"
    and "rw_params (snd (ngc_call_pop s)) =
      (if call_context s = None then rw_params s
       else filter (\<lambda>p. rp_context p \<noteq> call_context s) (rw_params s))"
  using assms by (simp_all add: ngc_call_pop_def Let_def)

lemma pop_context:
  assumes "0 \<le> call_level s" "nat (call_level s) < length (call_levels s)"
  shows "call_context (snd (ngc_call_pop s)) =
    (if 0 < call_level s then pc_context (call_levels s ! nat (call_level s - 1)) else None)"
proof -
  have "call_context (snd (ngc_call_pop s)) =
      (if 0 < call_level s then pc_context (call_levels (snd (ngc_call_pop s)) ! nat (call_level s - 1)) else None)"
    using assms(1) by (simp add: ngc_call_pop_def Let_def)
  moreover have "pc_context (call_levels (snd (ngc_call_pop s)) ! i) = pc_context (call_levels s ! i)"
    if "i < length (call_levels s)" for i
    using pop_fields(2) [OF assms(1)] that by (metis length_map nth_map)
  ultimately show ?thesis using assms by simp
qed

lemma call_ok_pop:
  assumes "call_ok s"
  shows "call_ok (snd (ngc_call_pop s))"
proof (cases "0 \<le> call_level s")
  case True
  have l: "length (call_levels (snd (ngc_call_pop s))) = length (call_levels s)"
    using pop_fields(2) [OF True] by (metis length_map)
  have e: "pc_context (call_levels (snd (ngc_call_pop s)) ! i) = pc_context (call_levels s ! i)"
    if "i < length (call_levels s)" for i
    using pop_fields(2) [OF True] that by (metis length_map nth_map)
  have b: "nat (call_level s) < length (call_levels s)"
    using assms True by (simp add: call_ok_def nat_less_iff)
  show ?thesis
    unfolding call_ok_def pop_fields(1) [OF True] l pop_context [OF True b]
    using assms True e [of "nat (call_level s - 1)"] b by (simp add: call_ok_def)
next
  case False
  with assms show ?thesis by (simp add: ngc_call_pop_def)
qed

lemma call_ok_push:
  assumes "call_ok s"
  shows "call_ok (snd (ngc_call_push ctx s))"
proof (cases "call_level s < int NGC_MAX_CALL_LEVEL - 1")
  case True
  then have "nat (call_level s + 1) < length (call_levels s)"
    using assms by (simp add: call_ok_def nat_less_iff)
  with True assms show ?thesis by (simp add: ngc_call_push_def call_ok_def Let_def)
next
  case False
  with assms show ?thesis by (simp add: ngc_call_push_def)
qed

lemma call_ok_param_set: "call_ok (snd (ngc_param_set pid v s)) = call_ok s"
  by (rule call_ok_cong) (simp_all add: param_set_fields)

lemma call_ok_modal:
  "call_ok (snd (ngc_modal_state_save m ov f r s)) = call_ok s"
  "call_ok (ngc_modal_state_invalidate s) = call_ok s"
  "call_ok (snd (ngc_modal_state_restore s)) = call_ok s"
proof -
  have h: "map pc_context (call_levels (set_saved_state v (s\<lparr>heap_left := h\<rparr>))) = map pc_context (call_levels s)"
    for v h by (subst set_saved_state_contexts) simp
  show "call_ok (snd (ngc_modal_state_save m ov f r s)) = call_ok s"
    by (rule call_ok_cong) (simp_all add: ngc_modal_state_save_def Let_def h)
  show "call_ok (ngc_modal_state_invalidate s) = call_ok s"
    by (rule call_ok_cong) (simp_all add: ngc_modal_state_invalidate_def)
  show "call_ok (snd (ngc_modal_state_restore s)) = call_ok s"
    by (rule call_ok_cong) (simp_all add: ngc_modal_state_restore_def)
qed

subsection \<open>Programs that write parameters and call subroutines\<close>

text \<open>
  What a program does to the store: writes, and calls of a subroutine, each under a context. A
  call that finds no free level is not made.
\<close>

datatype ngc_op = Write ngc_param_id real | Sub nat "ngc_op list"

fun exec_op :: "ngc_op \<Rightarrow> ngc_state \<Rightarrow> ngc_state"
  and exec_ops :: "ngc_op list \<Rightarrow> ngc_state \<Rightarrow> ngc_state" where
  "exec_op (Write pid v) s = snd (ngc_param_set pid v s)"
| "exec_op (Sub c ops) s =
     (let (pushed, s') = ngc_call_push (Some c) s
      in if pushed then snd (ngc_call_pop (exec_ops ops s')) else s)"
| "exec_ops [] s = s"
| "exec_ops (x # ops) s = exec_ops ops (exec_op x s)"

fun op_ctxs :: "ngc_op \<Rightarrow> nat set" where
  "op_ctxs (Write pid v) = {}"
| "op_ctxs (Sub c ops) = insert c (\<Union>x\<in>set ops. op_ctxs x)"

text \<open>The levels in use are as before.\<close>

definition same_levels :: "ngc_state \<Rightarrow> ngc_state \<Rightarrow> bool" where
  "same_levels s s' \<longleftrightarrow> call_ok s' \<and> call_level s' = call_level s \<and> call_context s' = call_context s \<and>
     (\<forall>i. int i \<le> call_level s \<longrightarrow> pc_context (call_levels s' ! i) = pc_context (call_levels s ! i))"

lemma same_levels_refl: "call_ok s \<Longrightarrow> same_levels s s"
  by (simp add: same_levels_def)

lemma same_levels_trans: "same_levels s s' \<Longrightarrow> same_levels s' s'' \<Longrightarrow> same_levels s s''"
  by (simp add: same_levels_def)

lemma push_full: "\<not> call_level s < int NGC_MAX_CALL_LEVEL - 1 \<Longrightarrow> ngc_call_push ctx s = (False, s)"
  by (simp add: ngc_call_push_def)

lemma push_pushes:
  assumes "call_ok s" "call_level s < int NGC_MAX_CALL_LEVEL - 1"
  obtains s' where "ngc_call_push ctx s = (True, s')" "call_ok s'" "call_level s' = call_level s + 1"
    "call_context s' = ctx" "rw_params s' = rw_params s"
    "\<And>i. int i \<le> call_level s \<Longrightarrow> pc_context (call_levels s' ! i) = pc_context (call_levels s ! i)"
  using assms call_ok_push [OF assms(1), of ctx]
  by (auto simp: ngc_call_push_def Let_def nth_list_update)

lemma pop_back:
  assumes "call_ok s" "call_ok s'" "call_level s' = call_level s + 1"
    and "\<And>i. int i \<le> call_level s \<Longrightarrow> pc_context (call_levels s' ! i) = pc_context (call_levels s ! i)"
  shows "same_levels s (snd (ngc_call_pop s'))"
proof -
  have c: "-1 \<le> call_level s" "0 \<le> call_level s'" using assms(1,3) by (simp_all add: call_ok_def)
  have b: "nat (call_level s') < length (call_levels s')"
    using assms(2) c by (simp add: call_ok_def nat_less_iff)
  have e: "pc_context (call_levels (snd (ngc_call_pop s')) ! i) = pc_context (call_levels s' ! i)"
    if "i < length (call_levels s')" for i
    using pop_fields(2) [OF c(2)] that by (metis length_map nth_map)
  have "call_context (snd (ngc_call_pop s')) = call_context s"
    using pop_context [OF c(2) b] assms c by (simp add: call_ok_def)
  moreover have "pc_context (call_levels (snd (ngc_call_pop s')) ! i) = pc_context (call_levels s ! i)"
    if "int i \<le> call_level s" for i
    using e [of i] assms(2,3,4) that b by (simp add: call_ok_def)
  ultimately show ?thesis
    using call_ok_pop [OF assms(2)] pop_fields(1) [OF c(2)] assms(3) by (simp add: same_levels_def)
qed

lemma exec_same_levels:
  shows "call_ok s \<Longrightarrow> same_levels s (exec_op x s)"
    and "call_ok s \<Longrightarrow> same_levels s (exec_ops xs s)"
proof (induction x s and xs s rule: exec_op_exec_ops.induct)
  case (1 pid v s)
  then show ?case by (simp add: same_levels_def call_ok_param_set param_set_fields)
next
  case (2 c ops s)
  show ?case
  proof (cases "call_level s < int NGC_MAX_CALL_LEVEL - 1")
    case True
    obtain s' where p: "ngc_call_push (Some c) s = (True, s')" "call_ok s'" "call_level s' = call_level s + 1"
      "\<And>i. int i \<le> call_level s \<Longrightarrow> pc_context (call_levels s' ! i) = pc_context (call_levels s ! i)"
      using push_pushes [OF 2(2) True, of "Some c"] by metis
    have "same_levels s' (exec_ops ops s')" using 2(1) p by simp
    then have "same_levels s (snd (ngc_call_pop (exec_ops ops s')))"
      using p(3,4) by (intro pop_back [OF 2(2)]) (simp_all add: same_levels_def)
    with p(1) show ?thesis by simp
  next
    case False
    with 2(2) show ?thesis by (simp add: push_full same_levels_refl)
  qed
next
  case (3 s)
  then show ?case by (simp add: same_levels_refl)
next
  case (4 x ops s)
  then have "same_levels s (exec_op x s)" by simp
  moreover from this have "same_levels (exec_op x s) (exec_ops ops (exec_op x s))"
    using 4 by (simp add: same_levels_def)
  ultimately show ?case by (simp add: same_levels_trans)
qed

text \<open>Local parameters of a context that the program does not run in stay as they are.\<close>

lemma locals_untouched:
  assumes "pid \<le> 30"
  shows "call_ok s \<Longrightarrow> ctx \<notin> Some ` op_ctxs x \<Longrightarrow> ctx \<noteq> call_context s \<Longrightarrow>
      find (is_rw_param ctx pid) (rw_params (exec_op x s)) = find (is_rw_param ctx pid) (rw_params s)"
    and "call_ok s \<Longrightarrow> ctx \<notin> Some ` (\<Union>x\<in>set xs. op_ctxs x) \<Longrightarrow> ctx \<noteq> call_context s \<Longrightarrow>
      find (is_rw_param ctx pid) (rw_params (exec_ops xs s)) = find (is_rw_param ctx pid) (rw_params s)"
proof (induction x s and xs s rule: exec_op_exec_ops.induct)
  case (1 k v s)
  have "ctx \<noteq> param_context_of k s \<or> pid \<noteq> k"
    using 1(3) assms by (auto simp: param_context_of_def)
  then show ?case by (simp add: param_set_find_other)
next
  case (2 c ops s)
  show ?case
  proof (cases "call_level s < int NGC_MAX_CALL_LEVEL - 1")
    case True
    obtain s' where p: "ngc_call_push (Some c) s = (True, s')" "call_ok s'" "call_level s' = call_level s + 1"
      "call_context s' = Some c" "rw_params s' = rw_params s"
      using push_pushes [OF 2(2) True, of "Some c"] by metis
    have l: "same_levels s' (exec_ops ops s')" by (rule exec_same_levels(2) [OF p(2)])
    have "0 \<le> call_level (exec_ops ops s')"
      using l p(3) 2(2) by (simp add: same_levels_def call_ok_def)
    moreover have "call_context (exec_ops ops s') = Some c" using l p(4) by (simp add: same_levels_def)
    moreover have "find (is_rw_param ctx pid) (filter (\<lambda>p. rp_context p \<noteq> Some c) (rw_params (exec_ops ops s')))
        = find (is_rw_param ctx pid) (rw_params (exec_ops ops s'))"
      by (rule find_filter) (use 2(3) in \<open>auto simp: is_rw_param_def\<close>)
    moreover have "find (is_rw_param ctx pid) (rw_params (exec_ops ops s')) = find (is_rw_param ctx pid) (rw_params s)"
      using 2(1) [OF p(1) [symmetric] refl] 2(3) p by (auto simp: image_iff)
    ultimately show ?thesis using p(1) by (simp add: pop_fields)
  next
    case False
    then show ?thesis by (simp add: push_full)
  qed
next
  case (3 s)
  then show ?case by simp
next
  case (4 x ops s)
  have "same_levels s (exec_op x s)" by (rule exec_same_levels(1) [OF 4(3)])
  then have "call_ok (exec_op x s)" "call_context (exec_op x s) = call_context s"
    by (simp_all add: same_levels_def)
  with 4 show ?case by (auto simp: image_iff)
qed

text \<open>No local parameter of the called context is left after the call.\<close>

lemma sub_locals_gone:
  assumes "call_ok s" "call_level s < int NGC_MAX_CALL_LEVEL - 1"
  shows "find (is_rw_param (Some c) pid) (rw_params (exec_op (Sub c ops) s)) = None"
proof -
  obtain s' where p: "ngc_call_push (Some c) s = (True, s')" "call_ok s'" "call_level s' = call_level s + 1"
    "call_context s' = Some c"
    using push_pushes [OF assms, of "Some c"] by metis
  have l: "same_levels s' (exec_ops ops s')" by (rule exec_same_levels(2) [OF p(2)])
  have "0 \<le> call_level (exec_ops ops s')" using l p(3) assms(1) by (simp add: same_levels_def call_ok_def)
  moreover have "call_context (exec_ops ops s') = Some c" using l p(4) by (simp add: same_levels_def)
  moreover have "find (is_rw_param (Some c) pid) (filter (\<lambda>p. rp_context p \<noteq> Some c) xs) = None" for xs
    by (rule find_filter_none) (simp add: is_rw_param_def)
  ultimately show ?thesis using p(1) by (simp add: pop_fields)
qed

section \<open>Properties\<close>

text \<open>
  C13. Local parameters are scoped by the call. A subroutine called under a context that is not the
  caller's, running any program of writes and further calls under contexts that are not the
  caller's either, leaves the caller's local parameters 1 to 30 as they were, returns to the
  caller's level and context, and none of its own local parameters survives.
\<close>

theorem call_locals_scoped:
  assumes "call_ok s" and "call_level s < int NGC_MAX_CALL_LEVEL - 1"
    and "call_context s \<notin> Some ` op_ctxs (Sub c ops)" and "0 < pid" and "pid \<le> 30"
  shows "ngc_param_get ro pid (exec_op (Sub c ops) s) = ngc_param_get ro pid s
    \<and> call_level (exec_op (Sub c ops) s) = call_level s
    \<and> call_context (exec_op (Sub c ops) s) = call_context s
    \<and> find (is_rw_param (Some c) k) (rw_params (exec_op (Sub c ops) s)) = None"
proof -
  obtain s' where p: "ngc_call_push (Some c) s = (True, s')" "call_ok s'" "call_level s' = call_level s + 1"
    "call_context s' = Some c" "rw_params s' = rw_params s"
    using push_pushes [OF assms(1,2), of "Some c"] by metis
  have l: "same_levels s (exec_op (Sub c ops) s)" by (rule exec_same_levels(1) [OF assms(1)])
  have ne: "call_context s \<noteq> Some c" "call_context s \<notin> Some ` (\<Union>x\<in>set ops. op_ctxs x)"
    using assms(3) by auto
  have b: "same_levels s' (exec_ops ops s')" by (rule exec_same_levels(2) [OF p(2)])
  have lvl: "0 \<le> call_level (exec_ops ops s')" using b p(3) assms(1) by (simp add: same_levels_def call_ok_def)
  have ctx: "call_context (exec_ops ops s') = Some c" using b p(4) by (simp add: same_levels_def)
  have "find (is_rw_param (call_context s) pid) (rw_params (exec_op (Sub c ops) s))
      = find (is_rw_param (call_context s) pid)
          (filter (\<lambda>p. rp_context p \<noteq> Some c) (rw_params (exec_ops ops s')))"
    using p(1) lvl ctx by (simp add: pop_fields)
  also have "\<dots> = find (is_rw_param (call_context s) pid) (rw_params (exec_ops ops s'))"
    by (rule find_filter) (use ne in \<open>auto simp: is_rw_param_def\<close>)
  also have "\<dots> = find (is_rw_param (call_context s) pid) (rw_params s')"
    by (rule locals_untouched(2) [OF assms(5) p(2) ne(2)]) (use ne p in simp)
  finally have f: "find (is_rw_param (call_context s) pid) (rw_params (exec_op (Sub c ops) s))
      = find (is_rw_param (call_context s) pid) (rw_params s)" using p by simp
  have "pid < 5061" using assms(5) by (rule le_less_trans) simp
  then have "ngc_param_is_rw pid" using assms(4) by (simp add: is_rw_iff)
  moreover have "param_context_of pid t = call_context t" for t
    using assms(5) by (auto simp: param_context_of_def dest: leD)
  ultimately have "ngc_param_get ro pid (exec_op (Sub c ops) s) = ngc_param_get ro pid s"
    using f l by (simp add: param_get_rw same_levels_def)
  with l sub_locals_gone [OF assms(1,2)] show ?thesis by (simp add: same_levels_def)
qed

lemma call_locals_scoped_witness:
  defines "s \<equiv> exec_op (Write 3 7) (ngc_initial 10)"
  shows "ngc_param_get (\<lambda>_. 0) 3 (exec_op (Sub 1 [Write 3 9, Sub 2 [Write 3 11], Write 40 5]) s)
    = ngc_param_get (\<lambda>_. 0) 3 s"
proof -
  have "call_ok (ngc_initial 10)" by (simp add: call_ok_def ngc_initial_def NGC_MAX_CALL_LEVEL_def)
  then have "call_ok s" by (simp add: s_def call_ok_param_set)
  moreover have "call_level s = -1" "call_context s = None"
    by (simp_all add: s_def param_set_fields ngc_initial_def)
  ultimately show ?thesis
    by (intro call_locals_scoped [THEN conjunct1]) (auto simp: NGC_MAX_CALL_LEVEL_def)
qed

text \<open>
  C14. The call levels stay in bounds: the level stays between -1 and 9, the array of levels keeps
  its size, and the current context is that of the current level, whatever operation of the module
  runs and whether it succeeds or fails.
\<close>

theorem call_levels_bounded:
  assumes "call_ok s"
  shows "call_ok (snd (ngc_call_push ctx s)) \<and> call_ok (snd (ngc_call_pop s))
    \<and> call_ok (snd (ngc_param_set pid v s)) \<and> call_ok (snd (ngc_named_param_set name v s))
    \<and> call_ok (snd (ngc_modal_state_save m ov f r s)) \<and> call_ok (ngc_modal_state_invalidate s)
    \<and> call_ok (snd (ngc_modal_state_restore s)) \<and> ngc_call_level s \<le> NGC_MAX_CALL_LEVEL"
proof -
  have "call_ok (snd (ngc_named_param_set name v s))"
    using assms call_ok_cong [of "snd (ngc_named_param_set name v s)" s] by (simp add: named_set_fields)
  moreover have "ngc_call_level s \<le> NGC_MAX_CALL_LEVEL"
    using assms by (simp add: ngc_call_level_def call_ok_def nat_le_iff)
  ultimately show ?thesis
    using assms by (simp add: call_ok_push call_ok_pop call_ok_param_set call_ok_modal)
qed

lemma call_levels_bounded_witness:
  "call_ok (snd (ngc_call_pop (snd (ngc_call_push (Some 4) (ngc_initial 3)))))"
proof -
  have "call_ok (ngc_initial 3)" by (simp add: call_ok_def ngc_initial_def NGC_MAX_CALL_LEVEL_def)
  then have "call_ok (snd (ngc_call_push (Some 4) (ngc_initial 3)))"
    using call_levels_bounded by blast
  then show ?thesis using call_levels_bounded by blast
qed

text \<open>
  A named parameter reads as the last value written under the same name, where names that
  differ in case, blanks and control characters are the same, as long as memory lasts.
\<close>

theorem named_param_last_write:
  assumes "length before + length after < heap_left s" and "name_settable name"
    and "ngc_name_tolower name' = ngc_name_tolower name"
    and "ngc_name_tolower name' \<notin> ngc_name_tolower ` fst ` set after"
  shows "ngc_named_param_get ro name'
      (fold (\<lambda>(n, v). snd \<circ> ngc_named_param_set n v) (before @ (name, v) # after) s) = (True, Some v)"
  using named.get_put_all [where k = name and kvs = before and kvs' = "after"] assms
  by (simp add: named.put_all_def comp_def)

lemma named_param_last_write_witness:
  "ngc_named_param_get (\<lambda>_. 0) ''_My Speed''
     (fold (\<lambda>(n, v). snd \<circ> ngc_named_param_set n v)
       ([(''_myspeed'', 1)] @ (''_MYSPEED'', 2) # [(''depth'', 3)]) (ngc_initial 10)) = (True, Some 2)"
  by (rule named_param_last_write) (code_simp, code_simp, code_simp, code_simp)

text \<open>
  The buffer for a lowered name has room for 30 characters and the terminator. The terminator
  is written inside it exactly for names of at most 30 printable characters: the loop copies up to
  31 characters, so a longer name makes it write one byte past the end.
\<close>

theorem name_buffer_bound:
  "(length (ngc_name_tolower name) < NGC_MAX_PARAM_LENGTH + 1
     \<longleftrightarrow> length (filter (\<lambda>c. CHR '' '' < c) name) \<le> NGC_MAX_PARAM_LENGTH)
   \<and> length (ngc_name_tolower name) \<le> NGC_MAX_PARAM_LENGTH + 1"
proof -
  have "length (name_loop n name) = min (NGC_MAX_PARAM_LENGTH + 1 - n) (length (filter (\<lambda>c. CHR '' '' < c) name))"
    for n by (induction n name rule: name_loop.induct) auto
  then have "length (ngc_name_tolower name) =
      min (NGC_MAX_PARAM_LENGTH + 1) (length (filter (\<lambda>c. CHR '' '' < c) name))"
    by (simp add: ngc_name_tolower_def)
  then show ?thesis by auto
qed

text \<open>
  C15. A string stored by name gets a reference that no other string has: the reference reads back
  the string, storing the same string again yields the same reference and changes nothing, and
  every other string keeps its value.
\<close>

theorem string_reference_stable:
  assumes "strings_ok s" and "name \<noteq> []" and "length name \<le> 255" and "0 < heap_left s"
    and "NGC_MAX_PARAM_ID + 1 < ref_id s"
    and "\<forall>p\<in>set (ngc_string_params s). NGC_MAX_PARAM_ID < str_id p \<longrightarrow> ref_id s \<le> str_id p"
    and "ngc_string_param_set_name name s = (r, s')"
  shows "ngc_string_param_get r s' = Some name \<and> r \<noteq> 0
    \<and> ngc_string_param_set_name name s' = (r, s')
    \<and> strings_ok s' \<and> (\<forall>k. k \<noteq> r \<longrightarrow> ngc_string_param_get k s' = ngc_string_param_get k s)"
proof (cases "sp_get_by_name name s")
  case (Some p)
  then have p: "p \<in> set (ngc_string_params s)" "NGC_MAX_PARAM_ID < str_id p" "str_value p = name"
    by (auto simp: sp_get_by_name_def find_Some_iff)
  have r: "r = str_id p" "s' = s" using assms(2,7) Some by (simp_all add: ngc_string_param_set_name_def)
  have "find (\<lambda>q. str_id q = str_id p) ps = Some p"
    if "distinct (map str_id ps)" "p \<in> set ps" for ps :: "string_param list"
    using that by (induction ps) (auto simp: image_iff)
  with assms(1) p have "find (\<lambda>q. str_id q = str_id p) (ngc_string_params s) = Some p"
    by (simp add: strings_ok_def)
  moreover have "str_id p \<noteq> 0" using p(2) by auto
  ultimately show ?thesis
    using r p Some assms(1,2) by (simp add: ngc_string_param_get_def ngc_string_param_set_name_def)
next
  case None
  define t where "t = s\<lparr>ref_id := ref_id s - 1\<rparr>"
  have big: "NGC_MAX_PARAM_ID < ref_id s - 1" "ref_id s - 1 < ref_id s"
    using assms(5) unfolding NGC_MAX_PARAM_ID_def by unat_arith+
  then have fresh: "ref_id t \<notin> str_id ` set (ngc_string_params t)"
    using assms(6) by (auto simp: t_def)
  then have nf: "find (\<lambda>p. str_id p = ref_id t) (ngc_string_params t) = None"
    by (simp add: find_str_id_none)
  define node where "node = \<lparr>str_id = ref_id t, str_len = length name, str_value = name\<rparr>"
  have sp: "sp_set (ref_id t) name t
      = (Some node, t\<lparr>ngc_string_params := ngc_string_params t @ [node], heap_left := heap_left t - 1\<rparr>)"
    using nf assms(3,4) by (simp add: sp_set_def Let_def node_def t_def)
  have r: "r = ref_id t" "s' = snd (sp_set (ref_id t) name t)"
    using assms(2,7) None sp by (auto simp: ngc_string_param_set_name_def Let_def t_def node_def)
  have t: "strings_ok t" "0 < heap_left t" "ngc_string_param_get k t = ngc_string_param_get k s" for k
    using assms(1,4) by (simp_all add: t_def strings_ok_def ngc_string_param_get_def)
  have "sp_get_by_name name s' = Some node"
    using None big unfolding r(2) sp by (simp add: sp_get_by_name_def find_append node_def t_def)
  then have "ngc_string_param_set_name name s' = (r, s')"
    using assms(2) r by (simp add: ngc_string_param_set_name_def node_def)
  moreover have "r \<noteq> 0" using big by (auto simp: r t_def)
  ultimately show ?thesis
    using sp_set_get_same [OF t(2) assms(3)] sp_set_ok [OF t(1)] sp_set_get_other t(3) r by simp
qed

lemma string_reference_stable_witness:
  defines "s' \<equiv> snd (ngc_string_param_set_name ''probe'' (ngc_initial 4))"
  shows "ngc_string_param_get 0xFFFFFFFE s' = Some ''probe''"
proof -
  have "ngc_string_param_set_name ''probe'' (ngc_initial 4) = (0xFFFFFFFE, s')"
    unfolding s'_def by (rule prod_eqI) (code_simp, simp)
  then show ?thesis
    by (intro string_reference_stable [of "ngc_initial 4" "''probe''", THEN conjunct1])
      (simp_all add: ngc_initial_def strings_ok_def NGC_MAX_PARAM_ID_def)
qed

text \<open>
  Writing a predefined read-only name changes nothing and yet reports success: the returned
  pointer is the address of a field of the null pointer.
\<close>

theorem readonly_name_reports_success:
  assumes "ngc_name_tolower name \<in> set ngc_named_ro_param"
  shows "ngc_named_param_set name v s = (BogusPtr, s)"
proof -
  have "\<forall>n\<in>set ngc_named_ro_param. global_name n \<and> \<not> no_name n"
    by (simp add: ngc_named_ro_param_def global_name_def no_name_def)
  with assms show ?thesis by (simp add: ngc_named_param_set_def Let_def)
qed

lemma readonly_name_reports_success_witness:
  "ngc_named_param_set ''_RPM'' 100 (ngc_initial 4) = (BogusPtr, ngc_initial 4)"
  by (rule readonly_name_reports_success) code_simp

end
