(* ===== verification/NgcReadOnly.thy ===== *)
theory NgcReadOnly
  imports NgcStore
begin

text \<open>
  The predefined parameters of \<open>grbl/ngc_params.c\<close>: what each numbered parameter from 5061 on
  and each named parameter reads. The variables of other modules that the getters look at are the
  fields of a \<open>gc_view\<close>; values are exact reals where the code has floats, and \<open>None\<close> stands for
  the value that is not a number. The build has the axes X, Y, Z, A and B (\<open>N_AXIS\<close> is 5) and no rotation.
\<close>

section \<open>What the getters read\<close>

type_synonym axis_values = "nat \<Rightarrow> real"

datatype feed_mode = FeedMode_UnitsPerMin | FeedMode_UnitsPerRev | FeedMode_InverseTime
datatype rpm_mode = SpindleSpeedMode_RPM | SpindleSpeedMode_CSS

record gc_view =
  gv_position :: "nat \<Rightarrow> int"
  gv_probe_position :: "nat \<Rightarrow> int"
  gv_steps_per_mm :: axis_values
  gv_report_inches :: bool
  gv_is_rotary :: "nat \<Rightarrow> bool"
  gv_g5x_id :: nat
  gv_g5x_coord :: axis_values
  gv_g92 :: axis_values
  gv_g92_applied :: bool
  gv_tool_length_offset :: axis_values
  gv_scaling :: axis_values
  gv_coord_data :: "nat \<Rightarrow> axis_values option"
  gv_probe_coordsys_id :: nat
  gv_probe_succeeded :: bool
  gv_var5399 :: int
  gv_tool_id :: nat
  gv_tool_pending :: nat
  gv_pocket :: "nat \<Rightarrow> int"
  gv_n_tools :: nat
  gv_debug_out :: bool
  gv_line_number :: nat
  gv_motion :: nat
  gv_plane_select :: nat
  gv_units_imperial :: bool
  gv_distance_incremental :: bool
  gv_feed_mode :: feed_mode
  gv_tool_offset_on :: bool
  gv_retract_previous :: bool
  gv_rpm_mode :: rpm_mode
  gv_diameter_mode :: bool
  gv_spindle_on :: bool
  gv_spindle_ccw :: bool
  gv_mist :: bool
  gv_flood :: bool
  gv_spindle_rpm_disable :: bool
  gv_feed_rates_disable :: bool
  gv_feed_hold_disable :: bool
  gv_feed_rate :: real
  gv_rpm :: real
  gv_call_level :: nat
  gv_probe_triggered :: "nat \<Rightarrow> bool option"
  gv_active_probe :: "int option"
  gv_homing_mask :: u8
  gv_homing_enabled :: bool
  gv_homed_mask :: u8
  gv_free_mem :: "nat option"

definition GRBL_BUILD :: nat where
  "GRBL_BUILD = 20260602"

definition AXES_BITMASK :: u8 where
  "AXES_BITMASK = 2 ^ N_AXIS - 1"

section \<open>Positions\<close>

text \<open>Index 0 is the rotation, 1 to 9 the axes X to W; 255 where the build has no such axis.\<close>

definition axis_map :: "nat list" where
  "axis_map = [255, 0, 1, 2, 3, 4, 255, 255, 255, 255]"

definition convert_pos :: "gc_view \<Rightarrow> real \<Rightarrow> nat \<Rightarrow> real" where
  "convert_pos v value axis =
     (if gv_report_inches v \<and> \<not> gv_is_rotary v axis then value * 25.4 else value)"

definition gc_get_offset :: "gc_view \<Rightarrow> nat \<Rightarrow> real" where
  "gc_get_offset v idx = gv_g5x_coord v idx + gv_g92 v idx + gv_tool_length_offset v idx"

definition absolute_pos :: "gc_view \<Rightarrow> nat \<Rightarrow> real" where
  "absolute_pos v i =
     (let axis = axis_map ! i
      in convert_pos v (if axis \<le> 9 then of_int (gv_position v axis) / gv_steps_per_mm v axis else 0) axis)"

definition relative_pos :: "gc_view \<Rightarrow> nat \<Rightarrow> real" where
  "relative_pos v i =
     (let axis = axis_map ! i
      in convert_pos v (if axis \<le> 9
           then of_int (gv_position v axis) / gv_steps_per_mm v axis - gc_get_offset v axis else 0) axis)"

section \<open>Numbered parameters\<close>

definition probe_coord :: "gc_view \<Rightarrow> nat \<Rightarrow> real" where
  "probe_coord v pid =
     (let axis = axis_map ! (pid mod 10);
          offset = (if gv_probe_coordsys_id v = gv_g5x_id v then Some (gv_g5x_coord v)
                    else gv_coord_data v (gv_probe_coordsys_id v))
      in convert_pos v (case offset of
           Some c \<Rightarrow> if axis \<le> 9 then of_int (gv_probe_position v axis) / gv_steps_per_mm v axis - c axis else 0
         | None \<Rightarrow> 0) axis)"

definition probe_result :: "gc_view \<Rightarrow> nat \<Rightarrow> real" where
  "probe_result v pid = (if gv_probe_succeeded v then 1 else 0)"

definition scaling_factors :: "gc_view \<Rightarrow> nat \<Rightarrow> real" where
  "scaling_factors v pid = (let axis = axis_map ! (pid mod 10) in if axis \<le> 9 then gv_scaling v axis else 0)"

definition m66_result :: "gc_view \<Rightarrow> nat \<Rightarrow> real" where
  "m66_result v pid = of_int (gv_var5399 v)"

definition tool_number :: "gc_view \<Rightarrow> nat \<Rightarrow> real" where
  "tool_number v pid = of_nat (gv_tool_id v)"

definition tool_offset :: "gc_view \<Rightarrow> nat \<Rightarrow> real" where
  "tool_offset v pid =
     (let axis = axis_map ! (pid mod 10) in if axis \<le> 9 then gv_tool_length_offset v axis else 0)"

definition CoordinateSystem_G28 :: nat where "CoordinateSystem_G28 = 9"
definition CoordinateSystem_G30 :: nat where "CoordinateSystem_G30 = 10"
definition CoordinateSystem_G59 :: nat where "CoordinateSystem_G59 = 5"

text \<open>The value of an axis in a stored coordinate system, zero where there is none.\<close>

definition stored_coord :: "gc_view \<Rightarrow> nat \<Rightarrow> nat \<Rightarrow> real" where
  "stored_coord v sys_id axis =
     (case gv_coord_data v sys_id of Some c \<Rightarrow> if axis \<le> 9 then c axis else 0 | None \<Rightarrow> 0)"

definition g28_home :: "gc_view \<Rightarrow> nat \<Rightarrow> real" where
  "g28_home v pid = stored_coord v CoordinateSystem_G28 (axis_map ! (pid mod 10))"

definition g30_home :: "gc_view \<Rightarrow> nat \<Rightarrow> real" where
  "g30_home v pid = stored_coord v CoordinateSystem_G30 (axis_map ! (pid mod 10))"

definition coord_system :: "gc_view \<Rightarrow> nat \<Rightarrow> real" where
  "coord_system v pid = of_nat (gv_g5x_id v) + 1"

definition coord_system_offset :: "gc_view \<Rightarrow> nat \<Rightarrow> real" where
  "coord_system_offset v pid =
     (let axis = pid mod 10;
          pid' = (pid - 5220 - axis - (if pid = 0 then 10 else 0)) div 20
      in stored_coord v pid' (axis_map ! axis))"

definition g92_offset_applied :: "gc_view \<Rightarrow> nat \<Rightarrow> real" where
  "g92_offset_applied v pid = (if gv_g92_applied v then 1 else 0)"

definition g92_offset :: "gc_view \<Rightarrow> nat \<Rightarrow> real" where
  "g92_offset v pid = (let axis = axis_map ! (pid mod 10) in if axis \<le> 9 then gv_g92 v axis else 0)"

definition work_position :: "gc_view \<Rightarrow> nat \<Rightarrow> real" where
  "work_position v pid = relative_pos v (pid mod 10 + 1)"

definition debug_output :: "gc_view \<Rightarrow> nat \<Rightarrow> real" where
  "debug_output v pid = (if gv_debug_out v then 1 else 0)"

text \<open>The getters in the order of \<open>ngc_ro_params\<close>, and the getter of a number.\<close>

definition ngc_ro_getters :: "(gc_view \<Rightarrow> nat \<Rightarrow> real) list" where
  "ngc_ro_getters =
     [probe_coord, probe_result, g28_home, g30_home, scaling_factors, g92_offset_applied, g92_offset,
      coord_system, coord_system_offset, coord_system_offset, coord_system_offset,
      coord_system_offset, coord_system_offset, coord_system_offset, coord_system_offset,
      coord_system_offset, coord_system_offset, m66_result, tool_number, tool_offset,
      work_position, debug_output]"

definition ro_value :: "gc_view \<Rightarrow> ngc_param_id \<Rightarrow> real" where
  "ro_value v pid =
     (case find (\<lambda>((id_min, id_max), _). id_min \<le> pid \<and> pid \<le> id_max)
             (rev (zip ngc_ro_params ngc_ro_getters)) of
        Some (_, getter) \<Rightarrow> getter v (unat pid) | None \<Rightarrow> 0)"

section \<open>Named parameters\<close>

text \<open>The enumeration \<open>ncg_name_param_id_t\<close>.\<close>

abbreviation NGCParam_vmajor :: nat where "NGCParam_vmajor \<equiv> 0"
abbreviation NGCParam_vminor :: nat where "NGCParam_vminor \<equiv> 1"
abbreviation NGCParam_line :: nat where "NGCParam_line \<equiv> 2"
abbreviation NGCParam_motion_mode :: nat where "NGCParam_motion_mode \<equiv> 3"
abbreviation NGCParam_plane :: nat where "NGCParam_plane \<equiv> 4"
abbreviation NGCParam_ccomp :: nat where "NGCParam_ccomp \<equiv> 5"
abbreviation NGCParam_metric :: nat where "NGCParam_metric \<equiv> 6"
abbreviation NGCParam_imperial :: nat where "NGCParam_imperial \<equiv> 7"
abbreviation NGCParam_absolute :: nat where "NGCParam_absolute \<equiv> 8"
abbreviation NGCParam_incremental :: nat where "NGCParam_incremental \<equiv> 9"
abbreviation NGCParam_inverse_time :: nat where "NGCParam_inverse_time \<equiv> 10"
abbreviation NGCParam_units_per_minute :: nat where "NGCParam_units_per_minute \<equiv> 11"
abbreviation NGCParam_units_per_rev :: nat where "NGCParam_units_per_rev \<equiv> 12"
abbreviation NGCParam_coord_system :: nat where "NGCParam_coord_system \<equiv> 13"
abbreviation NGCParam_tool_offset :: nat where "NGCParam_tool_offset \<equiv> 14"
abbreviation NGCParam_retract_r_plane :: nat where "NGCParam_retract_r_plane \<equiv> 15"
abbreviation NGCParam_retract_old_z :: nat where "NGCParam_retract_old_z \<equiv> 16"
abbreviation NGCParam_spindle_rpm_mode :: nat where "NGCParam_spindle_rpm_mode \<equiv> 17"
abbreviation NGCParam_spindle_css_mode :: nat where "NGCParam_spindle_css_mode \<equiv> 18"
abbreviation NGCParam_ijk_absolute_mode :: nat where "NGCParam_ijk_absolute_mode \<equiv> 19"
abbreviation NGCParam_lathe_diameter_mode :: nat where "NGCParam_lathe_diameter_mode \<equiv> 20"
abbreviation NGCParam_lathe_radius_mode :: nat where "NGCParam_lathe_radius_mode \<equiv> 21"
abbreviation NGCParam_spindle_on :: nat where "NGCParam_spindle_on \<equiv> 22"
abbreviation NGCParam_spindle_cw :: nat where "NGCParam_spindle_cw \<equiv> 23"
abbreviation NGCParam_mist :: nat where "NGCParam_mist \<equiv> 24"
abbreviation NGCParam_flood :: nat where "NGCParam_flood \<equiv> 25"
abbreviation NGCParam_speed_override :: nat where "NGCParam_speed_override \<equiv> 26"
abbreviation NGCParam_feed_override :: nat where "NGCParam_feed_override \<equiv> 27"
abbreviation NGCParam_adaptive_feed :: nat where "NGCParam_adaptive_feed \<equiv> 28"
abbreviation NGCParam_feed_hold :: nat where "NGCParam_feed_hold \<equiv> 29"
abbreviation NGCParam_feed :: nat where "NGCParam_feed \<equiv> 30"
abbreviation NGCParam_rpm :: nat where "NGCParam_rpm \<equiv> 31"
abbreviation NGCParam_x :: nat where "NGCParam_x \<equiv> 32"
abbreviation NGCParam_y :: nat where "NGCParam_y \<equiv> 33"
abbreviation NGCParam_z :: nat where "NGCParam_z \<equiv> 34"
abbreviation NGCParam_a :: nat where "NGCParam_a \<equiv> 35"
abbreviation NGCParam_b :: nat where "NGCParam_b \<equiv> 36"
abbreviation NGCParam_c :: nat where "NGCParam_c \<equiv> 37"
abbreviation NGCParam_u :: nat where "NGCParam_u \<equiv> 38"
abbreviation NGCParam_v :: nat where "NGCParam_v \<equiv> 39"
abbreviation NGCParam_w :: nat where "NGCParam_w \<equiv> 40"
abbreviation NGCParam_abs_x :: nat where "NGCParam_abs_x \<equiv> 41"
abbreviation NGCParam_abs_y :: nat where "NGCParam_abs_y \<equiv> 42"
abbreviation NGCParam_abs_z :: nat where "NGCParam_abs_z \<equiv> 43"
abbreviation NGCParam_abs_a :: nat where "NGCParam_abs_a \<equiv> 44"
abbreviation NGCParam_abs_b :: nat where "NGCParam_abs_b \<equiv> 45"
abbreviation NGCParam_abs_c :: nat where "NGCParam_abs_c \<equiv> 46"
abbreviation NGCParam_abs_u :: nat where "NGCParam_abs_u \<equiv> 47"
abbreviation NGCParam_abs_v :: nat where "NGCParam_abs_v \<equiv> 48"
abbreviation NGCParam_abs_w :: nat where "NGCParam_abs_w \<equiv> 49"
abbreviation NGCParam_current_tool :: nat where "NGCParam_current_tool \<equiv> 50"
abbreviation NGCParam_current_pocket :: nat where "NGCParam_current_pocket \<equiv> 51"
abbreviation NGCParam_selected_tool :: nat where "NGCParam_selected_tool \<equiv> 52"
abbreviation NGCParam_selected_pocket :: nat where "NGCParam_selected_pocket \<equiv> 53"
abbreviation NGCParam_call_level :: nat where "NGCParam_call_level \<equiv> 54"
abbreviation NGCParam_probe_state :: nat where "NGCParam_probe_state \<equiv> 55"
abbreviation NGCParam_probe2_state :: nat where "NGCParam_probe2_state \<equiv> 56"
abbreviation NGCParam_toolsetter_state :: nat where "NGCParam_toolsetter_state \<equiv> 57"
abbreviation NGCParam_active_probe :: nat where "NGCParam_active_probe \<equiv> 58"
abbreviation NGCParam_homed_state :: nat where "NGCParam_homed_state \<equiv> 59"
abbreviation NGCParam_homed_axes :: nat where "NGCParam_homed_axes \<equiv> 60"
abbreviation NGCParam_tool_table_size :: nat where "NGCParam_tool_table_size \<equiv> 61"
abbreviation NGCParam_free_memory :: nat where "NGCParam_free_memory \<equiv> 62"

definition ngc_named_ro_ids :: "(string \<times> nat) list" where
  "ngc_named_ro_ids =
     [(''_vmajor'', NGCParam_vmajor), (''_vminor'', NGCParam_vminor), (''_line'', NGCParam_line),
      (''_motion_mode'', NGCParam_motion_mode), (''_plane'', NGCParam_plane),
      (''_ccomp'', NGCParam_ccomp), (''_metric'', NGCParam_metric),
      (''_imperial'', NGCParam_imperial), (''_absolute'', NGCParam_absolute),
      (''_incremental'', NGCParam_incremental), (''_inverse_time'', NGCParam_inverse_time),
      (''_units_per_minute'', NGCParam_units_per_minute),
      (''_units_per_rev'', NGCParam_units_per_rev), (''_coord_system'', NGCParam_coord_system),
      (''_tool_offset'', NGCParam_tool_offset), (''_retract_r_plane'', NGCParam_retract_r_plane),
      (''_retract_old_z'', NGCParam_retract_old_z),
      (''_spindle_rpm_mode'', NGCParam_spindle_rpm_mode),
      (''_spindle_css_mode'', NGCParam_spindle_css_mode),
      (''_ijk_absolute_mode'', NGCParam_ijk_absolute_mode),
      (''_lathe_diameter_mode'', NGCParam_lathe_diameter_mode),
      (''_lathe_radius_mode'', NGCParam_lathe_radius_mode),
      (''_spindle_on'', NGCParam_spindle_on), (''_spindle_cw'', NGCParam_spindle_cw),
      (''_mist'', NGCParam_mist), (''_flood'', NGCParam_flood),
      (''_speed_override'', NGCParam_speed_override),
      (''_feed_override'', NGCParam_feed_override), (''_adaptive_feed'', NGCParam_adaptive_feed),
      (''_feed_hold'', NGCParam_feed_hold), (''_feed'', NGCParam_feed), (''_rpm'', NGCParam_rpm),
      (''_x'', NGCParam_x), (''_y'', NGCParam_y), (''_z'', NGCParam_z), (''_a'', NGCParam_a),
      (''_b'', NGCParam_b), (''_c'', NGCParam_c), (''_u'', NGCParam_u), (''_v'', NGCParam_v),
      (''_w'', NGCParam_w), (''_abs_x'', NGCParam_abs_x), (''_abs_y'', NGCParam_abs_y),
      (''_abs_z'', NGCParam_abs_z), (''_abs_a'', NGCParam_abs_a), (''_abs_b'', NGCParam_abs_b),
      (''_abs_c'', NGCParam_abs_c), (''_abs_u'', NGCParam_abs_u), (''_abs_v'', NGCParam_abs_v),
      (''_abs_w'', NGCParam_abs_w), (''_current_tool'', NGCParam_current_tool),
      (''_current_pocket'', NGCParam_current_pocket),
      (''_selected_tool'', NGCParam_selected_tool),
      (''_selected_pocket'', NGCParam_selected_pocket), (''_call_level'', NGCParam_call_level),
      (''_probe_state'', NGCParam_probe_state), (''_probe2_state'', NGCParam_probe2_state),
      (''_toolsetter_state'', NGCParam_toolsetter_state),
      (''_active_probe'', NGCParam_active_probe), (''_homed_state'', NGCParam_homed_state),
      (''_homed_axes'', NGCParam_homed_axes), (''_tool_table_size'', NGCParam_tool_table_size),
      (''_free_memory'', NGCParam_free_memory)]"

definition of_bool_f :: "bool \<Rightarrow> real" where
  "of_bool_f b = (if b then 1 else 0)"

text \<open>The parameters of the parser's modal state.\<close>

definition named_modal_value :: "gc_view \<Rightarrow> nat \<Rightarrow> real option" where
  "named_modal_value v n =
     (if n = NGCParam_vmajor then Some 1.1
      else if n = NGCParam_vminor then Some (of_nat (GRBL_BUILD - 20000000))
      else if n = NGCParam_line then Some (of_nat (gv_line_number v))
      else if n = NGCParam_motion_mode then Some (of_nat (gv_motion v * 10))
      else if n = NGCParam_plane then Some (of_nat (170 + gv_plane_select v * 10))
      else if n = NGCParam_ccomp then Some 400
      else if n = NGCParam_metric then Some (of_bool_f (\<not> gv_units_imperial v))
      else if n = NGCParam_imperial then Some (of_bool_f (gv_units_imperial v))
      else if n = NGCParam_absolute then Some (of_bool_f (\<not> gv_distance_incremental v))
      else if n = NGCParam_incremental then Some (of_bool_f (gv_distance_incremental v))
      else if n = NGCParam_inverse_time then Some (of_bool_f (gv_feed_mode v = FeedMode_InverseTime))
      else if n = NGCParam_units_per_minute then Some (of_bool_f (gv_feed_mode v = FeedMode_UnitsPerMin))
      else if n = NGCParam_units_per_rev then Some (of_bool_f (gv_feed_mode v = FeedMode_UnitsPerRev))
      else if n = NGCParam_coord_system then
        let k = gv_g5x_id v * 10;
            k = (if CoordinateSystem_G59 * 10 < k
                 then CoordinateSystem_G59 * 10 + gv_g5x_id v - CoordinateSystem_G59 else k)
        in Some (of_nat (540 + k))
      else if n = NGCParam_tool_offset then Some (of_bool_f (gv_tool_offset_on v))
      else if n = NGCParam_retract_r_plane then Some (of_bool_f (gv_retract_previous v))
      else if n = NGCParam_retract_old_z then Some (of_bool_f (\<not> gv_retract_previous v))
      else None)"

text \<open>Spindle, coolant and overrides.\<close>

definition named_spindle_value :: "gc_view \<Rightarrow> nat \<Rightarrow> real option" where
  "named_spindle_value v n =
     (if n = NGCParam_spindle_rpm_mode then Some (of_bool_f (gv_rpm_mode v = SpindleSpeedMode_RPM))
      else if n = NGCParam_spindle_css_mode then Some (of_bool_f (gv_rpm_mode v = SpindleSpeedMode_CSS))
      else if n = NGCParam_ijk_absolute_mode then Some 0
      else if n = NGCParam_lathe_diameter_mode then Some (of_bool_f (gv_diameter_mode v))
      else if n = NGCParam_lathe_radius_mode then Some (of_bool_f (\<not> gv_diameter_mode v))
      else if n = NGCParam_spindle_on then Some (of_bool_f (gv_spindle_on v))
      else if n = NGCParam_spindle_cw then Some (of_bool_f (gv_spindle_ccw v))
      else if n = NGCParam_mist then Some (of_bool_f (gv_mist v))
      else if n = NGCParam_flood then Some (of_bool_f (gv_flood v))
      else if n = NGCParam_speed_override then Some (of_bool_f (\<not> gv_spindle_rpm_disable v))
      else if n = NGCParam_feed_override then Some (of_bool_f (\<not> gv_feed_rates_disable v))
      else if n = NGCParam_adaptive_feed then Some 0
      else if n = NGCParam_feed_hold then Some (of_bool_f (\<not> gv_feed_hold_disable v))
      else if n = NGCParam_feed then Some (gv_feed_rate v)
      else if n = NGCParam_rpm then Some (gv_rpm v)
      else None)"

text \<open>Positions and tools.\<close>

definition named_position_value :: "gc_view \<Rightarrow> nat \<Rightarrow> real option" where
  "named_position_value v n =
     (if NGCParam_x \<le> n \<and> n \<le> NGCParam_w then Some (relative_pos v (n - NGCParam_x + 1))
      else if NGCParam_abs_x \<le> n \<and> n \<le> NGCParam_abs_w then Some (absolute_pos v (n - NGCParam_abs_x + 1))
      else if n = NGCParam_current_tool then Some (of_nat (gv_tool_id v))
      else if n = NGCParam_current_pocket then Some (of_int (gv_pocket v (gv_tool_id v)))
      else if n = NGCParam_selected_tool then
        Some (if gv_tool_pending v \<noteq> gv_tool_id v then of_nat (gv_tool_pending v) else -1)
      else if n = NGCParam_selected_pocket then
        Some (if gv_tool_pending v \<noteq> gv_tool_id v then of_int (gv_pocket v (gv_tool_pending v)) else -1)
      else if n = NGCParam_call_level then Some (of_nat (gv_call_level v))
      else None)"

text \<open>Extensions: probes (0 the default, 1 the toolsetter, 2 the second probe), homing, memory.\<close>

definition probe_value :: "gc_view \<Rightarrow> nat \<Rightarrow> real" where
  "probe_value v p = (case gv_probe_triggered v p of Some b \<Rightarrow> of_bool_f b | None \<Rightarrow> -1)"

definition named_machine_value :: "gc_view \<Rightarrow> nat \<Rightarrow> real option" where
  "named_machine_value v n =
     (if n = NGCParam_probe_state then Some (probe_value v 0)
      else if n = NGCParam_probe2_state then Some (probe_value v 2)
      else if n = NGCParam_toolsetter_state then Some (probe_value v 1)
      else if n = NGCParam_active_probe then
        Some (case gv_active_probe v of Some p \<Rightarrow> of_int p | None \<Rightarrow> -1)
      else if n = NGCParam_homed_state then
        Some (if gv_homing_mask v \<noteq> 0 \<or> gv_homing_enabled v then
                let homing = (if gv_homing_mask v \<noteq> 0 then gv_homing_mask v else AXES_BITMASK)
                in of_bool_f (homing AND gv_homed_mask v = homing)
              else 0)
      else if n = NGCParam_homed_axes then Some (of_nat (unat (gv_homed_mask v)))
      else if n = NGCParam_tool_table_size then Some (of_nat (gv_n_tools v))
      else if n = NGCParam_free_memory then
        Some (case gv_free_mem v of Some m \<Rightarrow> of_nat m / 1024 | None \<Rightarrow> -1)
      else None)"

definition ngc_named_param_get_by_id :: "gc_view \<Rightarrow> nat \<Rightarrow> real option" where
  "ngc_named_param_get_by_id v n =
     (case named_modal_value v n of Some x \<Rightarrow> Some x
      | None \<Rightarrow> (case named_spindle_value v n of Some x \<Rightarrow> Some x
      | None \<Rightarrow> (case named_position_value v n of Some x \<Rightarrow> Some x
      | None \<Rightarrow> named_machine_value v n)))"

text \<open>The value of a predefined name; the table is searched from its end.\<close>

definition named_ro_value :: "gc_view \<Rightarrow> string \<Rightarrow> real" where
  "named_ro_value v name =
     (case map_of (rev ngc_named_ro_ids) name of
        Some n \<Rightarrow> (case ngc_named_param_get_by_id v n of Some x \<Rightarrow> x | None \<Rightarrow> 0)
      | None \<Rightarrow> 0)"

section \<open>Properties\<close>

lemma axis_map_nth:
  "axis_map ! 0 = 255" "axis_map ! Suc 0 = 0" "axis_map ! 2 = 1" "axis_map ! 3 = 2" "axis_map ! 4 = 3"
  "axis_map ! 5 = 4" "axis_map ! 6 = 255" "axis_map ! 7 = 255" "axis_map ! 8 = 255" "axis_map ! 9 = 255"
  by (simp_all add: axis_map_def)

text \<open>
  The stored work coordinate systems occupy the numbers from 5221 in steps of 20: parameter
  5220 + 20 k + a reads axis a of coordinate system k (G54 to G59.3), and zero where the build has
  no such axis or nothing is stored.
\<close>

theorem coord_params_layout:
  assumes "k \<le> 8" and "1 \<le> a" and "a \<le> 9"
  shows "ngc_param_get (ro_value v) (of_nat (5220 + 20 * k + a)) s = (True, stored_coord v k (axis_map ! a))"
proof -
  have k: "k \<in> {0, 1, 2, 3, 4, 5, 6, 7, 8}" and a: "a \<in> {1, 2, 3, 4, 5, 6, 7, 8, 9}"
    using assms by auto
  have "\<forall>k\<in>{0, 1, 2, 3, 4, 5, 6, 7, 8}. \<forall>a\<in>{1, 2, 3, 4, 5, 6, 7, 8, 9}.
      ngc_param_get (ro_value v) (of_nat (5220 + 20 * k + a)) s = (True, stored_coord v k (axis_map ! a))"
    by (simp add: ngc_param_get_def ngc_ro_params_def ro_value_def ngc_ro_getters_def
        coord_system_offset_def Let_def)
  with k a show ?thesis by blast
qed

lemma coord_params_layout_witness:
  "\<forall>v s. ngc_param_get (ro_value v) (of_nat (5220 + 20 * 1 + 3)) s = (True, stored_coord v 1 (axis_map ! 3))"
  by (intro allI coord_params_layout) simp_all

text \<open>The tables of names agree, and lowering leaves the predefined names alone.\<close>

lemma ro_ids_names: "map fst ngc_named_ro_ids = ngc_named_ro_param"
  by (simp add: ngc_named_ro_ids_def ngc_named_ro_param_def)

lemma ro_ids_distinct: "distinct (map fst ngc_named_ro_ids)"
  by code_simp

lemma ro_names_lowered: "list_all (\<lambda>n. ngc_name_tolower n = n \<and> global_name n \<and> \<not> no_name n) ngc_named_ro_param"
  by code_simp

lemma ro_ids_range: "list_all (\<lambda>(_, n). n \<le> NGCParam_free_memory) ngc_named_ro_ids"
  by code_simp

lemma by_id_some_if:
  "named_modal_value v n \<noteq> None \<Longrightarrow> ngc_named_param_get_by_id v n \<noteq> None"
  "named_spindle_value v n \<noteq> None \<Longrightarrow> ngc_named_param_get_by_id v n \<noteq> None"
  "named_position_value v n \<noteq> None \<Longrightarrow> ngc_named_param_get_by_id v n \<noteq> None"
  "named_machine_value v n \<noteq> None \<Longrightarrow> ngc_named_param_get_by_id v n \<noteq> None"
  by (auto simp: ngc_named_param_get_by_id_def split: option.split)

lemma by_id_defined:
  assumes "n \<le> NGCParam_free_memory"
  shows "ngc_named_param_get_by_id v n \<noteq> None"
proof -
  have "list_all (\<lambda>n. named_modal_value v n \<noteq> None) [0..<17]"
    by (simp add: named_modal_value_def Let_def del: not_None_eq, code_simp)
  moreover have "list_all (\<lambda>n. named_spindle_value v n \<noteq> None) [17..<32]"
    by (simp add: upt_rec_numeral named_spindle_value_def del: not_None_eq)
  moreover have "list_all (\<lambda>n. named_position_value v n \<noteq> None) [32..<55]"
    by (simp add: upt_rec_numeral named_position_value_def del: not_None_eq)
  moreover have "list_all (\<lambda>n. named_machine_value v n \<noteq> None) [55..<63]"
    by (simp add: upt_rec_numeral named_machine_value_def Let_def del: not_None_eq)
  moreover have "n \<in> set [0..<17] \<or> n \<in> set [17..<32] \<or> n \<in> set [32..<55] \<or> n \<in> set [55..<63]"
    using assms unfolding set_upt atLeastLessThan_iff by arith
  ultimately show ?thesis using by_id_some_if unfolding list_all_iff by blast
qed



text \<open>The parameter named for the clockwise direction reads 1 when the spindle turns the other way.\<close>

lemma spindle_cw_reads_ccw:
  "ngc_named_param_get (named_ro_value v) ''_spindle_cw'' s = (True, Some (of_bool_f (gv_spindle_ccw v)))"
proof -
  have "(''_spindle_cw'', NGCParam_spindle_cw) \<in> set ngc_named_ro_ids" by code_simp
  moreover have "ngc_name_tolower ''_spindle_cw'' = ''_spindle_cw''" "\<not> no_name ''_spindle_cw''"
      "global_name ''_spindle_cw''" "''_spindle_cw'' \<in> set ngc_named_ro_param"
    by code_simp+
  moreover have "map_of (rev ngc_named_ro_ids) ''_spindle_cw'' = Some NGCParam_spindle_cw" by code_simp
  ultimately show ?thesis
    by (simp add: ngc_named_param_get_def named_ro_value_def ngc_named_param_get_by_id_def
        named_modal_value_def named_spindle_value_def)
qed

text \<open>
  With positions reported in inches, the position parameter of a linear axis is 25.4 times the
  position in millimetres, where inches would be the 25.4th part of it.
\<close>

lemma inch_positions_scaled_up:
  assumes "gv_report_inches v" and "\<not> gv_is_rotary v 0"
  shows "ngc_named_param_get (named_ro_value v) ''_abs_x'' s
    = (True, Some (of_int (gv_position v 0) / gv_steps_per_mm v 0 * 25.4))"
proof -
  have "(''_abs_x'', NGCParam_abs_x) \<in> set ngc_named_ro_ids" by code_simp
  moreover have "ngc_name_tolower ''_abs_x'' = ''_abs_x''" "\<not> no_name ''_abs_x''"
      "global_name ''_abs_x''" "''_abs_x'' \<in> set ngc_named_ro_param"
    by code_simp+
  moreover have "map_of (rev ngc_named_ro_ids) ''_abs_x'' = Some NGCParam_abs_x" by code_simp
  ultimately show ?thesis using assms
    by (simp add: ngc_named_param_get_def named_ro_value_def ngc_named_param_get_by_id_def
        named_modal_value_def named_spindle_value_def named_position_value_def absolute_pos_def
        convert_pos_def axis_map_nth)
qed

end
