(* ===== verification/Modbus.thy ===== *)
theory Modbus
  imports Checksum Codes
begin

text \<open>
  \<open>grbl/modbus.c\<close>: the registry of Modbus transports and the high level requests. A transport is a
  record of the functions it registers, over a state \<open>'s\<close> that is the transport's own. A write
  outside the 12 bytes of a message is the result \<open>None\<close>.
\<close>

section \<open>Messages\<close>

definition MODBUS_MAX_ADU_SIZE :: nat where
  "MODBUS_MAX_ADU_SIZE = 12"

definition MODBUS_MAX_REGISTERS :: nat where
  "MODBUS_MAX_REGISTERS = (MODBUS_MAX_ADU_SIZE - 6) div 2"

abbreviation ModBus_ReadCoils :: nat where "ModBus_ReadCoils \<equiv> 1"
abbreviation ModBus_ReadDiscreteInputs :: nat where "ModBus_ReadDiscreteInputs \<equiv> 2"
abbreviation ModBus_ReadHoldingRegisters :: nat where "ModBus_ReadHoldingRegisters \<equiv> 3"
abbreviation ModBus_ReadInputRegisters :: nat where "ModBus_ReadInputRegisters \<equiv> 4"
abbreviation ModBus_WriteCoil :: nat where "ModBus_WriteCoil \<equiv> 5"
abbreviation ModBus_WriteRegister :: nat where "ModBus_WriteRegister \<equiv> 6"
abbreviation ModBus_ReadExceptionStatus :: nat where "ModBus_ReadExceptionStatus \<equiv> 7"
abbreviation ModBus_Diagnostics :: nat where "ModBus_Diagnostics \<equiv> 8"
abbreviation ModBus_WriteCoils :: nat where "ModBus_WriteCoils \<equiv> 15"
abbreviation ModBus_WriteRegisters :: nat where "ModBus_WriteRegisters \<equiv> 16"

abbreviation ModBus_NoException :: u8 where "ModBus_NoException \<equiv> 0"
abbreviation ModBus_UnknownException :: u8 where "ModBus_UnknownException \<equiv> 252"
abbreviation ModBus_IllegalSize :: u8 where "ModBus_IllegalSize \<equiv> 253"
abbreviation ModBus_CRCError :: u8 where "ModBus_CRCError \<equiv> 254"
abbreviation ModBus_Timeout :: u8 where "ModBus_Timeout \<equiv> 255"

record modbus_message =
  mb_context :: u32
  mb_crc_check :: bool
  mb_tx_length :: u8
  mb_rx_length :: u8
  mb_adu :: "u8 list"

record modbus_response =
  mr_function :: u8
  mr_exception :: u8
  mr_num_values :: u8
  mr_values :: "u16 list"

definition modbus_response_zero :: modbus_response where
  "modbus_response_zero =
     \<lparr>mr_function = 0, mr_exception = 0, mr_num_values = 0, mr_values = replicate MODBUS_MAX_REGISTERS 0\<rparr>"

record modbus_function_properties =
  mf_function :: nat
  mf_is_write :: bool
  mf_single_register :: bool

definition modbus_read_u16 :: "u8 \<Rightarrow> u8 \<Rightarrow> u16" where
  "modbus_read_u16 p0 p1 = push_bit 8 (ucast p0) OR ucast p1"

definition modbus_write_u16 :: "u16 \<Rightarrow> u8 \<times> u8" where
  "modbus_write_u16 value = (ucast (drop_bit 8 value), ucast (value AND 0xFF))"

section \<open>Transports\<close>

datatype modbus_if = Modbus_InterfaceRTU | Modbus_InterfaceASCII | Modbus_InterfaceTCP

text \<open>Who is told about a reply: the handlers of \<open>modbus_callbacks_t\<close> by name.\<close>

datatype modbus_handler = Handler nat | RetryHandler

record modbus_callbacks =
  cb_retries :: u8
  cb_retry_delay :: u16
  cb_on_rx_packet :: "modbus_handler option"
  cb_on_rx_exception :: "modbus_handler option"
  cb_on_rx_timeout :: "modbus_handler option"

record 's modbus_api =
  api_interface :: modbus_if
  api_is_up :: "'s \<Rightarrow> bool"
  api_flush_queue :: "'s \<Rightarrow> 's"
  api_set_silence :: "u16 list option \<Rightarrow> 's \<Rightarrow> 's"
  api_send :: "modbus_message \<Rightarrow> modbus_callbacks \<Rightarrow> bool \<Rightarrow> 's \<Rightarrow> (bool \<times> modbus_message) \<times> 's"
  api_is_busy :: "('s \<Rightarrow> bool) option"

definition N_MODBUS_API :: nat where
  "N_MODBUS_API = 2"

text \<open>The registered transports, in order; \<open>tcp_api\<close> and \<open>rtu_api\<close> index them, 2 for none.\<close>

record 's modbus_registry =
  apis :: "'s modbus_api list"
  tcp_api :: nat
  rtu_api :: nat

definition modbus_registry_zero :: "'s modbus_registry" where
  "modbus_registry_zero = \<lparr>apis = [], tcp_api = N_MODBUS_API, rtu_api = N_MODBUS_API\<rparr>"

definition modbus_register_api :: "'s modbus_api \<Rightarrow> 's modbus_registry \<Rightarrow> bool \<times> 's modbus_registry" where
  "modbus_register_api api r =
     (let n_api = length (apis r)
      in if n_api < N_MODBUS_API
         then (True, r\<lparr>apis := apis r @ [api],
                 tcp_api := (if api_interface api = Modbus_InterfaceTCP then n_api else tcp_api r),
                 rtu_api := (if api_interface api = Modbus_InterfaceRTU then n_api else rtu_api r)\<rparr>)
         else (False, r))"

record modbus_cap =
  cap_rtu :: bool
  cap_ascii :: bool
  cap_tcp :: bool

definition cap_add :: "'s \<Rightarrow> 's modbus_api \<Rightarrow> modbus_cap \<Rightarrow> modbus_cap" where
  "cap_add s api cap =
     (if api_is_up api s then
        (case api_interface api of
           Modbus_InterfaceRTU \<Rightarrow> cap\<lparr>cap_rtu := True\<rparr>
         | Modbus_InterfaceASCII \<Rightarrow> cap\<lparr>cap_ascii := True\<rparr>
         | Modbus_InterfaceTCP \<Rightarrow> cap\<lparr>cap_tcp := True\<rparr>)
      else cap)"

definition modbus_isup :: "'s modbus_registry \<Rightarrow> 's \<Rightarrow> modbus_cap" where
  "modbus_isup r s =
     fold (cap_add s) (rev (apis r)) \<lparr>cap_rtu = False, cap_ascii = False, cap_tcp = False\<rparr>"

definition modbus_isbusy :: "'s modbus_registry \<Rightarrow> 's \<Rightarrow> bool" where
  "modbus_isbusy r s =
     list_ex (\<lambda>api. case api_is_busy api of Some f \<Rightarrow> f s | None \<Rightarrow> False) (rev (apis r))"

definition modbus_enabled :: "'s modbus_registry \<Rightarrow> bool" where
  "modbus_enabled r \<longleftrightarrow> 0 < length (apis r)"

definition modbus_flush_queue :: "'s modbus_registry \<Rightarrow> 's \<Rightarrow> 's" where
  "modbus_flush_queue r s = fold api_flush_queue (rev (apis r)) s"

definition modbus_set_silence :: "u16 list option \<Rightarrow> 's modbus_registry \<Rightarrow> 's \<Rightarrow> 's" where
  "modbus_set_silence timeout r s =
     (if rtu_api r \<noteq> N_MODBUS_API then api_set_silence (apis r ! rtu_api r) timeout s else s)"

text \<open>Transmission: over TCP when there is one, over RTU when that fails. The first attempt may
  change the message.\<close>

definition modbus_send ::
  "'s modbus_registry \<Rightarrow> modbus_message \<Rightarrow> modbus_callbacks \<Rightarrow> bool \<Rightarrow> 's \<Rightarrow> (bool \<times> modbus_message) \<times> 's" where
  "modbus_send r msg callbacks block s =
     (let ((ok, msg), s) =
        (if tcp_api r \<noteq> N_MODBUS_API then api_send (apis r ! tcp_api r) msg callbacks block s
         else ((False, msg), s))
      in if ok then ((True, msg), s)
         else if rtu_api r \<noteq> N_MODBUS_API then api_send (apis r ! rtu_api r) msg callbacks block s
         else ((False, msg), s))"

section \<open>Requests\<close>

definition cmds :: "modbus_function_properties list" where
  "cmds = map (\<lambda>(f, w, sr). \<lparr>mf_function = f, mf_is_write = w, mf_single_register = sr\<rparr>)
     [(0, False, False),
      (ModBus_ReadCoils, False, False),
      (ModBus_ReadDiscreteInputs, False, False),
      (ModBus_ReadHoldingRegisters, False, False),
      (ModBus_ReadInputRegisters, False, False),
      (ModBus_WriteCoil, True, True),
      (ModBus_WriteRegister, True, True),
      (ModBus_ReadExceptionStatus, False, True),
      (0, True, False),
      (0, False, False), (0, False, False), (0, False, False),
      (0, False, False), (0, False, False), (0, False, False),
      (ModBus_WriteCoils, True, False),
      (ModBus_WriteRegisters, True, False)]"

definition max_function :: nat where
  "max_function = length cmds - 1"

definition modbus_get_function_properties :: "nat \<Rightarrow> modbus_function_properties option" where
  "modbus_get_function_properties f =
     (if f \<le> max_function \<and> mf_function (cmds ! f) \<noteq> 0 then Some (cmds ! f) else None)"

definition callbacks :: modbus_callbacks where
  "callbacks = \<lparr>cb_retries = 5, cb_retry_delay = 100, cb_on_rx_packet = Some (Handler 0),
     cb_on_rx_exception = Some (Handler 1), cb_on_rx_timeout = Some (Handler 2)\<rparr>"

text \<open>Writing one byte, and the bytes of the registers from a position on.\<close>

definition adu_put :: "nat \<Rightarrow> u8 \<Rightarrow> u8 list \<Rightarrow> u8 list option" where
  "adu_put i v adu = (if i < MODBUS_MAX_ADU_SIZE then Some (adu[i := v]) else None)"

fun put_registers :: "nat \<Rightarrow> u16 list \<Rightarrow> u8 list \<Rightarrow> u8 list option" where
  "put_registers pos [] adu = Some adu"
| "put_registers pos (v # vs) adu =
     Option.bind (adu_put pos (ucast (drop_bit 8 v)) adu) (\<lambda>adu.
     Option.bind (adu_put (pos + 1) (ucast (v AND 0xFF)) adu) (put_registers (pos + 2) vs))"

text \<open>The message of a request for \<open>registers\<close> registers; the caller's array is the list \<open>values\<close>.\<close>

definition modbus_request ::
  "u8 \<Rightarrow> u8 \<Rightarrow> nat \<Rightarrow> u16 \<Rightarrow> u16 list \<Rightarrow> u8 \<Rightarrow> modbus_message option" where
  "modbus_request tx_id server f address values registers =
     (let cmd = \<lparr>mb_context = ucast tx_id, mb_crc_check = True, mb_tx_length = 0, mb_rx_length = 0,
                 mb_adu = [server, of_nat f, ucast (drop_bit 8 address), ucast (address AND 0xFF)]
                          @ replicate 8 0\<rparr>
      in if f = ModBus_ReadExceptionStatus then Some (cmd\<lparr>mb_tx_length := 4, mb_rx_length := 5\<rparr>)
         else
           let tx_length = 6 + 2 * registers;
               count = (mb_adu cmd)[4 := 0, 5 := registers];
               vals = take (unat registers) values
           in if mf_is_write (cmds ! f) then
                (if mf_single_register (cmds ! f) then
                   map_option (\<lambda>adu. cmd\<lparr>mb_tx_length := 8, mb_rx_length := 8, mb_adu := adu\<rparr>)
                     (put_registers 4 vals (mb_adu cmd))
                 else
                   map_option (\<lambda>adu. cmd\<lparr>mb_tx_length := tx_length + 3, mb_rx_length := 8, mb_adu := adu\<rparr>)
                     (put_registers 7 vals (count[6 := 2 * registers])))
              else
                Some (cmd\<lparr>mb_tx_length := tx_length, mb_adu := count,
                  mb_rx_length := (if f = ModBus_ReadCoils \<or> f = ModBus_ReadDiscreteInputs
                    then of_nat (5 + (unat registers + 7) div 8) else 5 + 2 * registers)\<rparr>))"

record modbus_client =
  mc_tx_id :: u8
  mc_xcallback :: bool
  mc_response :: modbus_response

definition modbus_message_send ::
  "(modbus_message \<Rightarrow> modbus_callbacks \<Rightarrow> bool \<Rightarrow> 's \<Rightarrow> (bool \<times> modbus_message) \<times> 's) \<Rightarrow>
   u8 \<Rightarrow> nat \<Rightarrow> u16 \<Rightarrow> u16 list \<Rightarrow> u8 \<Rightarrow> bool \<Rightarrow> modbus_client \<times> 's \<Rightarrow> (u8 \<times> modbus_client \<times> 's) option" where
  "modbus_message_send send server f address values registers callback cs =
     (case cs of (c, s) \<Rightarrow>
        if max_function < f \<or> mf_function (cmds ! f) = 0 then Some (Status_InvalidStatement, c, s)
        else map_option (\<lambda>cmd.
          let c = c\<lparr>mc_tx_id := mc_tx_id c + 1, mc_xcallback := callback, mc_response := modbus_response_zero\<rparr>;
              ((ok, _), s) = send cmd callbacks True s
          in (if ok then Status_OK else Status_AccessDenied, c, s))
          (modbus_request (mc_tx_id c) server f address values registers))"

section \<open>Replies\<close>

text \<open>The handlers update the response and hand it to the client, when there is one.\<close>

definition tell :: "modbus_client \<Rightarrow> modbus_client \<times> modbus_response option" where
  "tell c = (c, if mc_xcallback c then Some (mc_response c) else None)"

definition rx_exception :: "u8 \<Rightarrow> modbus_client \<Rightarrow> modbus_client \<times> modbus_response option" where
  "rx_exception code c = tell (c\<lparr>mc_response := (mc_response c)\<lparr>mr_exception := code\<rparr>\<rparr>)"

definition rx_timeout :: "u8 \<Rightarrow> modbus_client \<Rightarrow> modbus_client \<times> modbus_response option" where
  "rx_timeout code c = tell (c\<lparr>mc_response := (mc_response c)\<lparr>mr_exception := ModBus_Timeout\<rparr>\<rparr>)"

fun set_values :: "nat \<Rightarrow> u16 list \<Rightarrow> u16 list \<Rightarrow> u16 list" where
  "set_values i [] vs = vs"
| "set_values i (x # xs) vs = set_values (i + 1) xs (vs[i := x])"

definition read_registers :: "nat \<Rightarrow> nat \<Rightarrow> u8 list \<Rightarrow> u16 list" where
  "read_registers pos n adu =
     map (\<lambda>i. modbus_read_u16 (adu ! (pos + 2 * i)) (adu ! (pos + 2 * i + 1))) [0..<n]"

definition parse_reply :: "u8 list \<Rightarrow> modbus_response \<Rightarrow> modbus_response" where
  "parse_reply adu r =
     (let f = unat (adu ! 1);
          r = r\<lparr>mr_function := adu ! 1\<rparr>;
          short = mf_single_register (cmds ! f) \<or> mf_is_write (cmds ! f)
      in if f \<le> max_function \<and> mf_function (cmds ! f) \<noteq> 0 then
           (if f = ModBus_ReadExceptionStatus then
              r\<lparr>mr_num_values := 1, mr_values := (mr_values r)[0 := ucast (adu ! 2)]\<rparr>
            else if f = ModBus_Diagnostics then r\<lparr>mr_num_values := 0\<rparr>
            else if f = ModBus_ReadCoils \<or> f = ModBus_ReadDiscreteInputs then
              let n = min (adu ! 2) (of_nat MODBUS_MAX_REGISTERS)
              in r\<lparr>mr_num_values := n,
                   mr_values := set_values 0 (map (\<lambda>i. ucast (adu ! (3 + i))) [0..<unat n]) (mr_values r)\<rparr>
            else
              let n = min (if short then 2 else adu ! 2 div 2) (of_nat MODBUS_MAX_REGISTERS)
              in r\<lparr>mr_num_values := n,
                   mr_values := set_values 0 (read_registers (if short then 2 else 3) (unat n) adu) (mr_values r)\<rparr>)
         else r\<lparr>mr_exception := 255\<rparr>)"

definition rx_packet :: "modbus_message \<Rightarrow> modbus_client \<Rightarrow> modbus_client \<times> modbus_response option" where
  "rx_packet msg c =
     (if mb_adu msg ! 0 AND 0x80 = 0
      then tell (c\<lparr>mc_response := parse_reply (mb_adu msg) (mc_response c)\<rparr>)
      else (c, None))"

section \<open>Properties\<close>

lemma adu_put_in [simp]: "i < 12 \<Longrightarrow> adu_put i v adu = Some (adu[i := v])"
  by (simp add: adu_put_def MODBUS_MAX_ADU_SIZE_def)

lemma adu_put_out [simp]: "12 \<le> i \<Longrightarrow> adu_put i v adu = None"
  by (simp add: adu_put_def MODBUS_MAX_ADU_SIZE_def)

lemma put_registers_length: "put_registers pos vs adu = Some adu' \<Longrightarrow> length adu' = length adu"
  by (induction pos vs adu rule: put_registers.induct)
    (auto simp: adu_put_def split: if_splits Option.bind_splits)

lemma put_registers_fits: "put_registers pos vs adu \<noteq> None \<longleftrightarrow> vs = [] \<or> pos + 2 * length vs \<le> 12"
proof (induction vs arbitrary: pos adu)
  case (Cons v vs)
  show ?case
  proof (cases "pos + 1 < 12")
    case True
    then show ?thesis using Cons.IH [of "pos + 2"] by (cases vs) auto
  next
    case False
    then show ?thesis by (cases "pos < 12") auto
  qed
qed simp

lemma supported_functions:
  assumes "modbus_get_function_properties f = Some p"
  shows "f \<in> {1, 2, 3, 4, 5, 6, 7, 15, 16}" and "p = cmds ! f"
proof -
  have "list_all (\<lambda>f. mf_function (cmds ! f) \<noteq> 0 \<longrightarrow> f \<in> {1, 2, 3, 4, 5, 6, 7, 15, 16}) [0..<17]"
    by code_simp
  moreover have "max_function = 16" by code_simp
  ultimately show "f \<in> {1, 2, 3, 4, 5, 6, 7, 15, 16}" "p = cmds ! f"
    using assms by (auto simp: modbus_get_function_properties_def list_all_iff split: if_splits)
qed

text \<open>What the table says of each function.\<close>

lemma cmds_nth:
  "mf_is_write (cmds ! Suc 0) = False" "mf_is_write (cmds ! 2) = False"
  "mf_is_write (cmds ! 3) = False" "mf_is_write (cmds ! 4) = False"
  "mf_is_write (cmds ! 5)" "mf_is_write (cmds ! 6)" "mf_is_write (cmds ! 15)" "mf_is_write (cmds ! 16)"
  "mf_single_register (cmds ! 5)" "mf_single_register (cmds ! 6)"
  "mf_single_register (cmds ! 15) = False" "mf_single_register (cmds ! 16) = False"
  "mf_single_register (cmds ! 3) = False" "mf_single_register (cmds ! 4) = False"
  "mf_function (cmds ! 3) = 3" "mf_function (cmds ! 4) = 4" "max_function = 16"
  by (simp_all add: cmds_def max_function_def)

text \<open>
  A request for up to three registers stays inside the 12 bytes of the message for every
  supported function, with one exception: writing several coils or registers. With two values the
  announced length is 13 bytes, more than the message holds; with three the values themselves are
  written past the end.
\<close>

theorem request_fits:
  assumes "modbus_get_function_properties f = Some p" and "registers \<in> {0, 1, 2, 3}"
    and "length values = 3"
  shows "(modbus_request tx_id server f address values registers = None
      \<longleftrightarrow> f \<in> {ModBus_WriteCoils, ModBus_WriteRegisters} \<and> registers = 3)
    \<and> (\<forall>cmd. modbus_request tx_id server f address values registers = Some cmd \<longrightarrow>
         length (mb_adu cmd) = MODBUS_MAX_ADU_SIZE \<and> unat (mb_rx_length cmd) \<le> MODBUS_MAX_ADU_SIZE \<and>
         (unat (mb_tx_length cmd) \<le> MODBUS_MAX_ADU_SIZE
          \<longleftrightarrow> \<not> (f \<in> {ModBus_WriteCoils, ModBus_WriteRegisters} \<and> registers = 2)))"
proof -
  obtain a b c where v: "values = [a, b, c]"
    using assms(3) by (metis (no_types) length_0_conv length_Suc_conv numeral_3_eq_3)
  show ?thesis
    using supported_functions(1) [OF assms(1)] assms(2) unfolding v
    by (elim insertE emptyE; hypsubst)
      (simp_all add: modbus_request_def Let_def cmds_nth MODBUS_MAX_ADU_SIZE_def)
qed

lemma request_fits_witness:
  "modbus_request 0 17 ModBus_WriteRegisters 4096 [1, 2, 3] 3 = None
   \<and> modbus_request 0 17 ModBus_ReadHoldingRegisters 4096 [0, 0, 0] 3 \<noteq> None"
proof -
  have "modbus_get_function_properties ModBus_WriteRegisters = Some (cmds ! 16)"
    "modbus_get_function_properties ModBus_ReadHoldingRegisters = Some (cmds ! 3)" by code_simp+
  from this [THEN request_fits, THEN conjunct1, of 3 "[0, 0, 0]" 0 17 4096]
    this(1) [THEN request_fits, THEN conjunct1, of 3 "[1, 2, 3]" 0 17 4096]
  show ?thesis by simp
qed

text \<open>The bytes of a sequence of registers, high byte first, and reading them back.\<close>

definition register_bytes :: "u16 list \<Rightarrow> u8 list" where
  "register_bytes vs = concat (map (\<lambda>v. let (h, l) = modbus_write_u16 v in [h, l]) vs)"

lemma read_write_u16: "(let (h, l) = modbus_write_u16 v in modbus_read_u16 h l) = v"
  unfolding modbus_write_u16_def modbus_read_u16_def Let_def
  by (simp, simp add: word16_eq_iff bit_iffs)

lemma register_bytes_Cons:
  "register_bytes (v # vs) = fst (modbus_write_u16 v) # snd (modbus_write_u16 v) # register_bytes vs"
  by (simp add: register_bytes_def case_prod_beta Let_def)

lemma read_register_bytes:
  "read_registers (length pre) (length vs) (pre @ register_bytes vs @ post) = vs"
proof (induction vs arbitrary: pre)
  case Nil
  then show ?case by (simp add: read_registers_def)
next
  case (Cons v vs)
  obtain h l where hl: "modbus_write_u16 v = (h, l)" by fastforce
  then have rv: "modbus_read_u16 h l = v" using read_write_u16 [of v] by simp
  have sh: "read_registers pos (Suc n) adu
      = modbus_read_u16 (adu ! pos) (adu ! (pos + 1)) # read_registers (pos + 2) n adu" for pos n adu
    unfolding read_registers_def
    by (simp add: upt_conv_Cons map_Suc_upt [symmetric] del: upt_Suc)
  have "read_registers (length (pre @ [h, l])) (length vs) ((pre @ [h, l]) @ register_bytes vs @ post) = vs"
    by (rule Cons.IH)
  then show ?case by (simp add: sh register_bytes_Cons hl rv nth_append)
qed

lemma set_values_append: "length as = i \<Longrightarrow> set_values i xs (as @ bs @ cs) = as @ xs @ cs" if "length bs = length xs"
  using that
proof (induction xs arbitrary: i as bs)
  case (Cons x xs)
  then obtain b bs' where b: "bs = b # bs'" by (cases bs) auto
  have "set_values (i + 1) xs ((as @ [x]) @ bs' @ cs) = (as @ [x]) @ xs @ cs"
    using Cons b by (intro Cons.IH) simp_all
  then show ?case using Cons.prems b by (auto simp: list_update_append)
qed simp

lemma and_128_iff: "(w::u8) AND 0x80 = 0 \<longleftrightarrow> \<not> bit w 7"
  using and_exp_eq_0_iff_not_bit [of w 7] by simp



text \<open>
  Replies of servers with an address of 128 or more, which the protocol allows up to 247, are
  dropped and the client is never told: the exception flag is tested in the address byte.
\<close>

lemma high_server_dropped:
  assumes "bit (mb_adu msg ! 0) 7"
  shows "rx_packet msg c = (c, None)"
proof -
  have "mb_adu msg ! 0 AND 0x80 \<noteq> 0" using assms by (simp add: and_128_iff)
  then show ?thesis by (simp add: rx_packet_def)
qed

end
