(* ===== verification/NgcMacros.thy ===== *)
theory NgcMacros
  imports NgcReadOnly Modbus
begin

text \<open>
  The inbuilt G65 macros of \<open>grbl/ngc_params.c\<close>. Their arguments are local parameters, the words
  present are a set of letters. The settings store, the tool table, the probe and the Modbus client
  are functions of a \<open>macro_env\<close>, over a state \<open>'c\<close> of the rest of the machine. A conversion of a
  value to an unsigned integer truncates and wraps; \<open>None\<close> is the dereference of a null pointer.
\<close>

section \<open>The machine around the macros\<close>

type_synonym parameter_words = "char set"

definition to_u16 :: "real \<Rightarrow> u16" where
  "to_u16 r = word_of_int (float_trunc r)"

definition to_u32 :: "real \<Rightarrow> u32" where
  "to_u32 r = word_of_int (float_trunc r)"

record setting_detail =
  sd_id :: u32
  sd_is_decimal :: bool
  sd_is_integer_or_list :: bool

text \<open>The texts handed to the settings store: \<open>ftoa\<close> with six decimals, or \<open>uitoa\<close>.\<close>

datatype setting_text = Ftoa real | Uitoa u32

record 'c macro_env =
  me_ro_value :: "ngc_param_id \<Rightarrow> real"
  me_setting_details :: "u32 \<Rightarrow> setting_detail option"
  me_store_setting :: "u32 \<Rightarrow> setting_text \<Rightarrow> 'c \<Rightarrow> u8 \<times> 'c"
  me_float_value :: "u32 \<Rightarrow> u32 \<Rightarrow> 'c \<Rightarrow> real"
  me_int_value :: "u32 \<Rightarrow> u32 \<Rightarrow> 'c \<Rightarrow> u32"
  me_state_get :: "'c \<Rightarrow> sys_state"
  me_probe_select :: "(u8 \<Rightarrow> 'c \<Rightarrow> bool \<times> 'c) option"
  me_n_tools :: nat
  me_tool_offset :: "nat \<Rightarrow> (nat \<Rightarrow> real) option"
  me_modbus_isup :: "'c \<Rightarrow> bool"
  me_modbus_message :: "u8 \<Rightarrow> nat \<Rightarrow> u16 \<Rightarrow> u16 list \<Rightarrow> u8 \<Rightarrow> 'c \<Rightarrow> u8 \<times> modbus_response option \<times> 'c"
  me_on_macro_execute :: "(nat \<Rightarrow> parameter_words \<Rightarrow> nat \<Rightarrow> ngc_state \<times> 'c \<Rightarrow> u8 \<times> ngc_state \<times> 'c) option"

text \<open>What a macro works on: the parameters, the rest of the machine, and the two flags it can set.\<close>

record 'c macro_world =
  mw_ngc :: ngc_state
  mw_rest :: 'c
  mw_spindle_wait_disable :: bool
  mw_report_probe :: bool

definition mw_get :: "'c macro_env \<Rightarrow> ngc_param_id \<Rightarrow> 'c macro_world \<Rightarrow> bool \<times> real" where
  "mw_get e pid w = ngc_param_get (me_ro_value e) pid (mw_ngc w)"

definition mw_named_set :: "string \<Rightarrow> real \<Rightarrow> 'c macro_world \<Rightarrow> 'c macro_world" where
  "mw_named_set name v w = w\<lparr>mw_ngc := snd (ngc_named_param_set name v (mw_ngc w))\<rparr>"

definition return_value :: "real \<Rightarrow> 'c macro_world \<Rightarrow> 'c macro_world" where
  "return_value v w = mw_named_set ''_value_returned'' 1 (mw_named_set ''_value'' v w)"

section \<open>The macros\<close>

definition macro_set_get_setting ::
  "'c macro_env \<Rightarrow> parameter_words \<Rightarrow> 'c macro_world \<Rightarrow> u8 \<times> 'c macro_world" where
  "macro_set_get_setting e args w =
     (if CHR ''q'' \<notin> args then (Status_GcodeValueWordMissing, w)
      else
        let (ok, q) = mw_get e 17 w
        in case (if ok then me_setting_details e (to_u32 q) else None) of
             None \<Rightarrow> (Status_GcodeValueOutOfRange, w)
           | Some setting \<Rightarrow>
               let offset = to_u32 q - sd_id setting;
                   is_numeric = sd_is_decimal setting \<or> sd_is_integer_or_list setting;
                   (ok, new_value) = mw_get e 19 w;
                   (status, w) =
                     (if CHR ''s'' \<in> args \<and> is_numeric \<and> ok then
                        let (status, c) = me_store_setting e (sd_id setting + offset)
                              (if sd_is_decimal setting then Ftoa new_value
                               else Uitoa (word_of_int (float_trunc new_value))) (mw_rest w)
                        in (status, w\<lparr>mw_rest := c\<rparr>)
                      else (Status_OK, w))
               in (status,
                   if status = Status_OK then
                     (if sd_is_decimal setting
                      then return_value (me_float_value e (sd_id setting) offset (mw_rest w)) w
                      else if is_numeric
                      then return_value (of_nat (unat (me_int_value e (sd_id setting) offset (mw_rest w)))) w
                      else w)
                   else w))"

definition macro_ngc_parameter_rw ::
  "'c macro_env \<Rightarrow> parameter_words \<Rightarrow> 'c macro_world \<Rightarrow> u8 \<times> 'c macro_world" where
  "macro_ngc_parameter_rw e args w =
     (let (ok, idx) = mw_get e 4 w
      in if CHR ''i'' \<notin> args then (Status_GcodeValueWordMissing, w)
         else if ok then
           (if CHR ''q'' \<in> args then
              let (got, value) = mw_get e 17 w; (put, s) = ngc_param_set (to_u16 idx) value (mw_ngc w)
              in if got then (if put then Status_OK else Status_GcodeValueOutOfRange, w\<lparr>mw_ngc := s\<rparr>)
                 else (Status_GcodeValueOutOfRange, w)
            else
              let (found, value) = mw_get e (to_u16 idx) w
              in if found then
                   (if CHR ''s'' \<in> args then
                      let (got, idx) = mw_get e 19 w; (put, s) = ngc_param_set (to_u16 idx) value (mw_ngc w)
                      in if got then (if put then Status_OK else Status_GcodeValueOutOfRange, w\<lparr>mw_ngc := s\<rparr>)
                         else (Status_GcodeValueOutOfRange, w)
                    else (Status_OK, return_value value w))
                 else (Status_GcodeValueOutOfRange, w))
         else (Status_GcodeValueOutOfRange, w))"

text \<open>Index of the lowest bit set, from 1, and 0 for none.\<close>

definition ffs :: "u16 \<Rightarrow> nat" where
  "ffs x = (case find (bit x) [0..<16] of Some i \<Rightarrow> i + 1 | None \<Rightarrow> 0)"

definition macro_get_machine_state ::
  "'c macro_env \<Rightarrow> parameter_words \<Rightarrow> 'c macro_world \<Rightarrow> u8 \<times> 'c macro_world" where
  "macro_get_machine_state e args w =
     (Status_OK, return_value (of_nat (ffs (ucast (me_state_get e (mw_rest w))))) w)"

definition macro_select_probe ::
  "'c macro_env \<Rightarrow> parameter_words \<Rightarrow> 'c macro_world \<Rightarrow> u8 \<times> 'c macro_world" where
  "macro_select_probe e args w =
     (if CHR ''q'' \<notin> args then (Status_GcodeValueWordMissing, w)
      else
        let (ok, probe_id) = mw_get e 17 w;
            (selected, c) =
              (if ok then
                 (case me_probe_select e of
                    Some select \<Rightarrow> select (word_of_int (float_trunc probe_id)) (mw_rest w)
                  | None \<Rightarrow> (probe_id = 0, mw_rest w))
               else (False, mw_rest w))
        in if selected then (Status_OK, w\<lparr>mw_rest := c, mw_report_probe := True\<rparr>)
           else (Status_GcodeValueOutOfRange, w\<lparr>mw_rest := c\<rparr>))"

definition macro_get_tool_offset ::
  "'c macro_env \<Rightarrow> parameter_words \<Rightarrow> 'c macro_world \<Rightarrow> u8 \<times> 'c macro_world" where
  "macro_get_tool_offset e args w =
     (let (ok_q, tool_id) = mw_get e 17 w; (ok_r, axis_id) = mw_get e 18 w
      in if \<not> (CHR ''q'' \<in> args \<and> CHR ''r'' \<in> args) then (Status_GcodeValueWordMissing, w)
         else if me_n_tools e \<noteq> 0 \<and> ok_q \<and> ok_r then
           (let axis = unat (word_of_int (float_trunc axis_id) :: u8)
            in case me_tool_offset e (unat (word_of_int (float_trunc tool_id) :: u32)) of
                 Some offset \<Rightarrow>
                   if axis < N_AXIS then (Status_OK, return_value (offset axis) w)
                   else (Status_GcodeIllegalToolTableEntry, w)
               | None \<Rightarrow> (Status_GcodeIllegalToolTableEntry, w))
         else (Status_GcodeIllegalToolTableEntry, w))"

section \<open>Modbus messages\<close>

definition modbus_response_handler :: "modbus_response \<Rightarrow> 'c macro_world \<Rightarrow> 'c macro_world" where
  "modbus_response_handler r w =
     (let fl = (\<lambda>i. real (unat (mr_values r ! i)));
          w = mw_named_set ''_value'' (if mr_exception r \<noteq> 0 then real (unat (mr_exception r)) else fl 0) w;
          w = mw_named_set ''_value_returned''
                (if mr_exception r \<noteq> 0 then 0 else real (unat (mr_num_values r))) w
      in if mr_exception r = ModBus_NoException then
           let w = (if mr_num_values r = 2 then mw_named_set ''_value2'' (fl 1) w else w)
           in if mr_num_values r = 3 then mw_named_set ''_value2'' (fl 2) w else w
         else w)"

text \<open>
  The value words A, B and C of a write, as far as they are present; a function that writes one
  register takes A only.
\<close>

definition modbus_values ::
  "'c macro_env \<Rightarrow> parameter_words \<Rightarrow> modbus_function_properties \<Rightarrow> 'c macro_world \<Rightarrow> u16 list" where
  "modbus_values e args p w =
     map (\<lambda>(c, pid). to_u16 (snd (mw_get e pid w)))
       (filter (\<lambda>(c, pid). c \<in> args \<and> fst (mw_get e pid w))
          ((CHR ''a'', 1) # (if mf_single_register p then [] else [(CHR ''b'', 2), (CHR ''c'', 3)])))"

definition macro_modbus_msg ::
  "'c macro_env \<Rightarrow> parameter_words \<Rightarrow> 'c macro_world \<Rightarrow> (u8 \<times> 'c macro_world) option" where
  "macro_modbus_msg e args w =
     (let (ok_f, f) = mw_get e 9 w; (ok_r, r) = mw_get e 18 w; (ok_x, x) = mw_get e 24 w;
          (ok_s, sv) = mw_get e 19 w
      in if \<not> (CHR ''f'' \<in> args \<and> CHR ''s'' \<in> args) then Some (Status_GcodeValueWordMissing, w)
         else if \<not> ok_f then Some (Status_GcodeUnsupportedCommand, w)
         else
           Option.bind (modbus_get_function_properties (unat (word_of_int (float_trunc f) :: u32))) (\<lambda>p.
             let with_register = mf_function p \<noteq> ModBus_ReadExceptionStatus \<and> mf_function p \<noteq> 0 \<and>
                                 CHR ''r'' \<in> args \<and> ok_r;
                 address = (if with_register then to_u16 r else 0);
                 values = (if with_register \<and> mf_is_write p then modbus_values e args p w else []);
                 n_values =
                   (if with_register then
                      (if mf_is_write p then of_nat (length values)
                       else if CHR ''x'' \<in> args \<and> ok_x then to_u16 x else 1)
                    else (0 :: u16))
             in if with_register \<and> \<not> mf_is_write p \<and> CHR ''x'' \<in> args \<and> ok_x \<and>
                   of_nat MODBUS_MAX_REGISTERS < n_values
                then Some (Status_GcodeValueOutOfRange, w)
                else if (mf_function p = ModBus_ReadExceptionStatus \<or> n_values \<noteq> 0) \<and> ok_s then
                  let (status, response, c) = me_modbus_message e (ucast (to_u16 sv)) (mf_function p)
                        address values (ucast n_values) (mw_rest w);
                      w = w\<lparr>mw_rest := c\<rparr>
                  in Some (status, case response of Some r \<Rightarrow> modbus_response_handler r w | None \<Rightarrow> w)
                else Some (if mf_function p \<noteq> 0 then Status_GcodeValueWordMissing
                           else Status_GcodeUnsupportedCommand, w)))"

section \<open>Dispatch\<close>

abbreviation G65Macro_GetSetting :: nat where "G65Macro_GetSetting \<equiv> 1"
abbreviation G65Macro_GetToolOffset :: nat where "G65Macro_GetToolOffset \<equiv> 2"
abbreviation G65Macro_ParameterRW :: nat where "G65Macro_ParameterRW \<equiv> 3"
abbreviation G65Macro_GetMachineState :: nat where "G65Macro_GetMachineState \<equiv> 4"
abbreviation G65Macro_SelectProbe :: nat where "G65Macro_SelectProbe \<equiv> 5"
abbreviation G65Macro_SpindleDelayDisable :: nat where "G65Macro_SpindleDelayDisable \<equiv> 6"
abbreviation G65Macro_ModbusMessage :: nat where "G65Macro_ModbusMessage \<equiv> 7"
abbreviation G65Macro_LastInbuilt :: nat where "G65Macro_LastInbuilt \<equiv> G65Macro_ModbusMessage"

definition onMacroExecute ::
  "'c macro_env \<Rightarrow> nat \<Rightarrow> parameter_words \<Rightarrow> nat \<Rightarrow> 'c macro_world \<Rightarrow> (u8 \<times> 'c macro_world) option" where
  "onMacroExecute e macro_id args repeats w =
     Option.bind
       (if 1 < repeats \<and> 1 \<le> macro_id \<and> macro_id \<le> G65Macro_LastInbuilt
        then Some (Status_GcodeValueOutOfRange, w)
        else if macro_id = G65Macro_GetSetting then Some (macro_set_get_setting e args w)
        else if macro_id = G65Macro_GetToolOffset then Some (macro_get_tool_offset e args w)
        else if macro_id = G65Macro_ParameterRW then Some (macro_ngc_parameter_rw e args w)
        else if macro_id = G65Macro_GetMachineState then Some (macro_get_machine_state e args w)
        else if macro_id = G65Macro_SelectProbe then Some (macro_select_probe e args w)
        else if macro_id = G65Macro_SpindleDelayDisable
        then Some (Status_OK, w\<lparr>mw_spindle_wait_disable := True\<rparr>)
        else if macro_id = G65Macro_ModbusMessage then
          (if me_modbus_isup e (mw_rest w) then macro_modbus_msg e args w
           else Some (Status_GcodeUnsupportedCommand, w))
        else Some (Status_Unhandled, w))
       (\<lambda>(status, w).
          case me_on_macro_execute e of
            Some next_handler \<Rightarrow>
              if status = Status_Unhandled then
                let (status, s, c) = next_handler macro_id args repeats (mw_ngc w, mw_rest w)
                in Some (status, w\<lparr>mw_ngc := s, mw_rest := c\<rparr>)
              else Some (status, w)
          | None \<Rightarrow> Some (status, w))"

section \<open>Properties\<close>

lemma to_u16_of_word: "to_u16 (of_nat (unat w)) = w"
  unfolding to_u16_def float_trunc_def by (simp del: of_nat_unat, simp)

lemma to_u16_unsigned [simp]: "to_u16 (unsigned w) = w"
  using to_u16_of_word [of w] by simp

lemma named_set_ngc: "mw_ngc (mw_named_set n v w) = snd (ngc_named_param_set n v (mw_ngc w))"
  by (simp add: mw_named_set_def)

lemma return_value_names:
  "name_settable ''_value''" "name_settable ''_value_returned''" "name_settable ''_value2''"
  "ngc_name_tolower ''_value'' \<noteq> ngc_name_tolower ''_value_returned''"
  "ngc_name_tolower ''_value'' \<noteq> ngc_name_tolower ''_value2''"
  "ngc_name_tolower ''_value_returned'' \<noteq> ngc_name_tolower ''_value2''"
  by code_simp+

lemma return_value_reads:
  assumes "0 < heap_left (mw_ngc w)"
  shows "ngc_named_param_get ro ''_value'' (mw_ngc (return_value v w)) = (True, Some v)"
  using named.get_put_same [where s = "mw_ngc w" and k = "''_value''" and k' = "''_value''" and ro = ro and v = v]
    named.get_put_other [where s = "snd (ngc_named_param_set ''_value'' v (mw_ngc w))"
      and k' = "''_value''" and k = "''_value_returned''" and ro = ro and v = 1]
    assms return_value_names
  by (simp add: return_value_def named_set_ngc)

text \<open>
  Parameters written through macro 3 are read back through it. After G65 P3 I..Q.. has stored
  a value in a writable parameter, G65 P3 I.. succeeds and leaves that value in the named
  parameter \<open>_value\<close>, as long as memory lasts.
\<close>

theorem parameter_rw_roundtrip:
  assumes "ngc_param_is_rw pid" and "pid \<noteq> 4" and "2 < heap_left (mw_ngc w)"
    and "mw_get e 4 w = (True, of_nat (unat pid))" and "mw_get e 17 w = (True, v)"
    and "macro_ngc_parameter_rw e {CHR ''i'', CHR ''q''} w = (st, w')"
    and "macro_ngc_parameter_rw e {CHR ''i''} w' = (st', w'')"
  shows "st = Status_OK \<and> st' = Status_OK
    \<and> ngc_named_param_get ro ''_value'' (mw_ngc w'') = (True, Some v)"
proof -
  obtain put s where p: "ngc_param_set pid v (mw_ngc w) = (put, s)" by fastforce
  have st: "(if put then Status_OK else Status_GcodeValueOutOfRange) = st" "w' = w\<lparr>mw_ngc := s\<rparr>"
    using assms(6) by (simp_all add: macro_ngc_parameter_rw_def Let_def assms(4,5) to_u16_of_word p)
  have put: "put"
    using p assms(1,3) by (auto simp: ngc_param_set_def ngc_param_is_rw_def Let_def split: option.splits if_splits)
  have "mw_get e 4 w' = mw_get e 4 w"
    using num.get_put_other [where s = "mw_ngc w" and k' = 4 and k = pid and ro = "me_ro_value e" and v = v] assms(2) p st(2)
      param_get_rw [of 4] by (simp add: mw_get_def is_rw_iff)
  then have i: "mw_get e 4 w' = (True, of_nat (unat pid))" using assms(4) by simp
  have "mw_get e pid w' = (True, v)"
    using num.get_put_same [where s = "mw_ngc w" and k' = pid and k = pid and ro = "me_ro_value e" and v = v] assms(1,3) p st(2)
      param_get_rw [OF assms(1)] by (simp add: mw_get_def)
  then have w'': "w'' = return_value v w'" "st' = Status_OK"
    using assms(7) i by (simp_all add: macro_ngc_parameter_rw_def Let_def to_u16_of_word)
  have "heap_left (mw_ngc w) \<le> Suc (heap_left s)" using param_set_room [of "mw_ngc w" pid v] p by simp
  then have "0 < heap_left (mw_ngc w')" using assms(3) st(2) by simp
  from return_value_reads [OF this] show ?thesis using w'' st(1) put by simp
qed

definition demo_env :: "unit macro_env" where
  "demo_env = \<lparr>me_ro_value = \<lambda>_. 0, me_setting_details = \<lambda>_. None, me_store_setting = \<lambda>_ _ c. (0, c),
     me_float_value = \<lambda>_ _ _. 0, me_int_value = \<lambda>_ _ _. 0, me_state_get = \<lambda>_. STATE_IDLE,
     me_probe_select = None, me_n_tools = 0, me_tool_offset = \<lambda>_. None, me_modbus_isup = \<lambda>_. True,
     me_modbus_message = \<lambda>_ _ _ _ _ c. (0, None, c), me_on_macro_execute = None\<rparr>"

definition demo_world :: "unit macro_world" where
  "demo_world = \<lparr>mw_ngc = exec_op (Write 17 2.5) (exec_op (Write 4 100) (ngc_initial 20)), mw_rest = (),
     mw_spindle_wait_disable = False, mw_report_probe = False\<rparr>"

lemma demo_world_params:
  "mw_get demo_env 4 demo_world = (True, 100)" "mw_get demo_env 17 demo_world = (True, 2.5)"
  "heap_left (mw_ngc demo_world) = 18"
  by (simp_all add: mw_get_def demo_env_def demo_world_def ngc_param_get_def ngc_param_set_def ngc_ro_params_def
      ngc_initial_def param_context_of_def is_rw_param_def)

lemma parameter_rw_roundtrip_witness:
  "\<exists>w' w''. macro_ngc_parameter_rw demo_env {CHR ''i'', CHR ''q''} demo_world = (Status_OK, w')
     \<and> macro_ngc_parameter_rw demo_env {CHR ''i''} w' = (Status_OK, w'')
     \<and> ngc_named_param_get (\<lambda>_. 0) ''_value'' (mw_ngc w'') = (True, Some 2.5)"
proof -
  obtain st w' where 1: "macro_ngc_parameter_rw demo_env {CHR ''i'', CHR ''q''} demo_world = (st, w')" by fastforce
  obtain st' w'' where 2: "macro_ngc_parameter_rw demo_env {CHR ''i''} w' = (st', w'')" by fastforce
  have "ngc_param_is_rw 100" by (simp add: is_rw_iff)
  then have "st = Status_OK \<and> st' = Status_OK \<and> ngc_named_param_get (\<lambda>_. 0) ''_value'' (mw_ngc w'') = (True, Some 2.5)"
    by (rule parameter_rw_roundtrip [where pid = 100 and w = demo_world and e = demo_env])
      (use 1 2 in \<open>simp_all add: demo_world_params\<close>)
  with 1 2 show ?thesis by simp
qed

text \<open>
  A Modbus reply with three registers: the second value is dropped, the third is stored under the
  name of the second.
\<close>

lemma modbus_second_value_lost:
  assumes "mr_exception r = ModBus_NoException" "mr_num_values r = 3" "2 < heap_left (mw_ngc w)"
  shows "ngc_named_param_get ro ''_value2'' (mw_ngc (modbus_response_handler r w))
    = (True, Some (real (unat (mr_values r ! 2))))"
proof -
  define w1 where "w1 = mw_named_set ''_value_returned'' 3 (mw_named_set ''_value'' (real (unat (mr_values r ! 0))) w)"
  have "heap_left (mw_ngc w) \<le> Suc (Suc (heap_left (mw_ngc w1)))"
    using named_set_room [of "mw_ngc w"] named_set_room
    by (simp add: w1_def named_set_ngc) (meson Suc_le_mono le_trans)
  then have "0 < heap_left (mw_ngc w1)" using assms(3) by simp
  moreover have "modbus_response_handler r w = mw_named_set ''_value2'' (real (unat (mr_values r ! 2))) w1"
    using assms(1,2) by (simp add: modbus_response_handler_def Let_def w1_def)
  ultimately show ?thesis
    using named.get_put_same [where s = "mw_ngc w1" and k = "''_value2''" and k' = "''_value2''" and ro = ro] return_value_names
    by (simp add: named_set_ngc)
qed

text \<open>A function code that is not in the table makes macro 7 dereference a null pointer.\<close>

lemma modbus_macro_null_pointer:
  assumes "{CHR ''f'', CHR ''s''} \<subseteq> args" and "mw_get e 9 w = (True, of_nat f)" and "f < 2 ^ 32"
    and "modbus_get_function_properties f = None" and "me_modbus_isup e (mw_rest w)"
  shows "onMacroExecute e G65Macro_ModbusMessage args 1 w = None"
  using assms by (simp add: onMacroExecute_def macro_modbus_msg_def Let_def float_trunc_def
      unat_of_nat case_prod_beta take_bit_nat_eq_self)

end
