(* ===== verification/StreamFile.thy ===== *)
theory StreamFile
  imports Chains Codes
begin

text \<open>
  \<open>grbl/stream_file.c\<close>: input redirected to files. The redirections in force are a chain, the last
  one the innermost. A file is a handle with a content and a read position; what opening a name
  yields is an argument. Handlers given with a redirection are names, called by the modules that
  own them.
\<close>

section \<open>State\<close>

type_synonym vfile = nat

datatype stream_type = StreamType_Serial | StreamType_File | StreamType_Other
datatype stream_reader = DriverReader | FileReader
datatype file_handler = NamedSubHandler | OtherHandler nat

record rd_stream =
  rs_file_new :: vfile
  rs_file :: "vfile option"
  rs_line_number :: u32
  rs_read :: stream_reader
  rs_type :: stream_type
  rs_status_handler :: "file_handler option"
  rs_eof_handler :: "file_handler option"

record stream_state =
  line_number :: u32
  rd_streams :: "rd_stream list"
  eol_ok :: bool
  hal_file :: "vfile option"
  hal_type :: stream_type
  hal_read :: stream_reader
  file_stream :: bool
  handlers_ok :: bool
  contents :: "vfile \<Rightarrow> u8 list"
  file_pos :: "vfile \<Rightarrow> nat"
  closed :: "vfile list"
  nodes_left :: nat
  last_error :: u8
  reported :: "u8 list"

section \<open>Reading\<close>

definition ASCII_LF :: int where "ASCII_LF = 0x0A"
definition ASCII_CR :: int where "ASCII_CR = 0x0D"
definition ASCII_EOF :: int where "ASCII_EOF = 0x1A"
definition SERIAL_NO_DATA :: int where "SERIAL_NO_DATA = -1"

definition is_eol :: "u8 \<Rightarrow> bool" where
  "is_eol c \<longleftrightarrow> uint c = ASCII_CR \<or> uint c = ASCII_LF"

definition stream_read_file :: "stream_state \<Rightarrow> int \<times> stream_state" where
  "stream_read_file s =
     (case hal_file s of
        None \<Rightarrow> (SERIAL_NO_DATA, s)
      | Some f \<Rightarrow>
          if file_pos s f < length (contents s f) then
            let c = contents s f ! file_pos s f;
                s = s\<lparr>file_pos := (file_pos s)(f := file_pos s f + 1)\<rparr>
            in if is_eol c then
                 (if eol_ok s then (SERIAL_NO_DATA, s)
                  else (uint c, s\<lparr>line_number := line_number s + 1, eol_ok := True\<rparr>))
               else (uint c, s\<lparr>eol_ok := False\<rparr>)
          else if eol_ok s then (ASCII_EOF, s\<lparr>eol_ok := False\<rparr>)
          else (ASCII_LF, s\<lparr>eol_ok := True\<rparr>))"

section \<open>Line numbers, end of file, status reports\<close>

text \<open>\<open>prev\<close> is the handler that was installed before, when there was one.\<close>

definition onLineNumberAssigned ::
  "(u32 \<Rightarrow> u32) option \<Rightarrow> u32 \<Rightarrow> stream_state \<Rightarrow> u32 \<times> stream_state" where
  "onLineNumberAssigned prev pline_number s =
     (let (n, s) = (if rd_streams s = [] then (pline_number, s)
                    else if pline_number \<noteq> 0 then (pline_number, s\<lparr>line_number := pline_number\<rparr>)
                    else (line_number s, s))
      in (case prev of Some f \<Rightarrow> f n | None \<Rightarrow> n, s))"

text \<open>The handler of the innermost redirection that is told of an end of file.\<close>

definition onFileEnd_handler :: "stream_state \<Rightarrow> file_handler option" where
  "onFileEnd_handler s = (if rd_streams s = [] then None else rs_eof_handler (last (rd_streams s)))"

text \<open>What becomes of a status: reported as is, passed to a handler, or dropped.\<close>

datatype trap_action = ReportStatus | CallHandler file_handler | DropStatus

definition trap_status_messages :: "u8 \<Rightarrow> stream_state \<Rightarrow> trap_action \<times> stream_state" where
  "trap_status_messages status s =
     (let s = s\<lparr>last_error := status\<rparr>
      in if rd_streams s = [] then (ReportStatus, s\<lparr>reported := reported s @ [status]\<rparr>)
         else if \<not> (status = Status_OK \<or> status = Status_Unhandled) then
           (case rs_status_handler (last (rd_streams s)) of
              Some h \<Rightarrow> (CallHandler h, s) | None \<Rightarrow> (DropStatus, s))
         else (DropStatus, s))"

section \<open>Redirection\<close>

definition stream_set_type :: "stream_type \<Rightarrow> vfile option \<Rightarrow> stream_state \<Rightarrow> stream_state" where
  "stream_set_type t f s =
     s\<lparr>hal_type := t, hal_file := f, file_stream := (if f = None then False else file_stream s)\<rparr>"

definition stream_is_file :: "stream_state \<Rightarrow> bool" where
  "stream_is_file s \<longleftrightarrow> hal_type s = StreamType_File"

definition vfs_close :: "vfile \<Rightarrow> stream_state \<Rightarrow> stream_state" where
  "vfs_close f s = s\<lparr>closed := closed s @ [f]\<rparr>"

text \<open>\<open>opened\<close> is the handle that opening the file yields.\<close>

definition stream_redirect_read ::
  "vfile option \<Rightarrow> file_handler option \<Rightarrow> file_handler option \<Rightarrow> stream_state \<Rightarrow> vfile option \<times> stream_state" where
  "stream_redirect_read opened status_handler eof_handler s =
     (case opened of
        None \<Rightarrow> (None, s)
      | Some f \<Rightarrow>
          if 0 < nodes_left s then
            let node = \<lparr>rs_file_new = f, rs_file = hal_file s,
                        rs_line_number = (if rd_streams s \<noteq> [] then line_number s else 0),
                        rs_read = hal_read s, rs_type = hal_type s,
                        rs_status_handler = status_handler, rs_eof_handler = eof_handler\<rparr>;
                s = stream_set_type StreamType_File (Some f)
                      (s\<lparr>nodes_left := nodes_left s - 1, hal_read := FileReader\<rparr>)
            in (Some f, s\<lparr>rd_streams := rd_streams s @ [node], line_number := 0, handlers_ok := True\<rparr>)
          else (None, vfs_close f s))"

text \<open>A seek, and a report of the line the file is now at, which the trap above takes up.\<close>

definition vfs_seek :: "vfile \<Rightarrow> nat \<Rightarrow> stream_state \<Rightarrow> stream_state" where
  "vfs_seek f pos s = s\<lparr>file_pos := (file_pos s)(f := pos)\<rparr>"

definition stream_reposition :: "vfile \<Rightarrow> nat \<Rightarrow> u32 \<Rightarrow> stream_state \<Rightarrow> stream_state" where
  "stream_reposition f pos n s =
     (let s = vfs_seek f pos s
      in if n \<noteq> 0 \<and> handlers_ok s then snd (onLineNumberAssigned None n s) else s)"

definition stream_redirect_close :: "vfile \<Rightarrow> stream_state \<Rightarrow> stream_state" where
  "stream_redirect_close f s =
     (case find (\<lambda>r. rs_file_new r = f) (rd_streams s) of
        None \<Rightarrow> s
      | Some r \<Rightarrow>
          let s = (vfs_close f s)\<lparr>hal_read := rs_read r\<rparr>;
              s = (if rs_read r = FileReader then s\<lparr>line_number := rs_line_number r\<rparr> else s);
              s = stream_set_type (rs_type r) (rs_file r) s
          in s\<lparr>rd_streams := remove_first (\<lambda>r. rs_file_new r = f) (rd_streams s)\<rparr>)"

section \<open>Properties\<close>

fun read_n :: "nat \<Rightarrow> stream_state \<Rightarrow> int list \<times> stream_state" where
  "read_n 0 s = ([], s)"
| "read_n (Suc n) s = (let (c, s) = stream_read_file s; (cs, s) = read_n n s in (c # cs, s))"

text \<open>What the reader delivers for the rest of a file, after a line end or in a line.\<close>

fun delivered :: "bool \<Rightarrow> u8 list \<Rightarrow> int list" where
  "delivered e [] = (if e then [ASCII_EOF] else [ASCII_LF, ASCII_EOF])"
| "delivered e (c # cs) =
     (if is_eol c then (if e then SERIAL_NO_DATA else uint c) # delivered True cs
      else uint c # delivered False cs)"

lemma read_n_delivered:
  assumes "hal_file s = Some f" "drop (file_pos s f) (contents s f) = cs"
  shows "fst (read_n (length (delivered (eol_ok s) cs)) s) = delivered (eol_ok s) cs"
  using assms
proof (induction cs arbitrary: s)
  case Nil
  then show ?case by (simp add: stream_read_file_def case_prod_beta Let_def numeral_2_eq_2)
next
  case (Cons c cs)
  have p: "file_pos s f < length (contents s f)" and c: "contents s f ! file_pos s f = c"
    and d: "drop (Suc (file_pos s f)) (contents s f) = cs"
    using Cons.prems(2) by (metis drop_eq_Nil linorder_not_less list.distinct(1))
      (metis Cons.prems(2) hd_drop_conv_nth drop_eq_Nil linorder_not_less list.distinct(1) list.sel(1),
       metis Cons.prems(2) drop_Suc list.sel(3) tl_drop)
  define s' where "s' = snd (stream_read_file s)"
  have s': "hal_file s' = Some f" "drop (file_pos s' f) (contents s' f) = cs"
    "eol_ok s' = is_eol c"
    "fst (stream_read_file s) = (if is_eol c \<and> eol_ok s then SERIAL_NO_DATA else uint c)"
    using Cons.prems(1) p c d by (auto simp: s'_def stream_read_file_def Let_def)
  have "fst (read_n (length (delivered (is_eol c) cs)) s') = delivered (is_eol c) cs"
    using Cons.IH [OF s'(1,2)] s'(3) by simp
  moreover have "stream_read_file s = (fst (stream_read_file s), s')" by (simp add: s'_def)
  ultimately show ?case
    using s'(4) by (cases "is_eol c") (simp_all add: case_prod_beta Let_def s'_def)
qed

text \<open>The lines of a text: maximal runs of characters that are no line ends.\<close>

fun lines_from :: "u8 list \<Rightarrow> u8 list \<Rightarrow> u8 list list" where
  "lines_from cur [] = (if cur = [] then [] else [cur])"
| "lines_from cur (c # cs) =
     (if is_eol c then (if cur = [] then lines_from [] cs else cur # lines_from [] cs)
      else lines_from (cur @ [c]) cs)"

definition as_lf :: "int \<Rightarrow> int" where
  "as_lf c = (if c = ASCII_CR then ASCII_LF else c)"

lemma as_lf_eol: "is_eol c \<Longrightarrow> as_lf (uint c) = ASCII_LF" "\<not> is_eol c \<Longrightarrow> as_lf (uint c) = uint c"
  by (auto simp: as_lf_def is_eol_def)

lemma byte_is_data: "uint (c::u8) \<noteq> SERIAL_NO_DATA"
  using uint_ge_0 [of c] unfolding SERIAL_NO_DATA_def by linarith

lemma delivered_lines:
  assumes "\<forall>c\<in>set cur. \<not> is_eol c"
  shows "map uint cur @ map as_lf (filter (\<lambda>c. c \<noteq> SERIAL_NO_DATA) (delivered (cur = []) cs))
    = concat (map (\<lambda>l. map uint l @ [ASCII_LF]) (lines_from cur cs)) @ [ASCII_EOF]"
  using assms
proof (induction cur cs rule: lines_from.induct)
  case (1 cur)
  then show ?case
    by (auto simp: as_lf_def ASCII_EOF_def ASCII_LF_def ASCII_CR_def SERIAL_NO_DATA_def)
next
  case (2 cur c cs)
  show ?case
  proof (cases "is_eol c")
    case True
    then show ?thesis using 2 by (cases "cur = []") (simp_all add: byte_is_data as_lf_eol)
  next
    case False
    then show ?thesis using 2 by (simp add: byte_is_data as_lf_eol)
  qed
qed

text \<open>
  C18. A file read through the redirected input arrives as its lines: each non-empty line once, with
  exactly one line end after it, also after a last line that has none, then the end-of-file mark;
  empty lines are dropped. (A line end is a carriage return, a line feed or any run of them; the
  reader is at the start of a line, or the text starts with a character of a line.)
\<close>

theorem file_arrives_as_lines:
  assumes "hal_file s = Some f" and "file_pos s f = 0" and "contents s f = body"
    and "eol_ok s \<or> (\<exists>c cs. body = c # cs \<and> \<not> is_eol c)"
  shows "\<exists>n. map as_lf (filter (\<lambda>c. c \<noteq> SERIAL_NO_DATA) (fst (read_n n s)))
    = concat (map (\<lambda>l. map uint l @ [ASCII_LF]) (lines_from [] body)) @ [ASCII_EOF]"
proof -
  have "delivered (eol_ok s) body = delivered True body" using assms(4) by auto
  moreover have "fst (read_n (length (delivered (eol_ok s) body)) s) = delivered (eol_ok s) body"
    by (rule read_n_delivered [OF assms(1)]) (simp only: assms(2,3) drop_0)
  ultimately show ?thesis using delivered_lines [of "[]" body]
    by (intro exI [where x = "length (delivered True body)"]) simp
qed

definition demo_stream :: stream_state where
  "demo_stream = \<lparr>line_number = 0, rd_streams = [], eol_ok = False, hal_file = None,
     hal_type = StreamType_Serial, hal_read = DriverReader, file_stream = False, handlers_ok = False,
     contents = \<lambda>_. [71, 48, 13, 10, 10, 71, 49], file_pos = \<lambda>_. 0, closed = [], nodes_left = 4,
     last_error = 0, reported = []\<rparr>"

lemma file_arrives_as_lines_witness:
  "\<exists>n. map as_lf (filter (\<lambda>c. c \<noteq> SERIAL_NO_DATA)
      (fst (read_n n (snd (stream_redirect_read (Some 3) None None demo_stream)))))
    = [71, 48, 10, 71, 49, 10, 26]"
proof -
  have l: "lines_from [] [71, 48, 13, 10, 10, 71, 49] = [[71, 48], [71, 49]]"
    by (simp add: is_eol_def ASCII_CR_def ASCII_LF_def)
  have "\<exists>n. map as_lf (filter (\<lambda>c. c \<noteq> SERIAL_NO_DATA)
      (fst (read_n n (snd (stream_redirect_read (Some 3) None None demo_stream)))))
    = concat (map (\<lambda>l. map uint l @ [ASCII_LF]) (lines_from [] [71, 48, 13, 10, 10, 71, 49])) @ [ASCII_EOF]"
    by (rule file_arrives_as_lines [where f = 3])
      (simp_all add: stream_redirect_read_def demo_stream_def Let_def stream_set_type_def is_eol_def
        ASCII_CR_def ASCII_LF_def)
  then show ?thesis unfolding l by (simp add: ASCII_LF_def ASCII_EOF_def)
qed

text \<open>Opening files one inside the other, and closing the innermost first.\<close>

definition open_all :: "vfile list \<Rightarrow> stream_state \<Rightarrow> stream_state" where
  "open_all fs s = fold (\<lambda>f s. snd (stream_redirect_read (Some f) None None s)) fs s"

definition close_all :: "vfile list \<Rightarrow> stream_state \<Rightarrow> stream_state" where
  "close_all fs s = fold stream_redirect_close fs s"

lemma remove_first_last:
  assumes "\<forall>x\<in>set xs. \<not> p x" "p y"
  shows "remove_first p (xs @ [y]) = xs" "find p (xs @ [y]) = Some y"
  using assms by (induction xs) auto

text \<open>Where input comes from.\<close>

definition same_source :: "stream_state \<Rightarrow> stream_state \<Rightarrow> bool" where
  "same_source s u \<longleftrightarrow> rd_streams u = rd_streams s \<and> hal_file u = hal_file s \<and>
     hal_type u = hal_type s \<and> hal_read u = hal_read s"

lemma open_fields:
  assumes "0 < nodes_left s"
  shows "nodes_left (snd (stream_redirect_read (Some f) sh eh s)) = nodes_left s - 1"
    and "rs_file_new ` set (rd_streams (snd (stream_redirect_read (Some f) sh eh s)))
      = insert f (rs_file_new ` set (rd_streams s))"
  using assms by (simp_all add: stream_redirect_read_def Let_def stream_set_type_def)

lemma close_opened:
  assumes "0 < nodes_left s" "f \<notin> rs_file_new ` set (rd_streams s)"
    and "same_source (snd (stream_redirect_read (Some f) sh eh s)) u"
  shows "same_source s (stream_redirect_close f u)"
    and "hal_read s = FileReader \<Longrightarrow> rd_streams s \<noteq> [] \<Longrightarrow>
      line_number (stream_redirect_close f u) = line_number s"
    and "closed (stream_redirect_close f u) = closed u @ [f]"
proof -
  have "\<forall>r\<in>set (rd_streams s). \<not> rs_file_new r = f" using assms(2) by auto
  note r = remove_first_last [OF this]
  show "same_source s (stream_redirect_close f u)"
    and "hal_read s = FileReader \<Longrightarrow> rd_streams s \<noteq> [] \<Longrightarrow>
      line_number (stream_redirect_close f u) = line_number s"
    and "closed (stream_redirect_close f u) = closed u @ [f]"
    using assms(1,3)
    by (simp_all add: same_source_def stream_redirect_read_def stream_redirect_close_def Let_def
        stream_set_type_def vfs_close_def r)
qed

text \<open>
  Redirections nest. Opening any number of different files one inside the other and closing
  them innermost first gives back the input source that was in use, with every file closed in that
  order; and the line number as well, when that source was a redirected file.
\<close>

theorem redirections_nest:
  assumes "distinct fs" and "set fs \<inter> rs_file_new ` set (rd_streams s) = {}" and "length fs \<le> nodes_left s"
  shows "same_source s (close_all (rev fs) (open_all fs s))
    \<and> closed (close_all (rev fs) (open_all fs s)) = closed s @ rev fs
    \<and> (hal_read s = FileReader \<and> rd_streams s \<noteq> [] \<and> fs \<noteq> [] \<longrightarrow>
        line_number (close_all (rev fs) (open_all fs s)) = line_number s)"
  using assms
proof (induction fs arbitrary: s)
  case Nil
  then show ?case by (simp add: same_source_def open_all_def close_all_def)
next
  case (Cons f fs)
  define t where "t = snd (stream_redirect_read (Some f) None None s)"
  define u where "u = close_all (rev fs) (open_all fs t)"
  have n: "0 < nodes_left s" "f \<notin> rs_file_new ` set (rd_streams s)" using Cons.prems by auto
  have "same_source t u \<and> closed u = closed t @ rev fs"
    using Cons.IH [of t] Cons.prems open_fields [OF n(1), of f None None]
    by (auto simp: u_def t_def)
  moreover have "closed t = closed s"
    using n(1) by (simp add: t_def stream_redirect_read_def Let_def stream_set_type_def)
  moreover have "close_all (rev (f # fs)) (open_all (f # fs) s) = stream_redirect_close f u"
    by (simp add: close_all_def open_all_def u_def t_def)
  ultimately show ?case
    using close_opened [OF n, of None None u] by (auto simp: t_def)
qed

lemma redirections_nest_witness:
  "same_source demo_stream (close_all (rev [3, 5, 9]) (open_all [3, 5, 9] demo_stream))"
  by (rule redirections_nest [THEN conjunct1]) (simp_all add: demo_stream_def)

end
