(* ===== verification/FlowCtrl.thy ===== *)
theory FlowCtrl
  imports NgcParams StreamFile
begin

text \<open>
  \<open>grbl/ngc_flowctrl.c\<close>: the O-word flow control of G-code programs. The stack of open blocks is a
  list, its top first; the subroutines known are a chain. The value of an expression, what opening
  a macro file yields and the return from a G65 macro are fields of a \<open>flow_env\<close>. A read of the
  stack entry below the first, or of a variable that was never set, is the result \<open>None\<close>.
\<close>

section \<open>State\<close>

definition NGC_STACK_DEPTH :: nat where
  "NGC_STACK_DEPTH = 20"

datatype ngc_cmd =
  NGCFlowCtrl_NoOp | NGCFlowCtrl_If | NGCFlowCtrl_ElseIf | NGCFlowCtrl_Else | NGCFlowCtrl_EndIf
  | NGCFlowCtrl_Do | NGCFlowCtrl_Continue | NGCFlowCtrl_Break | NGCFlowCtrl_While
  | NGCFlowCtrl_EndWhile | NGCFlowCtrl_Repeat | NGCFlowCtrl_EndRepeat | NGCFlowCtrl_Sub
  | NGCFlowCtrl_EndSub | NGCFlowCtrl_Call | NGCFlowCtrl_Return | NGCFlowCtrl_RaiseAlarm
  | NGCFlowCtrl_RaiseError

text \<open>A subroutine; \<open>sub_ref\<close> is the address of the node.\<close>

record ngc_sub =
  sub_ref :: nat
  sub_label :: u32
  sub_file :: vfile
  sub_file_pos :: nat
  sub_line_number :: u32

record stack_entry =
  e_label :: u32
  e_operation :: ngc_cmd
  e_sub :: "nat option"
  e_file :: "vfile option"
  e_file_pos :: nat
  e_line_number :: u32
  e_expr :: "string option"
  e_repeats :: u32
  e_skip :: bool
  e_handled :: bool
  e_brk :: bool

record flow_state =
  stack :: "stack_entry list"
  skip_sub :: bool
  subs :: "ngc_sub list"
  exec_sub :: "nat option"
  next_ref :: nat
  ngc :: ngc_state
  str :: stream_state
  alarms :: "int list"
  skip_blocks :: bool

record flow_env =
  fe_eval :: "string \<Rightarrow> nat \<Rightarrow> ngc_state \<Rightarrow> u8 \<times> nat \<times> real"
  fe_open :: "string \<Rightarrow> vfile option"
  fe_littlefs :: bool
  fe_ro_value :: "ngc_param_id \<Rightarrow> real"
  fe_macro_return :: "(flow_state \<Rightarrow> flow_state) option"

section \<open>Commands\<close>

text \<open>The keywords in the order in which a letter's alternatives are tried.\<close>

definition flow_keywords :: "(string \<times> ngc_cmd) list" where
  "flow_keywords =
     [(''ALARM'', NGCFlowCtrl_RaiseAlarm), (''BREAK'', NGCFlowCtrl_Break),
      (''CONTINUE'', NGCFlowCtrl_Continue), (''CALL'', NGCFlowCtrl_Call), (''DO'', NGCFlowCtrl_Do),
      (''ELSEIF'', NGCFlowCtrl_ElseIf), (''ELSE'', NGCFlowCtrl_Else), (''ENDIF'', NGCFlowCtrl_EndIf),
      (''ENDWHILE'', NGCFlowCtrl_EndWhile), (''ENDREPEAT'', NGCFlowCtrl_EndRepeat),
      (''ENDSUB'', NGCFlowCtrl_EndSub), (''ERROR'', NGCFlowCtrl_RaiseError), (''IF'', NGCFlowCtrl_If),
      (''REPEAT'', NGCFlowCtrl_Repeat), (''RETURN'', NGCFlowCtrl_Return), (''SUB'', NGCFlowCtrl_Sub),
      (''WHILE'', NGCFlowCtrl_While)]"

definition read_command :: "string \<Rightarrow> nat \<Rightarrow> u8 \<times> nat \<times> ngc_cmd" where
  "read_command line pos =
     (case find (\<lambda>(kw, _). take (length kw) (drop pos line) = kw) flow_keywords of
        Some (kw, op) \<Rightarrow> (Status_OK, pos + length kw, op)
      | None \<Rightarrow> (Status_FlowControlSyntaxError, pos + 1, NGCFlowCtrl_NoOp))"

section \<open>Subroutines\<close>

text \<open>The last named subroutine of the chain, with the number of nodes of its label.\<close>

definition get_refcount :: "flow_state \<Rightarrow> nat option \<times> nat" where
  "get_refcount fl =
     (let named = filter (\<lambda>s. NGC_MAX_PARAM_ID < sub_label s) (subs fl);
          o_label = (if named = [] then 0 else sub_label (last named));
          same = filter (\<lambda>s. sub_label s = o_label) (subs fl)
      in (if same = [] then None else Some (sub_ref (last same)), length same))"

definition add_sub :: "u32 \<Rightarrow> u32 \<Rightarrow> vfile \<Rightarrow> flow_state \<Rightarrow> ngc_sub option \<times> flow_state" where
  "add_sub o_label n f fl =
     (if 0 < heap_left (ngc fl) then
        let sub = \<lparr>sub_ref = next_ref fl, sub_label = o_label, sub_file = f,
                   sub_file_pos = file_pos (str fl) f, sub_line_number = n\<rparr>
        in (Some sub, fl\<lparr>subs := subs fl @ [sub], next_ref := next_ref fl + 1,
                         ngc := (ngc fl)\<lparr>heap_left := heap_left (ngc fl) - 1\<rparr>\<rparr>)
      else (None, fl))"

definition clear_subs :: "vfile option \<Rightarrow> flow_state \<Rightarrow> flow_state" where
  "clear_subs f fl = fl\<lparr>subs := filter (\<lambda>s. \<not> (f = None \<or> f = Some (sub_file s))) (subs fl)\<rparr>"

section \<open>The stack\<close>

definition new_entry :: "u32 \<Rightarrow> u32 \<Rightarrow> ngc_cmd \<Rightarrow> flow_state \<Rightarrow> stack_entry" where
  "new_entry o_label n op fl =
     \<lparr>e_label = o_label, e_operation = op, e_sub = exec_sub fl, e_file = hal_file (str fl),
      e_file_pos = 0, e_line_number = n, e_expr = None, e_repeats = 0,
      e_skip = False, e_handled = False, e_brk = False\<rparr>"

text \<open>The context of a call is the address of its stack entry, here the entry's index.\<close>

definition stack_push :: "u32 \<Rightarrow> u32 \<Rightarrow> ngc_cmd \<Rightarrow> flow_state \<Rightarrow> u8 \<times> flow_state" where
  "stack_push o_label n op fl =
     (if length (stack fl) < NGC_STACK_DEPTH then
        let (ok, s) = (if op = NGCFlowCtrl_Call then ngc_call_push (Some (length (stack fl))) (ngc fl)
                       else (True, ngc fl))
        in if ok then (Status_OK, fl\<lparr>ngc := s, stack := new_entry o_label n op fl # stack fl\<rparr>)
           else (Status_FlowControlStackOverflow, fl)
      else (Status_FlowControlStackOverflow, fl))"

definition stack_pull :: "flow_state \<Rightarrow> flow_state" where
  "stack_pull fl =
     (case stack fl of
        [] \<Rightarrow> fl
      | e # es \<Rightarrow>
          fl\<lparr>stack := es,
             ngc := (if e_operation e = NGCFlowCtrl_Call then snd (ngc_call_pop (ngc fl)) else ngc fl)\<rparr>)"

lemma length_stack_pull [simp]: "length (stack (stack_pull fl)) = length (stack fl) - 1"
  by (simp add: stack_pull_def split: list.split)

text \<open>Pulling entries while a condition holds of the top one.\<close>

function pull_while :: "(stack_entry \<Rightarrow> bool) \<Rightarrow> flow_state \<Rightarrow> flow_state" where
  "pull_while p fl = (if stack fl \<noteq> [] \<and> p (hd (stack fl)) then pull_while p (stack_pull fl) else fl)"
  by auto
termination
  by (relation "measure (\<lambda>(p, fl). length (stack fl))") simp_all

declare pull_while.simps [simp del]

definition upd_top :: "(stack_entry \<Rightarrow> stack_entry) \<Rightarrow> flow_state \<Rightarrow> flow_state" where
  "upd_top f fl = (case stack fl of [] \<Rightarrow> fl | e # es \<Rightarrow> fl\<lparr>stack := f e # es\<rparr>)"

text \<open>Back to the file, position and line of an entry.\<close>

definition reposition :: "vfile option \<Rightarrow> nat \<Rightarrow> u32 \<Rightarrow> flow_state \<Rightarrow> flow_state" where
  "reposition f pos n fl =
     (case f of Some f \<Rightarrow> fl\<lparr>str := stream_reposition f pos n (str fl)\<rparr> | None \<Rightarrow> fl)"

definition reposition_top :: "flow_state \<Rightarrow> flow_state" where
  "reposition_top fl =
     (let e = hd (stack fl) in reposition (e_file e) (e_file_pos e) (e_line_number e) fl)"

definition redirect_close :: "vfile option \<Rightarrow> flow_state \<Rightarrow> flow_state" where
  "redirect_close f fl = (case f of Some f \<Rightarrow> fl\<lparr>str := stream_redirect_close f (str fl)\<rparr> | None \<Rightarrow> fl)"

definition stack_unwind_sub :: "u32 \<Rightarrow> flow_state \<Rightarrow> flow_state" where
  "stack_unwind_sub o_label fl =
     (let fl = pull_while (\<lambda>e. e_label e \<noteq> o_label) fl;
          fl = (case stack fl of
                  [] \<Rightarrow> fl
                | e # _ \<Rightarrow>
                    stack_pull
                      (if NGC_MAX_PARAM_ID < o_label then
                         let (ref, count) = get_refcount fl;
                             fl = (if e_sub e = ref \<and> count = 1
                                   then fl\<lparr>ngc := ngc_string_param_delete o_label (ngc fl)\<rparr> else fl)
                         in redirect_close (e_file e) (clear_subs (e_file e) fl)
                       else reposition_top fl))
      in fl\<lparr>exec_sub := (case stack fl of [] \<Rightarrow> None | e # _ \<Rightarrow> e_sub e)\<rparr>)"

definition ngc_flowctrl_unwind_stack :: "vfile option \<Rightarrow> flow_state \<Rightarrow> flow_state" where
  "ngc_flowctrl_unwind_stack f fl = pull_while (\<lambda>e. e_file e = f) (clear_subs f fl)"

definition ngc_flowctrl_init :: "flow_state \<Rightarrow> flow_state" where
  "ngc_flowctrl_init fl = pull_while (\<lambda>_. True) (clear_subs None fl)"

section \<open>The operations\<close>

text \<open>
  An operation takes the label, the line number, the line and the position after the keyword; its
  result is a status, the new position and the new state.
\<close>

type_synonym flow_result = "(u8 \<times> nat \<times> flow_state) option"

definition skipping :: "flow_state \<Rightarrow> bool" where
  "skipping fl \<longleftrightarrow> skip_sub fl \<or> (case stack fl of [] \<Rightarrow> False | e # _ \<Rightarrow> e_skip e)"

definition last_op :: "flow_state \<Rightarrow> ngc_cmd" where
  "last_op fl =
     (case stack fl of e # _ \<Rightarrow> e_operation e
      | [] \<Rightarrow> if skip_sub fl then NGCFlowCtrl_Sub else NGCFlowCtrl_NoOp)"

definition executing :: "flow_state \<Rightarrow> bool" where
  "executing fl \<longleftrightarrow> hal_file (str fl) \<noteq> None"

definition top_label :: "flow_state \<Rightarrow> u32" where
  "top_label fl = e_label (hd (stack fl))"

definition op_if :: "flow_env \<Rightarrow> u32 \<Rightarrow> u32 \<Rightarrow> string \<Rightarrow> nat \<Rightarrow> flow_state \<Rightarrow> flow_result" where
  "op_if env o_label n line pos fl =
     (if skipping fl then Some (Status_OK, pos, fl)
      else
        let (status, pos, value) = fe_eval env line pos (ngc fl)
        in if status \<noteq> Status_OK then Some (status, pos, fl)
           else
             let (status, fl) = stack_push o_label n NGCFlowCtrl_If fl
             in if status = Status_OK
                then Some (status, pos, upd_top (\<lambda>e. e\<lparr>e_skip := value = 0, e_handled := value \<noteq> 0\<rparr>) fl)
                else Some (status, pos, fl))"

definition op_elseif :: "flow_env \<Rightarrow> u32 \<Rightarrow> string \<Rightarrow> nat \<Rightarrow> flow_state \<Rightarrow> flow_result" where
  "op_elseif env o_label line pos fl =
     (if last_op fl \<in> {NGCFlowCtrl_If, NGCFlowCtrl_ElseIf} then
        (if o_label = top_label fl then
           let handled = e_handled (hd (stack fl)); fl = upd_top (\<lambda>e. e\<lparr>e_skip := handled\<rparr>) fl
           in if \<not> handled then
                let (status, pos, value) = fe_eval env line pos (ngc fl)
                in Some (status, pos,
                     if status \<noteq> Status_OK then fl
                     else upd_top (\<lambda>e. if value = 0 then e\<lparr>e_skip := True\<rparr>
                        else e\<lparr>e_skip := False, e_operation := NGCFlowCtrl_ElseIf, e_handled := True\<rparr>) fl)
              else Some (Status_OK, pos, fl)
         else Some (Status_OK, pos, fl))
      else Some (if skipping fl then Status_OK else Status_FlowControlSyntaxError, pos, fl))"

definition op_else :: "u32 \<Rightarrow> nat \<Rightarrow> flow_state \<Rightarrow> flow_result" where
  "op_else o_label pos fl =
     (if last_op fl \<in> {NGCFlowCtrl_If, NGCFlowCtrl_ElseIf} then
        Some (Status_OK, pos,
          if o_label = top_label fl
          then upd_top (\<lambda>e. if e_handled e then e\<lparr>e_skip := True\<rparr>
                            else e\<lparr>e_skip := False, e_operation := NGCFlowCtrl_Else\<rparr>) fl
          else fl)
      else Some (if skipping fl then Status_OK else Status_FlowControlSyntaxError, pos, fl))"

definition op_endif :: "u32 \<Rightarrow> nat \<Rightarrow> flow_state \<Rightarrow> flow_result" where
  "op_endif o_label pos fl =
     (if last_op fl \<in> {NGCFlowCtrl_If, NGCFlowCtrl_ElseIf, NGCFlowCtrl_Else} then
        Some (Status_OK, pos, if o_label = top_label fl then stack_pull fl else fl)
      else Some (if skipping fl then Status_OK else Status_FlowControlSyntaxError, pos, fl))"

definition tell :: "flow_state \<Rightarrow> nat" where
  "tell fl = (case hal_file (str fl) of Some f \<Rightarrow> file_pos (str fl) f | None \<Rightarrow> 0)"

definition op_do :: "u32 \<Rightarrow> u32 \<Rightarrow> nat \<Rightarrow> flow_state \<Rightarrow> flow_result" where
  "op_do o_label n pos fl =
     (if \<not> executing fl then Some (Status_FlowControlNotExecutingMacro, pos, fl)
      else if skipping fl then Some (Status_OK, pos, fl)
      else
        let (status, fl) = stack_push o_label n NGCFlowCtrl_Do fl
        in Some (status, pos, if status = Status_OK
             then upd_top (\<lambda>e. e\<lparr>e_file_pos := tell fl, e_skip := False\<rparr>) fl else fl))"

definition set_loop :: "flow_state \<Rightarrow> stack_entry \<Rightarrow> stack_entry" where
  "set_loop fl e = e\<lparr>e_file := hal_file (str fl), e_file_pos := tell fl\<rparr>"

definition store_expr :: "string \<Rightarrow> nat \<Rightarrow> flow_state \<Rightarrow> flow_result" where
  "store_expr expr pos fl =
     (if 0 < heap_left (ngc fl)
      then Some (Status_OK, pos,
        upd_top (\<lambda>e. set_loop fl (e\<lparr>e_expr := Some expr\<rparr>))
          (fl\<lparr>ngc := (ngc fl)\<lparr>heap_left := heap_left (ngc fl) - 1\<rparr>\<rparr>))
      else Some (Status_FlowControlOutOfMemory, pos, fl))"

definition op_while :: "flow_env \<Rightarrow> u32 \<Rightarrow> u32 \<Rightarrow> string \<Rightarrow> nat \<Rightarrow> flow_state \<Rightarrow> flow_result" where
  "op_while env o_label n line pos fl =
     (if \<not> executing fl then Some (Status_FlowControlNotExecutingMacro, pos, fl)
      else
        let expr = drop pos line; is_do = (last_op fl = NGCFlowCtrl_Do \<and> o_label = top_label fl)
        in if stack fl \<noteq> [] \<and> e_brk (hd (stack fl))
           then Some (Status_OK, pos, if is_do then stack_pull fl else fl)
           else if skipping fl then Some (Status_OK, pos, fl)
           else
             let (status, pos, value) = fe_eval env line pos (ngc fl)
             in if status \<noteq> Status_OK then Some (status, pos, fl)
                else if is_do
                then Some (Status_OK, pos, if value \<noteq> 0 then reposition_top fl else stack_pull fl)
                else
                  let (status, fl) = stack_push o_label n NGCFlowCtrl_While fl
                  in if status \<noteq> Status_OK then Some (status, pos, fl)
                     else
                       let fl = upd_top (\<lambda>e. e\<lparr>e_skip := value = 0\<rparr>) fl
                       in if value = 0 then Some (Status_OK, pos, fl) else store_expr expr pos fl)"

text \<open>
  The condition of the while loop on top of the stack, evaluated once more from its stored text
  (a null text is the value that is never read): back to the start, or marked to be skipped.
\<close>

definition again :: "flow_env \<Rightarrow> flow_state \<Rightarrow> (u8 \<times> flow_state) option" where
  "again env fl =
     (if e_skip (hd (stack fl)) then Some (Status_OK, fl)
      else
        case e_expr (hd (stack fl)) of
          None \<Rightarrow> None
        | Some expr \<Rightarrow>
            let (status, _, value) = fe_eval env expr 0 (ngc fl)
            in if status \<noteq> Status_OK then Some (status, fl)
               else if value = 0 then Some (status, upd_top (\<lambda>e. e\<lparr>e_skip := True\<rparr>) fl)
               else Some (status, reposition_top (upd_top (\<lambda>e. e\<lparr>e_skip := False\<rparr>) fl)))"

definition pull_skipped :: "flow_state \<Rightarrow> flow_state" where
  "pull_skipped fl = (if e_skip (hd (stack fl)) then stack_pull fl else fl)"

definition op_endwhile :: "flow_env \<Rightarrow> u32 \<Rightarrow> nat \<Rightarrow> flow_state \<Rightarrow> flow_result" where
  "op_endwhile env o_label pos fl =
     (if \<not> executing fl then Some (Status_FlowControlNotExecutingMacro, pos, fl)
      else if last_op fl = NGCFlowCtrl_While then
        (if o_label = top_label fl then
           map_option (\<lambda>(status, fl). (status, pos, pull_skipped fl))
             (if skipping fl then Some (Status_OK, fl) else again env fl)
         else Some (Status_OK, pos, fl))
      else Some (if skipping fl then Status_OK else Status_FlowControlSyntaxError, pos, fl))"

text \<open>\<open>nearbyintf\<close>: to the nearest integer, halves to even.\<close>

definition nearbyint :: "real \<Rightarrow> int" where
  "nearbyint r =
     (let n = \<lfloor>r\<rfloor>; d = r - of_int n
      in if d < 1 / 2 then n else if 1 / 2 < d then n + 1 else if even n then n else n + 1)"

definition op_repeat :: "flow_env \<Rightarrow> u32 \<Rightarrow> u32 \<Rightarrow> string \<Rightarrow> nat \<Rightarrow> flow_state \<Rightarrow> flow_result" where
  "op_repeat env o_label n line pos fl =
     (if \<not> executing fl then Some (Status_FlowControlNotExecutingMacro, pos, fl)
      else if skipping fl then Some (Status_OK, pos, fl)
      else
        let (status, pos, value) = fe_eval env line pos (ngc fl)
        in if status \<noteq> Status_OK then Some (status, pos, fl)
           else
             let (status, fl) = stack_push o_label n NGCFlowCtrl_Repeat fl; value = nearbyint value
             in Some (status, pos,
                  if status \<noteq> Status_OK then fl
                  else if value \<le> 0 then upd_top (\<lambda>e. e\<lparr>e_skip := True\<rparr>) fl
                  else upd_top (\<lambda>e. (set_loop fl e)\<lparr>e_skip := False, e_repeats := word_of_int value\<rparr>) fl))"

text \<open>One repetition less; another one is due when the count was positive and stays so.\<close>

definition count_down :: "flow_state \<Rightarrow> bool \<times> flow_state" where
  "count_down fl =
     (let r = e_repeats (hd (stack fl))
      in if r = 0 then (False, fl)
         else (r - 1 \<noteq> 0, upd_top (\<lambda>e. e\<lparr>e_repeats := r - 1\<rparr>) fl))"

definition op_endrepeat :: "u32 \<Rightarrow> nat \<Rightarrow> flow_state \<Rightarrow> flow_result" where
  "op_endrepeat o_label pos fl =
     (if \<not> executing fl then Some (Status_FlowControlNotExecutingMacro, pos, fl)
      else if last_op fl = NGCFlowCtrl_Repeat then
        (if o_label = top_label fl then
           let (more, fl') = (if skipping fl then (False, fl) else count_down fl)
           in Some (Status_OK, pos, if more then reposition_top fl' else stack_pull fl')
         else Some (Status_OK, pos, fl))
      else Some (if skipping fl then Status_OK else Status_FlowControlSyntaxError, pos, fl))"

text \<open>
  The blocks between the top and the one of a label are dropped; with no such block the search
  reads the entry below the first.
\<close>

definition unwind_to :: "u32 \<Rightarrow> flow_state \<Rightarrow> flow_state option" where
  "unwind_to o_label fl =
     (let fl = pull_while (\<lambda>e. o_label \<noteq> e_label e) fl in if stack fl = [] then None else Some fl)"

definition op_break :: "u32 \<Rightarrow> nat \<Rightarrow> flow_state \<Rightarrow> flow_result" where
  "op_break o_label pos fl =
     (if \<not> executing fl then Some (Status_FlowControlNotExecutingMacro, pos, fl)
      else if skipping fl then Some (Status_OK, pos, fl)
      else map_option (\<lambda>fl.
        if last_op fl \<in> {NGCFlowCtrl_Do, NGCFlowCtrl_While, NGCFlowCtrl_Repeat}
        then (Status_OK, pos,
          upd_top (\<lambda>e. e\<lparr>e_repeats := 0, e_brk := True, e_skip := True, e_handled := True\<rparr>) fl)
        else (Status_FlowControlSyntaxError, pos, fl)) (unwind_to o_label fl))"

definition op_continue :: "flow_env \<Rightarrow> u32 \<Rightarrow> nat \<Rightarrow> flow_state \<Rightarrow> flow_result" where
  "op_continue env o_label pos fl =
     (if \<not> executing fl then Some (Status_FlowControlNotExecutingMacro, pos, fl)
      else if skipping fl then Some (Status_OK, pos, fl)
      else Option.bind (unwind_to o_label fl) (\<lambda>fl.
        case last_op fl of
          NGCFlowCtrl_Repeat \<Rightarrow>
            let (more, fl) = count_down fl
            in Some (Status_OK, pos,
                 if more then reposition_top fl else upd_top (\<lambda>e. e\<lparr>e_skip := True\<rparr>) fl)
        | NGCFlowCtrl_Do \<Rightarrow> Some (Status_OK, pos, reposition_top fl)
        | NGCFlowCtrl_While \<Rightarrow>
            map_option (\<lambda>(status, fl). (status, pos, pull_skipped fl)) (again env fl)
        | _ \<Rightarrow> Some (Status_FlowControlSyntaxError, pos, fl)))"

definition op_alarm :: "flow_env \<Rightarrow> string \<Rightarrow> nat \<Rightarrow> flow_state \<Rightarrow> flow_result" where
  "op_alarm env line pos fl =
     (if skipping fl then Some (Status_OK, pos, fl)
      else
        let (status, pos, value) = fe_eval env line pos (ngc fl)
        in Some (Status_OK, pos, if status = Status_OK then fl\<lparr>alarms := alarms fl @ [float_trunc value]\<rparr> else fl))"

definition op_error :: "flow_env \<Rightarrow> string \<Rightarrow> nat \<Rightarrow> flow_state \<Rightarrow> flow_result" where
  "op_error env line pos fl =
     (if skipping fl then Some (Status_OK, pos, fl)
      else
        let (status, pos, value) = fe_eval env line pos (ngc fl)
        in Some (if status = Status_OK then word_of_int (float_trunc value) else Status_OK, pos, fl))"

text \<open>
  The start of a definition: a named subroutine must be the one whose file is being read, a
  numbered one is recorded and its body skipped. (The search for a name stops at the last node.)
\<close>

definition op_sub :: "u32 \<Rightarrow> u32 \<Rightarrow> nat \<Rightarrow> flow_state \<Rightarrow> flow_result" where
  "op_sub o_label n pos fl =
     (case hal_file (str fl) of
        None \<Rightarrow> Some (Status_FlowControlNotExecutingMacro, pos, fl)
      | Some f \<Rightarrow>
          if NGC_MAX_PARAM_ID < o_label then
            let hit = (case find (\<lambda>s. sub_label s = o_label \<and> sub_file s = f) (subs fl) of
                         Some _ \<Rightarrow> True
                       | None \<Rightarrow> subs fl \<noteq> [] \<and> sub_label (last (subs fl)) = o_label)
            in Some (if hit then Status_OK else Status_FlowControlSyntaxError, pos, fl)
          else
            let (sub, fl) = add_sub o_label n f fl
            in Some (if sub = None then Status_FlowControlOutOfMemory else Status_OK, pos,
                     fl\<lparr>skip_sub := sub \<noteq> None\<rparr>))"

definition named_set :: "string \<Rightarrow> real \<Rightarrow> flow_state \<Rightarrow> flow_state" where
  "named_set name v fl = fl\<lparr>ngc := snd (ngc_named_param_set name v (ngc fl))\<rparr>"

text \<open>The value a subroutine returns, when its last line has one.\<close>

definition set_returned :: "flow_env \<Rightarrow> string \<Rightarrow> nat \<Rightarrow> flow_state \<Rightarrow> nat \<times> flow_state" where
  "set_returned env line pos fl =
     (let (status, pos, value) = fe_eval env line pos (ngc fl)
      in (pos, if status = Status_OK
               then named_set ''_value_returned'' 1 (named_set ''_value'' value fl)
               else named_set ''_value_returned'' 0 fl))"

definition op_endsub :: "flow_env \<Rightarrow> u32 \<Rightarrow> string \<Rightarrow> nat \<Rightarrow> flow_state \<Rightarrow> flow_result" where
  "op_endsub env o_label line pos fl =
     (if \<not> executing fl then Some (Status_FlowControlNotExecutingMacro, pos, fl)
      else
        let (pos, fl) = (if skip_sub fl then (pos, fl)
                         else set_returned env line pos (stack_unwind_sub o_label fl))
        in Some (Status_OK, pos, fl\<lparr>skip_sub := False\<rparr>))"

text \<open>
  The return from the current subroutine or, outside one, from a G65 macro; the latter reads the
  top of the stack, also when there is none.
\<close>

definition op_return :: "flow_env \<Rightarrow> u32 \<Rightarrow> string \<Rightarrow> nat \<Rightarrow> flow_state \<Rightarrow> flow_result" where
  "op_return env o_label line pos fl =
     (if \<not> executing fl then Some (Status_FlowControlNotExecutingMacro, pos, fl)
      else if skipping fl then Some (Status_OK, pos, fl)
      else if exec_sub fl \<noteq> None then
        let (pos, fl) = set_returned env line pos (stack_unwind_sub o_label fl)
        in Some (Status_OK, pos, fl)
      else
        case fe_macro_return env of
          None \<Rightarrow> let (pos, fl) = set_returned env line pos fl in Some (Status_OK, pos, fl)
        | Some macro_return \<Rightarrow>
            case stack fl of
              [] \<Rightarrow> None
            | e # _ \<Rightarrow>
                let (pos, fl) = set_returned env line pos (ngc_flowctrl_unwind_stack (e_file e) fl)
                in Some (Status_OK, pos, macro_return fl))"

section \<open>Calls\<close>

text \<open>Arguments: up to 30 expressions, to the end of the line.\<close>

fun eval_params ::
  "flow_env \<Rightarrow> nat \<Rightarrow> string \<Rightarrow> nat \<Rightarrow> ngc_state \<Rightarrow> real list \<Rightarrow> u8 \<times> nat \<times> real list" where
  "eval_params env 0 line pos s acc = (Status_OK, pos, acc)"
| "eval_params env (Suc k) line pos s acc =
     (if length line \<le> pos then (Status_OK, pos, acc)
      else
        let (status, pos, value) = fe_eval env line pos s
        in if status = Status_OK then eval_params env k line pos s (acc @ [value])
           else (status, pos, acc @ [value]))"

text \<open>
  The parameters that were not given are those of the caller. They are filled in when the next one
  has a number below 30; with 29 arguments the last one is not set at all.
\<close>

definition fill_params :: "flow_env \<Rightarrow> ngc_state \<Rightarrow> real list \<Rightarrow> real list" where
  "fill_params env s args =
     (if length args < 29
      then args @ map (\<lambda>i. snd (ngc_param_get (fe_ro_value env) (of_nat i) s)) [length args + 1..<31]
      else args)"

fun set_params :: "nat \<Rightarrow> real list \<Rightarrow> ngc_state \<Rightarrow> bool \<times> ngc_state" where
  "set_params i [] s = (True, s)"
| "set_params i (v # vs) s =
     (let (ok, s) = (if v = 0 then (True, s) else ngc_param_set (of_nat i) v s);
          (ok', s) = set_params (i + 1) vs s
      in (ok \<and> ok', s))"

text \<open>
  The subroutine a call runs. For a named one its file is opened, first in the internal file
  system when the build has one.
\<close>

definition macro_filename :: "string \<Rightarrow> string \<Rightarrow> string" where
  "macro_filename prefix name = prefix @ name @ ''.macro''"

definition open_macro :: "flow_env \<Rightarrow> string \<Rightarrow> stream_state \<Rightarrow> vfile option \<times> stream_state" where
  "open_macro env name s =
     (let redirect = (\<lambda>fname. stream_redirect_read (fe_open env fname) (Some NamedSubHandler) (Some NamedSubHandler));
          (f, s) = (if fe_littlefs env then redirect (macro_filename ''/littlefs/'' name) s else (None, s))
      in if f = None then redirect (macro_filename ''/'' name) s else (f, s))"

definition called_sub :: "flow_env \<Rightarrow> u32 \<Rightarrow> u32 \<Rightarrow> flow_state \<Rightarrow> ngc_sub option \<times> flow_state" where
  "called_sub env o_label n fl =
     (if NGC_MAX_PARAM_ID < o_label then
        case ngc_string_param_get o_label (ngc fl) of
          None \<Rightarrow> (None, fl)
        | Some name \<Rightarrow>
            let (f, s) = open_macro env name (str fl); fl = fl\<lparr>str := s\<rparr>
            in case f of None \<Rightarrow> (None, fl) | Some f \<Rightarrow> add_sub o_label n f fl
      else (find (\<lambda>s. sub_label s = o_label \<and> Some (sub_file s) = hal_file (str fl)) (subs fl), fl))"

definition enter_sub :: "u32 \<Rightarrow> u32 \<Rightarrow> ngc_sub \<Rightarrow> real list \<Rightarrow> nat \<Rightarrow> flow_state \<Rightarrow> flow_result" where
  "enter_sub o_label n sub params pos fl =
     (let (status, fl) = stack_push o_label n NGCFlowCtrl_Call fl
      in if status \<noteq> Status_OK then Some (status, pos, fl)
         else if length params < 30 then None
         else
           let fl = upd_top (\<lambda>e. e\<lparr>e_sub := Some (sub_ref sub), e_file := hal_file (str fl),
                       e_file_pos := tell fl, e_repeats := 1\<rparr>) (fl\<lparr>exec_sub := Some (sub_ref sub)\<rparr>);
               (ok, s) = set_params 1 params (ngc fl);
               fl = fl\<lparr>ngc := s\<rparr>
           in if ok then
                Some (Status_OK, pos, reposition (Some (sub_file sub)) (sub_file_pos sub) (sub_line_number sub)
                  (named_set ''_value_returned'' 0 (named_set ''_value'' 0 fl)))
              else Some (Status_FlowControlOutOfMemory, pos, fl))"

definition op_call :: "flow_env \<Rightarrow> u32 \<Rightarrow> u32 \<Rightarrow> string \<Rightarrow> nat \<Rightarrow> flow_state \<Rightarrow> flow_result" where
  "op_call env o_label n line pos fl =
     (if \<not> (executing fl \<or> NGC_MAX_PARAM_ID < o_label)
      then Some (Status_FlowControlNotExecutingMacro, pos, fl)
      else if skipping fl then Some (Status_OK, pos, fl)
      else
        let (sub, fl) = called_sub env o_label n fl
        in case sub of
             None \<Rightarrow> Some (Status_FlowControlSyntaxError, pos, fl)
           | Some sub \<Rightarrow>
               let (status, pos, args) = eval_params env 30 line pos (ngc fl) []
               in if status \<noteq> Status_OK then Some (status, pos, fl)
                  else enter_sub o_label n sub (fill_params env (ngc fl) args) pos fl)"

section \<open>One line of flow control\<close>

definition flow_op ::
  "flow_env \<Rightarrow> ngc_cmd \<Rightarrow> u32 \<Rightarrow> u32 \<Rightarrow> string \<Rightarrow> nat \<Rightarrow> flow_state \<Rightarrow> flow_result" where
  "flow_op env op o_label n line pos fl =
     (case op of
        NGCFlowCtrl_If \<Rightarrow> op_if env o_label n line pos fl
      | NGCFlowCtrl_ElseIf \<Rightarrow> op_elseif env o_label line pos fl
      | NGCFlowCtrl_Else \<Rightarrow> op_else o_label pos fl
      | NGCFlowCtrl_EndIf \<Rightarrow> op_endif o_label pos fl
      | NGCFlowCtrl_Do \<Rightarrow> op_do o_label n pos fl
      | NGCFlowCtrl_While \<Rightarrow> op_while env o_label n line pos fl
      | NGCFlowCtrl_EndWhile \<Rightarrow> op_endwhile env o_label pos fl
      | NGCFlowCtrl_Repeat \<Rightarrow> op_repeat env o_label n line pos fl
      | NGCFlowCtrl_EndRepeat \<Rightarrow> op_endrepeat o_label pos fl
      | NGCFlowCtrl_Break \<Rightarrow> op_break o_label pos fl
      | NGCFlowCtrl_Continue \<Rightarrow> op_continue env o_label pos fl
      | NGCFlowCtrl_RaiseAlarm \<Rightarrow> op_alarm env line pos fl
      | NGCFlowCtrl_RaiseError \<Rightarrow> op_error env line pos fl
      | NGCFlowCtrl_Sub \<Rightarrow> op_sub o_label n pos fl
      | NGCFlowCtrl_EndSub \<Rightarrow> op_endsub env o_label line pos fl
      | NGCFlowCtrl_Call \<Rightarrow> op_call env o_label n line pos fl
      | NGCFlowCtrl_Return \<Rightarrow> op_return env o_label line pos fl
      | NGCFlowCtrl_NoOp \<Rightarrow> Some (Status_FlowControlSyntaxError, pos, fl))"

text \<open>An error closes all blocks; otherwise the blocks decide whether the next lines are skipped.\<close>

definition flow_finish :: "u8 \<Rightarrow> flow_state \<Rightarrow> flow_state" where
  "flow_finish status fl =
     (if status \<noteq> Status_OK then (ngc_flowctrl_init fl)\<lparr>skip_blocks := False\<rparr>
      else fl\<lparr>skip_blocks := skipping fl\<rparr>)"

definition ngc_flowctrl :: "flow_env \<Rightarrow> u32 \<Rightarrow> u32 \<Rightarrow> string \<Rightarrow> nat \<Rightarrow> flow_state \<Rightarrow> flow_result" where
  "ngc_flowctrl env o_label n line pos fl =
     (let (status, pos, op) = read_command line pos
      in if status \<noteq> Status_OK then Some (status, pos, fl)
         else map_option (\<lambda>(status, pos, fl). (status, pos, flow_finish status fl))
                (flow_op env op o_label n line pos fl))"

section \<open>Errors and end of file in a named subroutine\<close>

text \<open>
  A status goes to the handler of the innermost redirected file. That of a named subroutine closes
  the file and passes the status on to the next one out, until none is left; then the blocks are
  closed. \<open>k\<close> bounds the nesting.
\<close>

definition named_sub_error :: "(u8 \<Rightarrow> flow_state \<Rightarrow> flow_state) \<Rightarrow> u8 \<Rightarrow> flow_state \<Rightarrow> flow_state" where
  "named_sub_error status_message status fl =
     (if stack fl \<noteq> [] then
        ngc_flowctrl_init
          (case find (\<lambda>s. Some (sub_file s) = hal_file (str fl) \<and> NGC_MAX_PARAM_ID < sub_label s) (subs fl) of
             None \<Rightarrow> fl
           | Some sub \<Rightarrow> status_message status (stack_unwind_sub (sub_label sub) fl))
      else fl)"

fun report_status :: "nat \<Rightarrow> u8 \<Rightarrow> flow_state \<Rightarrow> flow_state" where
  "report_status 0 status fl = fl"
| "report_status (Suc k) status fl =
     (let (act, s) = trap_status_messages status (str fl); fl = fl\<lparr>str := s\<rparr>
      in if act = CallHandler NamedSubHandler then named_sub_error (report_status k) status fl else fl)"

definition onNamedSubError :: "u8 \<Rightarrow> flow_state \<Rightarrow> flow_state" where
  "onNamedSubError status fl = named_sub_error (report_status (length (stack fl))) status fl"

definition onNamedSubEOF :: "vfile \<Rightarrow> u8 \<Rightarrow> flow_state \<Rightarrow> u8 \<times> flow_state" where
  "onNamedSubEOF f status fl =
     (status,
      case stack fl of
        [] \<Rightarrow> fl
      | e # _ \<Rightarrow>
          if e_file e = Some f then ngc_flowctrl_unwind_stack (e_file e) (redirect_close (e_file e) fl) else fl)"

text \<open>A comment that starts with ABORT stops the program; others go to the next handler.\<close>

definition onGcodeComment :: "(string \<Rightarrow> u8) option \<Rightarrow> string \<Rightarrow> u8" where
  "onGcodeComment next_handler comment =
     (if map lcaps (take 6 comment) = ''abort,'' then Status_UserException
      else case next_handler of Some h \<Rightarrow> h comment | None \<Rightarrow> Status_OK)"

end
