(* ===== verification/FlowProps.thy ===== *)
theory FlowProps
  imports FlowCtrl NgcStore
begin

text \<open>
  Properties of the flow control: the invariant of the block stack and where a read outside it can
  happen, the branches of an if, the passes of a repeat, calls and returns, and what an error
  leaves.
\<close>

section \<open>The stack\<close>

lemma stack_pull_stack [simp]: "stack (stack_pull fl) = tl (stack fl)"
  by (simp add: stack_pull_def split: list.split)

lemma stack_pull_while [simp]: "stack (pull_while p fl) = dropWhile p (stack fl)"
proof (induction p fl rule: pull_while.induct)
  case (1 p fl)
  show ?case
  proof (cases "stack fl")
    case Nil
    then show ?thesis by (simp add: pull_while.simps [of p fl])
  next
    case (Cons e es)
    then show ?thesis using 1 by (simp add: pull_while.simps [of p fl])
  qed
qed

lemma pull_while_induct:
  assumes "P fl" "\<And>fl. P fl \<Longrightarrow> P (stack_pull fl)"
  shows "P (pull_while p fl)"
  using assms(1)
proof (induction p fl rule: pull_while.induct)
  case (1 p fl)
  then show ?case using assms(2) by (subst pull_while.simps) simp
qed

lemma upd_top_stack: "stack (upd_top f fl) = (case stack fl of [] \<Rightarrow> [] | e # es \<Rightarrow> f e # es)"
  by (simp add: upd_top_def split: list.split)

lemma upd_top_fields [simp]:
  "ngc (upd_top f fl) = ngc fl" "str (upd_top f fl) = str fl" "subs (upd_top f fl) = subs fl"
  "skip_sub (upd_top f fl) = skip_sub fl" "exec_sub (upd_top f fl) = exec_sub fl"
  by (simp_all add: upd_top_def split: list.split)

lemma reposition_fields [simp]:
  "stack (reposition f p n fl) = stack fl" "ngc (reposition f p n fl) = ngc fl"
  "stack (reposition_top fl) = stack fl" "ngc (reposition_top fl) = ngc fl"
  "skip_sub (reposition f p n fl) = skip_sub fl" "skip_sub (reposition_top fl) = skip_sub fl"
  "stack (redirect_close f fl) = stack fl" "ngc (redirect_close f fl) = ngc fl"
  by (simp_all add: reposition_def reposition_top_def redirect_close_def Let_def split: option.split)

lemma clear_subs_fields [simp]:
  "stack (clear_subs f fl) = stack fl" "ngc (clear_subs f fl) = ngc fl" "str (clear_subs f fl) = str fl"
  "exec_sub (clear_subs f fl) = exec_sub fl"
  by (simp_all add: clear_subs_def)

section \<open>The invariant\<close>

text \<open>
  Only blocks and calls are on the stack; a while loop that runs has the text of its condition.
\<close>

definition entry_ok :: "stack_entry \<Rightarrow> bool" where
  "entry_ok e \<longleftrightarrow>
     e_operation e \<in> {NGCFlowCtrl_If, NGCFlowCtrl_ElseIf, NGCFlowCtrl_Else, NGCFlowCtrl_Do,
       NGCFlowCtrl_While, NGCFlowCtrl_Repeat, NGCFlowCtrl_Call} \<and>
     (e_operation e = NGCFlowCtrl_While \<and> \<not> e_skip e \<longrightarrow> e_expr e \<noteq> None)"

definition calls :: "stack_entry list \<Rightarrow> nat" where
  "calls es = length (filter (\<lambda>e. e_operation e = NGCFlowCtrl_Call) es)"

lemma calls_simps [simp]:
  "calls [] = 0" "calls (e # es) = (if e_operation e = NGCFlowCtrl_Call then Suc (calls es) else calls es)"
  by (simp_all add: calls_def)

text \<open>At most 20 blocks, all of them sound, and a call level for every call among them.\<close>

definition flow_ok :: "flow_state \<Rightarrow> bool" where
  "flow_ok fl \<longleftrightarrow> length (stack fl) \<le> NGC_STACK_DEPTH \<and> list_all entry_ok (stack fl) \<and>
     call_ok (ngc fl) \<and> int (calls (stack fl)) \<le> call_level (ngc fl) + 1"

lemma flow_ok_cong: "stack fl' = stack fl \<Longrightarrow> ngc fl' = ngc fl \<Longrightarrow> flow_ok fl' = flow_ok fl"
  by (simp add: flow_ok_def)

lemma flow_ok_ngc:
  assumes "flow_ok fl" "stack fl' = stack fl" "call_ok (ngc fl')" "call_level (ngc fl') = call_level (ngc fl)"
  shows "flow_ok fl'"
  using assms by (simp add: flow_ok_def)

lemma flow_ok_fields [simp]:
  "flow_ok (fl\<lparr>skip_sub := b\<rparr>) = flow_ok fl" "flow_ok (fl\<lparr>exec_sub := r\<rparr>) = flow_ok fl"
  "flow_ok (fl\<lparr>str := s\<rparr>) = flow_ok fl" "flow_ok (fl\<lparr>alarms := al\<rparr>) = flow_ok fl"
  "flow_ok (fl\<lparr>skip_blocks := b\<rparr>) = flow_ok fl" "flow_ok (clear_subs f fl) = flow_ok fl"
  "flow_ok (reposition vf p n fl) = flow_ok fl" "flow_ok (reposition_top fl) = flow_ok fl"
  "flow_ok (redirect_close vf fl) = flow_ok fl"
  by (simp_all add: flow_ok_def)

lemma call_ok_heap [simp]: "call_ok (s\<lparr>heap_left := h\<rparr>) = call_ok s"
  by (simp add: call_ok_def)

lemma flow_ok_heap: "flow_ok fl \<Longrightarrow> flow_ok (fl\<lparr>ngc := (ngc fl)\<lparr>heap_left := h\<rparr>\<rparr>)"
  by (rule flow_ok_ngc) (simp_all add: flow_ok_def)

lemma flow_ok_string_delete: "flow_ok fl \<Longrightarrow> flow_ok (fl\<lparr>ngc := ngc_string_param_delete k (ngc fl)\<rparr>)"
  by (rule flow_ok_ngc) (simp_all add: flow_ok_def ngc_string_param_delete_def call_ok_def)

lemma call_ok_named_set: "call_ok (snd (ngc_named_param_set n v s)) = call_ok s"
  by (rule call_ok_cong) (simp_all add: named_set_fields)

lemma named_set_fields' [simp]:
  "stack (named_set n v fl) = stack fl" "str (named_set n v fl) = str fl"
  "skip_sub (named_set n v fl) = skip_sub fl" "exec_sub (named_set n v fl) = exec_sub fl"
  by (simp_all add: named_set_def)

lemma flow_ok_named_set: "flow_ok fl \<Longrightarrow> flow_ok (named_set n v fl)"
  by (rule flow_ok_ngc) (simp_all add: named_set_def flow_ok_def call_ok_named_set named_set_fields)

lemma flow_ok_pull:
  assumes "flow_ok fl"
  shows "flow_ok (stack_pull fl)"
proof (cases "stack fl")
  case Nil
  with assms show ?thesis by (simp add: stack_pull_def)
next
  case (Cons e es)
  show ?thesis
  proof (cases "e_operation e = NGCFlowCtrl_Call")
    case True
    then have "0 \<le> call_level (ngc fl)" using assms Cons by (simp add: flow_ok_def)
    with assms Cons True show ?thesis
      by (simp add: flow_ok_def stack_pull_def call_ok_pop pop_fields)
  next
    case False
    with assms Cons show ?thesis by (simp add: flow_ok_def stack_pull_def)
  qed
qed

lemma flow_ok_pull_while: "flow_ok fl \<Longrightarrow> flow_ok (pull_while p fl)"
  by (rule pull_while_induct) (simp_all add: flow_ok_pull)

lemma flow_ok_init: "flow_ok fl \<Longrightarrow> flow_ok (ngc_flowctrl_init fl)"
  by (simp add: ngc_flowctrl_init_def flow_ok_pull_while)

lemma flow_ok_unwind_stack: "flow_ok fl \<Longrightarrow> flow_ok (ngc_flowctrl_unwind_stack f fl)"
  by (simp add: ngc_flowctrl_unwind_stack_def flow_ok_pull_while)

lemma flow_ok_unwind_sub: "flow_ok fl \<Longrightarrow> flow_ok (stack_unwind_sub l fl)"
  using flow_ok_pull_while [of fl "\<lambda>e. e_label e \<noteq> l"]
  by (auto simp: stack_unwind_sub_def Let_def case_prod_beta flow_ok_pull flow_ok_string_delete split: list.split)

lemma flow_ok_push:
  assumes "flow_ok fl" "stack_push l n op fl = (st, fl')"
    and "op \<in> {NGCFlowCtrl_If, NGCFlowCtrl_Do, NGCFlowCtrl_Repeat, NGCFlowCtrl_Call}"
  shows "flow_ok fl'"
proof -
  have e: "entry_ok (new_entry l n op fl)" using assms(3) by (auto simp: entry_ok_def new_entry_def)
  have o: "e_operation (new_entry l n op fl) = op" by (simp add: new_entry_def)
  show ?thesis
  proof (cases "op = NGCFlowCtrl_Call \<and> call_level (ngc fl) < int NGC_MAX_CALL_LEVEL - 1")
    case True
    then obtain s where "ngc_call_push (Some (length (stack fl))) (ngc fl) = (True, s)" "call_ok s"
      "call_level s = call_level (ngc fl) + 1"
      using push_pushes [of "ngc fl" "Some (length (stack fl))"] assms(1) by (auto simp: flow_ok_def)
    with True assms e o show ?thesis by (auto simp: stack_push_def flow_ok_def split: if_splits)
  next
    case False
    then have "op = NGCFlowCtrl_Call \<Longrightarrow> ngc_call_push (Some (length (stack fl))) (ngc fl) = (False, ngc fl)"
      by (simp add: push_full)
    with assms e o show ?thesis by (auto simp: stack_push_def flow_ok_def split: if_splits)
  qed
qed

lemma push_stack:
  assumes "stack_push l n op fl = (Status_OK, fl')"
  shows "stack fl' = new_entry l n op fl # stack fl" "str fl' = str fl" "skip_sub fl' = skip_sub fl"
    "exec_sub fl' = exec_sub fl" "subs fl' = subs fl" "length (stack fl) < NGC_STACK_DEPTH"
    "op \<noteq> NGCFlowCtrl_Call \<Longrightarrow> ngc fl' = ngc fl"
  using assms by (auto simp: stack_push_def Let_def case_prod_beta split: if_splits)

lemma push_status:
  "fst (stack_push l n op fl) = Status_OK \<or> fst (stack_push l n op fl) = Status_FlowControlStackOverflow"
  "fst (stack_push l n op fl) \<noteq> Status_OK \<Longrightarrow> snd (stack_push l n op fl) = fl"
  by (auto simp: stack_push_def Let_def case_prod_beta)

lemma flow_ok_upd_top:
  assumes "flow_ok fl" "\<And>e es. stack fl = e # es \<Longrightarrow> entry_ok (f e) \<and>
      (e_operation (f e) = NGCFlowCtrl_Call \<longleftrightarrow> e_operation e = NGCFlowCtrl_Call)"
  shows "flow_ok (upd_top f fl)"
  using assms by (cases "stack fl") (auto simp: flow_ok_def upd_top_def)

lemma entry_ok_top: "flow_ok fl \<Longrightarrow> stack fl = e # es \<Longrightarrow> entry_ok e"
  by (simp add: flow_ok_def)

subsection \<open>Every operation keeps it\<close>

lemma last_op_top: "last_op fl \<notin> {NGCFlowCtrl_NoOp, NGCFlowCtrl_Sub} \<Longrightarrow> \<exists>e es. stack fl = e # es \<and> last_op fl = e_operation e"
  by (auto simp: last_op_def split: list.splits if_splits)

lemma op_if_ok:
  assumes "flow_ok fl" "op_if env l n line pos fl = Some (st, p', fl')"
  shows "flow_ok fl'"
proof -
  obtain st1 fl1 where p: "stack_push l n NGCFlowCtrl_If fl = (st1, fl1)" by fastforce
  have f1: "flow_ok fl1" using flow_ok_push [OF assms(1) p] by simp
  have "flow_ok (upd_top (\<lambda>e. e\<lparr>e_skip := a, e_handled := b\<rparr>) fl1)" if "st1 = Status_OK" for a b
  proof (rule flow_ok_upd_top [OF f1])
    fix e es assume "stack fl1 = e # es"
    with p that push_stack(1) [of l n NGCFlowCtrl_If fl fl1] have "e = new_entry l n NGCFlowCtrl_If fl" by simp
    then show "entry_ok (e\<lparr>e_skip := a, e_handled := b\<rparr>) \<and> (e_operation (e\<lparr>e_skip := a, e_handled := b\<rparr>) =
        NGCFlowCtrl_Call \<longleftrightarrow> e_operation e = NGCFlowCtrl_Call)"
      by (simp add: entry_ok_def new_entry_def)
  qed
  with assms f1 p show ?thesis by (auto simp: op_if_def Let_def case_prod_beta split: if_splits)
qed

text \<open>Changes of the top entry that keep it sound: the operation stays, or moves within an if.\<close>

lemma flow_ok_upd_if:
  assumes "flow_ok fl" "last_op fl \<in> {NGCFlowCtrl_If, NGCFlowCtrl_ElseIf}"
    and "\<And>e. e_operation (f e) \<in> {e_operation e, NGCFlowCtrl_ElseIf, NGCFlowCtrl_Else}"
  shows "flow_ok (upd_top f fl)"
proof (rule flow_ok_upd_top [OF assms(1)])
  fix e es assume s: "stack fl = e # es"
  then have "e_operation e \<in> {NGCFlowCtrl_If, NGCFlowCtrl_ElseIf}" using assms(2) by (auto simp: last_op_def)
  then show "entry_ok (f e) \<and> (e_operation (f e) = NGCFlowCtrl_Call \<longleftrightarrow> e_operation e = NGCFlowCtrl_Call)"
    using assms(3) [of e] by (auto simp: entry_ok_def)
qed

lemma last_op_upd_skip: "last_op (upd_top (\<lambda>e. e\<lparr>e_skip := b\<rparr>) fl) = last_op fl"
  by (simp add: last_op_def upd_top_def split: list.split)

lemma op_elseif_ok:
  assumes "flow_ok fl" "op_elseif env l line pos fl = Some (st, p', fl')"
  shows "flow_ok fl'"
proof (cases "last_op fl \<in> {NGCFlowCtrl_If, NGCFlowCtrl_ElseIf} \<and> l = top_label fl")
  case True
  have f1: "flow_ok (upd_top (\<lambda>e. e\<lparr>e_skip := b\<rparr>) fl)" for b
    by (rule flow_ok_upd_if) (use assms True in auto)
  have "flow_ok (upd_top (\<lambda>e. if v = 0 then e\<lparr>e_skip := True\<rparr>
      else e\<lparr>e_skip := False, e_operation := NGCFlowCtrl_ElseIf, e_handled := True\<rparr>)
      (upd_top (\<lambda>e. e\<lparr>e_skip := b\<rparr>) fl))" for v :: real and b
    by (rule flow_ok_upd_if [OF f1]) (use True in \<open>auto simp: last_op_upd_skip\<close>)
  with f1 True assms(2) show ?thesis
    by (auto simp: op_elseif_def Let_def case_prod_beta split: if_splits)
next
  case False
  with assms show ?thesis by (auto simp: op_elseif_def split: if_splits)
qed

lemma op_else_ok:
  assumes "flow_ok fl" "op_else l pos fl = Some (st, p', fl')"
  shows "flow_ok fl'"
proof -
  have "flow_ok (upd_top (\<lambda>e. if e_handled e then e\<lparr>e_skip := True\<rparr>
      else e\<lparr>e_skip := False, e_operation := NGCFlowCtrl_Else\<rparr>) fl)"
    if "last_op fl \<in> {NGCFlowCtrl_If, NGCFlowCtrl_ElseIf}"
    by (rule flow_ok_upd_if [OF assms(1) that]) auto
  with assms show ?thesis by (auto simp: op_else_def split: if_splits)
qed

lemma op_endif_ok: "flow_ok fl \<Longrightarrow> op_endif l pos fl = Some (st, p', fl') \<Longrightarrow> flow_ok fl'"
  by (auto simp: op_endif_def flow_ok_pull split: if_splits)

text \<open>The entry just pushed is changed without touching its operation.\<close>

lemma flow_ok_upd_pushed:
  assumes "flow_ok fl" "stack_push l n op fl = (Status_OK, fl1)"
    and "op \<in> {NGCFlowCtrl_If, NGCFlowCtrl_Do, NGCFlowCtrl_Repeat, NGCFlowCtrl_Call}"
    and "\<And>e. e_operation (f e) = e_operation e"
  shows "flow_ok (upd_top f fl1)"
proof (rule flow_ok_upd_top [OF flow_ok_push [OF assms(1,2,3)]])
  fix e es assume "stack fl1 = e # es"
  then have "e_operation e = op" using push_stack(1) [OF assms(2)] by (auto simp: new_entry_def)
  then show "entry_ok (f e) \<and> (e_operation (f e) = NGCFlowCtrl_Call \<longleftrightarrow> e_operation e = NGCFlowCtrl_Call)"
    using assms(3,4) by (auto simp: entry_ok_def)
qed

lemma op_do_ok:
  assumes "flow_ok fl" "op_do l n pos fl = Some (st, p', fl')"
  shows "flow_ok fl'"
proof -
  obtain st1 fl1 where p: "stack_push l n NGCFlowCtrl_Do fl = (st1, fl1)" by fastforce
  have "st1 = Status_OK \<Longrightarrow> flow_ok (upd_top (\<lambda>e. e\<lparr>e_file_pos := k, e_skip := False\<rparr>) fl1)" for k
    using p by (intro flow_ok_upd_pushed [OF assms(1)]) auto
  with assms p flow_ok_push [OF assms(1) p] show ?thesis
    by (auto simp: op_do_def split: if_splits)
qed

lemma op_repeat_ok:
  assumes "flow_ok fl" "op_repeat env l n line pos fl = Some (st, p', fl')"
  shows "flow_ok fl'"
proof -
  obtain st1 fl1 where p: "stack_push l n NGCFlowCtrl_Repeat fl = (st1, fl1)" by fastforce
  have "st1 = Status_OK \<Longrightarrow> flow_ok (upd_top (\<lambda>e. e\<lparr>e_skip := True\<rparr>) fl1)"
    "st1 = Status_OK \<Longrightarrow> flow_ok (upd_top (\<lambda>e. (set_loop fl1 e)\<lparr>e_skip := False, e_repeats := k\<rparr>) fl1)" for k
    using p by (auto intro!: flow_ok_upd_pushed [OF assms(1)] simp: set_loop_def)
  with assms p flow_ok_push [OF assms(1) p] show ?thesis
    by (auto simp: op_repeat_def Let_def case_prod_beta split: if_splits)
qed

lemma flow_ok_count_down: "flow_ok fl \<Longrightarrow> flow_ok (snd (count_down fl))"
  by (auto simp: count_down_def Let_def intro!: flow_ok_upd_top dest: entry_ok_top simp: entry_ok_def)

lemma op_endrepeat_ok: "flow_ok fl \<Longrightarrow> op_endrepeat l pos fl = Some (st, p', fl') \<Longrightarrow> flow_ok fl'"
  by (auto simp: op_endrepeat_def Let_def case_prod_beta flow_ok_pull flow_ok_count_down split: if_splits)

lemma flow_ok_skip_top: "flow_ok fl \<Longrightarrow> flow_ok (upd_top (\<lambda>e. e\<lparr>e_skip := True\<rparr>) fl)"
  by (rule flow_ok_upd_top) (auto dest: entry_ok_top simp: entry_ok_def)

text \<open>A while loop on top of the stack can always be evaluated again.\<close>

lemma again_ok:
  assumes "flow_ok fl" "stack fl = e # es" "e_operation e = NGCFlowCtrl_While"
  shows "\<exists>st fl'. again env fl = Some (st, fl') \<and> flow_ok fl' \<and> stack fl' \<noteq> []"
proof (cases "e_skip e")
  case True
  with assms show ?thesis by (simp add: again_def)
next
  case False
  then obtain x where x: "e_expr e = Some x" using entry_ok_top [OF assms(1,2)] assms(3) by (auto simp: entry_ok_def)
  have "upd_top (\<lambda>e. e\<lparr>e_skip := False\<rparr>) fl = fl" using assms(2) False by (simp add: upd_top_def)
  then have "flow_ok (upd_top (\<lambda>e. e\<lparr>e_skip := False\<rparr>) fl)" using assms(1) by simp
  with assms x False flow_ok_skip_top [OF assms(1)] show ?thesis
    by (simp add: again_def case_prod_beta Let_def upd_top_stack)
qed

lemma flow_ok_pull_skipped: "flow_ok fl \<Longrightarrow> flow_ok (pull_skipped fl)"
  by (simp add: pull_skipped_def flow_ok_pull)

lemma op_endwhile_ok:
  assumes "flow_ok fl"
  shows "op_endwhile env l pos fl \<noteq> None"
    and "op_endwhile env l pos fl = Some (st, p', fl') \<Longrightarrow> flow_ok fl'"
proof -
  have "\<exists>st fl'. again env fl = Some (st, fl') \<and> flow_ok fl'" if "last_op fl = NGCFlowCtrl_While"
    using last_op_top [of fl] that again_ok [OF assms] by fastforce
  then show "op_endwhile env l pos fl \<noteq> None"
    "op_endwhile env l pos fl = Some (st, p', fl') \<Longrightarrow> flow_ok fl'"
    using assms by (auto simp: op_endwhile_def flow_ok_pull_skipped split: if_splits)
qed

lemma unwind_to_ok:
  assumes "flow_ok fl" "unwind_to l fl = Some fl'"
  shows "flow_ok fl'" and "\<exists>e es. stack fl' = e # es \<and> e_label e = l" and "skip_sub fl' = skip_sub fl"
proof -
  have s: "skip_sub (stack_pull fl) = skip_sub fl" for fl by (simp add: stack_pull_def split: list.split)
  have "skip_sub (pull_while p fl) = skip_sub fl" for p
    by (rule pull_while_induct [where P = "\<lambda>x. skip_sub x = skip_sub fl"]) (simp_all add: s)
  then show "flow_ok fl'" "skip_sub fl' = skip_sub fl"
    using assms flow_ok_pull_while by (auto simp: unwind_to_def Let_def split: if_splits)
  have f: "fl' = pull_while (\<lambda>e. l \<noteq> e_label e) fl" "stack fl' \<noteq> []"
    using assms(2) by (auto simp: unwind_to_def Let_def split: if_splits)
  then have "\<not> l \<noteq> e_label (hd (stack fl'))" using hd_dropWhile [of "\<lambda>e. l \<noteq> e_label e" "stack fl"] by simp
  with f(2) show "\<exists>e es. stack fl' = e # es \<and> e_label e = l" by (cases "stack fl'") auto
qed

lemma op_break_ok:
  assumes "flow_ok fl" "op_break l pos fl = Some (st, p', fl')"
  shows "flow_ok fl'"
proof -
  have "flow_ok (upd_top (\<lambda>e. e\<lparr>e_repeats := 0, e_brk := True, e_skip := True, e_handled := True\<rparr>) g)"
    if "flow_ok g" for g
    by (rule flow_ok_upd_top [OF that]) (use entry_ok_top [OF that] in \<open>auto simp: entry_ok_def\<close>)
  with assms unwind_to_ok(1) [OF assms(1)] show ?thesis
    by (auto simp: op_break_def split: if_splits)
qed

lemma op_continue_ok:
  assumes "flow_ok fl"
  shows "op_continue env l pos fl = None \<Longrightarrow> unwind_to l fl = None"
    and "op_continue env l pos fl = Some (st, p', fl') \<Longrightarrow> flow_ok fl'"
proof -
  have a: "\<exists>st g'. again env g = Some (st, g') \<and> flow_ok g'" if "unwind_to l fl = Some g" "last_op g = NGCFlowCtrl_While" for g
    using unwind_to_ok [OF assms that(1)] again_ok that(2) by (fastforce simp: last_op_def)
  show "op_continue env l pos fl = None \<Longrightarrow> unwind_to l fl = None"
    using a by (cases "unwind_to l fl")
      (fastforce simp: op_continue_def Let_def case_prod_beta split: if_splits ngc_cmd.splits)+
  show "flow_ok fl'" if "op_continue env l pos fl = Some (st, p', fl')"
  proof (cases "unwind_to l fl")
    case None
    with assms that show ?thesis by (auto simp: op_continue_def split: if_splits)
  next
    case (Some g)
    note g = unwind_to_ok(1) [OF assms Some]
    show ?thesis
      using that a [OF Some] g flow_ok_count_down [OF g] assms
      by (auto simp: op_continue_def Some Let_def case_prod_beta flow_ok_skip_top flow_ok_pull_skipped
          split: if_splits ngc_cmd.splits)
  qed
qed

text \<open>
  A while loop is pushed before the text of its condition is stored. When there is no memory for
  the text the new entry is not sound, but the error drops it with all others.
\<close>

lemma flow_ok_init_pull:
  assumes "flow_ok (stack_pull fl)"
  shows "flow_ok (ngc_flowctrl_init fl)"
proof -
  have "stack_pull (clear_subs None fl) = clear_subs None (stack_pull fl)"
    by (simp add: stack_pull_def clear_subs_def split: list.split)
  then have "flow_ok (stack_pull (clear_subs None fl))" using assms by simp
  then have "flow_ok (pull_while (\<lambda>_. True) (stack_pull (clear_subs None fl)))" by (rule flow_ok_pull_while)
  moreover have "flow_ok (clear_subs None fl)" if "stack fl = []"
    using assms that by (simp add: stack_pull_def)
  ultimately show ?thesis
    by (simp add: ngc_flowctrl_init_def pull_while.simps [of _ "clear_subs None fl"])
qed

lemma op_while_ok:
  assumes "flow_ok fl" "op_while env l n line pos fl = Some (st, p', fl')"
  shows "st = Status_OK \<Longrightarrow> flow_ok fl'" and "flow_ok fl' \<or> flow_ok (stack_pull fl')"
proof -
  obtain st1 fl1 where p: "stack_push l n NGCFlowCtrl_While fl = (st1, fl1)" by fastforce
  have no: "st1 \<noteq> Status_OK \<Longrightarrow> fl1 = fl" using push_status(2) [of l n NGCFlowCtrl_While fl] p by simp
  have psh: "stack fl1 = new_entry l n NGCFlowCtrl_While fl # stack fl" "ngc fl1 = ngc fl"
    "length (stack fl) < NGC_STACK_DEPTH" if "st1 = Status_OK"
    using push_stack [of l n NGCFlowCtrl_While fl fl1] p that by simp_all
  have z: "flow_ok (upd_top (\<lambda>e. e\<lparr>e_skip := True\<rparr>) fl1)" if "st1 = Status_OK"
    using psh [OF that] assms(1) by (simp add: flow_ok_def upd_top_stack entry_ok_def new_entry_def)
  have s: "(st2 = Status_OK \<longrightarrow> flow_ok fl2) \<and> (flow_ok fl2 \<or> flow_ok (stack_pull fl2))"
    if "st1 = Status_OK" "store_expr x q (upd_top (\<lambda>e. e\<lparr>e_skip := False\<rparr>) fl1) = Some (st2, q', fl2)" for x q st2 q' fl2
  proof (cases "0 < heap_left (ngc fl1)")
    case True
    with that psh [OF that(1)] assms(1) show ?thesis
      by (auto simp: store_expr_def flow_ok_def upd_top_stack entry_ok_def new_entry_def set_loop_def)
  next
    case False
    have "flow_ok (stack_pull (upd_top (\<lambda>e. e\<lparr>e_skip := False\<rparr>) fl1))"
      using psh [OF that(1)] assms(1)
      by (simp add: flow_ok_def stack_pull_def upd_top_def new_entry_def)
    with False that(2) show ?thesis by (auto simp: store_expr_def)
  qed
  from assms(2) consider "flow_ok fl'" | "st1 = Status_OK"
      "\<exists>x q. store_expr x q (upd_top (\<lambda>e. e\<lparr>e_skip := False\<rparr>) fl1) = Some (st, p', fl')"
    using assms(1) p no z
    by (auto simp: op_while_def Let_def case_prod_beta flow_ok_pull split: if_splits)
  then show "st = Status_OK \<Longrightarrow> flow_ok fl'" and "flow_ok fl' \<or> flow_ok (stack_pull fl')"
    using s by (cases; blast)+
qed

lemma op_while_some: "op_while env l n line pos fl \<noteq> None"
  by (auto simp: op_while_def store_expr_def Let_def case_prod_beta)

lemma flow_ok_add_sub: "flow_ok fl \<Longrightarrow> flow_ok (snd (add_sub l n f fl))"
  using flow_ok_heap [of fl "heap_left (ngc fl) - 1"]
  by (simp add: add_sub_def Let_def flow_ok_def)

lemma flow_ok_set_returned: "flow_ok fl \<Longrightarrow> flow_ok (snd (set_returned env line pos fl))"
  by (simp add: set_returned_def Let_def case_prod_beta flow_ok_named_set)

lemma flow_ok_set_returned': "set_returned env line pos fl = (p', fl') \<Longrightarrow> flow_ok fl \<Longrightarrow> flow_ok fl'"
  using flow_ok_set_returned [of fl env line pos] by simp

lemma op_sub_ok: "flow_ok fl \<Longrightarrow> op_sub l n pos fl = Some (st, p', fl') \<Longrightarrow> flow_ok fl'"
  using flow_ok_add_sub [of fl l n]
  by (auto simp: op_sub_def Let_def case_prod_beta split: option.splits if_splits)

lemma op_endsub_ok: "flow_ok fl \<Longrightarrow> op_endsub env l line pos fl = Some (st, p', fl') \<Longrightarrow> flow_ok fl'"
  by (auto simp: op_endsub_def Let_def case_prod_beta flow_ok_set_returned flow_ok_unwind_sub split: if_splits)

lemma op_return_ok:
  assumes "flow_ok fl" "\<And>f x. fe_macro_return env = Some f \<Longrightarrow> flow_ok x \<Longrightarrow> flow_ok (f x)"
    and "op_return env l line pos fl = Some (st, p', fl')"
  shows "flow_ok fl'"
  using assms
  by (auto simp: op_return_def Let_def flow_ok_unwind_sub flow_ok_unwind_stack dest!: flow_ok_set_returned'
      split: if_splits option.splits list.splits prod.splits)

lemma flow_ok_called_sub: "flow_ok fl \<Longrightarrow> flow_ok (snd (called_sub env l n fl))"
  by (auto simp: called_sub_def Let_def case_prod_beta flow_ok_add_sub split: option.split)

lemma set_params_fields:
  "call_ok (snd (set_params i vs s)) = call_ok s \<and> call_level (snd (set_params i vs s)) = call_level s"
  by (induction vs arbitrary: i s)
    (auto simp: Let_def case_prod_beta call_ok_param_set param_set_fields)

lemma flow_ok_set_params: "flow_ok fl \<Longrightarrow> flow_ok (fl\<lparr>ngc := snd (set_params i vs (ngc fl))\<rparr>)"
  by (rule flow_ok_ngc) (simp_all add: set_params_fields, simp add: flow_ok_def)

lemma enter_sub_ok:
  assumes "flow_ok fl" "enter_sub l n sub ps pos fl = Some (st, p', fl')"
  shows "flow_ok fl'"
proof -
  obtain st1 fl1 where p: "stack_push l n NGCFlowCtrl_Call fl = (st1, fl1)" by fastforce
  show ?thesis
  proof (cases "st1 = Status_OK \<and> \<not> length ps < 30")
    case False
    with assms p push_status(2) [of l n NGCFlowCtrl_Call fl] show ?thesis
      by (auto simp: enter_sub_def split: if_splits)
  next
    case True
    define f where "f = (\<lambda>e::stack_entry. e\<lparr>e_sub := Some (sub_ref sub), e_file := hal_file (str fl1), e_file_pos := tell fl1,
        e_repeats := 1\<rparr>)"
    have t: "tell (fl1\<lparr>exec_sub := x\<rparr>) = tell fl1" for x by (simp add: tell_def split: option.split)
    have "flow_ok (upd_top f fl1)"
      using p True by (intro flow_ok_upd_pushed [OF assms(1)]) (auto simp: f_def)
    moreover have "upd_top f (fl1\<lparr>exec_sub := x\<rparr>) = (upd_top f fl1)\<lparr>exec_sub := x\<rparr>" for x
      by (simp add: upd_top_def split: list.split)
    ultimately have "flow_ok (upd_top f (fl1\<lparr>exec_sub := x\<rparr>))" for x by simp
    from flow_ok_set_params [OF this] assms(2) p True show ?thesis
      by (auto simp: enter_sub_def Let_def case_prod_beta f_def t flow_ok_named_set split: if_splits)
  qed
qed

lemma op_call_ok: "flow_ok fl \<Longrightarrow> op_call env l n line pos fl = Some (st, p', fl') \<Longrightarrow> flow_ok fl'"
  using flow_ok_called_sub [of fl env l n]
  by (auto simp: op_call_def Let_def case_prod_beta dest: enter_sub_ok split: if_splits option.splits)

lemma flow_ok_finish:
  assumes "flow_ok fl \<or> status \<noteq> Status_OK \<and> flow_ok (stack_pull fl)"
  shows "flow_ok (flow_finish status fl)"
  using assms by (auto simp: flow_finish_def flow_ok_init flow_ok_init_pull)

lemma flow_op_ok:
  assumes "flow_ok fl" "\<And>f x. fe_macro_return env = Some f \<Longrightarrow> flow_ok x \<Longrightarrow> flow_ok (f x)"
    and "flow_op env op l n line pos fl = Some (st, p', fl')"
  shows "flow_ok fl' \<or> st \<noteq> Status_OK \<and> flow_ok (stack_pull fl')"
proof (cases op)
  case NGCFlowCtrl_While
  with assms(3) op_while_ok [OF assms(1), of env l n line pos st p' fl'] show ?thesis
    by (auto simp: flow_op_def)
next
  case NGCFlowCtrl_RaiseAlarm
  with assms show ?thesis by (auto simp: flow_op_def op_alarm_def Let_def case_prod_beta split: if_splits)
next
  case NGCFlowCtrl_RaiseError
  with assms show ?thesis by (auto simp: flow_op_def op_error_def Let_def case_prod_beta split: if_splits)
next
  case NGCFlowCtrl_Return
  then have "op_return env l line pos fl = Some (st, p', fl')" using assms(3) by (simp add: flow_op_def)
  from op_return_ok [OF assms(1) _ this] assms(2) have "flow_ok fl'" by blast
  then show ?thesis by simp
qed (use assms in \<open>auto simp: flow_op_def dest: op_if_ok op_elseif_ok op_else_ok op_endif_ok op_do_ok op_repeat_ok
      op_endrepeat_ok op_endwhile_ok(2) op_break_ok op_continue_ok(2) op_sub_ok op_endsub_ok op_call_ok\<close>)

section \<open>Properties\<close>

text \<open>
  One line keeps the stack sound, errors included. (A return from a G65 macro is assumed to do so.)
\<close>

lemma flow_line_sound:
  assumes "flow_ok fl" and "\<forall>f x. fe_macro_return env = Some f \<longrightarrow> flow_ok x \<longrightarrow> flow_ok (f x)"
    and "ngc_flowctrl env l n line pos fl = Some (st, p', fl')"
  shows "flow_ok fl'"
proof -
  obtain st0 pos0 op where c: "read_command line pos = (st0, pos0, op)" by (cases "read_command line pos") auto
  show ?thesis
  proof (cases "st0 = Status_OK")
    case True
    then obtain fl1 where f: "flow_op env op l n line pos0 fl = Some (st, p', fl1)" "fl' = flow_finish st fl1"
      using assms(3) c by (auto simp: ngc_flowctrl_def)
    then show ?thesis using flow_op_ok [OF assms(1) _ f(1)] assms(2) by (simp add: flow_ok_finish)
  next
    case False
    with assms(1,3) c show ?thesis by (simp add: ngc_flowctrl_def)
  qed
qed

definition demo_flow :: flow_state where
  "demo_flow = \<lparr>stack = [], skip_sub = False, subs = [], exec_sub = None, next_ref = 1, ngc = ngc_initial 30,
     str = snd (stream_redirect_read (Some 1) None None demo_stream), alarms = [], skip_blocks = False\<rparr>"

text \<open>An environment in which an expression is one character: T is true, everything else false.\<close>

definition demo_flow_env :: flow_env where
  "demo_flow_env = \<lparr>fe_eval = \<lambda>line pos _. (Status_OK, pos + 1, if take 1 (drop pos line) = ''T'' then 1 else 0),
     fe_open = \<lambda>_. None, fe_littlefs = False, fe_ro_value = \<lambda>_. 0, fe_macro_return = None\<rparr>"

lemma demo_flow_ok: "flow_ok demo_flow"
  by (simp add: flow_ok_def demo_flow_def call_ok_def ngc_initial_def NGC_MAX_CALL_LEVEL_def)

text \<open>
  C20. A line of flow control reads outside the stack or an unset variable in three cases only: a
  break or continue whose label no open block has, a return from a G65 macro outside every block,
  and a call with 29 arguments. In particular a running while loop never lacks its condition.
\<close>

theorem flow_defined:
  assumes "flow_ok fl" and "read_command line pos = (Status_OK, pos', op)"
    and "ngc_flowctrl env l n line pos fl = None"
  shows "op \<in> {NGCFlowCtrl_Break, NGCFlowCtrl_Continue} \<and> l \<notin> e_label ` set (stack fl)
    \<or> op = NGCFlowCtrl_Return \<and> stack fl = [] \<and> exec_sub fl = None \<and> fe_macro_return env \<noteq> None
    \<or> op = NGCFlowCtrl_Call \<and>
        length (snd (snd (eval_params env 30 line pos' (ngc (snd (called_sub env l n fl))) []))) = 29"
proof -
  have f: "flow_op env op l n line pos' fl = None" using assms(2,3) by (simp add: ngc_flowctrl_def)
  have u: "l \<notin> e_label ` set (stack fl)" if "unwind_to l fl = None"
    using that by (auto simp: unwind_to_def Let_def split: if_splits)
  show ?thesis
  proof (cases op)
    case NGCFlowCtrl_Break
    with f u show ?thesis by (auto simp: flow_op_def op_break_def split: if_splits)
  next
    case NGCFlowCtrl_Continue
    with f u op_continue_ok(1) [OF assms(1)] show ?thesis by (auto simp: flow_op_def)
  next
    case NGCFlowCtrl_Return
    with f show ?thesis
      by (auto simp: flow_op_def op_return_def Let_def case_prod_beta split: if_splits option.splits list.splits)
  next
    case NGCFlowCtrl_Call
    define s where "s = ngc (snd (called_sub env l n fl))"
    define args where "args = snd (snd (eval_params env 30 line pos' s []))"
    have "length (fill_params env s args) < 30"
      using f NGCFlowCtrl_Call
      by (auto simp: flow_op_def op_call_def enter_sub_def Let_def case_prod_beta s_def args_def
          split: if_splits option.splits)
    then have "length args = 29" by (auto simp: fill_params_def split: if_splits)
    with NGCFlowCtrl_Call show ?thesis by (simp add: args_def s_def)
  next
    case NGCFlowCtrl_While
    with f op_while_some show ?thesis by (auto simp: flow_op_def)
  next
    case NGCFlowCtrl_EndWhile
    with f op_endwhile_ok(1) [OF assms(1)] show ?thesis by (auto simp: flow_op_def)
  qed (use f in \<open>auto simp: flow_op_def op_if_def op_elseif_def op_else_def op_endif_def op_do_def op_repeat_def
      op_endrepeat_def op_alarm_def op_error_def op_sub_def op_endsub_def Let_def case_prod_beta
      split: if_splits option.splits\<close>)
qed

lemma flow_defined_witness:
  "NGCFlowCtrl_Break \<in> {NGCFlowCtrl_Break, NGCFlowCtrl_Continue} \<and> (5::u32) \<notin> e_label ` set (stack demo_flow)"
proof -
  have c: "read_command ''BREAK'' 0 = (Status_OK, 5, NGCFlowCtrl_Break)" by code_simp
  have "executing demo_flow" "\<not> skipping demo_flow" "unwind_to 5 demo_flow = None"
    by (simp_all add: executing_def skipping_def demo_flow_def demo_stream_def stream_redirect_read_def Let_def
        stream_set_type_def unwind_to_def)
  then have "ngc_flowctrl demo_flow_env 5 7 ''BREAK'' 0 demo_flow = None"
    using c by (simp add: ngc_flowctrl_def flow_op_def op_break_def)
  from flow_defined [OF demo_flow_ok c this] show ?thesis by auto
qed



subsection \<open>Branches\<close>

fun run_ops :: "flow_env \<Rightarrow> u32 \<Rightarrow> u32 \<Rightarrow> (ngc_cmd \<times> string \<times> nat) list \<Rightarrow> flow_state \<Rightarrow> (bool list \<times> flow_state) option" where
  "run_ops env l n [] fl = Some ([], fl)"
| "run_ops env l n ((op, line, pos) # ops) fl =
     (case flow_op env op l n line pos fl of
        None \<Rightarrow> None
      | Some (st, _, fl') \<Rightarrow>
          if st \<noteq> Status_OK then None
          else map_option (\<lambda>(bs, fl''). (skip_blocks (flow_finish st fl') # bs, fl''))
                 (run_ops env l n ops (flow_finish st fl')))"

text \<open>Which branches run: the first whose condition holds.\<close>

fun taken :: "bool \<Rightarrow> bool list \<Rightarrow> bool list" where
  "taken h [] = [\<not> h]"
| "taken h (c # cs) = (\<not> h \<and> c) # taken (h \<or> c) cs"

lemma taken_one: "length (filter (\<lambda>b. b) (taken h cs)) = (if h then 0 else 1)"
  by (induction h cs rule: taken.induct) auto

definition holds :: "flow_env \<Rightarrow> ngc_state \<Rightarrow> string \<times> nat \<Rightarrow> bool" where
  "holds env s c \<longleftrightarrow> snd (snd (fe_eval env (fst c) (snd c) s)) \<noteq> 0"

text \<open>In an if: the top entry is of the label, not yet past its else, and \<open>h\<close> tells if a branch ran.\<close>

definition in_if :: "u32 \<Rightarrow> bool \<Rightarrow> stack_entry list \<Rightarrow> ngc_state \<Rightarrow> flow_state \<Rightarrow> bool" where
  "in_if l h es s fl \<longleftrightarrow> (\<exists>e. stack fl = e # es \<and> e_label e = l \<and> e_handled e = h \<and>
     e_operation e \<in> {NGCFlowCtrl_If, NGCFlowCtrl_ElseIf}) \<and> ngc fl = s \<and> \<not> skip_sub fl"

lemma elseif_step:
  assumes "in_if l h es s fl" "fst (fe_eval env line pos s) = Status_OK"
  shows "\<exists>p' fl'. op_elseif env l line pos fl = Some (Status_OK, p', fl')
    \<and> in_if l (h \<or> holds env s (line, pos)) es s (flow_finish Status_OK fl')
    \<and> skip_blocks (flow_finish Status_OK fl') = (\<not> (\<not> h \<and> holds env s (line, pos)))"
proof -
  obtain e where e: "stack fl = e # es" "e_label e = l" "e_handled e = h"
    "e_operation e \<in> {NGCFlowCtrl_If, NGCFlowCtrl_ElseIf}" "ngc fl = s" "\<not> skip_sub fl"
    using assms(1) by (auto simp: in_if_def)
  obtain p' v where v: "fe_eval env line pos s = (Status_OK, p', v)"
    using assms(2) by (cases "fe_eval env line pos s") auto
  have lo: "last_op fl = e_operation e" "top_label fl = l" using e by (simp_all add: last_op_def top_label_def)
  show ?thesis
    using e v lo
    by (cases h; cases "v = 0")
      (auto simp: op_elseif_def Let_def upd_top_def in_if_def holds_def flow_finish_def skipping_def)
qed

lemma elseifs_run:
  assumes "in_if l h es s fl" "\<forall>c\<in>set cs. fst (fe_eval env (fst c) (snd c) s) = Status_OK"
  shows "\<exists>fl'. run_ops env l n (map (\<lambda>c. (NGCFlowCtrl_ElseIf, c)) cs @ [(NGCFlowCtrl_Else, [], 0), (NGCFlowCtrl_EndIf, [], 0)]) fl
      = Some (map Not (taken h (map (holds env s) cs)) @ [skipping fl'], fl') \<and> stack fl' = es \<and> \<not> skip_sub fl'"
  using assms
proof (induction cs arbitrary: h fl)
  case Nil
  then obtain e where e: "stack fl = e # es" "e_label e = l" "e_handled e = h"
    "e_operation e \<in> {NGCFlowCtrl_If, NGCFlowCtrl_ElseIf}" "\<not> skip_sub fl"
    by (auto simp: in_if_def)
  have lo: "last_op fl = e_operation e" "top_label fl = l" using e by (simp_all add: last_op_def top_label_def)
  show ?case
    using e lo
    by (cases h) (auto simp: flow_op_def op_else_def op_endif_def upd_top_def flow_finish_def skipping_def
        last_op_def top_label_def stack_pull_def)
next
  case (Cons c cs)
  obtain line pos where c: "c = (line, pos)" by (cases c)
  obtain p' fl1 where s: "op_elseif env l line pos fl = Some (Status_OK, p', fl1)"
    "in_if l (h \<or> holds env s (line, pos)) es s (flow_finish Status_OK fl1)"
    "skip_blocks (flow_finish Status_OK fl1) = (\<not> (\<not> h \<and> holds env s (line, pos)))"
    using elseif_step [OF Cons.prems(1), of env line pos] Cons.prems(2) c by auto
  from Cons.IH [OF s(2)] Cons.prems(2) obtain fl' where
    "run_ops env l n (map (\<lambda>c. (NGCFlowCtrl_ElseIf, c)) cs @ [(NGCFlowCtrl_Else, [], 0), (NGCFlowCtrl_EndIf, [], 0)])
        (flow_finish Status_OK fl1)
      = Some (map Not (taken (h \<or> holds env s (line, pos)) (map (holds env s) cs)) @ [skipping fl'], fl')"
    "stack fl' = es" "\<not> skip_sub fl'" by auto
  with s c show ?case by (simp add: flow_op_def)
qed

text \<open>
  C21. Of the branches of an if, its else-ifs and its else exactly one runs: the first whose condition
  holds, else the last. The lines of the others are skipped, and after the end of the block the
  stack is as before and lines are executed again.
\<close>

theorem one_branch_runs:
  assumes "\<not> skipping fl" and "length (stack fl) < NGC_STACK_DEPTH"
    and "\<forall>c\<in>set (c0 # cs). fst (fe_eval env (fst c) (snd c) (ngc fl)) = Status_OK"
  defines "runs \<equiv> taken False (map (holds env (ngc fl)) (c0 # cs))"
  shows "\<exists>fl'. run_ops env l n ((NGCFlowCtrl_If, c0) # map (\<lambda>c. (NGCFlowCtrl_ElseIf, c)) cs
        @ [(NGCFlowCtrl_Else, [], 0), (NGCFlowCtrl_EndIf, [], 0)]) fl = Some (map Not runs @ [False], fl')
      \<and> stack fl' = stack fl \<and> length (filter (\<lambda>b. b) runs) = 1"
proof -
  obtain line pos where c: "c0 = (line, pos)" by (cases c0)
  obtain p' v where v: "fe_eval env line pos (ngc fl) = (Status_OK, p', v)"
    using assms(3) c by (cases "fe_eval env line pos (ngc fl)") auto
  obtain fl1 where p: "stack_push l n NGCFlowCtrl_If fl = (Status_OK, fl1)"
    using assms(2) by (simp add: stack_push_def)
  note ps = push_stack [OF p]
  define fl2 where "fl2 = upd_top (\<lambda>e. e\<lparr>e_skip := v = 0, e_handled := v \<noteq> 0\<rparr>) fl1"
  have sk: "\<not> skip_sub fl" using assms(1) by (simp add: skipping_def)
  have i: "op_if env l n line pos fl = Some (Status_OK, p', fl2)"
    using assms(1) v p by (simp add: op_if_def fl2_def)
  have "in_if l (holds env (ngc fl) c0) (stack fl) (ngc fl) (flow_finish Status_OK fl2)"
    using ps sk v c by (simp add: in_if_def flow_finish_def fl2_def upd_top_stack new_entry_def holds_def)
  from elseifs_run [OF this, of cs env n] assms(3) obtain fl' where
    r: "run_ops env l n (map (\<lambda>c. (NGCFlowCtrl_ElseIf, c)) cs @ [(NGCFlowCtrl_Else, [], 0), (NGCFlowCtrl_EndIf, [], 0)])
        (flow_finish Status_OK fl2)
      = Some (map Not (taken (holds env (ngc fl) c0) (map (holds env (ngc fl)) cs)) @ [skipping fl'], fl')"
    "stack fl' = stack fl" "\<not> skip_sub fl'" by auto
  have "skip_blocks (flow_finish Status_OK fl2) = (\<not> holds env (ngc fl) c0)"
    using ps sk v c by (simp add: flow_finish_def fl2_def skipping_def upd_top_stack holds_def)
  moreover have "\<not> skipping fl'" using r(2,3) assms(1) by (auto simp: skipping_def)
  ultimately show ?thesis
    using r i c by (simp add: flow_op_def runs_def taken_one)
qed

lemma one_branch_runs_witness:
  "\<exists>fl'. run_ops demo_flow_env 5 7 ((NGCFlowCtrl_If, (''F'', 0)) # map (\<lambda>c. (NGCFlowCtrl_ElseIf, c)) [(''T'', 0), (''T'', 0)]
      @ [(NGCFlowCtrl_Else, [], 0), (NGCFlowCtrl_EndIf, [], 0)]) demo_flow
    = Some ([True, False, True, True, False], fl')"
proof -
  have "\<exists>fl'. run_ops demo_flow_env 5 7 ((NGCFlowCtrl_If, (''F'', 0)) # map (\<lambda>c. (NGCFlowCtrl_ElseIf, c)) [(''T'', 0), (''T'', 0)]
      @ [(NGCFlowCtrl_Else, [], 0), (NGCFlowCtrl_EndIf, [], 0)]) demo_flow
    = Some (map Not (taken False (map (holds demo_flow_env (ngc demo_flow)) [(''F'', 0), (''T'', 0), (''T'', 0)])) @ [False], fl')
    \<and> stack fl' = stack demo_flow
    \<and> length (filter (\<lambda>b. b) (taken False (map (holds demo_flow_env (ngc demo_flow)) [(''F'', 0), (''T'', 0), (''T'', 0)]))) = 1"
    by (rule one_branch_runs) (simp_all add: skipping_def demo_flow_def demo_flow_env_def NGC_STACK_DEPTH_def)
  then show ?thesis by (auto simp: holds_def demo_flow_env_def)
qed

subsection \<open>Repetitions\<close>

text \<open>
  The body of a repeat, run until its end closes the block: the number of passes, and the positions
  the input is sent back to. \<open>k\<close> bounds the passes.
\<close>

fun loop_passes :: "nat \<Rightarrow> u32 \<Rightarrow> nat \<Rightarrow> flow_state \<Rightarrow> (nat \<times> flow_state) option" where
  "loop_passes 0 l depth fl = None"
| "loop_passes (Suc k) l depth fl =
     (case op_endrepeat l 0 fl of
        None \<Rightarrow> None
      | Some (st, _, fl') \<Rightarrow>
          if st \<noteq> Status_OK then None
          else if length (stack fl') = depth then Some (1, fl')
          else map_option (\<lambda>(m, x). (m + 1, x)) (loop_passes k l depth fl'))"

definition in_repeat :: "u32 \<Rightarrow> nat \<Rightarrow> stack_entry list \<Rightarrow> flow_state \<Rightarrow> bool" where
  "in_repeat l m es fl \<longleftrightarrow> (\<exists>e. stack fl = e # es \<and> e_operation e = NGCFlowCtrl_Repeat \<and> e_label e = l \<and>
     \<not> e_skip e \<and> unat (e_repeats e) = m \<and> e_file e = hal_file (str fl)) \<and> \<not> skip_sub fl \<and> executing fl"

lemma reposition_hal_file: "hal_file (str (reposition_top fl)) = hal_file (str fl)"
  by (simp add: reposition_top_def reposition_def stream_reposition_def vfs_seek_def onLineNumberAssigned_def
      Let_def split: option.split)

lemma endrepeat_step:
  assumes "in_repeat l m es fl" "0 < m"
  shows "\<exists>fl'. op_endrepeat l 0 fl = Some (Status_OK, 0, fl') \<and>
    (if m = 1 then stack fl' = es \<and> str fl' = str fl else in_repeat l (m - 1) es fl')"
proof -
  obtain e where e: "stack fl = e # es" "e_operation e = NGCFlowCtrl_Repeat" "e_label e = l" "\<not> e_skip e"
    "unat (e_repeats e) = m" "e_file e = hal_file (str fl)" "\<not> skip_sub fl" "executing fl"
    using assms(1) by (auto simp: in_repeat_def)
  have nz: "e_repeats e \<noteq> 0" using e(5) assms(2) by auto
  have un: "unat (e_repeats e - 1) = m - 1" using nz e(5) by (simp add: unat_minus_one)
  define fl1 where "fl1 = upd_top (\<lambda>e'. e'\<lparr>e_repeats := e_repeats e - 1\<rparr>) fl"
  have st: "stack fl1 = e\<lparr>e_repeats := e_repeats e - 1\<rparr> # es" using e(1) by (simp add: fl1_def upd_top_def)
  have r: "op_endrepeat l 0 fl = Some (Status_OK, 0, if e_repeats e - 1 \<noteq> 0 then reposition_top fl1 else stack_pull fl1)"
    using e nz by (simp add: op_endrepeat_def last_op_def top_label_def skipping_def count_down_def fl1_def)
  show ?thesis
  proof (cases "m = 1")
    case True
    then have "e_repeats e - 1 = 0" using un by (simp add: unat_eq_zero)
    with r True st show ?thesis by (simp add: fl1_def stack_pull_def)
  next
    case False
    then have "e_repeats e - 1 \<noteq> 0" using un assms(2) by (auto simp: unat_eq_zero)
    moreover have "in_repeat l (m - 1) es (reposition_top fl1)"
      using st e un by (simp add: in_repeat_def executing_def reposition_hal_file) (simp add: fl1_def)
    ultimately show ?thesis using r False by simp
  qed
qed

lemma loop_passes_count:
  assumes "in_repeat l m es fl" "0 < m"
  shows "\<exists>fl'. loop_passes m l (length es) fl = Some (m, fl') \<and> stack fl' = es"
  using assms
proof (induction m arbitrary: fl)
  case (Suc m)
  obtain fl1 where s: "op_endrepeat l 0 fl = Some (Status_OK, 0, fl1)"
    "if Suc m = 1 then stack fl1 = es \<and> str fl1 = str fl else in_repeat l (Suc m - 1) es fl1"
    using endrepeat_step [OF Suc.prems(1)] by blast
  show ?case
  proof (cases "m = 0")
    case True
    with s show ?thesis by simp
  next
    case False
    then have i: "in_repeat l m es fl1" using s(2) by simp
    then have "length (stack fl1) \<noteq> length es" by (auto simp: in_repeat_def)
    with Suc.IH [OF i] False s(1) show ?thesis by auto
  qed
qed simp



subsection \<open>The bound on nested error reports\<close>

text \<open>
  Every handler of a named subroutine takes at least one entry off the stack before it passes the
  status on, so a bound of the stack's size is never reached.
\<close>

lemma stack_unwind_sub_stack: "stack (stack_unwind_sub l fl) = tl (dropWhile (\<lambda>e. e_label e \<noteq> l) (stack fl))"
  by (cases "dropWhile (\<lambda>e. e_label e \<noteq> l) (stack fl)")
    (simp_all add: stack_unwind_sub_def Let_def case_prod_beta del: dropWhile_eq_Nil_conv)

lemma report_status_bound:
  "length (stack fl) < k \<Longrightarrow> report_status (k + m) status fl = report_status k status fl"
proof (induction k arbitrary: fl)
  case (Suc k)
  have len: "length (stack (stack_unwind_sub l x)) < length (stack x)" if "stack x \<noteq> []" for l and x :: flow_state
  proof -
    have "length (dropWhile (\<lambda>e. e_label e \<noteq> l) (stack x)) \<le> length (stack x)" by (rule length_dropWhile_le)
    then have "length (tl (dropWhile (\<lambda>e. e_label e \<noteq> l) (stack x))) \<le> length (stack x) - 1"
      by (simp only: length_tl diff_le_mono)
    moreover have "0 < length (stack x)" using that by simp
    ultimately show ?thesis unfolding stack_unwind_sub_stack by linarith
  qed
  have "named_sub_error (report_status (k + m)) status x = named_sub_error (report_status k) status x"
    if "length (stack x) \<le> k" for x
  proof (cases "stack x = []")
    case False
    then have "length (stack (stack_unwind_sub l x)) < k" for l
      using len [OF False, of l] that by linarith
    then show ?thesis using Suc.IH by (simp add: named_sub_error_def split: option.split)
  qed (simp add: named_sub_error_def)
  then show ?case using Suc.prems by (simp add: case_prod_beta Let_def)
qed simp

end
