(* ===== verification/FlowCalls.thy ===== *)
theory FlowCalls
  imports FlowProps
begin

text \<open>
  Calls of numbered subroutines: what entering one changes and that its end leads back to the line
  after the call, with the caller's blocks, call level and local parameters.
\<close>

lemma pull_while_stop: "stack fl = e # es \<Longrightarrow> \<not> p e \<Longrightarrow> pull_while p fl = fl"
  by (subst pull_while.simps) simp

text \<open>Arguments are stored as local parameters of the called context.\<close>

lemma set_params_context: "call_context (snd (set_params i vs s)) = call_context s"
  by (induction vs arbitrary: i s) (auto simp: Let_def case_prod_beta param_set_fields)

lemma set_params_levels: "call_levels (snd (set_params i vs s)) = call_levels s"
  by (induction vs arbitrary: i s) (auto simp: Let_def case_prod_beta param_set_fields)

lemma set_params_find_other:
  assumes "ctx \<noteq> call_context s" "k \<le> 30"
  shows "find (is_rw_param ctx k) (rw_params (snd (set_params i vs s))) = find (is_rw_param ctx k) (rw_params s)"
  using assms(1)
proof (induction vs arbitrary: i s)
  case (Cons v vs)
  have "ctx \<noteq> param_context_of (of_nat i) s \<or> k \<noteq> of_nat i"
    using Cons.prems assms(2) by (auto simp: param_context_of_def)
  then show ?case
    using Cons by (simp add: Let_def case_prod_beta param_set_find_other param_set_fields)
qed simp

text \<open>The state of a call in progress, seen from the caller's state \<open>fl\<close>.\<close>

definition in_call :: "u32 \<Rightarrow> flow_state \<Rightarrow> flow_state \<Rightarrow> bool" where
  "in_call l fl fl1 \<longleftrightarrow>
     (\<exists>e. stack fl1 = e # stack fl \<and> e_label e = l \<and> e_operation e = NGCFlowCtrl_Call \<and>
          e_file e = hal_file (str fl) \<and> e_file_pos e = tell fl) \<and>
     hal_file (str fl1) = hal_file (str fl) \<and> skip_sub fl1 = skip_sub fl \<and>
     call_ok (ngc fl1) \<and> call_level (ngc fl1) = call_level (ngc fl) + 1 \<and>
     call_context (ngc fl1) = Some (length (stack fl)) \<and>
     (\<forall>i. int i \<le> call_level (ngc fl) \<longrightarrow>
        pc_context (call_levels (ngc fl1) ! i) = pc_context (call_levels (ngc fl) ! i)) \<and>
     (\<forall>ctx k. ctx \<noteq> Some (length (stack fl)) \<and> k \<le> 30 \<longrightarrow>
        find (is_rw_param ctx k) (rw_params (ngc fl1)) = find (is_rw_param ctx k) (rw_params (ngc fl)))"

lemma reposition_hal: "hal_file (str (reposition f p n fl)) = hal_file (str fl)"
  by (simp add: reposition_def stream_reposition_def vfs_seek_def onLineNumberAssigned_def Let_def
      split: option.split)

lemma enter_sub_in_call:
  assumes "flow_ok fl" "enter_sub l n sub ps pos fl = Some (Status_OK, p', fl1)"
  shows "in_call l fl fl1"
proof -
  obtain fl0 where p: "stack_push l n NGCFlowCtrl_Call fl = (Status_OK, fl0)" and len: "\<not> length ps < 30"
    using assms(2) by (auto simp: enter_sub_def case_prod_beta prod_eq_iff split: if_splits)
  note ps = push_stack [OF p]
  obtain s where s: "ngc_call_push (Some (length (stack fl))) (ngc fl) = (True, s)" "ngc fl0 = s"
    using p by (auto simp: stack_push_def case_prod_beta prod_eq_iff split: if_splits)
  have lv: "call_level (ngc fl) < int NGC_MAX_CALL_LEVEL - 1"
    using s(1) push_full by (metis prod.inject)
  have c0: "call_ok s" "call_level s = call_level (ngc fl) + 1" "call_context s = Some (length (stack fl))"
    "rw_params s = rw_params (ngc fl)"
    "\<And>i. int i \<le> call_level (ngc fl) \<Longrightarrow> pc_context (call_levels s ! i) = pc_context (call_levels (ngc fl) ! i)"
    using push_pushes [of "ngc fl" "Some (length (stack fl))"] lv assms(1) s(1) by (auto simp: flow_ok_def)
  define f where "f = (\<lambda>e::stack_entry. e\<lparr>e_sub := Some (sub_ref sub), e_file := hal_file (str fl0),
      e_file_pos := tell fl0, e_repeats := 1\<rparr>)"
  have t: "tell (fl0\<lparr>exec_sub := x\<rparr>) = tell fl0" "tell fl0 = tell fl" for x
    using ps(2) by (simp_all add: tell_def split: option.split)
  define flx where "flx = (upd_top f (fl0\<lparr>exec_sub := Some (sub_ref sub)\<rparr>))\<lparr>ngc := snd (set_params 1 ps s)\<rparr>"
  have r: "fl1 = reposition (Some (sub_file sub)) (sub_file_pos sub) (sub_line_number sub)
      (named_set ''_value_returned'' 0 (named_set ''_value'' 0 flx))"
    using assms(2) p len s(2)
    by (auto simp: enter_sub_def Let_def case_prod_beta flx_def f_def t split: if_splits)
  have st: "stack flx = f (new_entry l n NGCFlowCtrl_Call fl) # stack fl" "str flx = str fl" "skip_sub flx = skip_sub fl"
    using ps by (simp_all add: flx_def upd_top_def)
  have ng: "ngc fl1 = snd (ngc_named_param_set ''_value_returned'' 0
      (snd (ngc_named_param_set ''_value'' 0 (snd (set_params 1 ps s)))))"
    by (simp add: r named_set_def flx_def)
  show ?thesis
    unfolding in_call_def
  proof (intro conjI)
    show "\<exists>e. stack fl1 = e # stack fl \<and> e_label e = l \<and> e_operation e = NGCFlowCtrl_Call \<and>
        e_file e = hal_file (str fl) \<and> e_file_pos e = tell fl"
      using st ps(2) t by (simp add: r f_def new_entry_def)
    show "hal_file (str fl1) = hal_file (str fl)" "skip_sub fl1 = skip_sub fl"
      using st by (simp_all add: r reposition_hal)
    show "call_ok (ngc fl1)" "call_level (ngc fl1) = call_level (ngc fl) + 1"
      "call_context (ngc fl1) = Some (length (stack fl))"
      using c0 set_params_fields [of 1 ps s]
      by (simp_all add: ng call_ok_named_set named_set_fields set_params_context)
    show "\<forall>i. int i \<le> call_level (ngc fl) \<longrightarrow>
        pc_context (call_levels (ngc fl1) ! i) = pc_context (call_levels (ngc fl) ! i)"
      using c0(5) by (simp add: ng named_set_fields set_params_levels)
    show "\<forall>ctx k. ctx \<noteq> Some (length (stack fl)) \<and> k \<le> 30 \<longrightarrow>
        find (is_rw_param ctx k) (rw_params (ngc fl1)) = find (is_rw_param ctx k) (rw_params (ngc fl))"
      using c0(3,4) by (simp add: ng named_set_fields set_params_find_other)
  qed
qed

lemma op_call_in_call:
  assumes "flow_ok fl" "\<not> skipping fl" "l \<le> NGC_MAX_PARAM_ID"
    and "op_call env l n line pos fl = Some (Status_OK, p', fl1)"
  shows "in_call l fl fl1"
proof -
  have nl: "\<not> NGC_MAX_PARAM_ID < l" using assms(3) by (simp add: linorder_not_less)
  then have c: "snd (called_sub env l n fl) = fl" by (simp add: called_sub_def)
  then obtain sub where s: "called_sub env l n fl = (Some sub, fl)"
    using assms(2,4) by (cases "called_sub env l n fl") (auto simp: op_call_def split: if_splits option.splits)
  obtain st q args where e: "eval_params env 30 line pos (ngc fl) [] = (st, q, args)"
    by (cases "eval_params env 30 line pos (ngc fl) []") auto
  have "enter_sub l n sub (fill_params env (ngc fl) args) q fl = Some (Status_OK, p', fl1)"
    using assms(2,4) s e by (auto simp: op_call_def split: if_splits)
  then show ?thesis by (rule enter_sub_in_call [OF assms(1)])
qed

text \<open>The end of the subroutine on a state of the call.\<close>

lemma unwind_in_call:
  assumes "flow_ok fl" "executing fl" "in_call l fl fl1" "l \<le> NGC_MAX_PARAM_ID"
  defines "fl2 \<equiv> stack_unwind_sub l fl1"
  shows "stack fl2 = stack fl" "tell fl2 = tell fl" "hal_file (str fl2) = hal_file (str fl)"
    "same_levels (ngc fl) (ngc fl2)"
    "\<And>ctx k. ctx \<noteq> Some (length (stack fl)) \<Longrightarrow> k \<le> 30 \<Longrightarrow>
      find (is_rw_param ctx k) (rw_params (ngc fl2)) = find (is_rw_param ctx k) (rw_params (ngc fl))"
proof -
  obtain e where e: "stack fl1 = e # stack fl" "e_label e = l" "e_operation e = NGCFlowCtrl_Call"
    "e_file e = hal_file (str fl)" "e_file_pos e = tell fl"
    using assms(3) by (auto simp: in_call_def)
  have nl: "\<not> NGC_MAX_PARAM_ID < l" using assms(4) by (simp add: linorder_not_less)
  obtain f where f: "hal_file (str fl) = Some f" using assms(2) by (auto simp: executing_def)
  have w: "pull_while (\<lambda>e. e_label e \<noteq> l) fl1 = fl1" by (rule pull_while_stop [OF e(1)]) (simp add: e)
  define fl3 where "fl3 = stack_pull (reposition_top fl1)"
  have fl2: "fl2 = fl3\<lparr>exec_sub := (case stack fl3 of [] \<Rightarrow> None | e # _ \<Rightarrow> e_sub e)\<rparr>"
    unfolding fl2_def stack_unwind_sub_def Let_def w using e(1) nl by (simp add: fl3_def)
  have ng: "ngc fl3 = snd (ngc_call_pop (ngc fl1))" using e by (simp add: fl3_def stack_pull_def)
  have ic: "call_ok (ngc fl1)" "call_level (ngc fl1) = call_level (ngc fl) + 1"
    "call_context (ngc fl1) = Some (length (stack fl))" "hal_file (str fl1) = hal_file (str fl)"
    "\<And>i. int i \<le> call_level (ngc fl) \<Longrightarrow> pc_context (call_levels (ngc fl1) ! i) = pc_context (call_levels (ngc fl) ! i)"
    using assms(3) by (auto simp: in_call_def)
  have cok: "call_ok (ngc fl)" using assms(1) by (simp add: flow_ok_def)
  show "stack fl2 = stack fl" using e(1) by (simp add: fl2 fl3_def)
  have str: "str fl3 = stream_reposition f (tell fl) (e_line_number e) (str fl1)"
    using e f by (simp add: fl3_def stack_pull_def reposition_top_def reposition_def)
  show h: "hal_file (str fl2) = hal_file (str fl)"
    using ic(4) by (simp add: fl2 str stream_reposition_def vfs_seek_def onLineNumberAssigned_def Let_def)
  show "tell fl2 = tell fl"
    using h f by (simp add: tell_def fl2 str stream_reposition_def vfs_seek_def onLineNumberAssigned_def Let_def)
  show "same_levels (ngc fl) (ngc fl2)"
    using pop_back [OF cok ic(1,2,5)] by (simp add: fl2 ng)
  show "find (is_rw_param ctx k) (rw_params (ngc fl2)) = find (is_rw_param ctx k) (rw_params (ngc fl))"
    if "ctx \<noteq> Some (length (stack fl))" "k \<le> 30" for ctx k
  proof -
    have "0 \<le> call_level (ngc fl1)" using ic(2) cok by (simp add: call_ok_def)
    then have "rw_params (ngc fl2) = filter (\<lambda>p. rp_context p \<noteq> Some (length (stack fl))) (rw_params (ngc fl1))"
      using ic(3) by (simp add: fl2 ng pop_fields)
    then have "find (is_rw_param ctx k) (rw_params (ngc fl2)) = find (is_rw_param ctx k) (rw_params (ngc fl1))"
      using that by (simp only:) (rule find_filter, simp add: is_rw_param_def)
    with assms(3) that show ?thesis by (simp add: in_call_def)
  qed
qed

text \<open>
  C23. A call of a numbered subroutine that succeeds, followed by its end, leads back to the caller:
  the blocks, the file and the position after the call are those of the caller, and so are the call
  level, the context and every local parameter 1 to 30.
\<close>

theorem call_returns_to_caller:
  assumes "flow_ok fl" and "executing fl" and "\<not> skipping fl" and "l \<le> NGC_MAX_PARAM_ID"
    and "call_context (ngc fl) \<noteq> Some (length (stack fl))"
    and "op_call env l n line pos fl = Some (Status_OK, p', fl1)"
    and "op_endsub env l line' pos' fl1 = Some (st, p'', fl2)"
  shows "st = Status_OK \<and> stack fl2 = stack fl \<and> hal_file (str fl2) = hal_file (str fl) \<and> tell fl2 = tell fl
    \<and> call_level (ngc fl2) = call_level (ngc fl) \<and> call_context (ngc fl2) = call_context (ngc fl)
    \<and> (\<forall>pid. 0 < pid \<and> pid \<le> 30 \<longrightarrow> ngc_param_get ro pid (ngc fl2) = ngc_param_get ro pid (ngc fl))"
proof -
  have ic: "in_call l fl fl1" by (rule op_call_in_call [OF assms(1,3,4,6)])
  note u = unwind_in_call [OF assms(1,2) ic assms(4)]
  define fl3 where "fl3 = stack_unwind_sub l fl1"
  have sk: "\<not> skip_sub fl1" "executing fl1" using ic assms(2,3) by (auto simp: in_call_def skipping_def executing_def)
  have fin: "stack (snd (set_returned env line' pos' fl3)) = stack fl3"
    "str (snd (set_returned env line' pos' fl3)) = str fl3"
    "call_level (ngc (snd (set_returned env line' pos' fl3))) = call_level (ngc fl3)"
    "call_context (ngc (snd (set_returned env line' pos' fl3))) = call_context (ngc fl3)"
    "rw_params (ngc (snd (set_returned env line' pos' fl3))) = rw_params (ngc fl3)"
    by (simp_all add: set_returned_def Let_def case_prod_beta named_set_def named_set_fields)
  have r: "st = Status_OK" "fl2 = (snd (set_returned env line' pos' fl3))\<lparr>skip_sub := False\<rparr>"
    using assms(7) sk by (auto simp: op_endsub_def Let_def case_prod_beta fl3_def)
  have "ngc_param_get ro pid (ngc fl2) = ngc_param_get ro pid (ngc fl)" if "0 < pid" "pid \<le> 30" for pid
  proof -
    have "pid < 5061" using that(2) by (rule le_less_trans) simp
    then have rw: "ngc_param_is_rw pid" using that(1) by (simp add: is_rw_iff)
    have ctx: "param_context_of pid t = call_context t" for t
      using that(2) by (auto simp: param_context_of_def dest: leD)
    show ?thesis
      using u(5) [OF assms(5) that(2)] u(4) fin
      by (simp add: param_get_rw [OF rw] ctx r same_levels_def fl3_def)
  qed
  moreover have "tell fl2 = tell fl3" using fin by (simp add: r tell_def split: option.split)
  ultimately show ?thesis
    using u(1-4) fin by (simp add: r fl3_def same_levels_def)
qed

lemma set_params_zero: "set_params i (replicate k 0) s = (True, s)"
  by (induction k arbitrary: i) simp_all

lemma enter_sub_succeeds:
  assumes "length (stack fl) < NGC_STACK_DEPTH" "call_level (ngc fl) < int NGC_MAX_CALL_LEVEL - 1"
  shows "\<exists>fl1. enter_sub l n sub (replicate 30 0) pos fl = Some (Status_OK, pos, fl1)"
proof -
  obtain s where "ngc_call_push (Some (length (stack fl))) (ngc fl) = (True, s)"
    using assms(2) by (simp add: ngc_call_push_def Let_def)
  then have "\<exists>fl0. stack_push l n NGCFlowCtrl_Call fl = (Status_OK, fl0)"
    using assms(1) by (simp add: stack_push_def)
  then show ?thesis by (auto simp: enter_sub_def Let_def set_params_zero case_prod_beta)
qed

definition demo_caller :: flow_state where
  "demo_caller = demo_flow\<lparr>subs := [\<lparr>sub_ref = 0, sub_label = 100, sub_file = 1, sub_file_pos = 3,
     sub_line_number = 2\<rparr>]\<rparr>"

lemma call_returns_to_caller_witness:
  "\<exists>p' fl1 p'' fl2. op_call demo_flow_env 100 9 [] 0 demo_caller = Some (Status_OK, p', fl1)
     \<and> op_endsub demo_flow_env 100 [] 0 fl1 = Some (Status_OK, p'', fl2)
     \<and> stack fl2 = [] \<and> tell fl2 = tell demo_caller"
proof -
  have hf: "hal_file (str demo_caller) = Some 1"
    by (simp add: demo_caller_def demo_flow_def demo_stream_def stream_redirect_read_def stream_set_type_def Let_def)
  have ok: "flow_ok demo_caller" using demo_flow_ok by (simp add: demo_caller_def flow_ok_def)
  have ex: "executing demo_caller" "\<not> skipping demo_caller" "(100::u32) \<le> NGC_MAX_PARAM_ID"
    "call_context (ngc demo_caller) \<noteq> Some (length (stack demo_caller))"
    using hf by (simp_all add: executing_def skipping_def demo_caller_def demo_flow_def NGC_MAX_PARAM_ID_def
        ngc_initial_def)
  have z: "snd (ngc_param_get (fe_ro_value demo_flow_env) p (ngc demo_caller)) = 0" for p
    by (auto simp: ngc_param_get_def demo_caller_def demo_flow_def demo_flow_env_def ngc_initial_def
        split: option.split)
  have "map (\<lambda>i. 0::real) [1..<31] = replicate 30 0" by (simp add: map_replicate_const)
  then have fp: "fill_params demo_flow_env (ngc demo_caller) [] = replicate 30 0"
    using z by (simp add: fill_params_def)
  have c: "called_sub demo_flow_env 100 9 demo_caller = (Some (hd (subs demo_caller)), demo_caller)"
    using hf by (simp add: called_sub_def NGC_MAX_PARAM_ID_def demo_caller_def)
  have lv: "length (stack demo_caller) < NGC_STACK_DEPTH" "call_level (ngc demo_caller) < int NGC_MAX_CALL_LEVEL - 1"
    by (simp_all add: demo_caller_def demo_flow_def ngc_initial_def NGC_STACK_DEPTH_def NGC_MAX_CALL_LEVEL_def)
  have ev: "eval_params demo_flow_env 30 [] 0 (ngc demo_caller) [] = (Status_OK, 0, [])"
    by (simp add: numeral_eq_Suc)
  have "\<exists>p' fl1. op_call demo_flow_env 100 9 [] 0 demo_caller = Some (Status_OK, p', fl1)"
    using ex c enter_sub_succeeds [of demo_caller 100 9 "hd (subs demo_caller)" 0]
    by (auto simp: op_call_def fp ev lv)
  then obtain p' fl1 where 1: "op_call demo_flow_env 100 9 [] 0 demo_caller = Some (Status_OK, p', fl1)" by blast
  have "hal_file (str fl1) \<noteq> None"
    using op_call_in_call [OF ok ex(2,3) 1] hf by (simp add: in_call_def)
  then obtain st p'' fl2 where 2: "op_endsub demo_flow_env 100 [] 0 fl1 = Some (st, p'', fl2)"
    by (auto simp: op_endsub_def executing_def case_prod_beta)
  from call_returns_to_caller [OF ok ex 1 2] 1 2 show ?thesis
    by (auto simp: demo_caller_def demo_flow_def)
qed

end
