(* ===== verification/FlowReach.thy ===== *)
theory FlowReach
  imports FlowCalls Reach
begin

text \<open>
  The flow control as a transition system: lines of flow control, reports of errors, ends of files,
  parameter writes and whatever the input does, in any order.
\<close>

definition flow_start :: "flow_state \<Rightarrow> bool" where
  "flow_start fl \<longleftrightarrow> stack fl = [] \<and> subs fl = [] \<and> \<not> skip_sub fl \<and> exec_sub fl = None \<and>
     (\<exists>heap. ngc fl = ngc_initial heap)"

text \<open>A return from a G65 macro, which is not part of the flow control, leaves a sound stack sound.\<close>

definition macro_return_ok :: "flow_env \<Rightarrow> bool" where
  "macro_return_ok env \<longleftrightarrow> (\<forall>f x. fe_macro_return env = Some f \<longrightarrow> flow_ok x \<longrightarrow> flow_ok (f x))"

inductive flow_step :: "flow_state \<Rightarrow> flow_state \<Rightarrow> bool" where
  flow_line: "macro_return_ok env \<Longrightarrow> ngc_flowctrl env l n line pos fl = Some (st, p', fl') \<Longrightarrow> flow_step fl fl'"
| flow_error: "flow_step fl (onNamedSubError st fl)"
| flow_eof: "flow_step fl (snd (onNamedSubEOF f st fl))"
| flow_init: "flow_step fl (ngc_flowctrl_init fl)"
| flow_input: "flow_step fl (fl\<lparr>str := s\<rparr>)"
| flow_write: "flow_step fl (fl\<lparr>ngc := snd (ngc_param_set pid v (ngc fl))\<rparr>)"
| flow_write_named: "flow_step fl (named_set name v fl)"

inductive_cases flow_stepE: "flow_step fl fl'"

lemma flow_ok_named_sub_error:
  assumes "\<And>x. flow_ok x \<Longrightarrow> flow_ok (rep st x)" "flow_ok fl"
  shows "flow_ok (named_sub_error rep st fl)"
  using assms by (auto simp: named_sub_error_def flow_ok_init flow_ok_unwind_sub split: option.split)

lemma flow_ok_report_status: "flow_ok fl \<Longrightarrow> flow_ok (report_status k st fl)"
proof (induction k arbitrary: fl)
  case (Suc k)
  have "flow_ok (named_sub_error (report_status k) st x)" if "flow_ok x" for x
    using flow_ok_named_sub_error [of "report_status k", OF Suc.IH that] .
  then show ?case using Suc.prems by (simp add: Let_def case_prod_beta)
qed simp

interpretation flow: inductive_invariant flow_start flow_step flow_ok
proof
  show "flow_ok fl" if "flow_start fl" for fl
    using that
    by (auto simp: flow_start_def flow_ok_def call_ok_def ngc_initial_def NGC_MAX_CALL_LEVEL_def)
  show "flow_ok fl'" if "flow_ok fl" "flow_step fl fl'" for fl fl'
    using that(2)
  proof (rule flow_stepE)
    show "macro_return_ok env \<Longrightarrow> ngc_flowctrl env l n line pos fl = Some (st, p', fl') \<Longrightarrow> flow_ok fl'"
      for env l n line pos st p'
      by (rule flow_line_sound [OF that(1)]) (simp_all add: macro_return_ok_def)
    show "fl' = onNamedSubError st fl \<Longrightarrow> flow_ok fl'" for st
      using that(1) by (simp add: onNamedSubError_def flow_ok_named_sub_error flow_ok_report_status)
    show "fl' = snd (onNamedSubEOF f st fl) \<Longrightarrow> flow_ok fl'" for f st
      using that(1) by (auto simp: onNamedSubEOF_def flow_ok_unwind_stack split: list.split)
    show "fl' = ngc_flowctrl_init fl \<Longrightarrow> flow_ok fl'" using that(1) by (simp add: flow_ok_init)
    show "fl' = fl\<lparr>str := s\<rparr> \<Longrightarrow> flow_ok fl'" for s using that(1) by simp
    show "fl' = fl\<lparr>ngc := snd (ngc_param_set pid v (ngc fl))\<rparr> \<Longrightarrow> flow_ok fl'" for pid v
      using that(1) by (simp add: flow_ok_def call_ok_param_set param_set_fields)
    show "fl' = named_set name v fl \<Longrightarrow> flow_ok fl'" for name v
      using that(1) by (simp add: flow_ok_named_set)
  qed
qed



end
