(* ===== verification/ModbusRtu.thy ===== *)
theory ModbusRtu
  imports Modbus
begin

text \<open>
  \<open>grbl/modbus_rtu.c\<close>: the serial Modbus transport. The poll that runs every millisecond, the
  blocking send that waits for it, the queue of messages sent in the background, retries and
  timeouts. The stream is its two buffers; frames written and handlers called are recorded. A stream
  without direction control or without a format has \<open>None\<close> there. The result \<open>None\<close> is a null pointer or a write outside the message.
\<close>

section \<open>State\<close>

definition MODBUS_QUEUE_LENGTH :: nat where
  "MODBUS_QUEUE_LENGTH = 8"

datatype rtu_mode =
  ModBus_Idle | ModBus_Silent | ModBus_TX | ModBus_AwaitReply | ModBus_TimeoutException
  | ModBus_GotReply | ModBus_Exception | ModBus_Retry

record queue_entry =
  qe_async :: bool
  qe_msg :: modbus_message
  qe_callbacks :: modbus_callbacks

record rtu_stats =
  st_rx_count :: u32
  st_tx_count :: u32
  st_retries :: u32
  st_timeouts :: u32
  st_crc_errors :: u32
  st_rx_exceptions :: u32
  st_latency :: u32
  st_no_rx :: bool

definition rtu_stats_zero :: rtu_stats where
  "rtu_stats_zero = \<lparr>st_rx_count = 0, st_tx_count = 0, st_retries = 0, st_timeouts = 0,
     st_crc_errors = 0, st_rx_exceptions = 0, st_latency = 0, st_no_rx = False\<rparr>"

text \<open>The packet in work is the message of the blocking send or one of the queue.\<close>

datatype packet_ref = SyncMsg | Slot nat

text \<open>What a handler was told: a reply, or a code with the context of its message.\<close>

datatype rtu_call = GotPacket modbus_handler modbus_message | GotCode modbus_handler u8 u32

record rtu =
  rtu_mode :: rtu_mode
  queue :: "queue_entry list"
  q_head :: nat
  q_tail :: nat
  packet :: "packet_ref option"
  sync_msg :: queue_entry
  rx_timer :: u32
  silence_until :: u32
  silence_timeout :: u32
  silence :: "u16 list"
  exception_code :: u8
  spin_lock :: bool
  is_blocking :: bool
  is_up :: bool
  stats :: rtu_stats
  cfg_rx_timeout :: u32
  cfg_baud_rate :: u32
  ticks :: u32
  tx_pending :: nat
  rx_buf :: "u8 list"
  tx_direction :: "bool option"
  wire :: "u8 list list"
  told :: "rtu_call list"
  reset_pending :: bool
  blocking_event :: bool
  sys_abort :: bool
  modbus_baud :: u8
  line_baud :: u32
  parity :: u8
  line_parity :: "u8 option"
  nvs_settings :: "(u32 \<times> u32) option"

definition callbacks_zero :: modbus_callbacks where
  "callbacks_zero = \<lparr>cb_retries = 0, cb_retry_delay = 0, cb_on_rx_packet = None,
     cb_on_rx_exception = None, cb_on_rx_timeout = None\<rparr>"

section \<open>The stream\<close>

definition flush_rx_buffer :: "rtu \<Rightarrow> rtu" where
  "flush_rx_buffer s = s\<lparr>rx_buf := []\<rparr>"

definition flush_tx_buffer :: "rtu \<Rightarrow> rtu" where
  "flush_tx_buffer s = s\<lparr>tx_pending := 0\<rparr>"

text \<open>The next byte received, -1 when there is none.\<close>

definition stream_read :: "rtu \<Rightarrow> int \<times> rtu" where
  "stream_read s = (case rx_buf s of [] \<Rightarrow> (-1, s) | c # cs \<Rightarrow> (uint c, s\<lparr>rx_buf := cs\<rparr>))"

definition set_direction :: "bool \<Rightarrow> rtu \<Rightarrow> rtu" where
  "set_direction tx s = (if tx_direction s = None then s else s\<lparr>tx_direction := Some tx\<rparr>)"

section \<open>Packets\<close>

definition deref_packet :: "rtu \<Rightarrow> queue_entry option" where
  "deref_packet s =
     (case packet s of None \<Rightarrow> None | Some SyncMsg \<Rightarrow> Some (sync_msg s) | Some (Slot i) \<Rightarrow> Some (queue s ! i))"

definition put_packet :: "queue_entry \<Rightarrow> rtu \<Rightarrow> rtu" where
  "put_packet e s =
     (case packet s of
        None \<Rightarrow> s | Some SyncMsg \<Rightarrow> s\<lparr>sync_msg := e\<rparr> | Some (Slot i) \<Rightarrow> s\<lparr>queue := (queue s)[i := e]\<rparr>)"

definition upd_stats :: "(rtu_stats \<Rightarrow> rtu_stats) \<Rightarrow> rtu \<Rightarrow> rtu" where
  "upd_stats f s = s\<lparr>stats := f (stats s)\<rparr>"

definition retry_exception :: "rtu \<Rightarrow> rtu" where
  "retry_exception s =
     (case deref_packet s of
        None \<Rightarrow> s
      | Some e \<Rightarrow>
          if cb_retries (qe_callbacks e) \<noteq> 0
          then upd_stats (\<lambda>t. t\<lparr>st_retries := st_retries t + 1\<rparr>)
                 (s\<lparr>rtu_mode := ModBus_Retry,
                    silence_until := ticks s + silence_timeout s + ucast (cb_retry_delay (qe_callbacks e))\<rparr>)
          else s)"

text \<open>A handler is told a code, when there is one.\<close>

definition tell_code :: "modbus_handler option \<Rightarrow> u8 \<Rightarrow> u32 \<Rightarrow> rtu \<Rightarrow> rtu" where
  "tell_code h code ctx s =
     (case h of
        None \<Rightarrow> s
      | Some RetryHandler \<Rightarrow> retry_exception s
      | Some (Handler n) \<Rightarrow> s\<lparr>told := told s @ [GotCode (Handler n) code ctx]\<rparr>)"

definition tell_packet :: "modbus_handler option \<Rightarrow> modbus_message \<Rightarrow> rtu \<Rightarrow> rtu" where
  "tell_packet h msg s = (case h of None \<Rightarrow> s | Some h \<Rightarrow> s\<lparr>told := told s @ [GotPacket h msg]\<rparr>)"

text \<open>The entry of a message: a blocking one with retries gets the retry handler for both failures.\<close>

definition entry_callbacks :: "bool \<Rightarrow> modbus_callbacks \<Rightarrow> rtu \<Rightarrow> modbus_callbacks" where
  "entry_callbacks async cb s =
     (if reset_pending s then callbacks_zero
      else
        let c = (if cb_on_rx_timeout cb = None then cb\<lparr>cb_on_rx_timeout := cb_on_rx_exception cb\<rparr> else cb)
        in if \<not> async \<and> cb_retries c \<noteq> 0
           then c\<lparr>cb_on_rx_exception := Some RetryHandler, cb_on_rx_timeout := Some RetryHandler\<rparr>
           else c)"

definition add_message ::
  "modbus_message \<Rightarrow> bool \<Rightarrow> modbus_callbacks \<Rightarrow> rtu \<Rightarrow> queue_entry \<times> rtu" where
  "add_message msg async cb s =
     (\<lparr>qe_async = async, qe_msg = msg, qe_callbacks = entry_callbacks async cb s\<rparr>,
      upd_stats (\<lambda>t. t\<lparr>st_tx_count := st_tx_count t + 1\<rparr>) s)"

definition tx_message :: "packet_ref \<Rightarrow> rtu \<Rightarrow> rtu" where
  "tx_message r s =
     (let s = (set_direction True s)\<lparr>packet := Some r, rtu_mode := ModBus_TX, rx_timer := cfg_rx_timeout s\<rparr>;
          s = flush_rx_buffer s
      in case deref_packet s of
           None \<Rightarrow> s
         | Some e \<Rightarrow>
             let n = unat (mb_tx_length (qe_msg e))
             in s\<lparr>tx_pending := n, wire := wire s @ [take n (mb_adu (qe_msg e))]\<rparr>)"

section \<open>The poll\<close>

definition be_silent :: "rtu \<Rightarrow> rtu" where
  "be_silent s = s\<lparr>silence_until := ticks s + silence_timeout s\<rparr>"

definition poll_idle :: "rtu \<Rightarrow> rtu" where
  "poll_idle s =
     (if q_tail s \<noteq> q_head s \<and> packet s = None \<and> \<not> is_blocking s
      then (tx_message (Slot (q_tail s)) s)\<lparr>q_tail := (q_tail s + 1) mod MODBUS_QUEUE_LENGTH\<rparr>
      else s)"

text \<open>Whether a time has come, the difference of the ticks taken as a signed number.\<close>

definition time_reached :: "u32 \<Rightarrow> rtu \<Rightarrow> bool" where
  "time_reached t s \<longleftrightarrow> sint (t - ticks s) \<le> 0"

definition poll_silent :: "rtu \<Rightarrow> rtu" where
  "poll_silent s =
     (if time_reached (silence_until s) s then s\<lparr>silence_until := 0, rtu_mode := ModBus_Idle\<rparr> else s)"

definition poll_tx :: "rtu \<Rightarrow> rtu" where
  "poll_tx s =
     (if tx_pending s = 0
      then set_direction False ((flush_rx_buffer s)\<lparr>rtu_mode := ModBus_AwaitReply\<rparr>) else s)"

definition poll_timeout :: "queue_entry \<Rightarrow> rtu \<Rightarrow> rtu" where
  "poll_timeout e s =
     (let s = upd_stats (\<lambda>t. t\<lparr>st_timeouts := st_timeouts t + 1\<rparr>) s
      in be_silent
           (if qe_async e then
              (tell_code (cb_on_rx_timeout (qe_callbacks e)) 0 (mb_context (qe_msg e))
                 (s\<lparr>rtu_mode := ModBus_Silent\<rparr>))\<lparr>packet := None\<rparr>
            else
              let (c0, s0) = stream_read s; (c1, s1) = stream_read s0
              in if c0 = uint (mb_adu (qe_msg e) ! 0) then
                   (if c1 AND 0x80 \<noteq> 0 then
                      let (code, s2) = stream_read s1
                      in upd_stats (\<lambda>t. t\<lparr>st_rx_exceptions := st_rx_exceptions t + 1\<rparr>)
                           (s2\<lparr>exception_code := (if code = -1 then ModBus_UnknownException else word_of_int code),
                               rtu_mode := ModBus_Exception\<rparr>)
                    else s1\<lparr>rtu_mode := ModBus_TimeoutException\<rparr>)
                 else s0\<lparr>rtu_mode := ModBus_TimeoutException\<rparr>))"

definition crc_matches :: "u8 list \<Rightarrow> nat \<Rightarrow> bool" where
  "crc_matches adu n \<longleftrightarrow>
     (let crc = modbus_crc16x (take (n - 2) adu)
      in ucast (adu ! (n - 2)) = crc AND 0xFF \<and> ucast (adu ! (n - 1)) = drop_bit 8 crc)"

text \<open>
  The reply is complete: its bytes replace those of the request, and its length counts down to
  zero. With a length of zero the copy would not stop before 256 bytes.
\<close>

definition poll_reply :: "queue_entry \<Rightarrow> rtu \<Rightarrow> rtu option" where
  "poll_reply e s =
     (let n = unat (mb_rx_length (qe_msg e));
          s = upd_stats (\<lambda>t. t\<lparr>st_rx_count := st_rx_count t + 1,
                 st_latency := max (st_latency t) (cfg_rx_timeout s - rx_timer s)\<rparr>) s;
          adu = take n (rx_buf s) @ drop n (mb_adu (qe_msg e));
          msg = (qe_msg e)\<lparr>mb_adu := adu, mb_rx_length := 0\<rparr>;
          s = put_packet (e\<lparr>qe_msg := msg\<rparr>) (s\<lparr>rx_buf := drop n (rx_buf s)\<rparr>)
      in if n = 0 \<or> MODBUS_MAX_ADU_SIZE < n \<or> mb_crc_check msg \<and> n < 2 then None
         else if mb_crc_check msg \<and> \<not> crc_matches adu n then
           let s = upd_stats (\<lambda>t. t\<lparr>st_crc_errors := st_crc_errors t + 1\<rparr>) s
           in Some (be_silent
                (if qe_async e
                 then (tell_code (cb_on_rx_exception (qe_callbacks e)) ModBus_CRCError (mb_context msg)
                         (s\<lparr>rtu_mode := ModBus_Silent\<rparr>))\<lparr>packet := None\<rparr>
                 else s\<lparr>rtu_mode := ModBus_Exception\<rparr>))
         else
           Some (be_silent
             (if qe_async e
              then (let got = (if cb_on_rx_packet (qe_callbacks e) = None then msg else msg\<lparr>mb_rx_length := of_nat n\<rparr>)
                    in tell_packet (cb_on_rx_packet (qe_callbacks e)) got
                         (put_packet (e\<lparr>qe_msg := got\<rparr>) (s\<lparr>rtu_mode := ModBus_Silent\<rparr>)))\<lparr>packet := None\<rparr>
              else s\<lparr>rtu_mode := ModBus_GotReply\<rparr>)))"

definition poll_await :: "rtu \<Rightarrow> rtu option" where
  "poll_await s =
     (case deref_packet s of
        None \<Rightarrow> None
      | Some e \<Rightarrow>
          let timeout = (rx_timer s = 1); s = (if rx_timer s \<noteq> 0 then s\<lparr>rx_timer := rx_timer s - 1\<rparr> else s)
          in if timeout then Some (poll_timeout e s)
             else if unat (mb_rx_length (qe_msg e)) \<le> length (rx_buf s) then poll_reply e s
             else Some s)"

definition poll_timeout_exception :: "rtu \<Rightarrow> rtu option" where
  "poll_timeout_exception s =
     map_option (\<lambda>e. be_silent (upd_stats (\<lambda>t. t\<lparr>st_no_rx := rx_buf s = []\<rparr>)
       (if qe_async e then s\<lparr>rtu_mode := ModBus_Silent\<rparr> else s))) (deref_packet s)"

definition modbus_poll :: "rtu \<Rightarrow> rtu option" where
  "modbus_poll s =
     (if spin_lock s then Some s
      else
        case rtu_mode s of
          ModBus_Idle \<Rightarrow> Some (poll_idle s)
        | ModBus_Silent \<Rightarrow> Some (poll_silent s)
        | ModBus_TX \<Rightarrow> Some (poll_tx s)
        | ModBus_AwaitReply \<Rightarrow> poll_await s
        | ModBus_TimeoutException \<Rightarrow> poll_timeout_exception s
        | _ \<Rightarrow> Some s)"

section \<open>Sending\<close>

definition append_crc :: "modbus_message \<Rightarrow> modbus_message" where
  "append_crc msg =
     (let n = unat (mb_tx_length msg); crc = modbus_crc16x (take (n - 2) (mb_adu msg))
      in msg\<lparr>mb_adu := (mb_adu msg)[n - 1 := ucast (drop_bit 8 crc), n - 2 := ucast (crc AND 0xFF)]\<rparr>)"

text \<open>
  A message sent in the background goes into the queue; a full queue drops it, and so does a
  blocking send to the same server that is still in work.
\<close>

definition send_async :: "modbus_message \<Rightarrow> modbus_callbacks \<Rightarrow> rtu \<Rightarrow> rtu" where
  "send_async msg cb s =
     (if (case deref_packet s of
            None \<Rightarrow> True
          | Some e \<Rightarrow> mb_adu (qe_msg (sync_msg s)) ! 1 = 0
              \<or> mb_adu (qe_msg e) ! 0 \<noteq> mb_adu (qe_msg (sync_msg s)) ! 0)
        \<and> (q_head s + 1) mod MODBUS_QUEUE_LENGTH \<noteq> q_tail s
      then let (e, s) = add_message msg True cb s
           in s\<lparr>queue := (queue s)[q_head s := e], q_head := (q_head s + 1) mod MODBUS_QUEUE_LENGTH\<rparr>
      else s)"

text \<open>
  The sending thread: waiting for the bus, waiting for the reply, returned. Between its steps the
  poll runs and bytes arrive.
\<close>

datatype send_phase = WaitIdle | WaitReply | Sent bool

definition modbus_send_rtu ::
  "modbus_message \<Rightarrow> modbus_callbacks \<Rightarrow> bool \<Rightarrow> rtu \<Rightarrow> (send_phase \<times> modbus_message \<times> rtu) option" where
  "modbus_send_rtu msg cb block s =
     (if MODBUS_MAX_ADU_SIZE < unat (mb_tx_length msg) \<or> MODBUS_MAX_ADU_SIZE < unat (mb_rx_length msg)
      then Some (Sent False, msg, tell_code (cb_on_rx_exception cb) ModBus_IllegalSize (mb_context msg) s)
      else if unat (mb_tx_length msg) < 2 \<or> spin_lock s then None
      else
        let msg = append_crc msg
        in if block \<and> \<not> blocking_event s then
             (if is_blocking s then Some (Sent False, msg, s)
              else Some (WaitIdle, msg, s\<lparr>is_blocking := True\<rparr>))
           else Some (Sent True, msg, send_async msg cb s))"

definition transmit :: "modbus_message \<Rightarrow> modbus_callbacks \<Rightarrow> rtu \<Rightarrow> rtu" where
  "transmit msg cb s =
     (let (e, s) = add_message msg False cb s in tx_message SyncMsg (s\<lparr>sync_msg := e\<rparr>))"

definition retry_callbacks :: "modbus_callbacks \<Rightarrow> modbus_callbacks \<Rightarrow> modbus_callbacks" where
  "retry_callbacks cb c =
     (let c = c\<lparr>cb_retries := cb_retries c - 1\<rparr>
      in if cb_retries c = 0
         then c\<lparr>cb_on_rx_exception := cb_on_rx_exception cb,
                cb_on_rx_timeout :=
                  (if cb_on_rx_timeout cb = None then cb_on_rx_exception cb else cb_on_rx_timeout cb)\<rparr>
         else c)"

definition send_end :: "rtu \<Rightarrow> rtu" where
  "send_end s =
     s\<lparr>packet := None, is_blocking := False,
       sync_msg := (sync_msg s)\<lparr>qe_msg := (qe_msg (sync_msg s))
         \<lparr>mb_adu := (mb_adu (qe_msg (sync_msg s)))[1 := 0]\<rparr>\<rparr>,
       rtu_mode := (if silence_until s > 0 then ModBus_Silent else ModBus_Idle)\<rparr>"

text \<open>One pass of the loop: what it makes of \<open>block\<close>, and whether it goes on is \<open>is_blocking\<close>.\<close>

definition send_pass :: "modbus_message \<Rightarrow> modbus_callbacks \<Rightarrow> rtu \<Rightarrow> (bool \<times> rtu) option" where
  "send_pass msg cb s =
     (if rtu_mode s \<in> {ModBus_TimeoutException, ModBus_Exception, ModBus_GotReply, ModBus_Retry} then
        (case deref_packet s of
           None \<Rightarrow> None
         | Some e \<Rightarrow>
             let c = qe_callbacks e; again = cb_retries c > 0; ctx = mb_context (qe_msg e)
             in Some (case rtu_mode s of
                 ModBus_TimeoutException \<Rightarrow>
                   (True,
                    (let s = (tell_code (cb_on_rx_timeout c) ModBus_Timeout ctx s)\<lparr>is_blocking := again\<rparr>
                     in if again then s else upd_stats (\<lambda>t. t\<lparr>st_no_rx := rx_buf s = []\<rparr>) s))
               | ModBus_Exception \<Rightarrow>
                   (True, (tell_code (cb_on_rx_exception c) (exception_code s) ctx s)\<lparr>is_blocking := again\<rparr>)
               | ModBus_GotReply \<Rightarrow> (False, (tell_packet (cb_on_rx_packet c) (qe_msg e) s)\<lparr>is_blocking := False\<rparr>)
               | _ \<Rightarrow>
                   (True,
                    if time_reached (silence_until s) s
                    then transmit msg (retry_callbacks cb c) (s\<lparr>silence_until := 0\<rparr>) else s)))
      else Some (True, s))"

definition send_step ::
  "modbus_message \<Rightarrow> modbus_callbacks \<Rightarrow> send_phase \<Rightarrow> rtu \<Rightarrow> (send_phase \<times> rtu) option" where
  "send_step msg cb ph s =
     (case ph of
        Sent ok \<Rightarrow> Some (ph, s)
      | WaitIdle \<Rightarrow>
          Some (if rtu_mode s = ModBus_Idle then (WaitReply, transmit msg cb s) else (WaitIdle, s))
      | WaitReply \<Rightarrow>
          map_option (\<lambda>(block, s). if is_blocking s then (WaitReply, s) else (Sent (\<not> block), send_end s))
            (send_pass msg cb s))"

section \<open>Reset, settings and the interface\<close>

text \<open>The reset handler, before it calls the one it replaced. It waits for the poll to end.\<close>

definition modbus_reset :: "rtu \<Rightarrow> rtu option" where
  "modbus_reset s =
     (if spin_lock s then None
      else
        let s = (if sys_abort s then
                   let s = (case deref_packet s of
                              None \<Rightarrow> s
                            | Some e \<Rightarrow> (put_packet (e\<lparr>qe_callbacks := callbacks_zero\<rparr>) s)\<lparr>packet := None\<rparr>)
                   in flush_rx_buffer (flush_tx_buffer
                        (s\<lparr>q_tail := q_head s, silence_until := ticks s + 500, rtu_mode := ModBus_Silent\<rparr>))
                 else s)
        in Some (if rtu_mode s = ModBus_Retry
                 then s\<lparr>silence_until := ticks s + 500, rtu_mode := ModBus_Silent\<rparr> else s))"

definition baud :: "u32 list" where
  "baud = [2400, 4800, 9600, 19200, 38400, 115200]"

definition DEFAULT_MODBUS_STREAM_BAUD :: nat where
  "DEFAULT_MODBUS_STREAM_BAUD = 3"

definition dflt_timeout :: "u16 list" where
  "dflt_timeout = [16, 8, 4, 2, 2, 2]"

definition get_baudrate :: "u32 \<Rightarrow> nat" where
  "get_baudrate rate =
     (case find (\<lambda>i. baud ! i = rate) (rev [0..<length baud]) of
        Some i \<Rightarrow> i | None \<Rightarrow> DEFAULT_MODBUS_STREAM_BAUD)"

text \<open>\<open>None\<close> for an index outside the table.\<close>

definition modbus_set_baud :: "nat \<Rightarrow> rtu \<Rightarrow> rtu option" where
  "modbus_set_baud v s =
     (if v < length baud
      then Some (s\<lparr>modbus_baud := of_nat v, cfg_baud_rate := baud ! v,
                   silence_timeout := ucast (silence s ! v), line_baud := baud ! v\<rparr>)
      else None)"

definition modbus_get_baud :: "rtu \<Rightarrow> nat" where
  "modbus_get_baud s = get_baudrate (cfg_baud_rate s)"

definition modbus_set_format :: "(rtu \<Rightarrow> rtu) \<Rightarrow> u8 \<Rightarrow> rtu \<Rightarrow> u8 \<times> rtu" where
  "modbus_set_format settings_write_global v s =
     (if line_parity s = None then (Status_SettingDisabled, s)
      else (Status_OK, settings_write_global (s\<lparr>parity := v, line_parity := Some v\<rparr>)))"

definition modbus_get_format :: "rtu \<Rightarrow> u32" where
  "modbus_get_format s = ucast (parity s)"

definition can_set_format :: "rtu \<Rightarrow> bool" where
  "can_set_format s \<longleftrightarrow> line_parity s \<noteq> None"

definition modbus_settings_save :: "rtu \<Rightarrow> rtu" where
  "modbus_settings_save s = s\<lparr>nvs_settings := Some (cfg_baud_rate s, cfg_rx_timeout s)\<rparr>"

definition modbus_settings_restore :: "rtu \<Rightarrow> rtu" where
  "modbus_settings_restore s =
     modbus_settings_save (s\<lparr>cfg_rx_timeout := 50, cfg_baud_rate := baud ! DEFAULT_MODBUS_STREAM_BAUD\<rparr>)"

text \<open>The stored settings are \<open>None\<close> when their checksum does not match.\<close>

definition modbus_settings_load :: "rtu \<Rightarrow> rtu" where
  "modbus_settings_load s =
     (let s = (case nvs_settings s of
                 None \<Rightarrow> modbus_settings_restore s
               | Some (b, t) \<Rightarrow>
                   let s = s\<lparr>cfg_baud_rate := b, cfg_rx_timeout := t\<rparr>
                   in if b \<noteq> baud ! get_baudrate b then modbus_settings_restore s else s)
      in s\<lparr>is_up := True, silence_timeout := ucast (silence s ! get_baudrate (cfg_baud_rate s)),
           line_baud := cfg_baud_rate s, line_parity := map_option (\<lambda>_. parity s) (line_parity s)\<rparr>)"

definition modbus_rtu_isup :: "rtu \<Rightarrow> bool" where
  "modbus_rtu_isup s = is_up s"

definition modbus_is_busy :: "rtu \<Rightarrow> bool" where
  "modbus_is_busy s \<longleftrightarrow> rtu_mode s \<noteq> ModBus_Idle"

definition modbus_rtu_flush_queue :: "rtu \<Rightarrow> rtu option" where
  "modbus_rtu_flush_queue s = (if spin_lock s then None else Some (s\<lparr>q_tail := q_head s\<rparr>))"

definition modbus_rtu_set_silence :: "u16 list option \<Rightarrow> rtu \<Rightarrow> rtu" where
  "modbus_rtu_set_silence timeout s =
     (let sil = (case timeout of Some t \<Rightarrow> t | None \<Rightarrow> dflt_timeout)
      in s\<lparr>silence := sil, silence_timeout := ucast (sil ! get_baudrate (cfg_baud_rate s))\<rparr>)"

text \<open>The statistics and the warning they come with; an argument starting with r clears them.\<close>

definition report_stats :: "string option \<Rightarrow> rtu \<Rightarrow> (string option \<times> u32 list) \<times> rtu" where
  "report_stats args s =
     (let t = stats s;
          warning = (if st_no_rx t
                     then Some (if st_rx_count t \<noteq> 0 then ''Unstable connection to modbus device?''
                                else ''No connection to modbus device?'')
                     else None);
          clear = (case args of Some (c # _) \<Rightarrow> c = CHR ''r'' \<or> c = CHR ''R'' | _ \<Rightarrow> False)
      in ((warning, [st_tx_count t, st_retries t, st_timeouts t, st_rx_exceptions t, st_crc_errors t,
             st_latency t]),
          if clear then s\<lparr>stats := rtu_stats_zero\<rparr> else s))"

end
