(* ===== verification/RtuSend.thy ===== *)
theory RtuSend
  imports ModbusRtu Reach
begin

text \<open>
  The serial transport at work: the queue of background messages is a bounded queue, and a blocking
  send, its thread interleaved with the poll, time and the bytes of the bus, ends with one report.
\<close>

section \<open>The queue of background messages\<close>

definition rq_ok :: "rtu \<Rightarrow> bool" where
  "rq_ok s \<longleftrightarrow> q_head s < 8 \<and> q_tail s < 8 \<and> length (queue s) = 8"

definition rq_elems :: "rtu \<Rightarrow> queue_entry list" where
  "rq_elems s = ring_contents 8 (q_head s) (q_tail s) (queue s)"

definition rq_enq :: "queue_entry \<Rightarrow> rtu \<Rightarrow> rtu" where
  "rq_enq e s =
     (if (q_head s + 1) mod 8 = q_tail s then s
      else s\<lparr>queue := (queue s)[q_head s := e], q_head := (q_head s + 1) mod 8\<rparr>)"

definition rq_deq :: "rtu \<Rightarrow> queue_entry option \<times> rtu" where
  "rq_deq s =
     (if q_tail s = q_head s then (None, s)
      else (Some (queue s ! q_tail s), s\<lparr>q_tail := (q_tail s + 1) mod 8\<rparr>))"

interpretation rtu_queue: bounded_queue rq_enq rq_deq rq_elems rq_ok 7
proof (unfold_locales, goal_cases)
  case (1 q x) then show ?case by (simp add: rq_ok_def rq_enq_def)
next
  case (2 q) then show ?case by (simp add: rq_ok_def rq_deq_def)
next
  case (3 q x)
  then show ?case
    using ring_full_iff [of "q_head q" 8 "q_tail q"] ring_used_less [of 8 "q_head q" "q_tail q"]
      ring_contents_put [of "q_head q" 8 "q_tail q" "queue q" x]
    by (auto simp: rq_ok_def rq_enq_def rq_elems_def)
next
  case (4 q)
  then show ?case
    using ring_contents_get [of "q_head q" 8 "q_tail q" "queue q"]
    by (auto simp: rq_ok_def rq_deq_def rq_elems_def ring_contents_empty)
next
  case (5 q)
  then show ?case
    using ring_contents_get [of "q_head q" 8 "q_tail q" "queue q"]
    by (auto simp: rq_ok_def rq_deq_def rq_elems_def ring_contents_empty)
next
  case (6 q) then show ?case
    using ring_used_less [of 8 "q_head q" "q_tail q"] by (simp add: rq_elems_def)
qed

lemma rq_enq_fields [simp]:
  "packet (rq_enq e s) = packet s" "sync_msg (rq_enq e s) = sync_msg s" "stats (rq_enq e s) = stats s"
  by (simp_all add: rq_enq_def)

text \<open>The bus takes a background message unless a blocking send to its server is in work.\<close>

definition accepts :: "rtu \<Rightarrow> bool" where
  "accepts s \<longleftrightarrow>
     (case deref_packet s of
        None \<Rightarrow> True
      | Some e \<Rightarrow> mb_adu (qe_msg (sync_msg s)) ! 1 = 0
          \<or> mb_adu (qe_msg e) ! 0 \<noteq> mb_adu (qe_msg (sync_msg s)) ! 0)"

definition background_entry :: "modbus_message \<Rightarrow> modbus_callbacks \<Rightarrow> rtu \<Rightarrow> queue_entry" where
  "background_entry msg cb s = fst (add_message msg True cb s)"

definition frame :: "modbus_message \<Rightarrow> u8 list" where
  "frame msg = take (unat (mb_tx_length msg)) (mb_adu msg)"

lemma send_async_elems:
  assumes "rq_ok s"
  shows "rq_ok (send_async msg cb s) \<and> rq_elems (send_async msg cb s)
    = (if accepts s \<and> length (rq_elems s) < 7 then rq_elems s @ [background_entry msg cb s] else rq_elems s)"
proof -
  let ?e = "background_entry msg cb s" and ?s = "snd (add_message msg True cb s)"
  have q: "rq_ok ?s" "rq_elems ?s = rq_elems s" "q_head ?s = q_head s" "q_tail ?s = q_tail s"
    using assms by (simp_all add: add_message_def upd_stats_def rq_ok_def rq_elems_def)
  have full: "Suc (q_head s) mod 8 = q_tail s \<longleftrightarrow> \<not> length (rq_elems s) < 7"
    using assms ring_full_iff [of "q_head s" 8 "q_tail s"] ring_used_less [of 8 "q_head s" "q_tail s"]
    by (auto simp: rq_ok_def rq_elems_def)
  have "send_async msg cb s = (if accepts s \<and> length (rq_elems s) < 7 then rq_enq ?e ?s else s)"
    using q by (simp add: send_async_def accepts_def [symmetric] rq_enq_def MODBUS_QUEUE_LENGTH_def full
        background_entry_def case_prod_beta)
  then show ?thesis
    using assms rtu_queue.inv_enq [OF q(1), of ?e] rtu_queue.elems_enq [OF q(1), of ?e] q(2) by simp
qed

lemma poll_idle_elems:
  assumes "rq_ok s" "packet s = None" "\<not> is_blocking s"
  shows "case rq_elems s of
      [] \<Rightarrow> poll_idle s = s
    | e # es \<Rightarrow> rq_ok (poll_idle s) \<and> rq_elems (poll_idle s) = es \<and> deref_packet (poll_idle s) = Some e
        \<and> wire (poll_idle s) = wire s @ [frame (qe_msg e)] \<and> rtu_mode (poll_idle s) = ModBus_TX"
proof (cases "q_tail s = q_head s")
  case True
  then show ?thesis using assms by (simp add: rq_elems_def poll_idle_def)
next
  case False
  have e: "rq_elems s = queue s ! q_tail s # rq_elems (s\<lparr>q_tail := (q_tail s + 1) mod 8\<rparr>)"
    using False rtu_queue.fst_deq [OF assms(1)] rtu_queue.elems_deq [OF assms(1)] 
    by (auto simp: rq_deq_def split: list.splits)
  have "rq_ok (poll_idle s)" "rq_elems (poll_idle s) = rq_elems (s\<lparr>q_tail := (q_tail s + 1) mod 8\<rparr>)"
    "deref_packet (poll_idle s) = Some (queue s ! q_tail s)" "rtu_mode (poll_idle s) = ModBus_TX"
    "wire (poll_idle s) = wire s @ [frame (qe_msg (queue s ! q_tail s))]"
    using assms False
    by (simp_all add: poll_idle_def tx_message_def set_direction_def flush_rx_buffer_def deref_packet_def
        Let_def MODBUS_QUEUE_LENGTH_def rq_ok_def rq_elems_def frame_def)
  then show ?thesis by (simp add: e)
qed

text \<open>
  C26. Messages sent in the background form a first-in first-out queue of seven: a send appends the
  message with its checksum, or drops it when seven are waiting or a blocking send to the same
  server is in work, and returns true in all cases; a poll of the idle bus transmits the oldest.
\<close>

theorem background_queue_fifo:
  assumes "rq_ok s" "\<not> spin_lock s" "unat (mb_tx_length m) \<in> {2..12}" "unat (mb_rx_length m) \<le> 12"
  shows "(\<exists>s'. modbus_send_rtu m cb False s = Some (Sent True, append_crc m, s') \<and> rq_ok s'
        \<and> rq_elems s' = (if accepts s \<and> length (rq_elems s) < 7
             then rq_elems s @ [background_entry (append_crc m) cb s] else rq_elems s))
    \<and> (rtu_mode s = ModBus_Idle \<and> packet s = None \<and> \<not> is_blocking s \<longrightarrow>
        (\<exists>s'. modbus_poll s = Some s' \<and>
          (case rq_elems s of
             [] \<Rightarrow> s' = s
           | e # es \<Rightarrow> rq_ok s' \<and> rq_elems s' = es \<and> deref_packet s' = Some e
               \<and> wire s' = wire s @ [frame (qe_msg e)] \<and> rtu_mode s' = ModBus_TX)))"
  using assms send_async_elems [OF assms(1), of "append_crc m" cb] poll_idle_elems [OF assms(1)]
  by (auto simp: modbus_send_rtu_def modbus_poll_def MODBUS_MAX_ADU_SIZE_def Let_def)

definition rtu_idle :: rtu where
  "rtu_idle =
     \<lparr>rtu_mode = ModBus_Idle,
      queue = replicate 8 \<lparr>qe_async = False,
        qe_msg = \<lparr>mb_context = 0, mb_crc_check = False, mb_tx_length = 0, mb_rx_length = 0, mb_adu = replicate 12 0\<rparr>,
        qe_callbacks = callbacks_zero\<rparr>,
      q_head = 0, q_tail = 0, packet = None,
      sync_msg = \<lparr>qe_async = False,
        qe_msg = \<lparr>mb_context = 0, mb_crc_check = False, mb_tx_length = 0, mb_rx_length = 0, mb_adu = replicate 12 0\<rparr>,
        qe_callbacks = callbacks_zero\<rparr>,
      rx_timer = 0, silence_until = 0, silence_timeout = 2, silence = dflt_timeout, exception_code = 0,
      spin_lock = False, is_blocking = False, is_up = True, stats = rtu_stats_zero,
      cfg_rx_timeout = 50, cfg_baud_rate = 19200, ticks = 0, tx_pending = 0, rx_buf = [],
      tx_direction = None, wire = [], told = [], reset_pending = False, blocking_event = False,
      sys_abort = False, modbus_baud = 3, line_baud = 19200, parity = 0, line_parity = None,
      nvs_settings = None\<rparr>"

definition rtu_request :: modbus_message where
  "rtu_request = \<lparr>mb_context = 7, mb_crc_check = True, mb_tx_length = 8, mb_rx_length = 7,
     mb_adu = [1, 3, 0, 0, 0, 1, 0, 0, 0, 0, 0, 0]\<rparr>"

lemma background_queue_fifo_witness:
  "\<exists>s'. modbus_send_rtu rtu_request callbacks False rtu_idle = Some (Sent True, append_crc rtu_request, s')
     \<and> length (rq_elems s') = 1"
proof -
  have "rq_ok rtu_idle" "accepts rtu_idle" "rq_elems rtu_idle = []" "\<not> spin_lock rtu_idle"
    by (simp_all add: rq_ok_def rtu_idle_def accepts_def deref_packet_def rq_elems_def)
  moreover have "unat (mb_tx_length rtu_request) \<in> {2..12}" "unat (mb_rx_length rtu_request) \<le> 12"
    by (simp_all add: rtu_request_def)
  ultimately show ?thesis
    using background_queue_fifo [of rtu_idle rtu_request callbacks] by auto
qed

section \<open>The blocking send\<close>

text \<open>
  The sending thread and what goes on around it: the poll, time, bytes that arrive and bytes that
  leave, in any order, until the send returns.
\<close>

inductive send_sys :: "modbus_message \<Rightarrow> modbus_callbacks \<Rightarrow> send_phase \<times> rtu \<Rightarrow> send_phase \<times> rtu \<Rightarrow> bool"
  for msg cb where
  sys_run: "\<forall>ok. ph \<noteq> Sent ok \<Longrightarrow> send_step msg cb ph s = Some y \<Longrightarrow> send_sys msg cb (ph, s) y"
| sys_poll: "\<forall>ok. ph \<noteq> Sent ok \<Longrightarrow> modbus_poll s = Some s' \<Longrightarrow> send_sys msg cb (ph, s) (ph, s')"
| sys_tick: "\<forall>ok. ph \<noteq> Sent ok \<Longrightarrow> send_sys msg cb (ph, s) (ph, s\<lparr>ticks := ticks s + 1\<rparr>)"
| sys_receive: "\<forall>ok. ph \<noteq> Sent ok \<Longrightarrow> send_sys msg cb (ph, s) (ph, s\<lparr>rx_buf := rx_buf s @ bs\<rparr>)"
| sys_drain: "\<forall>ok. ph \<noteq> Sent ok \<Longrightarrow> n \<le> tx_pending s \<Longrightarrow> send_sys msg cb (ph, s) (ph, s\<lparr>tx_pending := n\<rparr>)"

inductive_cases send_sysE: "send_sys msg cb x y"

text \<open>The handler of a timeout: that of exceptions when the client has none.\<close>

definition timeout_handler :: "modbus_callbacks \<Rightarrow> modbus_handler option" where
  "timeout_handler cb = (if cb_on_rx_timeout cb = None then cb_on_rx_exception cb else cb_on_rx_timeout cb)"

definition told_of :: "modbus_handler option \<Rightarrow> (modbus_handler \<Rightarrow> rtu_call) \<Rightarrow> rtu_call list" where
  "told_of h f = (case h of None \<Rightarrow> [] | Some h \<Rightarrow> [f h])"

text \<open>The message in work: its handlers, and its frames on the wire with the retries left.\<close>

definition work_ok :: "modbus_message \<Rightarrow> modbus_callbacks \<Rightarrow> nat \<Rightarrow> queue_entry \<Rightarrow> bool" where
  "work_ok msg cb k e \<longleftrightarrow>
     \<not> qe_async e \<and> mb_context (qe_msg e) = mb_context msg \<and> mb_crc_check (qe_msg e) = mb_crc_check msg
     \<and> 1 \<le> k \<and> k + unat (cb_retries (qe_callbacks e)) = 1 + unat (cb_retries cb)
     \<and> cb_on_rx_packet (qe_callbacks e) = cb_on_rx_packet cb
     \<and> (if cb_retries (qe_callbacks e) = 0
        then cb_on_rx_exception (qe_callbacks e) = cb_on_rx_exception cb
          \<and> cb_on_rx_timeout (qe_callbacks e) = timeout_handler cb
        else cb_on_rx_exception (qe_callbacks e) = Some RetryHandler
          \<and> cb_on_rx_timeout (qe_callbacks e) = Some RetryHandler)"

text \<open>A reply that was taken: of the length expected, with the right checksum when one is asked for.\<close>

definition reply_ok :: "modbus_message \<Rightarrow> modbus_message \<Rightarrow> bool" where
  "reply_ok msg m \<longleftrightarrow>
     mb_context m = mb_context msg \<and>
     (mb_crc_check msg \<longrightarrow> crc_matches (mb_adu m) (unat (mb_rx_length msg)))"

definition mode_ok :: "modbus_message \<Rightarrow> rtu \<Rightarrow> bool" where
  "mode_ok msg s \<longleftrightarrow>
     (case rtu_mode s of
        ModBus_TX \<Rightarrow> mb_rx_length (qe_msg (sync_msg s)) = mb_rx_length msg
      | ModBus_AwaitReply \<Rightarrow> mb_rx_length (qe_msg (sync_msg s)) = mb_rx_length msg
      | ModBus_GotReply \<Rightarrow> reply_ok msg (qe_msg (sync_msg s))
      | ModBus_Retry \<Rightarrow> cb_retries (qe_callbacks (sync_msg s)) \<noteq> 0
      | ModBus_Idle \<Rightarrow> False
      | ModBus_Silent \<Rightarrow> False
      | _ \<Rightarrow> True)"

definition report_ok :: "modbus_message \<Rightarrow> modbus_callbacks \<Rightarrow> bool \<Rightarrow> rtu_call list \<Rightarrow> bool" where
  "report_ok msg cb ok ts \<longleftrightarrow>
     (if ok then \<exists>m. reply_ok msg m \<and> ts = told_of (cb_on_rx_packet cb) (\<lambda>h. GotPacket h m)
      else \<exists>h code. h \<in> {cb_on_rx_exception cb, timeout_handler cb}
        \<and> ts = told_of h (\<lambda>h. GotCode h code (mb_context msg)))"

fun send_inv :: "modbus_message \<Rightarrow> modbus_callbacks \<Rightarrow> rtu \<Rightarrow> send_phase \<times> rtu \<Rightarrow> bool" where
  "send_inv msg cb s0 (WaitIdle, s) \<longleftrightarrow>
     wire s = wire s0 \<and> told s = told s0 \<and> \<not> reset_pending s
     \<and> is_blocking s \<and> rtu_mode s = ModBus_Idle"
| "send_inv msg cb s0 (WaitReply, s) \<longleftrightarrow>
     (\<exists>k. wire s = wire s0 @ replicate k (frame msg) \<and> work_ok msg cb k (sync_msg s))
     \<and> told s = told s0 \<and> \<not> reset_pending s \<and> is_blocking s \<and> packet s = Some SyncMsg \<and> mode_ok msg s"
| "send_inv msg cb s0 (Sent ok, s) \<longleftrightarrow>
     (\<exists>k ts. wire s = wire s0 @ replicate k (frame msg) \<and> 1 \<le> k \<and> k \<le> 1 + unat (cb_retries cb)
        \<and> told s = told s0 @ ts \<and> report_ok msg cb ok ts)
     \<and> \<not> is_blocking s \<and> packet s = None \<and> rtu_mode s \<in> {ModBus_Silent, ModBus_Idle}"

lemma is_blocking_transmit [simp]: "is_blocking (transmit msg c s) = is_blocking s"
  by (simp add: transmit_def add_message_def tx_message_def set_direction_def flush_rx_buffer_def
      deref_packet_def upd_stats_def Let_def)

lemma transmit_fields:
  assumes "\<not> reset_pending s" "k + unat (cb_retries c) = unat (cb_retries cb)"
    "cb_on_rx_packet c = cb_on_rx_packet cb"
    "cb_retries c = 0 \<Longrightarrow> cb_on_rx_exception c = cb_on_rx_exception cb \<and> timeout_handler c = timeout_handler cb"
  shows "wire (transmit msg c s) = wire s @ [frame msg]" "told (transmit msg c s) = told s"
    "reset_pending (transmit msg c s) = False" "is_blocking (transmit msg c s) = is_blocking s"
    "packet (transmit msg c s) = Some SyncMsg" "work_ok msg cb (Suc k) (sync_msg (transmit msg c s))"
    "mode_ok msg (transmit msg c s)"
  using assms
  by (auto simp: transmit_def add_message_def tx_message_def set_direction_def flush_rx_buffer_def
      deref_packet_def upd_stats_def Let_def frame_def work_ok_def mode_ok_def entry_callbacks_def
      timeout_handler_def)

lemmas poll_defs = be_silent_def upd_stats_def set_direction_def flush_rx_buffer_def deref_packet_def
  put_packet_def Let_def

lemma snd_stream_read: "snd (stream_read s) = s\<lparr>rx_buf := tl (rx_buf s)\<rparr>"
  by (cases s, cases "rx_buf s") (simp_all add: stream_read_def)

text \<open>What a timeout and a reply of the message of a blocking send leave as it was.\<close>

definition same_send :: "rtu \<Rightarrow> rtu \<Rightarrow> bool" where
  "same_send s s' \<longleftrightarrow> wire s' = wire s \<and> told s' = told s \<and> reset_pending s' = reset_pending s
     \<and> is_blocking s' = is_blocking s \<and> packet s' = packet s"

lemma poll_timeout_send:
  assumes "\<not> qe_async e"
  shows "same_send s (poll_timeout e s) \<and> sync_msg (poll_timeout e s) = sync_msg s
    \<and> rtu_mode (poll_timeout e s) \<in> {ModBus_Exception, ModBus_TimeoutException}"
  using assms
  by (simp add: same_send_def poll_timeout_def be_silent_def upd_stats_def Let_def case_prod_beta snd_stream_read)

lemma no_byte [simp]: "uint (b :: u8) \<noteq> -1" "-1 \<noteq> uint (b :: u8)"
  using uint_nonnegative [of b] by linarith+

lemma be_silent_fields [simp]:
  "wire (be_silent s) = wire s" "told (be_silent s) = told s" "reset_pending (be_silent s) = reset_pending s"
  "is_blocking (be_silent s) = is_blocking s" "packet (be_silent s) = packet s"
  "sync_msg (be_silent s) = sync_msg s" "rtu_mode (be_silent s) = rtu_mode s"
  by (simp_all add: be_silent_def)

lemma upd_stats_fields [simp]:
  "wire (upd_stats f s) = wire s" "told (upd_stats f s) = told s"
  "reset_pending (upd_stats f s) = reset_pending s" "is_blocking (upd_stats f s) = is_blocking s"
  "packet (upd_stats f s) = packet s" "sync_msg (upd_stats f s) = sync_msg s"
  "rtu_mode (upd_stats f s) = rtu_mode s" "rx_buf (upd_stats f s) = rx_buf s"
  by (simp_all add: upd_stats_def)

lemma put_packet_sync: "packet s = Some SyncMsg \<Longrightarrow> put_packet e s = s\<lparr>sync_msg := e\<rparr>"
  by (simp add: put_packet_def)

lemma poll_reply_send:
  assumes "poll_reply e s = Some s'" "\<not> qe_async e" "packet s = Some SyncMsg"
  shows "same_send s s'
    \<and> (\<exists>adu. sync_msg s' = e\<lparr>qe_msg := (qe_msg e)\<lparr>mb_adu := adu, mb_rx_length := 0\<rparr>\<rparr>
        \<and> (rtu_mode s' = ModBus_Exception \<or> rtu_mode s' = ModBus_GotReply
           \<and> (mb_crc_check (qe_msg e) \<longrightarrow> crc_matches adu (unat (mb_rx_length (qe_msg e))))))"
proof -
  let ?n = "unat (mb_rx_length (qe_msg e))"
  let ?adu = "take ?n (rx_buf s) @ drop ?n (mb_adu (qe_msg e))"
  have "same_send s s' \<and> sync_msg s' = e\<lparr>qe_msg := (qe_msg e)\<lparr>mb_adu := ?adu, mb_rx_length := 0\<rparr>\<rparr>
     \<and> (rtu_mode s' = ModBus_Exception \<or> rtu_mode s' = ModBus_GotReply
           \<and> (mb_crc_check (qe_msg e) \<longrightarrow> crc_matches ?adu ?n))"
    using assms by (auto simp add: poll_reply_def Let_def same_send_def put_packet_sync split: if_splits)
  then show ?thesis by blast
qed

lemma if_some_cases:
  assumes "(if P then Some a else if Q then b else Some c) = Some x"
  obtains "a = x" | "b = Some x" | "c = x"
  using assms by (auto split: if_splits)

lemma send_inv_reply:
  assumes "work_ok msg cb k (sync_msg s)" "packet s = Some SyncMsg" "rtu_mode s = ModBus_AwaitReply"
    "poll_await s = Some s'" "mode_ok msg s"
  shows "same_send s s' \<and> work_ok msg cb k (sync_msg s') \<and> mode_ok msg s'"
proof -
  let ?s = "if rx_timer s \<noteq> 0 then s\<lparr>rx_timer := rx_timer s - 1\<rparr> else s"
  have e: "deref_packet s = Some (sync_msg s)" "\<not> qe_async (sync_msg s)"
    using assms by (simp_all add: deref_packet_def work_ok_def)
  have s: "packet ?s = Some SyncMsg" "same_send ?s x = same_send s x" "sync_msg ?s = sync_msg s" for x
    using assms(2) by (simp_all add: same_send_def)
  consider (timeout) "s' = poll_timeout (sync_msg s) ?s" | (reply) "poll_reply (sync_msg s) ?s = Some s'"
    | (wait) "s' = ?s"
    using assms(4) by (auto simp only: poll_await_def Let_def option.case e(1) elim!: if_some_cases)
  then show ?thesis
  proof cases
    case timeout
    with poll_timeout_send [OF e(2), of ?s] s show ?thesis
      using assms(1) by (auto simp: mode_ok_def)
  next
    case reply
    from poll_reply_send [OF this e(2) s(1)] show ?thesis
      using assms(1,3,5) s(2) by (auto simp: mode_ok_def work_ok_def reply_ok_def)
  next
    case wait
    then show ?thesis using assms by (auto simp: mode_ok_def same_send_def)
  qed
qed

lemma send_inv_poll:
  assumes "send_inv msg cb s0 (ph, s)" "\<forall>ok. ph \<noteq> Sent ok" "modbus_poll s = Some s'"
  shows "send_inv msg cb s0 (ph, s')"
proof (cases ph)
  case WaitIdle
  then show ?thesis using assms by (auto simp: modbus_poll_def poll_idle_def split: if_splits)
next
  case WaitReply
  then obtain k where i: "wire s = wire s0 @ replicate k (frame msg)" "work_ok msg cb k (sync_msg s)"
    "told s = told s0" "\<not> reset_pending s" "is_blocking s" "packet s = Some SyncMsg" "mode_ok msg s"
    using assms(1) by auto
  have e: "deref_packet s = Some (sync_msg s)" "\<not> qe_async (sync_msg s)"
    using i by (simp_all add: deref_packet_def work_ok_def)
  show ?thesis
  proof (cases "spin_lock s")
    case True
    then show ?thesis using assms by (simp add: modbus_poll_def)
  next
    case False
    show ?thesis
    proof (cases "rtu_mode s")
      case ModBus_TX
      then show ?thesis
        using assms(3) i False WaitReply
        by (auto simp: modbus_poll_def poll_tx_def poll_defs mode_ok_def split: if_splits)
    next
      case ModBus_AwaitReply
      then have "poll_await s = Some s'" using assms(3) False by (simp add: modbus_poll_def)
      from send_inv_reply [OF i(2,6) ModBus_AwaitReply this i(7)] show ?thesis
        using i WaitReply by (auto simp: same_send_def)
    next
      case ModBus_TimeoutException
      then show ?thesis
        using assms(3) i False WaitReply e(2)
        by (auto simp: modbus_poll_def poll_timeout_exception_def poll_defs mode_ok_def)
    qed (use assms(1,3) i False in \<open>auto simp: modbus_poll_def mode_ok_def\<close>)
  qed
qed (use assms in simp)

lemma tell_code_client:
  assumes "h \<noteq> Some RetryHandler"
  shows "tell_code h code ctx s = s\<lparr>told := told s @ told_of h (\<lambda>h. GotCode h code ctx)\<rparr>"
  using assms by (auto simp: tell_code_def told_of_def split: option.split modbus_handler.split)

lemma tell_code_retry:
  assumes "packet s = Some SyncMsg" "cb_retries (qe_callbacks (sync_msg s)) \<noteq> 0"
  shows "\<exists>st t. tell_code (Some RetryHandler) code ctx s
    = s\<lparr>rtu_mode := ModBus_Retry, silence_until := t, stats := st\<rparr>"
  using assms by (auto simp: tell_code_def retry_exception_def deref_packet_def upd_stats_def intro!: exI)

definition client_ok :: "modbus_callbacks \<Rightarrow> bool" where
  "client_ok cb \<longleftrightarrow> cb_on_rx_exception cb \<noteq> Some RetryHandler \<and> cb_on_rx_timeout cb \<noteq> Some RetryHandler"

lemma send_end_fields [simp]:
  "wire (send_end s) = wire s" "told (send_end s) = told s" "is_blocking (send_end s) = False"
  "packet (send_end s) = None"
  by (simp_all add: send_end_def)

lemma send_inv_sent:
  assumes "wire s = wire s0 @ replicate k (frame msg)" "1 \<le> k" "k \<le> 1 + unat (cb_retries cb)"
    "told s = told s0 @ ts" "report_ok msg cb ok ts"
  shows "send_inv msg cb s0 (Sent ok, send_end s)"
proof -
  have "rtu_mode (send_end s) \<in> {ModBus_Silent, ModBus_Idle}" by (simp add: send_end_def)
  then show ?thesis using assms by auto
qed

text \<open>A failure with retries left asks for a retry, the last one is reported.\<close>

lemma send_inv_failed:
  assumes "wire s = wire s0 @ replicate k (frame msg)" "work_ok msg cb k (sync_msg s)" "told s = told s0"
    "\<not> reset_pending s" "packet s = Some SyncMsg" "client_ok cb"
    and "h \<in> {cb_on_rx_exception (qe_callbacks (sync_msg s)), cb_on_rx_timeout (qe_callbacks (sync_msg s))}"
    and "s' = tell_code h code (mb_context msg) s"
  shows "cb_retries (qe_callbacks (sync_msg s)) \<noteq> 0 \<Longrightarrow>
      send_inv msg cb s0 (WaitReply, s'\<lparr>is_blocking := True\<rparr>)"
    and "cb_retries (qe_callbacks (sync_msg s)) = 0 \<Longrightarrow>
      send_inv msg cb s0 (Sent False, send_end (s'\<lparr>is_blocking := False\<rparr>))"
      "cb_retries (qe_callbacks (sync_msg s)) = 0 \<Longrightarrow>
      send_inv msg cb s0 (Sent False, send_end (upd_stats f (s'\<lparr>is_blocking := False\<rparr>)))"
proof -
  show "send_inv msg cb s0 (WaitReply, s'\<lparr>is_blocking := True\<rparr>)"
    if "cb_retries (qe_callbacks (sync_msg s)) \<noteq> 0"
  proof -
    have "h = Some RetryHandler" using assms(2,7) that by (auto simp: work_ok_def)
    with tell_code_retry [OF assms(5) that] assms(8) obtain st t where
      "s' = s\<lparr>rtu_mode := ModBus_Retry, silence_until := t, stats := st\<rparr>" by blast
    then show ?thesis using assms(1-5) that by (auto simp: mode_ok_def)
  qed
  have "send_inv msg cb s0 (Sent False, send_end (g (s'\<lparr>is_blocking := False\<rparr>)))"
    if "cb_retries (qe_callbacks (sync_msg s)) = 0" "\<And>x. wire (g x) = wire x \<and> told (g x) = told x" for g
  proof -
    have h: "h \<in> {cb_on_rx_exception cb, timeout_handler cb}" using assms(2,7) that by (auto simp: work_ok_def)
    then have "h \<noteq> Some RetryHandler" using assms(6) by (auto simp: client_ok_def timeout_handler_def split: if_splits)
    from tell_code_client [OF this] assms(8) have s': "wire s' = wire s"
      "told s' = told s0 @ told_of h (\<lambda>h. GotCode h code (mb_context msg))" using assms(3) by simp_all
    have "report_ok msg cb False (told_of h (\<lambda>h. GotCode h code (mb_context msg)))"
      using h by (auto simp: report_ok_def)
    moreover have "1 \<le> k" "k \<le> 1 + unat (cb_retries cb)" using assms(2) by (simp_all add: work_ok_def)
    ultimately show ?thesis using assms(1) s' that(2)
      by (intro send_inv_sent [where k = k and ts = "told_of h (\<lambda>h. GotCode h code (mb_context msg))"]) simp_all
  qed
  from this [where g = "\<lambda>s. s"] this [where g = "upd_stats f"]
  show "cb_retries (qe_callbacks (sync_msg s)) = 0 \<Longrightarrow>
      send_inv msg cb s0 (Sent False, send_end (s'\<lparr>is_blocking := False\<rparr>))"
      "cb_retries (qe_callbacks (sync_msg s)) = 0 \<Longrightarrow>
      send_inv msg cb s0 (Sent False, send_end (upd_stats f (s'\<lparr>is_blocking := False\<rparr>)))"
    by simp_all
qed

lemma send_inv_retry:
  assumes "wire s = wire s0 @ replicate k (frame msg)" "work_ok msg cb k (sync_msg s)" "told s = told s0"
    "\<not> reset_pending s" "is_blocking s" "cb_retries (qe_callbacks (sync_msg s)) \<noteq> 0"
  shows "send_inv msg cb s0
    (WaitReply, transmit msg (retry_callbacks cb (qe_callbacks (sync_msg s))) (s\<lparr>silence_until := 0\<rparr>))"
proof -
  let ?c = "retry_callbacks cb (qe_callbacks (sync_msg s))" and ?r = "cb_retries (qe_callbacks (sync_msg s))"
  have "unat (?r - 1) = unat ?r - 1" "0 < unat ?r"
    using assms(6) by (simp_all add: unat_minus_one unat_gt_0)
  moreover have "cb_retries ?c = ?r - 1" by (simp add: retry_callbacks_def Let_def)
  ultimately have k: "k + unat (cb_retries ?c) = unat (cb_retries cb)"
    using assms(2) by (simp add: work_ok_def)
  have "cb_on_rx_packet ?c = cb_on_rx_packet cb"
    using assms(2) by (simp add: retry_callbacks_def Let_def work_ok_def)
  moreover have "cb_on_rx_exception ?c = cb_on_rx_exception cb \<and> timeout_handler ?c = timeout_handler cb"
    if "cb_retries ?c = 0"
    using that by (auto simp: retry_callbacks_def Let_def timeout_handler_def split: if_splits)
  ultimately have "\<exists>k. wire (transmit msg ?c (s\<lparr>silence_until := 0\<rparr>)) = wire s0 @ replicate k (frame msg)
      \<and> work_ok msg cb k (sync_msg (transmit msg ?c (s\<lparr>silence_until := 0\<rparr>)))"
    and "told (transmit msg ?c (s\<lparr>silence_until := 0\<rparr>)) = told s0"
    "\<not> reset_pending (transmit msg ?c (s\<lparr>silence_until := 0\<rparr>))"
    "is_blocking (transmit msg ?c (s\<lparr>silence_until := 0\<rparr>))"
    "packet (transmit msg ?c (s\<lparr>silence_until := 0\<rparr>)) = Some SyncMsg"
    "mode_ok msg (transmit msg ?c (s\<lparr>silence_until := 0\<rparr>))"
    using transmit_fields [of "s\<lparr>silence_until := 0\<rparr>" k ?c cb msg] k assms
    by (auto simp: replicate_append_same intro!: exI [of _ "Suc k"])
  then show ?thesis by simp
qed

lemma send_inv_run:
  assumes "send_inv msg cb s0 (ph, s)" "client_ok cb" "\<forall>ok. ph \<noteq> Sent ok" "send_step msg cb ph s = Some y"
  shows "send_inv msg cb s0 y"
proof (cases ph)
  case WaitIdle
  then have i: "wire s = wire s0" "told s = told s0" "\<not> reset_pending s" "is_blocking s"
    and y: "y = (WaitReply, transmit msg cb s)"
    using assms(1,4) by (auto simp: send_step_def)
  show ?thesis
    using transmit_fields [of s 0 cb cb msg] i y by (auto intro!: exI [of _ "Suc 0"])
next
  case WaitReply
  then obtain k where i: "wire s = wire s0 @ replicate k (frame msg)" "work_ok msg cb k (sync_msg s)"
    "told s = told s0" "\<not> reset_pending s" "is_blocking s" "packet s = Some SyncMsg" "mode_ok msg s"
    using assms(1) by auto
  let ?c = "qe_callbacks (sync_msg s)"
  have e: "deref_packet s = Some (sync_msg s)" "mb_context (qe_msg (sync_msg s)) = mb_context msg"
    using i by (simp_all add: deref_packet_def work_ok_def)
  have r: "cb_retries ?c > 0 \<longleftrightarrow> cb_retries ?c \<noteq> 0" by (simp add: word_gt_0)
  note failed = send_inv_failed [OF i(1,2,3,4,6) assms(2)]
  show ?thesis
  proof (cases "rtu_mode s")
    case ModBus_TimeoutException
    then show ?thesis
      using assms(4) WaitReply failed [of "cb_on_rx_timeout ?c" _ ModBus_Timeout]
      by (cases "cb_retries ?c = 0") (auto simp: send_step_def send_pass_def e r Let_def simp del: send_inv.simps)
  next
    case ModBus_Exception
    then show ?thesis
      using assms(4) WaitReply failed [of "cb_on_rx_exception ?c" _ "exception_code s"]
      by (cases "cb_retries ?c = 0") (auto simp: send_step_def send_pass_def e r Let_def simp del: send_inv.simps)
  next
    case ModBus_GotReply
    then have y: "y = (Sent True, send_end ((tell_packet (cb_on_rx_packet cb) (qe_msg (sync_msg s)) s)\<lparr>is_blocking := False\<rparr>))"
      using assms(4) WaitReply i(2) by (simp add: send_step_def send_pass_def e Let_def work_ok_def)
    let ?ts = "told_of (cb_on_rx_packet cb) (\<lambda>h. GotPacket h (qe_msg (sync_msg s)))"
    have "report_ok msg cb True ?ts"
      using ModBus_GotReply i(7) by (auto simp: report_ok_def mode_ok_def)
    moreover have "1 \<le> k" "k \<le> 1 + unat (cb_retries cb)" using i(2) by (simp_all add: work_ok_def)
    moreover have "told (tell_packet (cb_on_rx_packet cb) (qe_msg (sync_msg s)) s) = told s0 @ ?ts"
      "wire (tell_packet (cb_on_rx_packet cb) (qe_msg (sync_msg s)) s) = wire s"
      using i(3) by (auto simp: tell_packet_def told_of_def split: option.split)
    ultimately show ?thesis
      unfolding y using i(1) by (intro send_inv_sent [where k = k and ts = ?ts]) simp_all
  next
    case ModBus_Retry
    with i(7) have "cb_retries ?c \<noteq> 0" by (simp add: mode_ok_def)
    from send_inv_retry [OF i(1-5) this] show ?thesis
      using ModBus_Retry assms(1,4) WaitReply i
      by (auto simp: send_step_def send_pass_def e Let_def simp del: send_inv.simps split: if_splits)
  qed (use assms(1,4) WaitReply i in \<open>auto simp: send_step_def send_pass_def mode_ok_def simp del: send_inv.simps\<close>)
qed (use assms in simp)

text \<open>A send that starts on an idle bus; \<open>msg\<close> is the message with its checksum.\<close>

definition send_start :: "modbus_message \<Rightarrow> modbus_callbacks \<Rightarrow> rtu \<Rightarrow> send_phase \<times> rtu \<Rightarrow> bool" where
  "send_start msg cb s0 x \<longleftrightarrow>
     client_ok cb \<and> rtu_mode s0 = ModBus_Idle \<and> \<not> reset_pending s0
     \<and> (\<exists>m. modbus_send_rtu m cb True s0 = Some (fst x, msg, snd x)) \<and> fst x = WaitIdle"

lemma mode_ok_env [simp]:
  "mode_ok msg (s\<lparr>ticks := t\<rparr>) = mode_ok msg s" "mode_ok msg (s\<lparr>rx_buf := b\<rparr>) = mode_ok msg s"
  "mode_ok msg (s\<lparr>tx_pending := n\<rparr>) = mode_ok msg s"
  by (cases "rtu_mode s"; simp add: mode_ok_def)+

interpretation rtu_send: inductive_invariant "send_start msg cb s0" "send_sys msg cb"
  "\<lambda>x. client_ok cb \<and> send_inv msg cb s0 x" for msg cb s0
proof
  fix x assume "send_start msg cb s0 x"
  then show "client_ok cb \<and> send_inv msg cb s0 x"
    by (cases x) (auto simp: send_start_def modbus_send_rtu_def Let_def split: if_splits)
next
  fix x y assume i: "client_ok cb \<and> send_inv msg cb s0 x" and "send_sys msg cb x y"
  from this(2) show "client_ok cb \<and> send_inv msg cb s0 y"
  proof (rule send_sysE)
    fix ph s assume p: "x = (ph, s)" "\<forall>ok. ph \<noteq> Sent ok"
    show ?thesis if "send_step msg cb ph s = Some y"
      using send_inv_run [of msg cb s0 ph s y] i p that by simp
    show ?thesis if "y = (ph, s')" "modbus_poll s = Some s'" for s'
      using send_inv_poll [of msg cb s0 ph s s'] i p that by simp
    show ?thesis if "y = (ph, s\<lparr>ticks := ticks s + 1\<rparr>)"
      using i p that by (cases ph) auto
    show ?thesis if "y = (ph, s\<lparr>rx_buf := rx_buf s @ bs\<rparr>)" for bs
      using i p that by (cases ph) auto
    show ?thesis if "y = (ph, s\<lparr>tx_pending := n\<rparr>)" for n
      using i p that by (cases ph) auto
  qed
qed

text \<open>
  C25. However the poll, time and the bytes of the bus interleave with a blocking send on an idle
  bus: when it returns, its frame went out at least once and at most once more than its number of
  retries, the client was told once, by the reply handler with a reply of the right checksum when
  the result is true, else by the handler of exceptions or timeouts, and the bus is free again.
\<close>

theorem blocking_send_reports_once:
  assumes "reach (send_start msg cb s0) (send_sys msg cb) (Sent ok, s)"
  shows "(\<exists>k. wire s = wire s0 @ replicate k (frame msg) \<and> 1 \<le> k \<and> k \<le> 1 + unat (cb_retries cb))
    \<and> (\<exists>ts. told s = told s0 @ ts \<and>
        (if ok then \<exists>m. ts = told_of (cb_on_rx_packet cb) (\<lambda>h. GotPacket h m) \<and> mb_context m = mb_context msg
             \<and> (mb_crc_check msg \<longrightarrow> crc_matches (mb_adu m) (unat (mb_rx_length msg)))
         else \<exists>h code. h \<in> {cb_on_rx_exception cb, timeout_handler cb}
             \<and> ts = told_of h (\<lambda>h. GotCode h code (mb_context msg))))
    \<and> \<not> is_blocking s \<and> packet s = None \<and> rtu_mode s \<in> {ModBus_Silent, ModBus_Idle}"
  using rtu_send.reach_inv [OF assms] by (cases ok) (auto simp: report_ok_def reply_ok_def)

lemma blocking_send_reports_once_witness:
  "\<exists>msg s. reach (send_start msg (callbacks\<lparr>cb_retries := 0\<rparr>) (rtu_idle\<lparr>cfg_rx_timeout := 1\<rparr>))
       (send_sys msg (callbacks\<lparr>cb_retries := 0\<rparr>)) (Sent False, s)
     \<and> length (wire s) = 1"
proof -
  let ?cb = "callbacks\<lparr>cb_retries := 0\<rparr>" and ?start = "rtu_idle\<lparr>cfg_rx_timeout := 1\<rparr>"
    and ?msg = "append_crc rtu_request"
  let ?s = "?start\<lparr>is_blocking := True\<rparr>"
  have "modbus_send_rtu rtu_request ?cb True ?start = Some (WaitIdle, ?msg, ?s)"
  proof -
    have "unat (mb_tx_length rtu_request) = 8" "unat (mb_rx_length rtu_request) = 7"
      by (simp_all add: rtu_request_def)
    moreover have "\<not> spin_lock ?start" "\<not> blocking_event ?start" "\<not> is_blocking ?start"
      by (simp_all add: rtu_idle_def)
    ultimately show ?thesis by (simp add: modbus_send_rtu_def MODBUS_MAX_ADU_SIZE_def)
  qed
  then have 0: "reach (send_start ?msg ?cb ?start) (send_sys ?msg ?cb) (WaitIdle, ?s)"
    by (intro reach_init) (auto simp: send_start_def client_ok_def callbacks_def rtu_idle_def)
  obtain s1 where s1: "send_step ?msg ?cb WaitIdle ?s = Some (WaitReply, s1)"
    and w: "rtu_mode s1 = ModBus_TX" "rx_timer s1 = 1" "packet s1 = Some SyncMsg" "is_blocking s1" "\<not> spin_lock s1"
      "tx_direction s1 = None" "sync_msg s1 = \<lparr>qe_async = False, qe_msg = ?msg, qe_callbacks = ?cb\<rparr>"
    by (simp add: send_step_def transmit_def add_message_def tx_message_def poll_defs rtu_idle_def
        callbacks_def entry_callbacks_def)
  obtain s2 where s2: "modbus_poll (s1\<lparr>tx_pending := 0\<rparr>) = Some s2"
    and w2: "rtu_mode s2 = ModBus_AwaitReply" "rx_timer s2 = 1" "packet s2 = Some SyncMsg" "is_blocking s2"
      "\<not> spin_lock s2" "rx_buf s2 = []" "sync_msg s2 = sync_msg s1"
    using w by (simp add: modbus_poll_def poll_tx_def poll_defs)
  obtain s3 where s3: "modbus_poll s2 = Some s3" and w3: "rtu_mode s3 = ModBus_TimeoutException"
      "packet s3 = Some SyncMsg" "is_blocking s3" "sync_msg s3 = sync_msg s1"
    using w w2 by (simp add: modbus_poll_def poll_await_def poll_timeout_def poll_defs stream_read_def)
  obtain s4 where s4: "send_step ?msg ?cb WaitReply s3 = Some (Sent False, s4)"
    using w w3 by (simp add: send_step_def send_pass_def poll_defs callbacks_def tell_code_def)
  note s = s1 s2 s3 s4
  have "reach (send_start ?msg ?cb ?start) (send_sys ?msg ?cb) (WaitReply, s1)"
    by (rule reach_step [OF 0]) (rule sys_run [OF _ s(1)], simp)
  then have "reach (send_start ?msg ?cb ?start) (send_sys ?msg ?cb) (WaitReply, s1\<lparr>tx_pending := 0\<rparr>)"
    by (rule reach_step) (rule sys_drain, simp_all)
  then have "reach (send_start ?msg ?cb ?start) (send_sys ?msg ?cb) (WaitReply, s2)"
    by (rule reach_step) (rule sys_poll [OF _ s(2)], simp)
  then have "reach (send_start ?msg ?cb ?start) (send_sys ?msg ?cb) (WaitReply, s3)"
    by (rule reach_step) (rule sys_poll [OF _ s(3)], simp)
  then have r: "reach (send_start ?msg ?cb ?start) (send_sys ?msg ?cb) (Sent False, s4)"
    by (rule reach_step) (rule sys_run [OF _ s(4)], simp)
  with blocking_send_reports_once [OF r] show ?thesis
    by (intro exI [of _ ?msg] exI [of _ s4]) (auto simp: rtu_idle_def callbacks_def)
qed

section \<open>A reply with a wrong checksum\<close>

text \<open>
  When the reply to a blocking send has a wrong checksum and no retries are left, its client is
  told the code of the last exception any server sent, since the checksum error sets none: on a
  driver that has seen no exception that is 0, the code for no exception.
\<close>

theorem crc_error_tells_last_code:
  assumes "rtu_mode s = ModBus_AwaitReply" "packet s = Some SyncMsg" "\<not> spin_lock s" "rx_timer s \<noteq> 1"
    and "e = sync_msg s" "\<not> qe_async e" "n = unat (mb_rx_length (qe_msg e))" "n \<in> {2..12}" "n \<le> length (rx_buf s)"
    and "mb_crc_check (qe_msg e)" "\<not> crc_matches (take n (rx_buf s) @ drop n (mb_adu (qe_msg e))) n"
    and "cb_retries (qe_callbacks e) = 0" "cb_on_rx_exception (qe_callbacks e) = Some (Handler h)"
  shows "\<exists>s1 s2. modbus_poll s = Some s1 \<and> send_step msg cb WaitReply s1 = Some (Sent False, s2)
    \<and> told s2 = told s @ [GotCode (Handler h) (exception_code s) (mb_context (qe_msg e))]"
proof -
  obtain s1 where s1: "modbus_poll s = Some s1" "rtu_mode s1 = ModBus_Exception"
    "packet s1 = Some SyncMsg" "exception_code s1 = exception_code s" "told s1 = told s"
    "qe_callbacks (sync_msg s1) = qe_callbacks e" "mb_context (qe_msg (sync_msg s1)) = mb_context (qe_msg e)"
    using assms
    by (cases "rx_timer s = 0")
      (simp_all add: modbus_poll_def poll_await_def deref_packet_def poll_reply_def MODBUS_MAX_ADU_SIZE_def
        put_packet_sync Let_def be_silent_def upd_stats_def)
  then have "\<exists>s2. send_step msg cb WaitReply s1 = Some (Sent False, s2)
      \<and> told s2 = told s @ [GotCode (Handler h) (exception_code s) (mb_context (qe_msg e))]"
    using assms by (simp add: send_step_def send_pass_def deref_packet_def Let_def tell_code_def)
  with s1(1) show ?thesis by blast
qed

lemma crc_error_tells_last_code_witness:
  "\<exists>s s1 s2. exception_code s = ModBus_NoException \<and> modbus_poll s = Some s1
     \<and> send_step rtu_request callbacks WaitReply s1 = Some (Sent False, s2)
     \<and> told s2 = [GotCode (Handler 1) ModBus_NoException 7]"
proof -
  let ?bs = "replicate 7 0 :: u8 list"
  let ?s = "rtu_idle\<lparr>rtu_mode := ModBus_AwaitReply, packet := Some SyncMsg, rx_timer := 50, rx_buf := ?bs,
    sync_msg := \<lparr>qe_async = False, qe_msg = rtu_request, qe_callbacks = callbacks\<lparr>cb_retries := 0\<rparr>\<rparr>\<rparr>"
  have c: "\<not> crc_matches (take 7 ?bs @ drop 7 (mb_adu rtu_request)) 7" by code_simp
  have "\<exists>s1 s2. modbus_poll ?s = Some s1 \<and> send_step rtu_request callbacks WaitReply s1 = Some (Sent False, s2)
    \<and> told s2 = told ?s @ [GotCode (Handler 1) (exception_code ?s)
         (mb_context (qe_msg (sync_msg ?s)))]"
    by (rule crc_error_tells_last_code [where n = 7, OF _ _ _ _ refl])
      (use c in \<open>simp_all add: rtu_idle_def rtu_request_def callbacks_def\<close>)
  then obtain s1 s2 where "modbus_poll ?s = Some s1"
    "send_step rtu_request callbacks WaitReply s1 = Some (Sent False, s2)"
    "told s2 = told ?s @ [GotCode (Handler 1) (exception_code ?s) (mb_context (qe_msg (sync_msg ?s)))]" by blast
  moreover have "exception_code ?s = 0" "told ?s = []" "mb_context (qe_msg (sync_msg ?s)) = 7"
    by (simp_all add: rtu_idle_def rtu_request_def)
  ultimately show ?thesis by (intro exI [of _ ?s] exI [of _ s1] exI [of _ s2]) simp
qed

end
