(* ===== verification/Planner.thy ===== *)
theory Planner
  imports GrblPrelude
begin

text \<open>
  \<open>grbl/planner.c\<close>: the look-ahead planner, and \<open>st_update_plan_block_parameters\<close> of \<open>stepper.c\<close>
  that it calls. The ring of blocks is a list with the pointers as indices; the links \<open>prev\<close> and
  \<open>next\<close>, set once when the ring is built, are arithmetic on the index. Speeds are real numbers,
  steps are integers. The loops over the ring carry fuel, one unit per slot.
\<close>

section \<open>Data\<close>

definition SOME_LARGE_VALUE :: real where "SOME_LARGE_VALUE = 10 ^ 38"

definition MINIMUM_FEED_RATE :: real where "MINIMUM_FEED_RATE = 1"

definition MINIMUM_JUNCTION_SPEED :: real where "MINIMUM_JUNCTION_SPEED = 0"

definition DEFAULT_FEED_OVERRIDE :: nat where "DEFAULT_FEED_OVERRIDE = 100"

definition DEFAULT_RAPID_OVERRIDE :: nat where "DEFAULT_RAPID_OVERRIDE = 100"

definition MIN_FEED_RATE_OVERRIDE :: nat where "MIN_FEED_RATE_OVERRIDE = 10"

definition MAX_FEED_RATE_OVERRIDE :: nat where "MAX_FEED_RATE_OVERRIDE = 200"

record planner_cond =
  c_rapid_motion :: bool
  c_system_motion :: bool
  c_jog_motion :: bool
  c_backlash_motion :: bool
  c_no_feed_override :: bool
  c_inverse_time :: bool
  c_units_per_rev :: bool
  c_is_rpm_rate_adjusted :: bool
  c_is_laser_ppi_mode :: bool
  c_target_valid :: bool
  c_target_validated :: bool
  c_probing_toolsetter :: bool
  c_coolant :: u8

text \<open>Constant surface speed data, shared by pointer.\<close>

record css_data =
  css_surface_speed :: real
  css_target_rpm :: real
  css_delta_rpm :: real
  css_max_rpm :: real
  css_tool_offset :: real
  css_axis :: nat

record line_spindle =
  ls_on :: bool
  ls_synchronized :: bool
  ls_css :: "nat option"
  ls_rpm :: real
  ls_hal :: nat

record planner_block =
  b_steps :: "nat list"
  b_step_event_count :: nat
  b_direction :: "bool list"
  b_offset_id :: nat
  b_overrides :: u32
  b_condition :: planner_cond
  b_line_number :: int
  b_target_mm :: "real list"
  b_entry_speed_sqr :: real
  b_max_entry_speed_sqr :: real
  b_acceleration :: real
  b_millimeters :: real
  b_max_junction_speed_sqr :: real
  b_rapid_rate :: real
  b_programmed_rate :: real
  b_rate_multiplier :: real
  b_spindle :: line_spindle
  b_message :: "string option"
  b_output_commands :: "nat list"

record line_data =
  pd_feed_rate :: real
  pd_rate_multiplier :: real
  pd_spindle :: line_spindle
  pd_condition :: planner_cond
  pd_overrides :: u32
  pd_offset_id :: nat
  pd_line_number :: int
  pd_message :: "string option"
  pd_output_commands :: "nat list"

datatype planner_event =
  OverrideChangedFeed | OverrideChangedRapid | ReportOverrides | AddSyncVelocityTask | BufferSizeReduced

record planner =
  pb_size :: nat
  pb_blocks :: "planner_block list"
  pb_tail :: nat
  pb_head :: nat
  pb_next_head :: nat
  pb_planned :: nat
  p_position :: "int list"
  p_previous_unit_vec :: "real list"
  p_previous_nominal_speed :: real
  p_actual_rpm :: real
  p_feed_rate :: nat
  p_rapid_rate :: nat
  p_direction :: "bool list"
  css_mem :: "nat \<Rightarrow> css_data"
  rpm_sensor :: "nat \<Rightarrow> real"
  st_pl_block :: "nat option"
  st_current_speed :: real
  st_velocity_profile :: bool
  sys_position :: "int list"
  sys_feed_rate :: nat
  sys_rapid_rate :: nat
  sys_rates_disable :: bool
  axis_steps_per_mm :: "real list"
  axis_acceleration :: "real list"
  axis_max_rate :: "real list"
  junction_deviation :: real
  planner_buffer_blocks :: nat
  p_events :: "planner_event list"

section \<open>The ring\<close>

definition next_slot :: "planner \<Rightarrow> nat \<Rightarrow> nat" where
  "next_slot s i = (if i = pb_size s then 0 else i + 1)"

definition prev_slot :: "planner \<Rightarrow> nat \<Rightarrow> nat" where
  "prev_slot s i = (if i = 0 then pb_size s else i - 1)"

definition upd_block :: "nat \<Rightarrow> (planner_block \<Rightarrow> planner_block) \<Rightarrow> planner \<Rightarrow> planner" where
  "upd_block i f s = s\<lparr>pb_blocks := (pb_blocks s)[i := f (pb_blocks s ! i)]\<rparr>"

definition planner_emit :: "planner_event \<Rightarrow> planner \<Rightarrow> planner" where
  "planner_emit e s = s\<lparr>p_events := p_events s @ [e]\<rparr>"

definition accel_dist :: "planner_block \<Rightarrow> real" where
  "accel_dist b = 2 * b_acceleration b * b_millimeters b"

text \<open>The stepper's part, called with \<open>false\<close>: the block in execution gets the speed it has reached.\<close>

definition st_update_plan_block_parameters :: "planner \<Rightarrow> planner" where
  "st_update_plan_block_parameters s =
     (case st_pl_block s of
        None \<Rightarrow> s
      | Some i \<Rightarrow>
          (upd_block i (\<lambda>b. b\<lparr>b_entry_speed_sqr := st_current_speed s * st_current_speed s\<rparr>) s)
            \<lparr>st_velocity_profile := True, st_pl_block := None\<rparr>)"

text \<open>The reverse pass: \<open>current\<close> has its new entry speed, \<open>block\<close> is the one before it.\<close>

fun reverse_pass :: "nat \<Rightarrow> nat \<Rightarrow> nat \<Rightarrow> planner \<Rightarrow> planner option" where
  "reverse_pass 0 current block s = None"
| "reverse_pass (Suc k) current block s =
     (if block = pb_planned s then Some s
      else
        let nxt = current; current = block; block = prev_slot s block;
            s = (if block = pb_tail s then st_update_plan_block_parameters s else s);
            c = pb_blocks s ! current;
            entry = b_entry_speed_sqr (pb_blocks s ! nxt) + accel_dist c;
            s = (if b_entry_speed_sqr c \<noteq> b_max_entry_speed_sqr c
                 then upd_block current (\<lambda>b. b\<lparr>b_entry_speed_sqr :=
                        (if entry < b_max_entry_speed_sqr c then entry else b_max_entry_speed_sqr c)\<rparr>) s
                 else s)
        in reverse_pass k current block s)"

fun forward_pass :: "nat \<Rightarrow> nat \<Rightarrow> nat \<Rightarrow> planner \<Rightarrow> planner option" where
  "forward_pass 0 nxt block s = None"
| "forward_pass (Suc k) nxt block s =
     (if block = pb_head s then Some s
      else
        let current = nxt; nxt = block;
            c = pb_blocks s ! current;
            entry = b_entry_speed_sqr c + accel_dist c;
            s = (if b_entry_speed_sqr c < b_entry_speed_sqr (pb_blocks s ! nxt)
                    \<and> entry < b_entry_speed_sqr (pb_blocks s ! nxt)
                 then (upd_block nxt (\<lambda>b. b\<lparr>b_entry_speed_sqr := entry\<rparr>) s)\<lparr>pb_planned := block\<rparr> else s);
            n = pb_blocks s ! nxt;
            s = (if b_entry_speed_sqr n = b_max_entry_speed_sqr n then s\<lparr>pb_planned := block\<rparr> else s)
        in forward_pass k nxt (next_slot s block) s)"

definition planner_recalculate :: "planner \<Rightarrow> planner option" where
  "planner_recalculate s =
     (let block = prev_slot s (pb_head s); fuel = pb_size s + 1
      in if block = pb_planned s then Some s
         else
           let s = upd_block block (\<lambda>b. b\<lparr>b_entry_speed_sqr := min (b_max_entry_speed_sqr b) (accel_dist b)\<rparr>) s;
               current = block; block = prev_slot s block
           in Option.bind
                (if block = pb_planned s
                 then Some (if block = pb_tail s then st_update_plan_block_parameters s else s)
                 else reverse_pass fuel current block s)
                (\<lambda>s. forward_pass fuel (pb_planned s) (next_slot s (pb_planned s)) s))"

definition plan_cleanup :: "planner_block \<Rightarrow> planner_block" where
  "plan_cleanup b = b\<lparr>b_message := None\<rparr>"

text \<open>The blocks freed from \<open>tail\<close> on; then all pointers point at the first slot.\<close>

fun cleanup_pending :: "nat \<Rightarrow> planner \<Rightarrow> planner option" where
  "cleanup_pending 0 s = None"
| "cleanup_pending (Suc k) s =
     (if pb_tail s = pb_head s then Some s
      else let s = upd_block (pb_tail s) plan_cleanup s
           in cleanup_pending k (s\<lparr>pb_tail := next_slot s (pb_tail s)\<rparr>))"

definition plan_reset_buffer :: "bool \<Rightarrow> planner \<Rightarrow> planner option" where
  "plan_reset_buffer init s =
     map_option (\<lambda>s. s\<lparr>pb_planned := 0, pb_tail := 0, pb_head := 0, pb_next_head := next_slot s 0\<rparr>)
       (if init then Some s else cleanup_pending (pb_size s + 1) s)"

definition plan_get_buffer_size :: "planner \<Rightarrow> nat" where
  "plan_get_buffer_size s = pb_size s"

text \<open>Whether there is room, and the size tried last; it stops at 40 blocks.\<close>

function alloc_size :: "(nat \<Rightarrow> bool) \<Rightarrow> nat \<Rightarrow> bool \<times> nat" where
  "alloc_size malloc n =
     (if malloc (n + 1) then (True, n)
      else if 40 < n then alloc_size malloc (n - (if 250 \<le> n then 100 else 10))
      else (False, n))"
  by pat_completeness auto
termination by (relation "measure snd") auto

declare alloc_size.simps [simp del]

definition cond_zero :: planner_cond where
  "cond_zero = \<lparr>c_rapid_motion = False, c_system_motion = False, c_jog_motion = False,
     c_backlash_motion = False, c_no_feed_override = False, c_inverse_time = False,
     c_units_per_rev = False, c_is_rpm_rate_adjusted = False, c_is_laser_ppi_mode = False,
     c_target_valid = False, c_target_validated = False, c_probing_toolsetter = False, c_coolant = 0\<rparr>"

definition spindle_zero :: line_spindle where
  "spindle_zero = \<lparr>ls_on = False, ls_synchronized = False, ls_css = None, ls_rpm = 0, ls_hal = 0\<rparr>"

definition block_zero :: planner_block where
  "block_zero = \<lparr>b_steps = replicate N_AXIS 0, b_step_event_count = 0,
     b_direction = replicate N_AXIS False, b_offset_id = 0, b_overrides = 0, b_condition = cond_zero,
     b_line_number = 0, b_target_mm = replicate N_AXIS 0, b_entry_speed_sqr = 0,
     b_max_entry_speed_sqr = 0, b_acceleration = 0, b_millimeters = 0, b_max_junction_speed_sqr = 0,
     b_rapid_rate = 0, b_programmed_rate = 0, b_rate_multiplier = 0, b_spindle = spindle_zero,
     b_message = None, b_output_commands = []\<rparr>"

definition plan_reset :: "(nat \<Rightarrow> bool) \<Rightarrow> planner \<Rightarrow> (bool \<times> planner) option" where
  "plan_reset malloc s =
     (let (s, init) =
        (if pb_blocks s = [] then
           (let (ok, n) = alloc_size malloc (planner_buffer_blocks s);
                s = s\<lparr>pb_size := n, pb_blocks := (if ok then replicate (n + 1) block_zero else [])\<rparr>
            in (if n \<noteq> planner_buffer_blocks s then planner_emit BufferSizeReduced s else s, True))
         else (s, False))
      in if pb_blocks s = [] then Some (False, s)
         else map_option (Pair True)
           (plan_reset_buffer init
             (s\<lparr>p_position := replicate N_AXIS 0, p_previous_unit_vec := replicate N_AXIS 0,
                p_previous_nominal_speed := 0, p_actual_rpm := 0,
                p_feed_rate := sys_feed_rate s, p_rapid_rate := sys_rapid_rate s\<rparr>)))"

definition plan_discard_current_block :: "planner \<Rightarrow> planner" where
  "plan_discard_current_block s =
     (if pb_tail s \<noteq> pb_head s then
        let s = upd_block (pb_tail s) plan_cleanup s;
            s = (if pb_tail s = pb_planned s then s\<lparr>pb_planned := next_slot s (pb_tail s)\<rparr> else s)
        in s\<lparr>pb_tail := next_slot s (pb_tail s)\<rparr>
      else s)"

definition plan_get_system_motion_block :: "planner \<Rightarrow> nat" where
  "plan_get_system_motion_block s = pb_head s"

definition plan_get_current_block :: "planner \<Rightarrow> nat option" where
  "plan_get_current_block s = (if pb_head s = pb_tail s then None else Some (pb_tail s))"

definition plan_get_recent_block :: "planner \<Rightarrow> nat option" where
  "plan_get_recent_block s = (if pb_head s = pb_tail s then None else Some (prev_slot s (pb_head s)))"

definition plan_get_exec_block_exit_speed_sqr :: "planner \<Rightarrow> real" where
  "plan_get_exec_block_exit_speed_sqr s =
     (let block = next_slot s (pb_tail s)
      in if block = pb_head s then 0 else b_entry_speed_sqr (pb_blocks s ! block))"

definition plan_check_full_buffer :: "planner \<Rightarrow> bool" where
  "plan_check_full_buffer s \<longleftrightarrow> pb_tail s = pb_next_head s"

definition plan_get_block_buffer_available :: "planner \<Rightarrow> nat" where
  "plan_get_block_buffer_available s =
     (if pb_tail s \<le> pb_head s then pb_size s - (pb_head s - pb_tail s)
      else pb_tail s - pb_head s - 1)"

section \<open>Speeds\<close>

definition plan_compute_profile_nominal_speed :: "planner_block \<Rightarrow> planner \<Rightarrow> real \<times> planner" where
  "plan_compute_profile_nominal_speed b s =
     (let rpm = rpm_sensor s (ls_hal (b_spindle b));
          per_rev = c_units_per_rev (b_condition b) \<or> ls_synchronized (b_spindle b);
          s = (if per_rev then s\<lparr>p_actual_rpm := rpm\<rparr> else s);
          nominal = (if per_rev then b_programmed_rate b * rpm else b_programmed_rate b);
          nominal =
            (if c_rapid_motion (b_condition b) then nominal * (1 / 100 * real (p_rapid_rate s))
             else
               let n = (if p_feed_rate s \<noteq> 100 \<and> \<not> c_no_feed_override (b_condition b)
                        then min nominal (b_rapid_rate b) * (1 / 100 * real (p_feed_rate s)) else nominal)
               in min n (b_rapid_rate b))
      in (max nominal MINIMUM_FEED_RATE, s))"

definition plan_compute_profile_parameters ::
  "planner_block \<Rightarrow> real \<Rightarrow> real \<Rightarrow> planner_block \<times> real" where
  "plan_compute_profile_parameters b nominal prev_nominal =
     (let m = (if nominal > prev_nominal then prev_nominal * prev_nominal else nominal * nominal)
      in (b\<lparr>b_max_entry_speed_sqr :=
             (if m > b_max_junction_speed_sqr b then b_max_junction_speed_sqr b else m)\<rparr>, nominal))"

text \<open>The least of the limits of the axes that move, for accelerations and for rates.\<close>

definition limit_by_axis_maximum :: "real list \<Rightarrow> real list \<Rightarrow> real" where
  "limit_by_axis_maximum maxima unit_vec =
     fold (\<lambda>i lim. if unit_vec ! i \<noteq> 0 then min lim \<bar>maxima ! i / unit_vec ! i\<bar> else lim)
       (rev [0..<N_AXIS]) SOME_LARGE_VALUE"

definition limit_acceleration_by_axis_maximum :: "real list \<Rightarrow> planner \<Rightarrow> real" where
  "limit_acceleration_by_axis_maximum unit_vec s = limit_by_axis_maximum (axis_acceleration s) unit_vec"

definition limit_max_rate_by_axis_maximum :: "real list \<Rightarrow> planner \<Rightarrow> real" where
  "limit_max_rate_by_axis_maximum unit_vec s = limit_by_axis_maximum (axis_max_rate s) unit_vec"

definition convert_delta_vector_to_unit_vector :: "real list \<Rightarrow> real list \<times> real" where
  "convert_delta_vector_to_unit_vector v =
     (let magnitude = sqrt (sum_list (map (\<lambda>x. x * x) v))
      in (map (\<lambda>x. x * (1 / magnitude)) v, magnitude))"

text \<open>\<open>lroundf\<close>: to the nearest integer, halves away from zero.\<close>

definition lround :: "real \<Rightarrow> int" where
  "lround x = (if 0 \<le> x then \<lfloor>x + 1 / 2\<rfloor> else \<lceil>x - 1 / 2\<rceil>)"

section \<open>Adding a line\<close>

definition target_steps :: "real list \<Rightarrow> planner \<Rightarrow> int list" where
  "target_steps target s = map2 (\<lambda>t k. lround (t * k)) target (axis_steps_per_mm s)"

definition new_block :: "real list \<Rightarrow> line_data \<Rightarrow> planner_block" where
  "new_block target pd = block_zero
     \<lparr>b_spindle := pd_spindle pd, b_condition := pd_condition pd, b_overrides := pd_overrides pd,
      b_line_number := pd_line_number pd, b_offset_id := pd_offset_id pd,
      b_output_commands := pd_output_commands pd, b_message := pd_message pd, b_target_mm := target\<rparr>"

text \<open>Constant surface speed: the spindle speed at the start of the line and its change.\<close>

definition css_rpm :: "css_data \<Rightarrow> real \<Rightarrow> real" where
  "css_rpm c pos =
     (if pos > 0 then min (css_surface_speed c / (pos * (2 * pi))) (css_max_rpm c) else css_max_rpm c)"

definition plan_css :: "int list \<Rightarrow> real list \<Rightarrow> planner_block \<Rightarrow> planner \<Rightarrow> planner_block \<times> planner" where
  "plan_css position target b s =
     (case ls_css (b_spindle b) of
        None \<Rightarrow> (b, s)
      | Some a \<Rightarrow>
          let c = css_mem s a; x = css_axis c;
              rpm = css_rpm c (real_of_int (position ! x) / axis_steps_per_mm s ! x - css_tool_offset c);
              target_rpm = css_rpm c (target ! x - css_tool_offset c)
          in (b\<lparr>b_spindle := (b_spindle b)\<lparr>ls_rpm := rpm\<rparr>\<rparr>,
              s\<lparr>css_mem := (css_mem s)(a := c\<lparr>css_target_rpm := target_rpm, css_delta_rpm := target_rpm - rpm\<rparr>)\<rparr>))"

text \<open>The square of the speed allowed at the junction with the line before.\<close>

definition junction_speed_sqr :: "real list \<Rightarrow> planner \<Rightarrow> real" where
  "junction_speed_sqr unit_vec s =
     (let cos_theta = - sum_list (map2 (*) (p_previous_unit_vec s) unit_vec);
          junction = fst (convert_delta_vector_to_unit_vector (map2 (-) unit_vec (p_previous_unit_vec s)))
      in if cos_theta > 0.999999 then MINIMUM_JUNCTION_SPEED * MINIMUM_JUNCTION_SPEED
         else if cos_theta < - 0.999999 then SOME_LARGE_VALUE
         else
           let a = limit_acceleration_by_axis_maximum junction s;
               sin_theta_d2 = sqrt (0.5 * (1 - cos_theta))
           in max (MINIMUM_JUNCTION_SPEED * MINIMUM_JUNCTION_SPEED)
                (a * junction_deviation s * sin_theta_d2 / (1 - sin_theta_d2)))"

definition block_limits :: "real list \<Rightarrow> line_data \<Rightarrow> planner \<Rightarrow> planner_block \<Rightarrow> planner_block" where
  "block_limits delta_mm pd s b =
     (let (unit_vec, mm) = convert_delta_vector_to_unit_vector delta_mm;
          rapid = limit_max_rate_by_axis_maximum unit_vec s
      in b\<lparr>b_millimeters := mm, b_acceleration := limit_acceleration_by_axis_maximum unit_vec s,
           b_rapid_rate := rapid, b_rate_multiplier := pd_rate_multiplier pd,
           b_programmed_rate :=
             (if c_rapid_motion (b_condition b) then rapid
              else if c_inverse_time (b_condition b) then pd_feed_rate pd * mm else pd_feed_rate pd),
           b_max_junction_speed_sqr :=
             (if pb_head s = pb_tail s \<or> c_system_motion (b_condition b) then 0
              else junction_speed_sqr unit_vec s)\<rparr>)"

text \<open>The movement of a line in steps from where the last one ends, and the block it starts as.\<close>

definition line_delta :: "real list \<Rightarrow> line_data \<Rightarrow> planner \<Rightarrow> int list" where
  "line_delta target pd s =
     map2 (-) (target_steps target s)
       (if c_system_motion (pd_condition pd) then sys_position s else p_position s)"

definition line_direction :: "int list \<Rightarrow> bool list \<Rightarrow> bool list" where
  "line_direction delta old = map2 (\<lambda>d prev. if d \<noteq> 0 then d < 0 else prev) delta old"

definition line_block :: "real list \<Rightarrow> line_data \<Rightarrow> int list \<Rightarrow> bool list \<Rightarrow> planner_block" where
  "line_block target pd delta dir = (new_block target pd)
     \<lparr>b_steps := map (\<lambda>d. nat \<bar>d\<bar>) delta, b_step_event_count := fold max (map (\<lambda>d. nat \<bar>d\<bar>) delta) 0,
      b_direction := dir\<rparr>"

text \<open>A block that is not a system motion is appended at the head.\<close>

definition append_block :: "planner_block \<Rightarrow> real list \<Rightarrow> int list \<Rightarrow> planner \<Rightarrow> planner" where
  "append_block b unit_vec steps s =
     (let (nominal, s) = plan_compute_profile_nominal_speed b s;
          (b, nominal) = plan_compute_profile_parameters b nominal (p_previous_nominal_speed s);
          s = (upd_block (pb_head s) (\<lambda>_. b) s)\<lparr>p_previous_nominal_speed := nominal\<rparr>;
          s = (if c_backlash_motion (b_condition b) then s
               else s\<lparr>p_previous_unit_vec := unit_vec, p_position := steps\<rparr>);
          s = s\<lparr>pb_head := pb_next_head s\<rparr>
      in s\<lparr>pb_next_head := next_slot s (pb_head s)\<rparr>)"

text \<open>
  The block is written to the free slot at the head. For a system motion that is all; else it is
  appended and the plan computed anew. The result is \<open>None\<close> when a pass runs out of fuel.
\<close>

definition plan_buffer_line ::
  "real list \<Rightarrow> line_data \<Rightarrow> planner \<Rightarrow> ((bool \<times> line_data) \<times> planner) option" where
  "plan_buffer_line target pd s =
     (let delta = line_delta target pd s; steps = target_steps target s;
          position = (if c_system_motion (pd_condition pd) then sys_position s else p_position s);
          delta_mm = map2 (\<lambda>d k. real_of_int d / k) delta (axis_steps_per_mm s);
          s = s\<lparr>p_direction := line_direction delta (p_direction s)\<rparr>;
          (b, s) = plan_css position target (line_block target pd delta (p_direction s)) s
      in if b_step_event_count b = 0 then Some ((False, pd), upd_block (pb_head s) (\<lambda>_. b) s)
         else
           let pd = pd\<lparr>pd_message := None, pd_output_commands := []\<rparr>;
               b = block_limits delta_mm pd s b;
               unit_vec = fst (convert_delta_vector_to_unit_vector delta_mm)
           in if c_system_motion (b_condition b) then Some ((True, pd), upd_block (pb_head s) (\<lambda>_. b) s)
              else map_option (Pair (True, pd)) (planner_recalculate (append_block b unit_vec steps s)))"

section \<open>Position, replanning and overrides\<close>

definition plan_get_position :: "planner \<Rightarrow> real list" where
  "plan_get_position s = map2 (\<lambda>p k. real_of_int p / k) (p_position s) (axis_steps_per_mm s)"

definition plan_sync_position :: "planner \<Rightarrow> planner" where
  "plan_sync_position s = s\<lparr>p_position := sys_position s\<rparr>"

definition plan_cycle_reinitialize :: "planner \<Rightarrow> planner option" where
  "plan_cycle_reinitialize s =
     (let s = st_update_plan_block_parameters s; s = s\<lparr>pb_planned := pb_tail s\<rparr>
      in if pb_planned s \<noteq> pb_head s then planner_recalculate s else Some s)"

fun update_profiles :: "nat \<Rightarrow> nat \<Rightarrow> real \<Rightarrow> planner \<Rightarrow> planner option" where
  "update_profiles 0 block prev_nominal s = None"
| "update_profiles (Suc k) block prev_nominal s =
     (if block = pb_head s then Some (s\<lparr>p_previous_nominal_speed := prev_nominal\<rparr>)
      else
        let (nominal, s) = plan_compute_profile_nominal_speed (pb_blocks s ! block) s;
            (b, nominal) = plan_compute_profile_parameters (pb_blocks s ! block) nominal prev_nominal
        in update_profiles k (next_slot s block) nominal (upd_block block (\<lambda>_. b) s))"

definition plan_update_velocity_profile_parameters :: "planner \<Rightarrow> (bool \<times> planner) option" where
  "plan_update_velocity_profile_parameters s =
     (if pb_tail s \<noteq> pb_head s
      then map_option (Pair True) (update_profiles (pb_size s + 1) (pb_tail s) SOME_LARGE_VALUE s)
      else Some (False, s))"

definition replan :: "planner \<Rightarrow> planner option" where
  "replan s =
     Option.bind (plan_update_velocity_profile_parameters s)
       (\<lambda>(changed, s). if changed then plan_cycle_reinitialize s else Some s)"

definition plan_sync_velocity :: "nat \<Rightarrow> planner \<Rightarrow> planner option" where
  "plan_sync_velocity block s =
     (let rpm = rpm_sensor s (ls_hal (b_spindle (pb_blocks s ! block)))
      in if p_actual_rpm s \<noteq> rpm then replan (s\<lparr>p_actual_rpm := rpm\<rparr>)
         else Some (planner_emit AddSyncVelocityTask s))"

text \<open>The rapid override is compared only when the feed override has not changed.\<close>

definition plan_feed_override_inner :: "nat \<Rightarrow> nat \<Rightarrow> planner \<Rightarrow> planner option" where
  "plan_feed_override_inner feed rapid s =
     (let feed_changed = feed \<noteq> p_feed_rate s;
          rapid_changed = (\<not> feed_changed \<and> rapid \<noteq> p_rapid_rate s)
      in if feed_changed \<or> rapid_changed then
           map_option (\<lambda>s.
               let s = (if feed_changed then planner_emit OverrideChangedFeed s else s)
               in if rapid_changed then planner_emit OverrideChangedRapid s else s)
             (replan (s\<lparr>p_feed_rate := feed, p_rapid_rate := rapid\<rparr>))
         else Some s)"

definition constrain :: "nat \<Rightarrow> nat \<Rightarrow> nat \<Rightarrow> nat" where
  "constrain v lo hi = (if v < lo then lo else if v > hi then hi else v)"

definition plan_feed_override :: "nat \<Rightarrow> nat \<Rightarrow> planner \<Rightarrow> planner option" where
  "plan_feed_override feed rapid s =
     (let feed = (if feed = 0 then sys_feed_rate s
                  else constrain feed MIN_FEED_RATE_OVERRIDE MAX_FEED_RATE_OVERRIDE);
          rapid = (if rapid = 0 then sys_rapid_rate s else constrain rapid 5 100);
          s = (if feed \<noteq> sys_feed_rate s \<or> rapid \<noteq> sys_rapid_rate s
               then planner_emit ReportOverrides (s\<lparr>sys_feed_rate := feed, sys_rapid_rate := rapid\<rparr>) else s)
      in if sys_rates_disable s
         then plan_feed_override_inner DEFAULT_FEED_OVERRIDE DEFAULT_RAPID_OVERRIDE s
         else plan_feed_override_inner (sys_feed_rate s) (sys_rapid_rate s) s)"

definition plan_data_init :: "nat \<Rightarrow> nat \<Rightarrow> bool \<Rightarrow> planner \<Rightarrow> line_data" where
  "plan_data_init offset_id spindle no_soft_limits s =
     \<lparr>pd_feed_rate = 0, pd_rate_multiplier = 1, pd_spindle = spindle_zero\<lparr>ls_hal := spindle\<rparr>,
      pd_condition = cond_zero\<lparr>c_no_feed_override := sys_rates_disable s,
        c_target_valid := no_soft_limits, c_target_validated := no_soft_limits\<rparr>,
      pd_overrides = 0, pd_offset_id = offset_id, pd_line_number = 0, pd_message = None,
      pd_output_commands = []\<rparr>"

text \<open>The planner as the program starts, with settings of the size the machine has.\<close>

definition planner_zero :: planner where
  "planner_zero =
     \<lparr>pb_size = 0, pb_blocks = [], pb_tail = 0, pb_head = 0, pb_next_head = 0, pb_planned = 0,
      p_position = replicate 5 0, p_previous_unit_vec = replicate 5 0, p_previous_nominal_speed = 0,
      p_actual_rpm = 0, p_feed_rate = 0, p_rapid_rate = 0, p_direction = replicate 5 False,
      css_mem = (\<lambda>_. \<lparr>css_surface_speed = 0, css_target_rpm = 0, css_delta_rpm = 0, css_max_rpm = 0,
        css_tool_offset = 0, css_axis = 0\<rparr>),
      rpm_sensor = (\<lambda>_. 0), st_pl_block = None, st_current_speed = 0, st_velocity_profile = False,
      sys_position = replicate 5 0, sys_feed_rate = 100, sys_rapid_rate = 100, sys_rates_disable = False,
      axis_steps_per_mm = replicate 5 100, axis_acceleration = replicate 5 36000,
      axis_max_rate = replicate 5 1000, junction_deviation = 0.01, planner_buffer_blocks = 35, p_events = []\<rparr>"

end
