(* ===== verification/PlanProfile.thy ===== *)
theory PlanProfile
  imports Complex_Main
begin

text \<open>
  Speed profiles over a row of moves, as the planner plans them: squares of entry speeds \<open>e\<close>, their
  limits \<open>M\<close> and \<open>A i\<close>, twice acceleration times length of move \<open>i\<close>. A profile is feasible when no
  move needs more than its acceleration and the last one ends at rest. The two passes of the
  planner find the greatest feasible profile, also when they start at a settled move.
\<close>

definition feasible :: "nat \<Rightarrow> (nat \<Rightarrow> real) \<Rightarrow> (nat \<Rightarrow> real) \<Rightarrow> (nat \<Rightarrow> real) \<Rightarrow> bool" where
  "feasible n M A e \<longleftrightarrow>
     (\<forall>i. 0 < i \<and> i < n \<longrightarrow> e i \<le> M i)
     \<and> (\<forall>i. Suc i < n \<longrightarrow> e (Suc i) \<le> e i + A i \<and> e i \<le> e (Suc i) + A i)
     \<and> (0 < n \<longrightarrow> e (n - 1) \<le> A (n - 1))"

text \<open>What a profile that goes on after move \<open>p\<close> satisfies up to there.\<close>

definition prefix_ok :: "nat \<Rightarrow> (nat \<Rightarrow> real) \<Rightarrow> (nat \<Rightarrow> real) \<Rightarrow> (nat \<Rightarrow> real) \<Rightarrow> bool" where
  "prefix_ok p M A e \<longleftrightarrow>
     (\<forall>i. 0 < i \<and> i \<le> p \<longrightarrow> e i \<le> M i) \<and> (\<forall>i<p. e (Suc i) \<le> e i + A i \<and> e i \<le> e (Suc i) + A i)"

text \<open>Up to a settled move no profile with the same start is faster, whatever comes after.\<close>

definition settled :: "nat \<Rightarrow> (nat \<Rightarrow> real) \<Rightarrow> (nat \<Rightarrow> real) \<Rightarrow> (nat \<Rightarrow> real) \<Rightarrow> bool" where
  "settled p M A e \<longleftrightarrow> (\<forall>g. prefix_ok p M A g \<longrightarrow> g 0 = e 0 \<longrightarrow> (\<forall>i\<le>p. g i \<le> e i))"

definition fastest :: "nat \<Rightarrow> (nat \<Rightarrow> real) \<Rightarrow> (nat \<Rightarrow> real) \<Rightarrow> (nat \<Rightarrow> real) \<Rightarrow> bool" where
  "fastest n M A e \<longleftrightarrow>
     feasible n M A e \<and> (\<forall>g. feasible n M A g \<longrightarrow> g 0 = e 0 \<longrightarrow> (\<forall>i<n. g i \<le> e i))"

lemma settled_0 [simp]: "settled 0 M A e"
  by (simp add: settled_def)

lemma feasible_prefix: "feasible n M A e \<Longrightarrow> p < n \<Longrightarrow> prefix_ok p M A e"
  by (auto simp: feasible_def prefix_ok_def)

lemma prefix_ok_less: "prefix_ok p M A e \<Longrightarrow> q \<le> p \<Longrightarrow> prefix_ok q M A e"
  by (auto simp: prefix_ok_def)

lemma fastest_unique:
  "fastest n M A e \<Longrightarrow> fastest n M A f \<Longrightarrow> e 0 = f 0 \<Longrightarrow> i < n \<Longrightarrow> e i = f i"
  unfolding fastest_def by (metis order_antisym)

lemma feasible_cong:
  assumes "\<And>i. i < n \<Longrightarrow> M i = M' i \<and> A i = A' i \<and> e i = e' i"
  shows "feasible n M A e = feasible n M' A' e'"
  using assms unfolding feasible_def by (smt (verit) Suc_lessD diff_less less_numeral_extra(1))

lemma fastest_cong:
  assumes "\<And>i. i < n \<Longrightarrow> e i = e' i"
  shows "fastest n M A e = fastest n M A e'"
proof (cases n)
  case (Suc m)
  then show ?thesis
    using assms feasible_cong [of n M M A A e e'] by (simp add: fastest_def)
qed (simp add: fastest_def feasible_def)

lemma settled_cong:
  assumes "\<And>i. i \<le> p \<Longrightarrow> M i = M' i \<and> A i = A' i \<and> e i = e' i"
  shows "settled p M A e = settled p M' A' e'"
proof -
  have "prefix_ok p M A g = prefix_ok p M' A' g" for g
    using assms unfolding prefix_ok_def by (metis less_imp_le_nat)
  then show ?thesis using assms by (simp add: settled_def)
qed

text \<open>Dropping the first move, and adding one that starts at rest.\<close>

lemma feasible_tl:
  "feasible (Suc n) M A e \<Longrightarrow> feasible n (\<lambda>i. M (Suc i)) (\<lambda>i. A (Suc i)) (\<lambda>i. e (Suc i))"
  unfolding feasible_def by (auto simp: Suc_diff_Suc dest: spec [where x = "Suc _"])

lemma settled_tl:
  assumes "settled (Suc p) M A e" "prefix_ok (Suc p) M A e"
  shows "settled p (\<lambda>i. M (Suc i)) (\<lambda>i. A (Suc i)) (\<lambda>i. e (Suc i))"
  unfolding settled_def
proof (intro allI impI)
  fix g i assume g: "prefix_ok p (\<lambda>i. M (Suc i)) (\<lambda>i. A (Suc i)) g" "g 0 = e (Suc 0)" "i \<le> p"
  let ?g = "\<lambda>i. case i of 0 \<Rightarrow> e 0 | Suc i \<Rightarrow> g i"
  have "prefix_ok (Suc p) M A ?g"
    unfolding prefix_ok_def
  proof (intro conjI allI impI)
    show "?g i \<le> M i" if "0 < i \<and> i \<le> Suc p" for i
      using that g assms(2) by (cases i; cases "i - 1") (auto simp: prefix_ok_def split: nat.splits)
    show "?g (Suc i) \<le> ?g i + A i" "?g i \<le> ?g (Suc i) + A i" if "i < Suc p" for i
      using that g assms(2) by (auto simp: prefix_ok_def split: nat.splits)
  qed
  with assms(1) have "\<forall>i\<le>Suc p. ?g i \<le> e i" unfolding settled_def by (elim allE [of _ ?g]) simp
  then have "?g (Suc i) \<le> e (Suc i)" using g(3) by blast
  then show "g i \<le> e (Suc i)" by simp
qed

lemma feasible_snoc:
  assumes "feasible n M A e" "0 \<le> M n" "0 \<le> A n" "\<forall>i<n. 0 \<le> e i \<and> 0 \<le> A i"
  shows "feasible (Suc n) M A (e(n := 0))"
  using assms unfolding feasible_def by (auto simp: less_Suc_eq)

text \<open>The first move is partly done: its speed changed by no more than its acceleration allows.\<close>

lemma settled_hd:
  assumes "settled p M A e" "\<bar>v - e 0\<bar> \<le> A 0 - d"
  shows "settled p M (A(0 := d)) (e(0 := v))"
  unfolding settled_def
proof (intro allI impI)
  fix g i assume g: "prefix_ok p M (A(0 := d)) g" "g 0 = (e(0 := v)) 0" "i \<le> p"
  have "prefix_ok p M A (g(0 := e 0))"
    unfolding prefix_ok_def
  proof (intro conjI allI impI)
    show "(g(0 := e 0)) i \<le> M i" if "0 < i \<and> i \<le> p" for i using that g(1) by (auto simp: prefix_ok_def)
    show "(g(0 := e 0)) (Suc i) \<le> (g(0 := e 0)) i + A i" "(g(0 := e 0)) i \<le> (g(0 := e 0)) (Suc i) + A i"
      if "i < p" for i
    proof -
      have "g (Suc i) \<le> g i + (A(0 := d)) i \<and> g i \<le> g (Suc i) + (A(0 := d)) i"
        using g(1) that by (auto simp: prefix_ok_def)
      then show "(g(0 := e 0)) (Suc i) \<le> (g(0 := e 0)) i + A i" "(g(0 := e 0)) i \<le> (g(0 := e 0)) (Suc i) + A i"
        using g(2) assms(2) by (auto split: if_splits)
    qed
  qed
  with assms(1) have "\<forall>i\<le>p. (g(0 := e 0)) i \<le> e i" unfolding settled_def by (elim allE [of _ "g(0 := e 0)"]) simp
  with g(2,3) show "g i \<le> (e(0 := v)) i" by (cases "i = 0") auto
qed

lemma settled_last: "feasible n M A e \<Longrightarrow> settled (n - 1) M A e \<Longrightarrow> 0 < n \<Longrightarrow> fastest n M A e"
  using feasible_prefix [of n M A _ "n - 1"] by (auto simp: fastest_def settled_def)

section \<open>The two passes\<close>

text \<open>
  The reverse pass \<open>r\<close> from the last move down to the one after \<open>p\<close>, leaving alone what is at its
  limit, and the forward pass \<open>f\<close> from \<open>p\<close> on. \<open>e\<close> is the profile before.
\<close>

locale two_passes =
  fixes n p :: nat and M A e r f :: "nat \<Rightarrow> real"
  assumes r_last: "r (n - 1) = min (M (n - 1)) (A (n - 1))"
    and r_step: "\<And>i. Suc i < n \<Longrightarrow>
      r i = (if e i \<noteq> M i then min (r (Suc i) + A i) (M i) else e i)"
    and f_low: "\<And>i. i \<le> p \<Longrightarrow> f i = e i"
    and f_step: "\<And>i. p \<le> i \<Longrightarrow> Suc i < n \<Longrightarrow> f (Suc i) = min (r (Suc i)) (f i + A i)"
begin

text \<open>What the passes start from: a feasible profile that is settled up to \<open>p\<close>.\<close>

definition ready :: bool where
  "ready \<longleftrightarrow> p < n \<and> feasible n M A e \<and> settled p M A e \<and> (\<forall>i<n. 0 \<le> A i)"

lemma readyD:
  assumes ready
  shows "p < n" "feasible n M A e" "settled p M A e" "\<And>i. i < n \<Longrightarrow> 0 \<le> A i"
  using assms by (auto simp: ready_def)

lemma le_last: "i < n \<Longrightarrow> i \<noteq> n - 1 \<Longrightarrow> Suc i < n"
  by linarith

text \<open>Downward induction over the moves after \<open>p\<close>.\<close>

lemma down_induct [consumes 2, case_names last step]:
  assumes "p < i" "i < n" "p < n - 1 \<Longrightarrow> P (n - 1)"
    and "\<And>i. p < i \<Longrightarrow> Suc i < n \<Longrightarrow> P (Suc i) \<Longrightarrow> P i"
  shows "P i"
  using assms(1,2)
proof (induction "n - i" arbitrary: i)
  case (Suc d)
  show ?case
  proof (cases "i = n - 1")
    case True
    then show ?thesis using Suc.prems assms(3) by simp
  next
    case False
    then have "Suc i < n" using Suc.prems by simp
    then show ?thesis using Suc assms(4) [of i] by simp
  qed
qed simp

lemma reverse_greatest: "p < i \<Longrightarrow> i < n \<Longrightarrow> feasible n M A g \<Longrightarrow> g i \<le> r i"
proof (induction i rule: down_induct)
  case last
  then show ?case using r_last by (auto simp: feasible_def)
next
  case (step i)
  then have "g i \<le> M i" "g i \<le> g (Suc i) + A i" by (auto simp: feasible_def)
  with step show ?case using r_step [of i] by (auto split: if_splits)
qed

lemma before_le_reverse: "ready \<Longrightarrow> p < i \<Longrightarrow> i < n \<Longrightarrow> e i \<le> r i"
  by (rule reverse_greatest [OF _ _ readyD(2)])

lemma reverse_limits:
  assumes ready "p < i" "i < n"
  shows "r i \<le> M i" "Suc i < n \<Longrightarrow> r i \<le> r (Suc i) + A i" "i = n - 1 \<Longrightarrow> r i \<le> A i"
proof -
  have e: "e i \<le> M i" "Suc i < n \<Longrightarrow> e i \<le> e (Suc i) + A i"
    using assms readyD(2) by (auto simp: feasible_def)
  show "r i \<le> M i"
    using assms e r_step [of i] r_last le_last [of i] by (cases "i = n - 1") (auto split: if_splits)
  show "r i \<le> r (Suc i) + A i" if "Suc i < n"
    using assms that e(2) before_le_reverse [of "Suc i"] r_step [of i] by (auto split: if_splits)
  show "i = n - 1 \<Longrightarrow> r i \<le> A i" using assms r_last by auto
qed

lemma forward_le_reverse: "p < i \<Longrightarrow> i < n \<Longrightarrow> f i \<le> r i"
  using f_step [of "i - 1"] by (cases i) auto

lemma before_le_forward: "ready \<Longrightarrow> i < n \<Longrightarrow> e i \<le> f i"
proof (induction i)
  case (Suc i)
  show ?case
  proof (cases "i < p")
    case False
    have "e (Suc i) \<le> e i + A i" using readyD(2) Suc.prems by (auto simp: feasible_def)
    moreover have "e (Suc i) \<le> r (Suc i)" using before_le_reverse [of "Suc i"] False Suc.prems by simp
    ultimately show ?thesis using f_step [of i] False Suc by auto
  qed (simp add: f_low)
qed (simp add: f_low)

lemma forward_feasible:
  assumes ready
  shows "feasible n M A f"
  unfolding feasible_def
proof (intro conjI allI impI)
  have e: "\<And>i. 0 < i \<Longrightarrow> i < n \<Longrightarrow> e i \<le> M i"
    "\<And>i. Suc i < n \<Longrightarrow> e (Suc i) \<le> e i + A i \<and> e i \<le> e (Suc i) + A i" "e (n - 1) \<le> A (n - 1)"
    using readyD(1,2) [OF assms] by (auto simp: feasible_def)
  show "f i \<le> M i" if "0 < i \<and> i < n" for i
    using that e(1) f_low [of i] forward_le_reverse [of i] reverse_limits(1) [OF assms, of i] by (cases "i \<le> p") auto
  show "f (Suc i) \<le> f i + A i" if "Suc i < n" for i
    using that e(2) [of i] f_low [of i] f_low [of "Suc i"] f_step [of i] by (cases "i < p") auto
  show "f i \<le> f (Suc i) + A i" if "Suc i < n" for i
  proof -
    consider "i < p" | "i = p" | "p < i" by linarith
    then show ?thesis
    proof cases
      case 1
      then show ?thesis using that e(2) [of i] f_low [of i] f_low [of "Suc i"] by simp
    next
      case 2
      then show ?thesis
        using that e(2) [of i] f_low [of i] before_le_forward [OF assms, of "Suc i"] by auto
    next
      case 3
      then show ?thesis
        using that f_step [of i] forward_le_reverse [of i] reverse_limits(2) [OF assms, of i] readyD(4) [OF assms, of i] by auto
    qed
  qed
  show "f (n - 1) \<le> A (n - 1)"
  proof (cases "n - 1 \<le> p")
    case True
    then show ?thesis using e(3) f_low [of "n - 1"] by simp
  next
    case False
    then show ?thesis using forward_le_reverse [of "n - 1"] reverse_limits(3) [OF assms, of "n - 1"] by simp
  qed
qed

lemma forward_greatest:
  assumes ready "feasible n M A g" "g 0 = e 0"
  shows "i < n \<Longrightarrow> g i \<le> f i"
proof (induction i)
  case 0
  then show ?case using assms(3) f_low [of 0] by simp
next
  case (Suc i)
  show ?case
  proof (cases "i < p")
    case True
    then show ?thesis
      using readyD(3) [OF assms(1)] feasible_prefix [OF assms(2) readyD(1) [OF assms(1)]] assms(3) f_low [of "Suc i"] by (auto simp: settled_def)
  next
    case False
    have "g (Suc i) \<le> g i + A i" using assms(2) Suc.prems by (auto simp: feasible_def)
    with Suc False show ?thesis
      using f_step [of i] reverse_greatest [of "Suc i" g] assms(2) by auto
  qed
qed

lemma forward_fastest: "ready \<Longrightarrow> fastest n M A f"
  using forward_feasible forward_greatest f_low [of 0] by (simp add: fastest_def)

text \<open>
  The moves at which the forward pass stops: limited by the acceleration before them, or at the
  limit. Up to each of them the new profile is settled.
\<close>

definition stop :: "nat \<Rightarrow> bool" where
  "stop k \<longleftrightarrow> k = p \<or> p < k \<and> (f k < r k \<or> f k = M k)"

lemma not_stop:
  assumes "p \<le> i" "Suc i < n" "\<not> stop i" ready
  shows "f i = f (Suc i) + A i" "f (Suc i) = r (Suc i)"
proof -
  have i: "p < i" "f i = r i" "f i \<noteq> M i"
    using assms forward_le_reverse [of i] by (auto simp: stop_def)
  then have "r i = r (Suc i) + A i"
    using r_step [of i] assms(2) by (auto simp: min_def split: if_splits)
  then show "f (Suc i) = r (Suc i)" using i f_step [of i] assms readyD(4) [of i] by auto
  then show "f i = f (Suc i) + A i" using i \<open>r i = r (Suc i) + A i\<close> by simp
qed

lemma stop_before_limited: "ready \<Longrightarrow> p \<le> k \<Longrightarrow> Suc k < n \<Longrightarrow> f (Suc k) < r (Suc k) \<Longrightarrow> stop k"
  using not_stop(2) [of k] by fastforce

lemma settled_below:
  assumes "settled q M A f" "p \<le> q" "q < k" "k < n" "\<And>i. q < i \<Longrightarrow> i < k \<Longrightarrow> \<not> stop i"
    and "prefix_ok k M A g" "g 0 = f 0" "g k \<le> f k" "i \<le> k" ready
  shows "g i \<le> f i"
  using assms(9)
proof (induction "k - i" arbitrary: i)
  case 0
  then show ?case using assms(8) by simp
next
  case (Suc d)
  show ?case
  proof (cases "i \<le> q")
    case True
    then show ?thesis
      using assms(1) prefix_ok_less [OF assms(6), of q] assms(3,7) by (simp add: settled_def)
  next
    case False
    have "g (Suc i) \<le> f (Suc i)" using Suc by (intro Suc.hyps(1)) auto
    moreover have "g i \<le> g (Suc i) + A i" using assms(6) Suc by (auto simp: prefix_ok_def)
    moreover have "f i = f (Suc i) + A i" using False Suc assms by (intro not_stop) auto
    ultimately show ?thesis by simp
  qed
qed

lemma settled_stop: "ready \<Longrightarrow> stop k \<Longrightarrow> k < n \<Longrightarrow> settled k M A f"
proof (induction k rule: less_induct)
  case (less k)
  have p_settled: "settled p M A f"
    using readyD(3) less.prems settled_cong [of p M M A A f e] f_low by simp
  show ?case
  proof (cases "k = p")
    case False
    with less.prems(2) have k: "p < k" "f k < r k \<or> f k = M k" by (auto simp: stop_def)
    define q where "q = Max {q. q < k \<and> stop q}"
    have "{q. q < k \<and> stop q} \<noteq> {}" using k(1) by (auto simp: stop_def)
    then have q: "q < k" "stop q" "\<And>i. q < i \<Longrightarrow> i < k \<Longrightarrow> \<not> stop i"
      using Max_in [of "{q. q < k \<and> stop q}"] Max_ge [of "{q. q < k \<and> stop q}"]
      by (auto simp: q_def [symmetric] leD)
    have pq: "p \<le> q" using q(2) by (auto simp: stop_def)
    have sq: "settled q M A f" using less.IH [OF q(1) less.prems(1) q(2)] q(1) less.prems(3) by simp
    show ?thesis unfolding settled_def
    proof (intro allI impI)
      fix g i assume g: "prefix_ok k M A g" "g 0 = f 0" "i \<le> k"
      have "g k \<le> f k"
      proof (cases "f k = M k")
        case True
        then show ?thesis using g(1) k(1) by (auto simp: prefix_ok_def)
      next
        case False
        then have l: "f k < r k" using k by simp
        then have "stop (k - 1)" using stop_before_limited [of "k - 1"] k(1) less.prems by simp
        then have "q = k - 1" using q(1) q(3) [of "k - 1"] k(1) by linarith
        then have "g (k - 1) \<le> f (k - 1)"
          using sq prefix_ok_less [OF g(1), of q] g(2) by (simp add: settled_def)
        moreover have "g k \<le> g (k - 1) + A (k - 1)"
          using g(1) k(1) by (auto simp: prefix_ok_def dest: spec [of _ "k - 1"])
        moreover have "f k = f (k - 1) + A (k - 1)"
          using f_step [of "k - 1"] k(1) less.prems l by (auto simp: min_def split: if_splits)
        ultimately show ?thesis by simp
      qed
      then show "g i \<le> f i" using settled_below [OF sq pq q(1) less.prems(3) q(3) g(1,2)] g(3) less.prems(1) by blast
    qed
  qed (simp add: p_settled)
qed

end

section \<open>The passes as functions\<close>

text \<open>
  The reverse pass from the last move down, \<open>k\<close> moves before it, and the forward pass. They are the
  reference the passes over the ring of the planner are compared with.
\<close>

primrec reverse_from :: "nat \<Rightarrow> (nat \<Rightarrow> real) \<Rightarrow> (nat \<Rightarrow> real) \<Rightarrow> (nat \<Rightarrow> real) \<Rightarrow> nat \<Rightarrow> real" where
  "reverse_from n M A e 0 = min (M (n - 1)) (A (n - 1))"
| "reverse_from n M A e (Suc k) =
     (let i = n - 1 - Suc k
      in if e i \<noteq> M i then min (reverse_from n M A e k + A i) (M i) else e i)"

definition reverse_speeds :: "nat \<Rightarrow> (nat \<Rightarrow> real) \<Rightarrow> (nat \<Rightarrow> real) \<Rightarrow> (nat \<Rightarrow> real) \<Rightarrow> nat \<Rightarrow> real" where
  "reverse_speeds n M A e i = reverse_from n M A e (n - 1 - i)"

primrec forward_speeds :: "nat \<Rightarrow> nat \<Rightarrow> (nat \<Rightarrow> real) \<Rightarrow> (nat \<Rightarrow> real) \<Rightarrow> (nat \<Rightarrow> real) \<Rightarrow> nat \<Rightarrow> real" where
  "forward_speeds n p M A e 0 = e 0"
| "forward_speeds n p M A e (Suc i) =
     (if Suc i \<le> p then e (Suc i)
      else min (reverse_speeds n M A e (Suc i)) (forward_speeds n p M A e i + A i))"

interpretation passes: two_passes n p M A e "reverse_speeds n M A e" "forward_speeds n p M A e" for n p M A e
proof
  show "reverse_speeds n M A e i =
      (if e i \<noteq> M i then min (reverse_speeds n M A e (Suc i) + A i) (M i) else e i)" if "Suc i < n" for i
  proof -
    have "n - 1 - i = Suc (n - 1 - Suc i)" "n - 1 - Suc (n - 1 - Suc i) = i" using that by simp_all
    then show ?thesis by (simp add: reverse_speeds_def Let_def)
  qed
  show "forward_speeds n p M A e i = e i" if "i \<le> p" for i using that by (cases i) auto
qed (simp_all add: reverse_speeds_def)

text \<open>What computes the two passes step by step computes these functions.\<close>

lemma passes_unique:
  assumes "r (n - 1) = min (M (n - 1)) (A (n - 1))"
    and "\<And>i. p < i \<Longrightarrow> Suc i < n \<Longrightarrow> r i = (if e i \<noteq> M i then min (r (Suc i) + A i) (M i) else e i)"
    and "\<And>i. i \<le> p \<Longrightarrow> f i = e i"
    and "\<And>i. p \<le> i \<Longrightarrow> Suc i < n \<Longrightarrow> f (Suc i) = min (r (Suc i)) (f i + A i)"
  shows "p < i \<Longrightarrow> i < n \<Longrightarrow> r i = reverse_speeds n M A e i"
    and "i < n \<Longrightarrow> f i = forward_speeds n p M A e i"
proof -
  show r: "r i = reverse_speeds n M A e i" if "p < i" "i < n" for i
    using that
  proof (induction i rule: passes.down_induct)
    case last
    then show ?case using assms(1) passes.r_last [of n M A e] by simp
  qed (simp add: assms(2) passes.r_step)
  show "i < n \<Longrightarrow> f i = forward_speeds n p M A e i"
    by (induction i) (auto simp: assms r not_le)
qed

end
