(* ===== verification/PlannerRing.thy ===== *)
theory PlannerRing
  imports Planner PlanProfile Reach
begin

text \<open>
  The passes of the planner over its ring, as the passes over a row of moves: slots by their offset
  from the tail, speeds with what the stepper has reached in the move it executes.
\<close>

section \<open>Slots\<close>

abbreviation slots :: "planner \<Rightarrow> nat" where "slots s \<equiv> pb_size s + 1"

definition slot :: "planner \<Rightarrow> nat \<Rightarrow> nat" where
  "slot s i = (pb_tail s + i) mod slots s"

definition used :: "planner \<Rightarrow> nat" where
  "used s = ring_used (slots s) (pb_head s) (pb_tail s)"

definition ring_ok :: "planner \<Rightarrow> bool" where
  "ring_ok s \<longleftrightarrow>
     0 < pb_size s \<and> length (pb_blocks s) = slots s \<and> pb_tail s < slots s \<and> pb_head s < slots s
     \<and> pb_next_head s = next_slot s (pb_head s)"

lemma slot_less [simp]: "slot s i < slots s"
  by (simp add: slot_def)

lemma used_less: "used s < slots s"
  by (simp add: used_def ring_used_less)

lemma slot_cases:
  "ring_ok s \<Longrightarrow> i < slots s \<Longrightarrow>
    slot s i = (if pb_tail s + i < slots s then pb_tail s + i else pb_tail s + i - slots s)"
  by (auto simp: slot_def ring_ok_def le_mod_geq)

lemma slot_inj: "ring_ok s \<Longrightarrow> i < slots s \<Longrightarrow> j < slots s \<Longrightarrow> slot s i = slot s j \<longleftrightarrow> i = j"
  by (auto simp: slot_cases split: if_splits)

lemma slot_0: "ring_ok s \<Longrightarrow> slot s 0 = pb_tail s"
  by (simp add: slot_def ring_ok_def)

lemma slot_used: "ring_ok s \<Longrightarrow> slot s (used s) = pb_head s"
  unfolding slot_def used_def ring_ok_def by (intro ring_last_slot) auto

lemma next_slot_slot: "next_slot s (slot s i) = slot s (Suc i)"
  by (simp add: slot_def next_slot_def mod_Suc)

lemma prev_slot_slot: "prev_slot s (slot s (Suc i)) = slot s i"
  by (simp add: slot_def prev_slot_def mod_Suc)

section \<open>Speeds by offset\<close>

definition block_at :: "planner \<Rightarrow> nat \<Rightarrow> planner_block" where
  "block_at s i = pb_blocks s ! slot s i"

definition max_spd :: "planner \<Rightarrow> nat \<Rightarrow> real" where
  "max_spd s i = b_max_entry_speed_sqr (block_at s i)"

definition acc :: "planner \<Rightarrow> nat \<Rightarrow> real" where
  "acc s i = accel_dist (block_at s i)"

text \<open>The entry speed of a move, the speed reached for the one in execution.\<close>

definition spd :: "planner \<Rightarrow> nat \<Rightarrow> real" where
  "spd s i = (if i = 0 \<and> st_pl_block s \<noteq> None then st_current_speed s * st_current_speed s
              else b_entry_speed_sqr (block_at s i))"

definition stepper_ok :: "planner \<Rightarrow> bool" where
  "stepper_ok s \<longleftrightarrow> st_pl_block s = None \<or> 0 < used s \<and> st_pl_block s = Some (pb_tail s)"

text \<open>A step of the passes leaves all but entry speeds, the pointer to the planned block and the
  block of the stepper as it was.\<close>

definition strip :: "planner \<Rightarrow> planner" where
  "strip s = s\<lparr>pb_blocks := [], st_pl_block := None, st_velocity_profile := False, pb_planned := 0\<rparr>"

definition same_ring :: "planner \<Rightarrow> planner \<Rightarrow> bool" where
  "same_ring s s' \<longleftrightarrow>
     strip s' = strip s \<and> length (pb_blocks s') = length (pb_blocks s) \<and> max_spd s' = max_spd s \<and> acc s' = acc s"

lemma same_ring_refl [simp]: "same_ring s s"
  by (simp add: same_ring_def)

lemma same_ring_trans: "same_ring s s' \<Longrightarrow> same_ring s' s'' \<Longrightarrow> same_ring s s''"
  by (simp add: same_ring_def)

lemma strip_fields:
  assumes "strip s' = strip s"
  shows "pb_size s' = pb_size s" "pb_tail s' = pb_tail s" "pb_head s' = pb_head s"
    "pb_next_head s' = pb_next_head s" "st_current_speed s' = st_current_speed s"
    "p_position s' = p_position s" "axis_steps_per_mm s' = axis_steps_per_mm s"
proof -
  show "pb_size s' = pb_size s" "pb_tail s' = pb_tail s" "pb_head s' = pb_head s"
    "pb_next_head s' = pb_next_head s" "st_current_speed s' = st_current_speed s"
    "p_position s' = p_position s" "axis_steps_per_mm s' = axis_steps_per_mm s"
    using arg_cong [OF assms, of pb_size] arg_cong [OF assms, of pb_tail] arg_cong [OF assms, of pb_head]
      arg_cong [OF assms, of pb_next_head] arg_cong [OF assms, of st_current_speed]
      arg_cong [OF assms, of p_position] arg_cong [OF assms, of axis_steps_per_mm]
    by (simp_all add: strip_def)
qed

lemma same_ringD:
  assumes "same_ring s s'"
  shows "slot s' = slot s" "used s' = used s" "max_spd s' = max_spd s" "acc s' = acc s" "ring_ok s' = ring_ok s"
    "next_slot s' = next_slot s" "prev_slot s' = prev_slot s" "pb_tail s' = pb_tail s"
    "pb_head s' = pb_head s" "pb_size s' = pb_size s" "st_current_speed s' = st_current_speed s"
  using assms strip_fields [of s' s]
  by (auto simp: same_ring_def slot_def [abs_def] used_def ring_ok_def next_slot_def [abs_def] prev_slot_def [abs_def])

definition set_entry :: "nat \<Rightarrow> real \<Rightarrow> planner \<Rightarrow> planner" where
  "set_entry i v = upd_block i (\<lambda>b. b\<lparr>b_entry_speed_sqr := v\<rparr>)"

lemma block_at_set_entry:
  assumes "ring_ok s" "i < slots s" "j < slots s"
  shows "block_at (set_entry (slot s i) v s) j =
    (if j = i then (block_at s i)\<lparr>b_entry_speed_sqr := v\<rparr> else block_at s j)"
  using assms slot_inj [OF assms]
  by (auto simp: set_entry_def upd_block_def block_at_def slot_def ring_ok_def nth_list_update)

lemma slot_mod: "slot s (i mod slots s) = slot s i"
  by (simp add: slot_def mod_add_right_eq)

lemma nth_update_iff: "xs[k := x] ! j = (if j = k \<and> k < length xs then x else xs ! j)"
  by (cases "k < length xs") (auto simp: nth_list_update not_less list_update_beyond)

lemma same_ring_set_entry: "same_ring s (set_entry i v s)"
  by (auto simp: same_ring_def strip_def set_entry_def upd_block_def max_spd_def [abs_def] acc_def [abs_def]
      accel_dist_def block_at_def slot_def nth_update_iff)


lemma set_entry_fields [simp]:
  "st_pl_block (set_entry i v s) = st_pl_block s" "pb_planned (set_entry i v s) = pb_planned s"
  "pb_tail (set_entry i v s) = pb_tail s" "pb_head (set_entry i v s) = pb_head s"
  "st_current_speed (set_entry i v s) = st_current_speed s" "pb_size (set_entry i v s) = pb_size s"
  "length (pb_blocks (set_entry i v s)) = length (pb_blocks s)"
  by (simp_all add: set_entry_def upd_block_def)

lemma spd_set_entry:
  assumes "ring_ok s" "i < slots s" "j < slots s" "0 < i \<or> st_pl_block s = None"
  shows "spd (set_entry (slot s i) v s) j = (if j = i then v else spd s j)"
  using assms by (auto simp: spd_def block_at_set_entry)

lemma st_update:
  assumes "ring_ok s" "stepper_ok s" "s' = st_update_plan_block_parameters s"
  shows "same_ring s s'" "st_pl_block s' = None" "pb_planned s' = pb_planned s"
    "j < slots s \<Longrightarrow> spd s' j = spd s j"
proof -
  have "s' = s \<and> st_pl_block s = None \<or>
    s' = (set_entry (slot s 0) (st_current_speed s * st_current_speed s) s)
      \<lparr>st_velocity_profile := True, st_pl_block := None\<rparr> \<and> st_pl_block s \<noteq> None"
    using assms slot_0 [OF assms(1)]
    by (auto simp: st_update_plan_block_parameters_def stepper_ok_def set_entry_def)
  moreover have "same_ring s (t\<lparr>st_velocity_profile := v, st_pl_block := x\<rparr>) = same_ring s t" for t v x
    by (simp add: same_ring_def strip_def max_spd_def [abs_def] acc_def [abs_def] block_at_def slot_def)
  moreover have "block_at (t\<lparr>st_velocity_profile := v, st_pl_block := x\<rparr>) = block_at t" for t v x
    by (simp add: fun_eq_iff block_at_def slot_def)
  ultimately show "same_ring s s'" "st_pl_block s' = None" "pb_planned s' = pb_planned s"
    "j < slots s \<Longrightarrow> spd s' j = spd s j"
    using same_ring_set_entry [of s "slot s 0" "st_current_speed s * st_current_speed s"]
      block_at_set_entry [OF assms(1), of 0 j "st_current_speed s * st_current_speed s"] assms(1)
    by (auto simp: spd_def ring_ok_def)
qed

lemma spd_entry: "st_pl_block s = None \<or> 0 < i \<Longrightarrow> b_entry_speed_sqr (block_at s i) = spd s i"
  by (auto simp: spd_def)

section \<open>The reverse pass\<close>

lemma reverse_pass_spd:
  assumes "ring_ok s" "stepper_ok s" "pb_planned s = slot s p" "p \<le> i" "Suc i < used s" "i - p < k"
    "i = p \<Longrightarrow> st_pl_block s = None \<or> 0 < p"
  shows "\<exists>s'. reverse_pass k (slot s (Suc i)) (slot s i) s = Some s' \<and> same_ring s s'
    \<and> pb_planned s' = pb_planned s \<and> stepper_ok s' \<and> (st_pl_block s' = None \<or> 0 < p)
    \<and> (\<forall>j < slots s. j \<le> p \<or> i < j \<longrightarrow> spd s' j = spd s j)
    \<and> (\<forall>j. p < j \<and> j \<le> i \<longrightarrow> spd s' j =
         (if spd s j \<noteq> max_spd s j then min (spd s' (Suc j) + acc s j) (max_spd s j) else spd s j))"
  using assms
proof (induction k arbitrary: i s)
  case 0
  then show ?case by simp
next
  case (Suc k)
  have sl: "i < slots s" "Suc i < slots s" "p < slots s" using Suc.prems used_less [of s] by auto
  show ?case
  proof (cases "i = p")
    case True
    then show ?thesis using Suc.prems by auto
  next
    case False
    then have i: "p < i" "slot s i \<noteq> slot s p" using Suc.prems sl slot_inj [OF Suc.prems(1)] by auto
    obtain i' where i': "i = Suc i'" using i(1) by (cases i) auto
    define t where "t = (if slot s i' = pb_tail s then st_update_plan_block_parameters s else s)"
    let ?v = "min (spd s (Suc i) + acc s i) (max_spd s i)"
    define u where "u = (if spd s i \<noteq> max_spd s i then set_entry (slot s i) ?v t else t)"
    have tail: "slot s i' = pb_tail s \<longleftrightarrow> i' = 0"
      using slot_inj [OF Suc.prems(1), of i' 0] slot_0 [OF Suc.prems(1)] sl i' by auto
    have t: "same_ring s t" "stepper_ok t" "pb_planned t = pb_planned s"
      "\<And>j. j < slots s \<Longrightarrow> spd t j = spd s j" "i' = 0 \<Longrightarrow> st_pl_block t = None"
      using st_update [OF Suc.prems(1,2) refl] Suc.prems(2) tail
      by (auto simp: stepper_ok_def t_def)
    note t' = same_ringD [OF t(1)]
    have u: "same_ring s u" "stepper_ok u" "pb_planned u = pb_planned s" "i' = 0 \<Longrightarrow> st_pl_block u = None"
      "\<And>j. j < slots s \<Longrightarrow> spd u j = (if j = i then (if spd s i \<noteq> max_spd s i then ?v else spd s i) else spd s j)"
    proof -
      have e: "same_ring s (set_entry (slot s i) ?v t)"
        using same_ring_trans [OF t(1) same_ring_set_entry] .
      show "same_ring s u" using e t(1) by (simp add: u_def)
      show "stepper_ok u"
        using t(2) same_ringD(2) [OF same_ring_set_entry [of t "slot s i" ?v]] by (simp add: stepper_ok_def u_def)
      show "pb_planned u = pb_planned s" "i' = 0 \<Longrightarrow> st_pl_block u = None" using t(3,5) by (simp_all add: u_def)
      show "spd u j = (if j = i then (if spd s i \<noteq> max_spd s i then ?v else spd s i) else spd s j)"
        if "j < slots s" for j
        using spd_set_entry [of t i j ?v] t(4) [OF that] t' Suc.prems(1) sl(1) that i by (auto simp: u_def)
    qed
    note u' = same_ringD [OF u(1)]
    have r: "reverse_pass (Suc k) (slot s (Suc i)) (slot s i) s = reverse_pass k (slot s i) (slot s i') u"
    proof -
      have b: "pb_blocks t ! slot s j = block_at t j" for j by (simp add: block_at_def t'(1))
      have "b_entry_speed_sqr (block_at t i) = spd s i" "b_entry_speed_sqr (block_at t (Suc i)) = spd s (Suc i)"
        using spd_entry [of t i] spd_entry [of t "Suc i"] t(4) sl i(1) by auto
      moreover have "b_max_entry_speed_sqr (block_at t i) = max_spd s i" "accel_dist (block_at t i) = acc s i"
        using t'(3,4) by (simp_all add: max_spd_def [symmetric] acc_def [symmetric])
      moreover have "prev_slot s (slot s i) = slot s i'" by (simp add: i' prev_slot_slot)
      ultimately show ?thesis
        using i(2) Suc.prems(3)
        by (auto simp: Let_def b set_entry_def [symmetric] min_def u_def t_def [symmetric] t')
    qed
    have "\<exists>s'. reverse_pass k (slot u (Suc i')) (slot u i') u = Some s' \<and> same_ring u s'
        \<and> pb_planned s' = pb_planned u \<and> stepper_ok s' \<and> (st_pl_block s' = None \<or> 0 < p)
        \<and> (\<forall>j < slots u. j \<le> p \<or> i' < j \<longrightarrow> spd s' j = spd u j)
        \<and> (\<forall>j. p < j \<and> j \<le> i' \<longrightarrow> spd s' j =
             (if spd u j \<noteq> max_spd u j then min (spd s' (Suc j) + acc u j) (max_spd u j) else spd u j))"
    proof (rule Suc.IH)
      show "ring_ok u" "stepper_ok u" "pb_planned u = slot u p" "p \<le> i'" "Suc i' < used u" "i' - p < k"
        using u u' Suc.prems i' i by auto
      show "i' = p \<Longrightarrow> st_pl_block u = None \<or> 0 < p" using u(4) by auto
    qed
    then obtain s' where s': "reverse_pass k (slot s i) (slot s i') u = Some s'" "same_ring u s'"
        "pb_planned s' = pb_planned s" "stepper_ok s'" "st_pl_block s' = None \<or> 0 < p"
        "\<forall>j < slots s. j \<le> p \<or> i' < j \<longrightarrow> spd s' j = spd u j"
        "\<forall>j. p < j \<and> j \<le> i' \<longrightarrow> spd s' j =
             (if spd u j \<noteq> max_spd s j then min (spd s' (Suc j) + acc s j) (max_spd s j) else spd u j)"
      unfolding u' i' [symmetric] u(3) by blast
    have "same_ring s s'" using same_ring_trans [OF u(1) s'(2)] .
    moreover have "\<forall>j < slots s. j \<le> p \<or> i < j \<longrightarrow> spd s' j = spd s j"
      using s'(6) u(5) i' i(1) by auto
    moreover have "\<forall>j. p < j \<and> j \<le> i \<longrightarrow> spd s' j =
         (if spd s j \<noteq> max_spd s j then min (spd s' (Suc j) + acc s j) (max_spd s j) else spd s j)"
    proof (intro allI impI)
      fix j assume j: "p < j \<and> j \<le> i"
      show "spd s' j = (if spd s j \<noteq> max_spd s j then min (spd s' (Suc j) + acc s j) (max_spd s j) else spd s j)"
      proof (cases "j = i")
        case True
        have "spd s' i = spd u i" "spd s' (Suc i) = spd s (Suc i)"
          using s'(6) u(5) sl i' by auto
        then show ?thesis using u(5) [OF sl(1)] True by simp
      next
        case False
        then have "spd u j = spd s j" "j \<le> i'" using u(5) [of j] j sl i' by auto
        then show ?thesis using s'(7) j by auto
      qed
    qed
    ultimately show ?thesis using r s'(1,3,4,5) by (intro exI [of _ s'] conjI) simp_all
  qed
qed

section \<open>The forward pass\<close>

lemma forward_pass_spd:
  assumes "ring_ok s" "stepper_ok s" "st_pl_block s = None \<or> 0 < i" "pb_planned s = slot s q" "q < used s"
    "Suc i \<le> used s" "used s - Suc i < k" "\<And>j. j < used s \<Longrightarrow> 0 \<le> acc s j"
  shows "\<exists>s' q'. forward_pass k (slot s i) (slot s (Suc i)) s = Some s' \<and> same_ring s s' \<and> stepper_ok s'
    \<and> pb_planned s' = slot s q' \<and> q' < used s
    \<and> (q' = q \<or> i < q' \<and> (spd s' q' < spd s q' \<or> spd s' q' = max_spd s q'))
    \<and> (\<forall>j < slots s. j \<le> i \<or> used s \<le> j \<longrightarrow> spd s' j = spd s j)
    \<and> (\<forall>j. i \<le> j \<and> Suc j < used s \<longrightarrow> spd s' (Suc j) = min (spd s (Suc j)) (spd s' j + acc s j))"
  using assms
proof (induction k arbitrary: i q s)
  case 0
  then show ?case by simp
next
  case (Suc k)
  have un: "used s < slots s" by (rule used_less)
  show ?case
  proof (cases "Suc i = used s")
    case True
    then show ?thesis using Suc.prems slot_used [OF Suc.prems(1)] by (intro exI [of _ s] exI [of _ q]) auto
  next
    case False
    then have i: "Suc i < used s" "Suc i < slots s" "i < slots s" using Suc.prems un by auto
    have nh: "slot s (Suc i) \<noteq> pb_head s"
      using slot_inj [OF Suc.prems(1) i(2) un] slot_used [OF Suc.prems(1)] False by simp
    let ?v = "spd s i + acc s i"
    define t where "t = (if spd s i < spd s (Suc i) \<and> ?v < spd s (Suc i)
      then (set_entry (slot s (Suc i)) ?v s)\<lparr>pb_planned := slot s (Suc i)\<rparr> else s)"
    have v: "?v < spd s (Suc i) \<Longrightarrow> spd s i < spd s (Suc i)" using Suc.prems(8) [of i] i by simp
    have st: "same_ring x (y\<lparr>pb_planned := p\<rparr>) = same_ring x y" "stepper_ok (y\<lparr>pb_planned := p\<rparr>) = stepper_ok y"
      "spd (y\<lparr>pb_planned := p\<rparr>) = spd y" "used (y\<lparr>pb_planned := p\<rparr>) = used y" for x y p
      by (simp_all add: same_ring_def strip_def max_spd_def [abs_def] acc_def [abs_def] block_at_def slot_def
          stepper_ok_def used_def spd_def fun_eq_iff)
    have t: "same_ring s t" "stepper_ok t" "st_pl_block t = st_pl_block s"
      "\<And>j. j < slots s \<Longrightarrow> spd t j = (if j = Suc i then min (spd s j) ?v else spd s j)"
      "pb_planned t = (if ?v < spd s (Suc i) then slot s (Suc i) else slot s q)"
      using Suc.prems(1,2,4) v i same_ring_set_entry [of s "slot s (Suc i)" ?v]
        same_ringD(2) [OF same_ring_set_entry [of s "slot s (Suc i)" ?v]]
      by (auto simp: t_def st spd_set_entry stepper_ok_def min_def)
    note t' = same_ringD [OF t(1)]
    define u where "u = (if spd t (Suc i) = max_spd s (Suc i) then t\<lparr>pb_planned := slot s (Suc i)\<rparr> else t)"
    define q1 where "q1 = (if ?v < spd s (Suc i) \<or> spd t (Suc i) = max_spd s (Suc i) then Suc i else q)"
    have u: "same_ring s u" "stepper_ok u" "st_pl_block u = st_pl_block s"
      "\<And>j. j < slots s \<Longrightarrow> spd u j = (if j = Suc i then min (spd s j) ?v else spd s j)"
      "pb_planned u = slot s q1"
      using t by (auto simp: u_def q1_def st)
    note u' = same_ringD [OF u(1)]
    have r: "forward_pass (Suc k) (slot s i) (slot s (Suc i)) s = forward_pass k (slot u (Suc i)) (slot u (Suc (Suc i))) u"
    proof -
      have e: "b_entry_speed_sqr (pb_blocks s ! slot s i) = spd s i"
        "b_entry_speed_sqr (pb_blocks s ! slot s (Suc i)) = spd s (Suc i)"
        "b_entry_speed_sqr (pb_blocks t ! slot s (Suc i)) = spd t (Suc i)"
        using spd_entry [of s i] spd_entry [of s "Suc i"] spd_entry [of t "Suc i"] Suc.prems(3)
        by (auto simp: block_at_def t'(1))
      have m: "accel_dist (pb_blocks s ! slot s i) = acc s i"
        "b_max_entry_speed_sqr (pb_blocks t ! slot s (Suc i)) = max_spd s (Suc i)"
        using t'(3) by (simp_all add: acc_def max_spd_def [abs_def] block_at_def t'(1) fun_eq_iff)
      have tt: "(if spd s i < spd s (Suc i) \<and> ?v < spd s (Suc i)
          then (upd_block (slot s (Suc i)) (\<lambda>b. b\<lparr>b_entry_speed_sqr := ?v\<rparr>) s)\<lparr>pb_planned := slot s (Suc i)\<rparr>
          else s) = t"
        by (simp add: t_def set_entry_def)
      have n: "next_slot u (slot s (Suc i)) = slot s (Suc (Suc i))" using u'(6) by (simp add: next_slot_slot)
      show ?thesis
        by (simp only: forward_pass.simps Let_def nh if_False e m tt u_def [symmetric] n u'(1))
    qed
    have "\<exists>s' q'. forward_pass k (slot u (Suc i)) (slot u (Suc (Suc i))) u = Some s' \<and> same_ring u s' \<and> stepper_ok s'
        \<and> pb_planned s' = slot u q' \<and> q' < used u
        \<and> (q' = q1 \<or> Suc i < q' \<and> (spd s' q' < spd u q' \<or> spd s' q' = max_spd u q'))
        \<and> (\<forall>j < slots u. j \<le> Suc i \<or> used u \<le> j \<longrightarrow> spd s' j = spd u j)
        \<and> (\<forall>j. Suc i \<le> j \<and> Suc j < used u \<longrightarrow> spd s' (Suc j) = min (spd u (Suc j)) (spd s' j + acc u j))"
    proof (rule Suc.IH)
      show "ring_ok u" "stepper_ok u" "st_pl_block u = None \<or> 0 < Suc i" "pb_planned u = slot u q1"
        "Suc (Suc i) \<le> used u" "used u - Suc (Suc i) < k" "\<And>j. j < used u \<Longrightarrow> 0 \<le> acc u j"
        using u u' Suc.prems i False by auto
      show "q1 < used u" using u'(2) Suc.prems(5) i by (simp add: q1_def)
    qed
    then obtain s' q' where s': "forward_pass k (slot u (Suc i)) (slot u (Suc (Suc i))) u = Some s'" "same_ring u s'"
        "stepper_ok s'" "pb_planned s' = slot s q'" "q' < used s"
        "q' = q1 \<or> Suc i < q' \<and> (spd s' q' < spd u q' \<or> spd s' q' = max_spd s q')"
        "\<forall>j < slots s. j \<le> Suc i \<or> used s \<le> j \<longrightarrow> spd s' j = spd u j"
        "\<forall>j. Suc i \<le> j \<and> Suc j < used s \<longrightarrow> spd s' (Suc j) = min (spd u (Suc j)) (spd s' j + acc s j)"
      unfolding u' by blast
    have "same_ring s s'" using same_ring_trans [OF u(1) s'(2)] .
    moreover have si: "spd s' i = spd s i" "spd s' (Suc i) = min (spd s (Suc i)) ?v"
      using s'(7) u(4) i by auto
    moreover have "\<forall>j < slots s. j \<le> i \<or> used s \<le> j \<longrightarrow> spd s' j = spd s j"
      using s'(7) u(4) i by auto
    moreover have "\<forall>j. i \<le> j \<and> Suc j < used s \<longrightarrow> spd s' (Suc j) = min (spd s (Suc j)) (spd s' j + acc s j)"
    proof (intro allI impI)
      fix j assume j: "i \<le> j \<and> Suc j < used s"
      show "spd s' (Suc j) = min (spd s (Suc j)) (spd s' j + acc s j)"
      proof (cases "j = i")
        case True
        then show ?thesis using si by simp
      next
        case False
        then have "spd u (Suc j) = spd s (Suc j)" using u(4) [of "Suc j"] j un by auto
        then show ?thesis using s'(8) j False by auto
      qed
    qed
    moreover have "q' = q \<or> i < q' \<and> (spd s' q' < spd s q' \<or> spd s' q' = max_spd s q')"
    proof (cases "q' = q1")
      case True
      have "spd t (Suc i) = min (spd s (Suc i)) ?v" using t(4) i by simp
      then show ?thesis using True si(2) by (auto simp: q1_def min_def split: if_splits)
    next
      case False
      then have "spd u q' = spd s q'" using s'(5,6) u(4) [of q'] un by auto
      then show ?thesis using s'(6) False by auto
    qed
    ultimately show ?thesis
      using r s'(1,3,4,5) by (intro exI [of _ s'] exI [of _ q'] conjI) simp_all
  qed
qed

section \<open>Computing the plan anew\<close>

text \<open>
  The invariant: the profile is feasible and settled up to the planned block, which is among those
  in use; an empty ring has its planned block at the tail.
\<close>

definition plan_ok :: "planner \<Rightarrow> bool" where
  "plan_ok s \<longleftrightarrow>
     ring_ok s \<and> stepper_ok s
     \<and> (\<forall>i < used s. 0 \<le> acc s i \<and> 0 \<le> spd s i)
     \<and> feasible (used s) (max_spd s) (acc s) (spd s)
     \<and> (\<exists>p. pb_planned s = slot s p \<and> (p < used s \<or> p = 0) \<and> settled p (max_spd s) (acc s) (spd s))"

lemma recalculate_unfold:
  assumes "ring_ok s" "pb_planned s = slot s p" "p < used s" "p \<noteq> used s - 1"
  shows "planner_recalculate s =
    (let s1 = set_entry (slot s (used s - 1)) (min (max_spd s (used s - 1)) (acc s (used s - 1))) s
     in Option.bind
          (if p = used s - 2 then Some (if p = 0 then st_update_plan_block_parameters s1 else s1)
           else reverse_pass (slots s) (slot s (used s - 1)) (slot s (used s - 2)) s1)
          (\<lambda>t. forward_pass (slots s) (pb_planned t) (next_slot t (pb_planned t)) t))"
proof -
  obtain n where n: "used s = Suc (Suc n)" using assms(3,4) by (cases "used s"; cases "used s - 1") auto
  have ns: "Suc n < slots s" "n < slots s" "p < slots s" using used_less [of s] n assms(3) by auto
  have b: "prev_slot s (pb_head s) = slot s (Suc n)" "prev_slot s (slot s (Suc n)) = slot s n"
    using slot_used [OF assms(1)] prev_slot_slot [of s] n by metis+
  have ne: "slot s (Suc n) \<noteq> pb_planned s" "slot s n = pb_planned s \<longleftrightarrow> p = n" "slot s n = pb_tail s \<longleftrightarrow> n = 0"
    using assms slot_inj [OF assms(1)] slot_inj [OF assms(1), of n 0] slot_0 [OF assms(1)] ns n by auto
  have u: "upd_block (slot s (Suc n)) (\<lambda>b. b\<lparr>b_entry_speed_sqr := min (b_max_entry_speed_sqr b) (accel_dist b)\<rparr>) s
      = set_entry (slot s (Suc n)) (min (max_spd s (Suc n)) (acc s (Suc n))) s" (is "_ = ?s1")
    by (simp add: set_entry_def upd_block_def max_spd_def acc_def block_at_def)
  have "prev_slot ?s1 = prev_slot s" "pb_size ?s1 = pb_size s" by (simp_all add: prev_slot_def fun_eq_iff)
  then show ?thesis
    using b ne n
    by (simp add: planner_recalculate_def Let_def u)
qed

text \<open>The reverse pass, from the last move to the one after the planned move \<open>p\<close>.\<close>

lemma recalculate_reverse:
  assumes s1: "same_ring s s1" "stepper_ok s1" "pb_planned s1 = slot s p" and ok: "ring_ok s"
    and pn: "p < used s - 1" "0 < used s - 1" and un: "used s < slots s"
  obtains s2 where "(if p = used s - 2 then Some (if p = 0 then st_update_plan_block_parameters s1 else s1)
         else reverse_pass (slots s) (slot s (used s - 1)) (slot s (used s - 2)) s1) = Some s2"
    and "same_ring s1 s2" "stepper_ok s2" "pb_planned s2 = slot s p" "st_pl_block s2 = None \<or> 0 < p"
      "\<And>j. j < slots s \<Longrightarrow> j \<le> p \<or> j = used s - 1 \<Longrightarrow> spd s2 j = spd s1 j"
      "\<And>j. p < j \<Longrightarrow> Suc j < used s \<Longrightarrow> spd s2 j =
         (if spd s1 j \<noteq> max_spd s j then min (spd s2 (Suc j) + acc s j) (max_spd s j) else spd s1 j)"
proof -
  let ?n = "used s"
  note s1' = same_ringD [OF s1(1)]
  show ?thesis
  proof (cases "p = ?n - 2")
    case True
    have st: "same_ring s1 t" "stepper_ok t" "pb_planned t = slot s p" "st_pl_block t = None \<or> 0 < p"
      "\<And>j. j < slots s \<Longrightarrow> spd t j = spd s1 j"
      if "t = (if p = 0 then st_update_plan_block_parameters s1 else s1)" for t
      using that st_update [of s1 t] s1 s1' ok(1) by (auto simp: stepper_ok_def split: if_splits)
    show ?thesis
    proof (rule that)
      let ?t = "if p = 0 then st_update_plan_block_parameters s1 else s1"
      show "(if p = ?n - 2 then Some ?t
         else reverse_pass (slots s) (slot s (?n - 1)) (slot s (?n - 2)) s1) = Some ?t"
        using True by simp
      show "same_ring s1 ?t" "stepper_ok ?t" "pb_planned ?t = slot s p" "st_pl_block ?t = None \<or> 0 < p"
        using st [OF refl] by simp_all
      show "spd ?t j = spd s1 j" if "j < slots s" "j \<le> p \<or> j = ?n - 1" for j using st(5) [OF refl that(1)] .
      show "spd ?t j = (if spd s1 j \<noteq> max_spd s j then min (spd ?t (Suc j) + acc s j) (max_spd s j) else spd s1 j)"
        if "p < j" "Suc j < ?n" for j using True that by simp
    qed
  next
    case F: False
    have i: "Suc (?n - 2) = ?n - 1" using pn by simp
    have "\<exists>s'. reverse_pass (slots s) (slot s1 (Suc (?n - 2))) (slot s1 (?n - 2)) s1 = Some s' \<and> same_ring s1 s'
        \<and> pb_planned s' = pb_planned s1 \<and> stepper_ok s' \<and> (st_pl_block s' = None \<or> 0 < p)
        \<and> (\<forall>j < slots s1. j \<le> p \<or> ?n - 2 < j \<longrightarrow> spd s' j = spd s1 j)
        \<and> (\<forall>j. p < j \<and> j \<le> ?n - 2 \<longrightarrow> spd s' j =
             (if spd s1 j \<noteq> max_spd s1 j then min (spd s' (Suc j) + acc s1 j) (max_spd s1 j) else spd s1 j))"
    proof (rule reverse_pass_spd)
      show "ring_ok s1" "stepper_ok s1" "pb_planned s1 = slot s1 p" using s1(2,3) s1'(1,5) ok(1) by simp_all
      show "p \<le> ?n - 2" "Suc (?n - 2) < used s1" "?n - 2 - p < slots s" using F pn un s1'(2) by simp_all
      show "?n - 2 = p \<Longrightarrow> st_pl_block s1 = None \<or> 0 < p" using F by simp
    qed
    then obtain s' where s': "reverse_pass (slots s) (slot s (?n - 1)) (slot s (?n - 2)) s1 = Some s'" "same_ring s1 s'"
        "pb_planned s' = slot s p" "stepper_ok s'" "st_pl_block s' = None \<or> 0 < p"
        "\<forall>j < slots s. j \<le> p \<or> ?n - 2 < j \<longrightarrow> spd s' j = spd s1 j"
        "\<forall>j. p < j \<and> j \<le> ?n - 2 \<longrightarrow> spd s' j =
             (if spd s1 j \<noteq> max_spd s j then min (spd s' (Suc j) + acc s j) (max_spd s j) else spd s1 j)"
      unfolding s1' i s1(3) by blast
    show ?thesis
    proof (rule that [of s'])
      show "(if p = ?n - 2 then Some (if p = 0 then st_update_plan_block_parameters s1 else s1)
         else reverse_pass (slots s) (slot s (?n - 1)) (slot s (?n - 2)) s1) = Some s'"
        using F s'(1) by simp
      show "spd s' j = spd s1 j" if "j < slots s" "j \<le> p \<or> j = ?n - 1" for j
        using s'(6) that pn by auto
      show "spd s' j = (if spd s1 j \<noteq> max_spd s j then min (spd s' (Suc j) + acc s j) (max_spd s j) else spd s1 j)"
        if "p < j" "Suc j < ?n" for j
      proof -
        have "j \<le> ?n - 2" using that by simp
        then show ?thesis using s'(7) that(1) by blast
      qed
    qed (rule s')+
  qed
qed

text \<open>
  The two passes over the ring compute the reference passes, from the planned move on, and leave the
  pointer at a move where the forward pass stops.
\<close>

lemma recalculate_passes:
  assumes "plan_ok s" "pb_planned s = slot s p" "p < used s" "p \<noteq> used s - 1"
  obtains s' q where "planner_recalculate s = Some s'" "same_ring s s'" "stepper_ok s'" "pb_planned s' = slot s q"
    "q < used s" "q = p \<or> p < q \<and>
      (spd s' q < reverse_speeds (used s) (max_spd s) (acc s) (spd s) q \<or> spd s' q = max_spd s q)"
    "\<And>i. i < used s \<Longrightarrow> spd s' i = forward_speeds (used s) p (max_spd s) (acc s) (spd s) i"
proof -
  let ?n = "used s"
  have ok: "ring_ok s" "stepper_ok s" "\<And>i. i < ?n \<Longrightarrow> 0 \<le> acc s i" using assms(1) by (auto simp: plan_ok_def)
  have un: "?n < slots s" by (rule used_less)
  have pn: "p < ?n - 1" "0 < ?n - 1" using assms(3,4) by auto
  define v where "v = min (max_spd s (?n - 1)) (acc s (?n - 1))"
  define s1 where "s1 = set_entry (slot s (?n - 1)) v s"
  have s1: "same_ring s s1" "stepper_ok s1" "pb_planned s1 = slot s p"
    "\<And>j. j < slots s \<Longrightarrow> spd s1 j = (if j = ?n - 1 then v else spd s j)"
    using same_ring_set_entry ok assms(2) un pn same_ringD(2) [OF same_ring_set_entry [of s "slot s (?n - 1)" v]]
    by (auto simp: s1_def spd_set_entry stepper_ok_def)
  obtain s2 where s2: "(if p = ?n - 2 then Some (if p = 0 then st_update_plan_block_parameters s1 else s1)
         else reverse_pass (slots s) (slot s (?n - 1)) (slot s (?n - 2)) s1) = Some s2"
    and s2': "same_ring s1 s2" "stepper_ok s2" "pb_planned s2 = slot s p" "st_pl_block s2 = None \<or> 0 < p"
      "\<And>j. j < slots s \<Longrightarrow> j \<le> p \<or> j = ?n - 1 \<Longrightarrow> spd s2 j = spd s1 j"
      "\<And>j. p < j \<Longrightarrow> Suc j < ?n \<Longrightarrow> spd s2 j =
         (if spd s1 j \<noteq> max_spd s j then min (spd s2 (Suc j) + acc s j) (max_spd s j) else spd s1 j)"
  proof (rule recalculate_reverse [OF s1(1-3) ok(1) pn un])
  qed (rule that; blast)
  have s12: "same_ring s s2" using same_ring_trans [OF s1(1) s2'(1)] .
  note s2r = same_ringD [OF s12]
  have "\<exists>s' q'. forward_pass (slots s) (slot s2 p) (slot s2 (Suc p)) s2 = Some s' \<and> same_ring s2 s' \<and> stepper_ok s'
      \<and> pb_planned s' = slot s2 q' \<and> q' < used s2
      \<and> (q' = p \<or> p < q' \<and> (spd s' q' < spd s2 q' \<or> spd s' q' = max_spd s2 q'))
      \<and> (\<forall>j < slots s2. j \<le> p \<or> used s2 \<le> j \<longrightarrow> spd s' j = spd s2 j)
      \<and> (\<forall>j. p \<le> j \<and> Suc j < used s2 \<longrightarrow> spd s' (Suc j) = min (spd s2 (Suc j)) (spd s' j + acc s2 j))"
  proof (rule forward_pass_spd)
    show "ring_ok s2" "stepper_ok s2" "st_pl_block s2 = None \<or> 0 < p" "pb_planned s2 = slot s2 p"
      using ok(1) s2'(2,3,4) s2r(1,5) by simp_all
    show "p < used s2" "Suc p \<le> used s2" "used s2 - Suc p < slots s" using assms(3) un s2r(2) by simp_all
    show "0 \<le> acc s2 j" if "j < used s2" for j using ok(3) that s2r(2,4) by simp
  qed
  then obtain s3 q where s3: "forward_pass (slots s) (slot s p) (slot s (Suc p)) s2 = Some s3" "same_ring s2 s3" "stepper_ok s3"
      "pb_planned s3 = slot s q" "q < ?n"
      "q = p \<or> p < q \<and> (spd s3 q < spd s2 q \<or> spd s3 q = max_spd s q)"
      "\<forall>j < slots s. j \<le> p \<or> ?n \<le> j \<longrightarrow> spd s3 j = spd s2 j"
      "\<forall>j. p \<le> j \<and> Suc j < ?n \<longrightarrow> spd s3 (Suc j) = min (spd s2 (Suc j)) (spd s3 j + acc s j)"
    unfolding s2r by blast
  have low: "spd s2 j = spd s j" "spd s3 j = spd s j" if "j \<le> p" for j
    using that s2'(5) s1(4) s3(7) assms(3) un pn by auto
  have r: "spd s2 (?n - 1) = min (max_spd s (?n - 1)) (acc s (?n - 1))"
    using s2'(5) [of "?n - 1"] s1(4) [of "?n - 1"] un by (simp add: v_def)
  have rs: "spd s2 i = (if spd s i \<noteq> max_spd s i then min (spd s2 (Suc i) + acc s i) (max_spd s i) else spd s i)"
    if "p < i" "Suc i < ?n" for i
    using that s2'(6) [of i] s1(4) [of i] un by auto
  have fs: "spd s3 (Suc i) = min (spd s2 (Suc i)) (spd s3 i + acc s i)" if "p \<le> i" "Suc i < ?n" for i
    using that s3(8) by simp
  have f: "\<And>i. p < i \<Longrightarrow> i < ?n \<Longrightarrow> spd s2 i = reverse_speeds ?n (max_spd s) (acc s) (spd s) i"
    "\<And>i. i < ?n \<Longrightarrow> spd s3 i = forward_speeds ?n p (max_spd s) (acc s) (spd s) i"
    using passes_unique [where r = "spd s2" and f = "spd s3" and e = "spd s", OF r rs low(2) fs] by blast+
  have "planner_recalculate s =
      Option.bind (Some s2) (\<lambda>t. forward_pass (slots s) (pb_planned t) (next_slot t (pb_planned t)) t)"
    unfolding recalculate_unfold [OF ok(1) assms(2-4)] Let_def v_def [symmetric] s1_def [symmetric] s2
    by (rule refl)
  also have "\<dots> = Some s3"
    by (simp only: Option.bind.bind_lunit s2'(3) s2r(6) next_slot_slot s3(1))
  finally have "planner_recalculate s = Some s3" .
  moreover have "q = p \<or> p < q \<and> (spd s3 q < reverse_speeds ?n (max_spd s) (acc s) (spd s) q \<or> spd s3 q = max_spd s q)"
    using s3(5,6) f(1) by auto
  ultimately show ?thesis using that s3(3-5) same_ring_trans [OF s12 s3(2)] f(2) by blast
qed

text \<open>
  So the plan computed anew is the fastest feasible one with the same start, and the invariant holds
  again.
\<close>

lemma recalculate_ok:
  assumes "plan_ok s" "0 < used s"
  shows "\<exists>s'. planner_recalculate s = Some s' \<and> same_ring s s' \<and> plan_ok s' \<and> spd s' 0 = spd s 0
    \<and> (pb_planned s = slot s (used s - 1) \<longrightarrow> s' = s)
    \<and> (pb_planned s \<noteq> slot s (used s - 1) \<longrightarrow> fastest (used s) (max_spd s) (acc s) (spd s'))"
proof -
  let ?n = "used s" and ?M = "max_spd s" and ?A = "acc s"
  obtain p where p: "pb_planned s = slot s p" "p < ?n" "settled p ?M ?A (spd s)"
    using assms by (auto simp: plan_ok_def)
  have ok: "ring_ok s" "feasible ?n ?M ?A (spd s)" "\<And>i. i < ?n \<Longrightarrow> 0 \<le> acc s i \<and> 0 \<le> spd s i"
    using assms(1) by (auto simp: plan_ok_def)
  have un: "?n < slots s" by (rule used_less)
  show ?thesis
  proof (cases "p = ?n - 1")
    case True
    moreover have "prev_slot s (pb_head s) = slot s (?n - 1)"
      using slot_used [OF ok(1)] prev_slot_slot [of s "?n - 1"] assms(2) by simp
    ultimately show ?thesis
      using assms p(1) by (auto simp: planner_recalculate_def)
  next
    case False
    let ?f = "forward_speeds ?n p ?M ?A (spd s)"
    have ready: "passes.ready ?n p ?M ?A (spd s)" using p ok by (simp add: passes.ready_def)
    obtain s' q where s': "planner_recalculate s = Some s'" "same_ring s s'" "stepper_ok s'" "pb_planned s' = slot s q"
        "q < ?n" "q = p \<or> p < q \<and> (spd s' q < reverse_speeds ?n ?M ?A (spd s) q \<or> spd s' q = ?M q)"
        "\<And>i. i < ?n \<Longrightarrow> spd s' i = ?f i"
      using recalculate_passes [OF assms(1) p(1,2) False] by blast
    note r = same_ringD [OF s'(2)]
    have fast: "fastest ?n ?M ?A (spd s')"
      using passes.forward_fastest [OF ready] fastest_cong [of ?n "spd s'" ?f ?M ?A] s'(7) by blast
    have st: "settled q ?M ?A (spd s')"
      using passes.settled_stop [OF ready _ s'(5)] s'(6) settled_cong [of q ?M ?M ?A ?A ?f "spd s'"] s'(5,7)
      by (simp add: passes.stop_def)
    have pos: "0 \<le> spd s' i" if "i < ?n" for i
      using passes.before_le_forward [OF ready that] ok(3) [OF that] s'(7) [OF that] by simp
    have "plan_ok s'"
      unfolding plan_ok_def r using ok(1,3) s'(3-5) fast st pos by (auto simp: fastest_def)
    moreover have "slot s p \<noteq> slot s (?n - 1)" using False slot_inj [OF ok(1)] un p(2) by auto
    ultimately show ?thesis using s'(1,2) s'(7) [of 0] fast p(1) assms(2) by auto
  qed
qed

end
