(* ===== verification/PlannerPlan.thy ===== *)
theory PlannerPlan
  imports PlannerRing
begin

text \<open>
  The planner at work: lines added, blocks discarded, the stepper under way. In every reachable
  state the plan is feasible, and it is the fastest one. The exception is the change of an override.
\<close>

section \<open>Adding a line\<close>

lemma axis_limit_nonneg: "0 \<le> limit_by_axis_maximum m u"
proof -
  have "0 \<le> fold (\<lambda>i lim. if u ! i \<noteq> 0 then min lim \<bar>m ! i / u ! i\<bar> else lim) xs z" if "0 \<le> z" for xs z
    using that by (induction xs arbitrary: z) auto
  then show ?thesis by (simp add: limit_by_axis_maximum_def SOME_LARGE_VALUE_def)
qed

lemma block_limits_nonneg:
  "0 \<le> accel_dist (block_limits d pd s b)" "0 \<le> b_max_junction_speed_sqr (block_limits d pd s b)"
proof -
  have "0 \<le> junction_speed_sqr u s" for u
    by (simp add: junction_speed_sqr_def MINIMUM_JUNCTION_SPEED_def SOME_LARGE_VALUE_def Let_def)
  then show "0 \<le> b_max_junction_speed_sqr (block_limits d pd s b)"
    by (simp add: block_limits_def case_prod_beta Let_def)
  have "0 \<le> sum_list (map (\<lambda>x. x * x) d)" by (induction d) auto
  then show "0 \<le> accel_dist (block_limits d pd s b)"
    by (simp add: block_limits_def case_prod_beta Let_def accel_dist_def convert_delta_vector_to_unit_vector_def
        limit_acceleration_by_axis_maximum_def axis_limit_nonneg)
qed

lemma profile_parameters_nonneg:
  assumes "0 \<le> b_max_junction_speed_sqr b"
  shows "0 \<le> b_max_entry_speed_sqr (fst (plan_compute_profile_parameters b v w))"
  using assms by (simp add: plan_compute_profile_parameters_def Let_def)

text \<open>What a line that is added does to the state before the plan is computed.\<close>

definition appended :: "planner_block \<Rightarrow> planner \<Rightarrow> planner \<Rightarrow> bool" where
  "appended b s t \<longleftrightarrow>
     pb_size t = pb_size s \<and> pb_tail t = pb_tail s \<and> pb_planned t = pb_planned s
     \<and> st_pl_block t = st_pl_block s \<and> st_current_speed t = st_current_speed s
     \<and> pb_blocks t = (pb_blocks s)[pb_head s := b]
     \<and> pb_head t = pb_next_head s \<and> pb_next_head t = next_slot s (pb_next_head s)
     \<and> b_entry_speed_sqr b = 0 \<and> 0 \<le> accel_dist b \<and> 0 \<le> b_max_entry_speed_sqr b"

lemma plan_css_fields:
  "fst (plan_css pos target b s) = b\<lparr>b_spindle := b_spindle (fst (plan_css pos target b s))\<rparr>"
  "\<exists>m. snd (plan_css pos target b s) = s\<lparr>css_mem := m\<rparr>"
proof -
  show "fst (plan_css pos target b s) = b\<lparr>b_spindle := b_spindle (fst (plan_css pos target b s))\<rparr>"
    by (cases b) (auto simp: plan_css_def Let_def split: option.split)
  have "\<exists>m. s = s\<lparr>css_mem := m\<rparr>" by (rule exI [of _ "css_mem s"]) simp
  then show "\<exists>m. snd (plan_css pos target b s) = s\<lparr>css_mem := m\<rparr>"
    by (auto simp: plan_css_def Let_def split: option.split)
qed

lemma nominal_speed_state: "\<exists>r. snd (plan_compute_profile_nominal_speed b s) = s\<lparr>p_actual_rpm := r\<rparr>"
proof -
  have "\<exists>r. s = s\<lparr>p_actual_rpm := r\<rparr>" by (rule exI [of _ "p_actual_rpm s"]) simp
  then show ?thesis by (auto simp: plan_compute_profile_nominal_speed_def Let_def)
qed

lemma profile_parameters_fields:
  "b_entry_speed_sqr (fst (plan_compute_profile_parameters b v w)) = b_entry_speed_sqr b"
  "accel_dist (fst (plan_compute_profile_parameters b v w)) = accel_dist b"
  by (simp_all add: plan_compute_profile_parameters_def Let_def accel_dist_def)

lemma block_limits_fields:
  "b_entry_speed_sqr (block_limits d pd s b) = b_entry_speed_sqr b"
  "b_condition (block_limits d pd s b) = b_condition b"
  by (simp_all add: block_limits_def Let_def case_prod_beta)

lemma append_block_appended:
  assumes "b_entry_speed_sqr b = 0" "0 \<le> accel_dist b" "0 \<le> b_max_junction_speed_sqr b"
  shows "\<exists>b'. appended b' s (append_block b u steps (s\<lparr>p_direction := d, css_mem := m\<rparr>))"
proof -
  let ?s = "s\<lparr>p_direction := d, css_mem := m\<rparr>"
  obtain r where n: "snd (plan_compute_profile_nominal_speed b ?s) = ?s\<lparr>p_actual_rpm := r\<rparr>"
    using nominal_speed_state by blast
  let ?b = "fst (plan_compute_profile_parameters b (fst (plan_compute_profile_nominal_speed b ?s))
      (p_previous_nominal_speed ?s))"
  have b: "b_entry_speed_sqr ?b = 0" "0 \<le> accel_dist ?b" "0 \<le> b_max_entry_speed_sqr ?b"
    using assms profile_parameters_nonneg by (simp_all add: profile_parameters_fields)
  have "appended ?b s (append_block b u steps ?s)"
    using b by (simp add: append_block_def Let_def case_prod_beta n appended_def upd_block_def next_slot_def)
  then show ?thesis by blast
qed

text \<open>The three outcomes of adding a line, with the block and the state they leave.\<close>

lemma buffer_line_unfold:
  fixes target pd s
  defines "cnt \<equiv> fold max (map (\<lambda>d. nat \<bar>d\<bar>) (line_delta target pd s)) 0"
    and "pd' \<equiv> pd\<lparr>pd_message := None, pd_output_commands := []\<rparr>"
  shows "\<exists>b1 b2 u d m. plan_buffer_line target pd s =
    (let t = s\<lparr>p_direction := d, css_mem := m\<rparr>
     in if cnt = 0 then Some ((False, pd), upd_block (pb_head s) (\<lambda>_. b1) t)
        else if c_system_motion (pd_condition pd) then Some ((True, pd'), upd_block (pb_head s) (\<lambda>_. b2) t)
        else map_option (Pair (True, pd')) (planner_recalculate (append_block b2 u (target_steps target s) t)))
    \<and> b_entry_speed_sqr b2 = 0 \<and> 0 \<le> accel_dist b2 \<and> 0 \<le> b_max_junction_speed_sqr b2
    \<and> b_condition b2 = pd_condition pd"
proof -
  define pos where "pos = (if c_system_motion (pd_condition pd) then sys_position s else p_position s)"
  define delta where "delta = line_delta target pd s"
  define dir where "dir = line_direction delta (p_direction s)"
  define c where "c = plan_css pos target (line_block target pd delta dir) (s\<lparr>p_direction := dir\<rparr>)"
  obtain m where s1: "snd c = s\<lparr>p_direction := dir, css_mem := m\<rparr>"
    using plan_css_fields(2) [of pos target "line_block target pd delta dir" "s\<lparr>p_direction := dir\<rparr>"]
    by (auto simp: c_def)
  note cf = plan_css_fields(1) [of pos target "line_block target pd delta dir" "s\<lparr>p_direction := dir\<rparr>",
      folded c_def]
  have b1: "b_condition (fst c) = pd_condition pd" "b_entry_speed_sqr (fst c) = 0" "b_step_event_count (fst c) = cnt"
    using arg_cong [OF cf, of b_condition] arg_cong [OF cf, of b_entry_speed_sqr] arg_cong [OF cf, of b_step_event_count]
    by (simp_all add: line_block_def new_block_def block_zero_def cnt_def delta_def)
  define mm where "mm = map2 (\<lambda>d k. real_of_int d / k) delta (axis_steps_per_mm s)"
  define b2 where "b2 = block_limits mm pd' (snd c) (fst c)"
  define u where "u = fst (convert_delta_vector_to_unit_vector mm)"
  have b2: "b_condition b2 = pd_condition pd" "b_entry_speed_sqr b2 = 0" "0 \<le> accel_dist b2"
    "0 \<le> b_max_junction_speed_sqr b2"
    by (simp_all add: b2_def block_limits_fields b1 block_limits_nonneg)
  have "plan_buffer_line target pd s =
    (if b_step_event_count (fst c) = 0 then Some ((False, pd), upd_block (pb_head (snd c)) (\<lambda>_. fst c) (snd c))
     else if c_system_motion (b_condition b2)
       then Some ((True, pd'), upd_block (pb_head (snd c)) (\<lambda>_. b2) (snd c))
     else map_option (Pair (True, pd')) (planner_recalculate (append_block b2 u (target_steps target s) (snd c))))"
    unfolding plan_buffer_line_def Let_def pd'_def
    by (simp add: case_prod_beta c_def [symmetric] dir_def [symmetric] delta_def [symmetric] pos_def [symmetric]
        mm_def [symmetric] b2_def [symmetric, unfolded pd'_def] u_def [symmetric])
  then show ?thesis using b1 b2 s1
    by (intro exI [of _ "fst c"] exI [of _ b2] exI [of _ u] exI [of _ dir] exI [of _ m]) (simp add: Let_def)
qed

lemma buffer_line_cases:
  assumes "plan_buffer_line target pd s = Some ((ok, pd'), s')"
  shows "ok \<and> \<not> c_system_motion (pd_condition pd) \<and> (\<exists>b t. appended b s t \<and> planner_recalculate t = Some s')
    \<or> (\<exists>b d m. s' = upd_block (pb_head s) (\<lambda>_. b) (s\<lparr>p_direction := d, css_mem := m\<rparr>))
      \<and> (ok \<longrightarrow> c_system_motion (pd_condition pd))"
proof -
  obtain b1 b2 u d m where e: "plan_buffer_line target pd s =
    (let t = s\<lparr>p_direction := d, css_mem := m\<rparr>
     in if fold max (map (\<lambda>d. nat \<bar>d\<bar>) (line_delta target pd s)) 0 = 0
        then Some ((False, pd), upd_block (pb_head s) (\<lambda>_. b1) t)
        else if c_system_motion (pd_condition pd)
          then Some ((True, pd\<lparr>pd_message := None, pd_output_commands := []\<rparr>), upd_block (pb_head s) (\<lambda>_. b2) t)
        else map_option (Pair (True, pd\<lparr>pd_message := None, pd_output_commands := []\<rparr>))
          (planner_recalculate (append_block b2 u (target_steps target s) t)))"
    and b2: "b_entry_speed_sqr b2 = 0" "0 \<le> accel_dist b2" "0 \<le> b_max_junction_speed_sqr b2"
    using buffer_line_unfold [of target pd s] by blast
  obtain b3 where b3: "appended b3 s (append_block b2 u (target_steps target s) (s\<lparr>p_direction := d, css_mem := m\<rparr>))"
    using append_block_appended [OF b2] by metis
  show ?thesis
    using assms b3 unfolding e by (auto simp: Let_def split: if_splits)
qed

lemma buffer_line_appends:
  assumes "plan_buffer_line target pd s = Some ((True, pd'), s')" "\<not> c_system_motion (pd_condition pd)"
  shows "\<exists>b2 u d m. planner_recalculate (append_block b2 u (target_steps target s)
        (s\<lparr>p_direction := d, css_mem := m\<rparr>)) = Some s'
    \<and> b_entry_speed_sqr b2 = 0 \<and> 0 \<le> accel_dist b2 \<and> 0 \<le> b_max_junction_speed_sqr b2
    \<and> b_condition b2 = pd_condition pd"
proof -
  obtain b1 b2 u d m where e: "plan_buffer_line target pd s =
    (let t = s\<lparr>p_direction := d, css_mem := m\<rparr>
     in if fold max (map (\<lambda>d. nat \<bar>d\<bar>) (line_delta target pd s)) 0 = 0
        then Some ((False, pd), upd_block (pb_head s) (\<lambda>_. b1) t)
        else if c_system_motion (pd_condition pd)
          then Some ((True, pd\<lparr>pd_message := None, pd_output_commands := []\<rparr>), upd_block (pb_head s) (\<lambda>_. b2) t)
        else map_option (Pair (True, pd\<lparr>pd_message := None, pd_output_commands := []\<rparr>))
          (planner_recalculate (append_block b2 u (target_steps target s) t)))"
    and b2: "b_entry_speed_sqr b2 = 0" "0 \<le> accel_dist b2" "0 \<le> b_max_junction_speed_sqr b2"
      "b_condition b2 = pd_condition pd"
    using buffer_line_unfold [of target pd s] by blast
  have "planner_recalculate (append_block b2 u (target_steps target s) (s\<lparr>p_direction := d, css_mem := m\<rparr>)) = Some s'"
    using assms unfolding e by (auto simp: Let_def split: if_splits)
  with b2 show ?thesis by blast
qed

lemma full_iff: "ring_ok s \<Longrightarrow> plan_check_full_buffer s \<longleftrightarrow> used s = pb_size s"
  using ring_full_iff [of "pb_head s" "slots s" "pb_tail s"]
  by (auto simp: plan_check_full_buffer_def ring_ok_def used_def next_slot_def mod_Suc split: if_splits)

text \<open>The new block comes last, at rest; the plan of the others is as it was.\<close>

lemma appended_ok:
  assumes "plan_ok s" "\<not> plan_check_full_buffer s" "appended b s t"
  shows "plan_ok t" "used t = Suc (used s)" "\<And>i. i < used s \<Longrightarrow> spd t i = spd s i"
proof -
  let ?n = "used s"
  obtain p where p: "pb_planned s = slot s p" "p < ?n \<or> p = 0" "settled p (max_spd s) (acc s) (spd s)"
    using assms(1) by (auto simp: plan_ok_def)
  have ok: "ring_ok s" "stepper_ok s" "feasible ?n (max_spd s) (acc s) (spd s)"
    "\<And>i. i < ?n \<Longrightarrow> 0 \<le> acc s i \<and> 0 \<le> spd s i"
    using assms(1) by (auto simp: plan_ok_def)
  have un: "Suc ?n < slots s"
    using used_less [of s] full_iff [OF ok(1)] assms(2) by linarith
  have nh: "pb_next_head s = next_slot s (pb_head s)" "pb_head s < slots s" using ok(1) by (simp_all add: ring_ok_def)
  have h: "(pb_head s + 1) mod slots s \<noteq> pb_tail s"
    using assms(2) nh by (auto simp: plan_check_full_buffer_def next_slot_def mod_Suc split: if_splits)
  have t: "ring_ok t" "slot t = slot s" "used t = Suc ?n"
    using assms(3) ok(1) nh h ring_used_put [of "pb_head s" "slots s" "pb_tail s"]
    by (auto simp: appended_def ring_ok_def slot_def [abs_def] used_def next_slot_def mod_Suc split: if_splits)
  have b: "block_at t i = (if i = ?n then b else block_at s i)" if "i < slots s" for i
  proof -
    have "block_at t i = (pb_blocks s)[pb_head s := b] ! slot s i"
      using assms(3) t(2) by (simp add: block_at_def appended_def)
    also have "\<dots> = (if slot s i = pb_head s then b else block_at s i)"
      using ok(1) by (simp add: nth_update_iff block_at_def ring_ok_def)
    finally show ?thesis using slot_inj [OF ok(1) that, of ?n] slot_used [OF ok(1)] un by simp
  qed
  have st: "st_pl_block t = st_pl_block s" "st_current_speed t = st_current_speed s"
    "pb_planned t = pb_planned s" "pb_tail t = pb_tail s" "pb_size t = pb_size s"
    using assms(3) by (simp_all add: appended_def)
  have n: "max_spd t i = (if i = ?n then max_spd t ?n else max_spd s i)" "acc t i = (if i = ?n then acc t ?n else acc s i)"
    "spd t i = (if i = ?n then 0 else spd s i)" if "i < slots s" for i
    using that b un assms(3) st ok(2) by (auto simp: max_spd_def acc_def spd_def appended_def stepper_ok_def)
  have pos: "0 \<le> max_spd t ?n" "0 \<le> acc t ?n"
    using b [of ?n] un assms(3) by (simp_all add: max_spd_def acc_def appended_def)
  show "used t = Suc ?n" by (rule t(3))
  show s: "spd t i = spd s i" if "i < ?n" for i using n(3) [of i] that un by simp
  have "feasible (Suc ?n) (max_spd t) (acc t) ((spd s)(?n := 0))"
  proof (rule feasible_snoc)
    show "feasible ?n (max_spd t) (acc t) (spd s)"
      using ok(3) n un by (subst feasible_cong [of _ _ "max_spd s" _ "acc s" _ "spd s"]) auto
    show "\<forall>i<?n. 0 \<le> spd s i \<and> 0 \<le> acc t i" using ok(4) n(2) un by auto
  qed (use pos in auto)
  then have "feasible (used t) (max_spd t) (acc t) (spd t)"
    unfolding t(3) using n(3) un by (subst feasible_cong [of _ _ "max_spd t" _ "acc t" _ "(spd s)(?n := 0)"]) auto
  moreover have "settled p (max_spd t) (acc t) (spd t)"
  proof (cases "p = 0")
    case False
    then show ?thesis
      using p n un by (subst settled_cong [of _ _ "max_spd s" _ "acc s" _ "spd s"]) auto
  qed simp
  moreover have "stepper_ok t" using ok(2) st t(3) by (auto simp: stepper_ok_def)
  moreover have "0 \<le> acc t i \<and> 0 \<le> spd t i" if "i < used t" for i
    using that ok(4) [of i] n(2,3) [of i] pos un t(3) by (cases "i = ?n") auto
  ultimately show "plan_ok t"
    unfolding plan_ok_def using t p(1,2) st(3) by auto
qed

lemma spd_frame:
  assumes "block_at t = block_at s" "st_pl_block t = st_pl_block s" "st_current_speed t = st_current_speed s"
  shows "spd t = spd s" "max_spd t = max_spd s" "acc t = acc s"
  using assms by (simp_all add: fun_eq_iff spd_def max_spd_def acc_def)

lemma plan_ok_transfer:
  assumes "plan_ok s" "ring_ok t" "slot t = slot s" "used t = used s" "stepper_ok t" "pb_planned t = pb_planned s"
    and "\<And>i. i < used s \<Longrightarrow> max_spd t i = max_spd s i \<and> acc t i = acc s i \<and> spd t i = spd s i"
  shows "plan_ok t"
proof -
  obtain p where p: "pb_planned s = slot s p" "p < used s \<or> p = 0" "settled p (max_spd s) (acc s) (spd s)"
    using assms(1) by (auto simp: plan_ok_def)
  have "settled p (max_spd t) (acc t) (spd t)"
  proof (cases "p < used s")
    case True
    then show ?thesis using p(3) assms(7) by (subst settled_cong [of _ _ "max_spd s" _ "acc s" _ "spd s"]) auto
  qed (use p(2) in simp)
  moreover have "feasible (used s) (max_spd t) (acc t) (spd t)"
    using assms(1,7) by (subst feasible_cong [of _ _ "max_spd s" _ "acc s" _ "spd s"]) (auto simp: plan_ok_def)
  ultimately show ?thesis
    using assms p(1,2) unfolding plan_ok_def by auto
qed

text \<open>A block written to the free slot changes nothing.\<close>

lemma free_slot_ok:
  assumes "plan_ok s"
  shows "plan_ok (upd_block (pb_head s) f (s\<lparr>p_direction := d, css_mem := m\<rparr>))" (is "plan_ok ?t")
proof (rule plan_ok_transfer [OF assms])
  have r: "ring_ok s" "stepper_ok s" using assms by (simp_all add: plan_ok_def)
  show "slot ?t = slot s" "used ?t = used s" "pb_planned ?t = pb_planned s"
    by (simp_all add: fun_eq_iff slot_def used_def upd_block_def)
  then show "ring_ok ?t" "stepper_ok ?t"
    using r by (simp_all add: ring_ok_def stepper_ok_def upd_block_def next_slot_def)
  show "max_spd ?t i = max_spd s i \<and> acc ?t i = acc s i \<and> spd ?t i = spd s i" if "i < used s" for i
  proof -
    have "slot s i \<noteq> pb_head s"
      using slot_inj [OF r(1), of i "used s"] slot_used [OF r(1)] used_less [of s] that by auto
    then have "block_at ?t i = block_at s i" by (simp add: block_at_def upd_block_def slot_def)
    then show ?thesis by (simp add: max_spd_def acc_def spd_def upd_block_def)
  qed
qed

lemma buffer_line_ok:
  assumes "plan_ok s" "\<not> plan_check_full_buffer s" "plan_buffer_line target pd s = Some ((ok, pd'), s')"
  shows "plan_ok s'"
  using buffer_line_cases [OF assms(3)]
proof (elim disjE conjE exE)
  fix b t assume t: "appended b s t" "planner_recalculate t = Some s'"
  then show ?thesis
    using recalculate_ok [OF appended_ok(1) [OF assms(1,2) t(1)]] appended_ok(2) [OF assms(1,2) t(1)] by auto
qed (use free_slot_ok [OF assms(1)] in simp)

lemma buffer_line_total:
  assumes "plan_ok s" "\<not> plan_check_full_buffer s" "\<not> c_system_motion (pd_condition pd)"
    "fold max (map (\<lambda>d. nat \<bar>d\<bar>) (line_delta target pd s)) 0 \<noteq> 0"
  shows "\<exists>pd' s'. plan_buffer_line target pd s = Some ((True, pd'), s') \<and> used s' = Suc (used s)"
proof -
  obtain b2 u d m pd' where e: "plan_buffer_line target pd s =
      map_option (Pair (True, pd')) (planner_recalculate (append_block b2 u (target_steps target s)
        (s\<lparr>p_direction := d, css_mem := m\<rparr>)))"
    and b2: "b_entry_speed_sqr b2 = 0" "0 \<le> accel_dist b2" "0 \<le> b_max_junction_speed_sqr b2"
    using buffer_line_unfold [of target pd s] assms(3,4) by (auto simp: Let_def)
  obtain b3 where b3: "appended b3 s (append_block b2 u (target_steps target s) (s\<lparr>p_direction := d, css_mem := m\<rparr>))"
    using append_block_appended [OF b2] by metis
  from recalculate_ok [OF appended_ok(1) [OF assms(1,2) b3]] appended_ok(2) [OF assms(1,2) b3]
  show ?thesis by (auto simp: e dest: same_ringD(2))
qed

section \<open>The stepper\<close>

text \<open>
  The stepper's contract with the block it executes: the speed it has reached lies within what the
  acceleration of the block allows over the distance done, and the block can still end at the speed
  the plan has for its end.
\<close>

definition stepper_moves :: "real \<Rightarrow> real \<Rightarrow> planner \<Rightarrow> planner" where
  "stepper_moves mm v s =
     (upd_block (pb_tail s) (\<lambda>b. b\<lparr>b_millimeters := mm\<rparr>) s)\<lparr>st_current_speed := v\<rparr>"

definition stepper_keeps :: "real \<Rightarrow> real \<Rightarrow> planner \<Rightarrow> bool" where
  "stepper_keeps mm v s \<longleftrightarrow>
     (let a = 2 * b_acceleration (block_at s 0); d = a * mm; u = st_current_speed s;
          exit = plan_get_exec_block_exit_speed_sqr s
      in st_pl_block s = Some (pb_tail s) \<and> 0 \<le> mm \<and> mm \<le> b_millimeters (block_at s 0)
         \<and> 0 \<le> b_acceleration (block_at s 0)
         \<and> \<bar>v * v - u * u\<bar> \<le> acc s 0 - d \<and> v * v \<le> exit + d
         \<and> (1 < used s \<longrightarrow> exit \<le> v * v + d))"

definition stepper_loads :: "planner \<Rightarrow> planner" where
  "stepper_loads s =
     s\<lparr>st_pl_block := Some (pb_tail s), st_current_speed := sqrt (b_entry_speed_sqr (block_at s 0))\<rparr>"

lemma stepper_loads_ok:
  assumes "plan_ok s" "0 < used s" "st_pl_block s = None"
  shows "plan_ok (stepper_loads s)" (is "plan_ok ?t")
proof (rule plan_ok_transfer [OF assms(1)])
  show "slot ?t = slot s" "pb_planned ?t = pb_planned s" "used ?t = used s"
    by (simp_all add: fun_eq_iff slot_def used_def stepper_loads_def)
  then show "ring_ok ?t" "stepper_ok ?t"
    using assms by (simp_all add: plan_ok_def ring_ok_def stepper_ok_def stepper_loads_def next_slot_def)
  have "0 \<le> spd s 0" using assms by (simp add: plan_ok_def)
  then have "0 \<le> b_entry_speed_sqr (block_at s 0)" using assms(3) by (simp add: spd_def)
  moreover have "block_at ?t = block_at s" by (simp add: fun_eq_iff block_at_def slot_def stepper_loads_def)
  ultimately show "max_spd ?t i = max_spd s i \<and> acc ?t i = acc s i \<and> spd ?t i = spd s i" for i
    using assms(3) by (simp add: max_spd_def acc_def spd_def) (simp add: stepper_loads_def)
qed

lemma exit_speed:
  "ring_ok s \<Longrightarrow> 0 < used s \<Longrightarrow>
    plan_get_exec_block_exit_speed_sqr s = (if used s = 1 then 0 else spd s 1)"
proof -
  assume r: "ring_ok s" "0 < used s"
  have "next_slot s (pb_tail s) = slot s 1" using next_slot_slot [of s 0] slot_0 [OF r(1)] by simp
  moreover have "slot s 1 = pb_head s \<longleftrightarrow> used s = 1"
    using slot_inj [OF r(1), of 1 "used s"] slot_used [OF r(1)] used_less [of s] r by (auto simp: ring_ok_def)
  ultimately show ?thesis
    by (simp add: plan_get_exec_block_exit_speed_sqr_def Let_def spd_def block_at_def)
qed

lemma stepper_moves_ok:
  assumes "plan_ok s" "stepper_keeps mm v s"
  shows "plan_ok (stepper_moves mm v s)" (is "plan_ok ?t")
proof -
  obtain p where p: "pb_planned s = slot s p" "p < used s \<or> p = 0" "settled p (max_spd s) (acc s) (spd s)"
    using assms(1) by (auto simp: plan_ok_def)
  have ok: "ring_ok s" "stepper_ok s" "feasible (used s) (max_spd s) (acc s) (spd s)"
    "\<And>i. i < used s \<Longrightarrow> 0 \<le> acc s i \<and> 0 \<le> spd s i"
    using assms(1) by (auto simp: plan_ok_def)
  define d where "d = 2 * b_acceleration (block_at s 0) * mm"
  have k: "st_pl_block s = Some (pb_tail s)" "0 \<le> d" "\<bar>v * v - spd s 0\<bar> \<le> acc s 0 - d" "0 < used s"
    "v * v \<le> plan_get_exec_block_exit_speed_sqr s + d"
    "1 < used s \<Longrightarrow> plan_get_exec_block_exit_speed_sqr s \<le> v * v + d"
    using assms(2) ok(2) by (auto simp: stepper_keeps_def Let_def spd_def d_def stepper_ok_def)
  have t: "slot ?t = slot s" "used ?t = used s" "pb_planned ?t = pb_planned s"
    by (simp_all add: fun_eq_iff slot_def used_def stepper_moves_def upd_block_def)
  have b: "block_at ?t i = (if slot s i = pb_tail s then (block_at s i)\<lparr>b_millimeters := mm\<rparr> else block_at s i)" for i
    using t(1) ok(1) by (simp add: block_at_def nth_update_iff ring_ok_def)
      (simp add: stepper_moves_def upd_block_def nth_update_iff ring_ok_def)
  have z: "slot s i = pb_tail s \<longleftrightarrow> i = 0" if "i < used s" for i
    using slot_inj [OF ok(1), of i 0] slot_0 [OF ok(1)] used_less [of s] that by (auto simp: ring_ok_def)
  have n: "max_spd ?t i = max_spd s i" "acc ?t i = ((acc s)(0 := d)) i" "spd ?t i = ((spd s)(0 := v * v)) i"
    if "i < used s" for i
    using z [OF that] b [of i] k(1)
    by (auto simp: max_spd_def acc_def spd_def accel_dist_def d_def) (auto simp: stepper_moves_def upd_block_def)
  have f: "feasible (used s) (max_spd s) ((acc s)(0 := d)) ((spd s)(0 := v * v))"
    using ok(3) k(4-6) exit_speed [OF ok(1) k(4)] unfolding feasible_def
    by (auto split: if_splits)
  have "settled p (max_spd ?t) (acc ?t) (spd ?t)"
  proof (cases "p < used s")
    case True
    have "settled p (max_spd s) ((acc s)(0 := d)) ((spd s)(0 := v * v))"
      using settled_hd [OF p(3)] k(3) by simp
    then show ?thesis using n True
      by (subst settled_cong [of _ _ "max_spd s" _ "(acc s)(0 := d)" _ "(spd s)(0 := v * v)"]) auto
  qed (use p(2) in simp)
  moreover have "feasible (used s) (max_spd ?t) (acc ?t) (spd ?t)"
    using f n by (subst feasible_cong [of _ _ "max_spd s" _ "(acc s)(0 := d)" _ "(spd s)(0 := v * v)"]) auto
  moreover have "ring_ok ?t" "stepper_ok ?t"
    using ok(1,2) k(1) t(2) by (simp_all add: ring_ok_def stepper_ok_def stepper_moves_def upd_block_def next_slot_def)
  moreover have "0 \<le> acc ?t i \<and> 0 \<le> spd ?t i" if "i < used s" for i
    using n(2,3) [OF that] ok(4) [OF that] k(2) by auto
  ultimately show ?thesis unfolding plan_ok_def t using p(1,2) by auto
qed

text \<open>The stepper is done with a block: it forgets it and the block is discarded.\<close>

definition stepper_done :: "planner \<Rightarrow> planner" where
  "stepper_done s = plan_discard_current_block (s\<lparr>st_pl_block := None\<rparr>)"

lemma stepper_done_ok:
  assumes "plan_ok s" "0 < used s"
  shows "plan_ok (stepper_done s)" "used (stepper_done s) = used s - 1"
    "i < used s - 1 \<Longrightarrow> block_at (stepper_done s) i = block_at s (Suc i)"
proof -
  let ?t = "stepper_done s"
  obtain n where n: "used s = Suc n" using assms(2) by (cases "used s") auto
  obtain p where p: "pb_planned s = slot s p" "p < used s" "settled p (max_spd s) (acc s) (spd s)"
    using assms by (auto simp: plan_ok_def)
  have ok: "ring_ok s" "stepper_ok s" "feasible (used s) (max_spd s) (acc s) (spd s)"
    "\<And>i. i < used s \<Longrightarrow> 0 \<le> acc s i \<and> 0 \<le> spd s i"
    using assms(1) by (auto simp: plan_ok_def)
  have un: "used s < slots s" by (rule used_less)
  have ne: "pb_tail s \<noteq> pb_head s"
    using slot_inj [OF ok(1), of 0 "used s"] slot_0 [OF ok(1)] slot_used [OF ok(1)] un n by auto
  have nt: "next_slot s (pb_tail s) = (pb_tail s + 1) mod slots s"
    using ok(1) by (auto simp: next_slot_def ring_ok_def mod_Suc)
  have pl: "pb_tail s = pb_planned s \<longleftrightarrow> p = 0"
    using slot_inj [OF ok(1), of 0 p] slot_0 [OF ok(1)] p un by auto
  have t: "pb_size ?t = pb_size s" "pb_head ?t = pb_head s" "pb_next_head ?t = pb_next_head s"
    "pb_tail ?t = (pb_tail s + 1) mod slots s" "st_pl_block ?t = None"
    "pb_planned ?t = (if p = 0 then (pb_tail s + 1) mod slots s else pb_planned s)"
    "pb_blocks ?t = (pb_blocks s)[pb_tail s := plan_cleanup (pb_blocks s ! pb_tail s)]"
    using ne pl nt [unfolded next_slot_def]
    by (auto simp: stepper_done_def plan_discard_current_block_def Let_def upd_block_def next_slot_def split: if_splits)
  have sl: "slot ?t i = slot s (Suc i)" for i
    by (simp add: slot_def t mod_simps add.commute add.left_commute)
  have r: "ring_ok ?t" using ok(1) t by (simp add: ring_ok_def next_slot_def)
  show u: "used ?t = used s - 1"
    using ring_used_get [of "pb_head s" "slots s" "pb_tail s"] ok(1) ne t by (simp add: used_def ring_ok_def)
  have z: "slot s (Suc i) \<noteq> pb_tail s" if "i < n" for i
    using slot_inj [OF ok(1), of "Suc i" 0] slot_0 [OF ok(1)] un that n by auto
  show b: "block_at ?t i = block_at s (Suc i)" if "i < used s - 1" for i
    using z [of i] that n by (simp add: block_at_def sl t(7))
  have e: "max_spd ?t i = max_spd s (Suc i)" "acc ?t i = acc s (Suc i)" "spd ?t i = spd s (Suc i)" if "i < n" for i
    using b [of i] that n t(5) by (simp_all add: max_spd_def acc_def spd_def)
  let ?M = "\<lambda>i. max_spd s (Suc i)" and ?A = "\<lambda>i. acc s (Suc i)" and ?e = "\<lambda>i. spd s (Suc i)"
  have "feasible (used ?t) (max_spd ?t) (acc ?t) (spd ?t)"
    using feasible_tl [of n "max_spd s" "acc s" "spd s"] ok(3) e u n
    by (subst feasible_cong [of _ _ ?M _ ?A _ ?e]) auto
  moreover have "settled (p - 1) (max_spd ?t) (acc ?t) (spd ?t)"
  proof (cases p)
    case (Suc q)
    have "settled q ?M ?A ?e"
      using settled_tl p(3) feasible_prefix [OF ok(3) p(2)] Suc by blast
    then show ?thesis
      using e p(2) n Suc by (subst settled_cong [of _ _ ?M _ ?A _ ?e]) auto
  qed simp
  moreover have "pb_planned ?t = slot ?t (p - 1)"
    using t(6) p(1) sl [of "p - 1"] by (cases p) (simp_all add: slot_def t(1,4))
  ultimately show "plan_ok ?t"
    unfolding plan_ok_def using r u p(2) n e ok(4) t(5) by (auto simp: stepper_ok_def intro!: exI [of _ "p - 1"])
qed

lemma stepper_done_empty: "ring_ok s \<Longrightarrow> used s = 0 \<Longrightarrow> stepper_done s = s\<lparr>st_pl_block := None\<rparr>"
  using slot_used [of s] slot_0 [of s] by (simp add: stepper_done_def plan_discard_current_block_def)

section \<open>Reset and replanning\<close>

lemma cleanup_pending_fields:
  "cleanup_pending k s = Some t \<Longrightarrow>
    pb_size t = pb_size s \<and> length (pb_blocks t) = length (pb_blocks s) \<and> st_pl_block t = st_pl_block s"
proof (induction k arbitrary: s)
  case (Suc k)
  then show ?case by (fastforce simp: Let_def upd_block_def split: if_splits)
qed simp

lemma empty_ring_ok:
  assumes "0 < pb_size s" "length (pb_blocks s) = slots s" "st_pl_block s = None"
  shows "plan_ok (s\<lparr>pb_planned := 0, pb_tail := 0, pb_head := 0, pb_next_head := next_slot s 0\<rparr>)" (is "plan_ok ?t")
proof -
  have "used ?t = 0" "ring_ok ?t" using assms by (simp_all add: used_def ring_used_def ring_ok_def next_slot_def)
  moreover have "pb_planned ?t = slot ?t 0" by (simp add: slot_def)
  ultimately show ?thesis
    using assms unfolding plan_ok_def by (auto simp: stepper_ok_def feasible_def intro!: exI [of _ 0])
qed

text \<open>After the stepper has been reset, a reset of the planner leaves an empty sound plan.\<close>

lemma plan_reset_ok:
  assumes "pb_blocks s = [] \<or> ring_ok s" "0 < planner_buffer_blocks s" "st_pl_block s = None"
    "plan_reset malloc s = Some (True, t)"
  shows "plan_ok t" "used t = 0"
proof -
  have al: "0 < n" if "alloc_size malloc m = (ok, n)" "0 < m" for m n ok
    using that
  proof (induction m rule: less_induct)
    case (less m)
    note ih = less.IH [of "m - 100"] less.IH [of "m - 10"]
    show ?case using less.prems ih by (auto simp: alloc_size.simps [of malloc m] split: if_splits)
  qed
  obtain init u where u: "plan_reset_buffer init u = Some t" "0 < pb_size u" "length (pb_blocks u) = slots u"
    "st_pl_block u = None"
    using assms al [OF surjective_pairing, of "planner_buffer_blocks s"]
    by (auto simp: plan_reset_def Let_def case_prod_beta ring_ok_def planner_emit_def split: if_splits prod.splits)
  obtain v where v: "(if init then Some u else cleanup_pending (pb_size u + 1) u) = Some v"
    "t = v\<lparr>pb_planned := 0, pb_tail := 0, pb_head := 0, pb_next_head := next_slot v 0\<rparr>"
    using u(1) unfolding plan_reset_buffer_def by (auto simp only: option.map_sel map_option_eq_Some)
  have "0 < pb_size v \<and> length (pb_blocks v) = slots v \<and> st_pl_block v = None"
  proof (cases init)
    case False
    then have "cleanup_pending (pb_size u + 1) u = Some v" using v(1) by simp
    from cleanup_pending_fields [OF this] u show ?thesis by simp
  qed (use u v(1) in simp)
  then show "plan_ok t" using empty_ring_ok v(2) by simp
  show "used t = 0" using v(2) by (simp add: used_def ring_used_def)
qed

lemma plan_cycle_reinitialize_ok:
  assumes "plan_ok s"
  shows "\<exists>t. plan_cycle_reinitialize s = Some t \<and> plan_ok t \<and> used t = used s"
proof -
  have ok: "ring_ok s" "stepper_ok s" using assms by (simp_all add: plan_ok_def)
  define u where "u = st_update_plan_block_parameters s"
  note st = st_update [OF ok u_def]
  note sr = same_ringD [OF st(1)]
  have u: "plan_ok (u\<lparr>pb_planned := pb_tail u\<rparr>)" (is "plan_ok ?v")
  proof -
    have e: "used ?v = used s" "slot ?v = slot s" "max_spd ?v = max_spd s" "acc ?v = acc s"
      "\<And>j. j < slots s \<Longrightarrow> spd ?v j = spd s j" "st_pl_block ?v = None"
      using st sr by (simp_all add: fun_eq_iff used_def slot_def max_spd_def acc_def spd_def block_at_def)
    moreover have "ring_ok ?v" using sr(5) ok(1) by (simp add: ring_ok_def next_slot_def)
    moreover have "feasible (used s) (max_spd s) (acc s) (spd ?v)"
      using assms e used_less [of s] by (subst feasible_cong [of _ _ "max_spd s" _ "acc s" _ "spd s"]) (auto simp: plan_ok_def)
    moreover have "pb_planned ?v = slot ?v 0" using slot_0 [OF \<open>ring_ok ?v\<close>] by simp
    ultimately show ?thesis
      using assms used_less [of s] unfolding plan_ok_def by (auto simp: stepper_ok_def intro!: exI [of _ 0])
  qed
  have uu: "used ?v = used s" for v using sr(2) by (simp add: used_def)
  have h: "pb_tail u \<noteq> pb_head u \<longleftrightarrow> 0 < used s"
    using slot_inj [OF ok(1), of 0 "used s"] slot_0 [OF ok(1)] slot_used [OF ok(1)] used_less [of s] sr by auto
  show ?thesis
  proof (cases "0 < used s")
    case True
    with recalculate_ok [OF u] uu h show ?thesis
      by (auto simp: plan_cycle_reinitialize_def u_def [symmetric] Let_def same_ringD(2))
  next
    case False
    with u uu h show ?thesis by (simp add: plan_cycle_reinitialize_def u_def [symmetric] Let_def)
  qed
qed

end
