(* ===== verification/PlannerProps.thy ===== *)
theory PlannerProps
  imports PlannerPlan
begin

text \<open>
  The planner as a transition system and what holds of it: the plan can always be executed, it is
  the fastest one that can, also when only part of it is computed anew, and the limits of the axes
  are kept. A change of the feed override breaks it.
\<close>

definition plan_start :: "planner \<Rightarrow> bool" where
  "plan_start s \<longleftrightarrow>
     (\<exists>malloc s0. pb_blocks s0 = [] \<and> 0 < planner_buffer_blocks s0 \<and> st_pl_block s0 = None
        \<and> plan_reset malloc s0 = Some (True, s))"

text \<open>
  Lines are added when there is room, the stepper loads, executes and finishes blocks, a hold ends
  in a replanning, a reset empties the ring, positions are synchronised and settings and sensors
  change.
\<close>

inductive plan_step :: "planner \<Rightarrow> planner \<Rightarrow> bool" where
  plan_line: "\<not> plan_check_full_buffer s \<Longrightarrow> plan_buffer_line target pd s = Some ((ok, pd'), s') \<Longrightarrow> plan_step s s'"
| plan_loads: "plan_get_current_block s = Some i \<Longrightarrow> st_pl_block s = None \<Longrightarrow> plan_step s (stepper_loads s)"
| plan_moves: "stepper_keeps mm v s \<Longrightarrow> plan_step s (stepper_moves mm v s)"
| plan_done: "plan_step s (stepper_done s)"
| plan_hold: "plan_cycle_reinitialize s = Some s' \<Longrightarrow> plan_step s s'"
| plan_again: "st_pl_block s = None \<Longrightarrow> 0 < planner_buffer_blocks s \<Longrightarrow> plan_reset malloc s = Some (True, s') \<Longrightarrow>
    plan_step s s'"
| plan_sync: "plan_step s (plan_sync_position s)"
| plan_world: "plan_step s (s\<lparr>rpm_sensor := r, sys_position := p, axis_steps_per_mm := k, axis_acceleration := a,
    axis_max_rate := v, junction_deviation := j\<rparr>)"

inductive_cases plan_stepE: "plan_step s s'"

lemma current_block_iff: "ring_ok s \<Longrightarrow> plan_get_current_block s \<noteq> None \<longleftrightarrow> 0 < used s"
  using slot_inj [of s 0 "used s"] slot_0 [of s] slot_used [of s] used_less [of s]
  by (auto simp: plan_get_current_block_def)

lemma plan_ok_frame:
  assumes "plan_ok s" "pb_size t = pb_size s" "pb_tail t = pb_tail s" "pb_head t = pb_head s"
    "pb_next_head t = pb_next_head s" "pb_blocks t = pb_blocks s" "st_pl_block t = st_pl_block s"
    "st_current_speed t = st_current_speed s" "pb_planned t = pb_planned s"
  shows "plan_ok t"
proof (rule plan_ok_transfer [OF assms(1)])
  show "slot t = slot s" "used t = used s" using assms(2-) by (simp_all add: fun_eq_iff slot_def used_def)
  then show "ring_ok t" "stepper_ok t"
    using assms by (simp_all add: plan_ok_def ring_ok_def stepper_ok_def next_slot_def)
  show "max_spd t i = max_spd s i \<and> acc t i = acc s i \<and> spd t i = spd s i" for i
    using assms(2-) by (simp add: max_spd_def acc_def spd_def block_at_def slot_def)
qed (use assms in simp)

interpretation plan: inductive_invariant plan_start plan_step plan_ok
proof
  show "plan_ok s" if "plan_start s" for s
    using that plan_reset_ok(1) by (auto simp: plan_start_def)
  show "plan_ok s'" if i: "plan_ok s" "plan_step s s'" for s s'
    using i(2)
  proof (rule plan_stepE)
    have r: "ring_ok s" using i(1) by (simp add: plan_ok_def)
    show "\<not> plan_check_full_buffer s \<Longrightarrow> plan_buffer_line target pd s = Some ((ok, pd'), s') \<Longrightarrow> plan_ok s'"
      for target pd ok pd' using buffer_line_ok [OF i(1)] by blast
    show "s' = stepper_loads s \<Longrightarrow> plan_get_current_block s = Some k \<Longrightarrow> st_pl_block s = None \<Longrightarrow> plan_ok s'" for k
      using stepper_loads_ok [OF i(1)] current_block_iff [OF r] by simp
    show "s' = stepper_moves mm v s \<Longrightarrow> stepper_keeps mm v s \<Longrightarrow> plan_ok s'" for mm v
      using stepper_moves_ok [OF i(1)] by simp
    have "plan_ok (stepper_done s)"
    proof (cases "0 < used s")
      case False
      then have n: "st_pl_block s = None" using i(1) by (simp add: plan_ok_def stepper_ok_def)
      have "s\<lparr>st_pl_block := None\<rparr> = s" using n by (cases s) simp
      then show ?thesis using stepper_done_empty [OF r] False i(1) by simp
    qed (rule stepper_done_ok(1) [OF i(1)])
    then show "s' = stepper_done s \<Longrightarrow> plan_ok s'" by simp
    show "plan_cycle_reinitialize s = Some s' \<Longrightarrow> plan_ok s'"
      using plan_cycle_reinitialize_ok [OF i(1)] by auto
    show "st_pl_block s = None \<Longrightarrow> 0 < planner_buffer_blocks s \<Longrightarrow> plan_reset malloc s = Some (True, s') \<Longrightarrow> plan_ok s'"
      for malloc using plan_reset_ok(1) [of s malloc s'] r by simp
    show "s' = plan_sync_position s \<Longrightarrow> plan_ok s'"
      using plan_ok_frame [OF i(1)] by (simp add: plan_sync_position_def)
    show "s' = s\<lparr>rpm_sensor := a, sys_position := b, axis_steps_per_mm := c, axis_acceleration := d,
        axis_max_rate := e, junction_deviation := f\<rparr> \<Longrightarrow> plan_ok s'" for a b c d e f
      using plan_ok_frame [OF i(1)] by simp
  qed
qed


lemma recalculate_fastest:
  assumes "plan_ok s" "0 < used s"
  shows "\<exists>t. planner_recalculate s = Some t \<and> plan_ok t \<and> spd t 0 = spd s 0 \<and> used t = used s
    \<and> fastest (used s) (max_spd s) (acc s) (spd t)"
proof -
  obtain t where t: "planner_recalculate s = Some t" "same_ring s t" "plan_ok t" "spd t 0 = spd s 0"
    "pb_planned s = slot s (used s - 1) \<longrightarrow> t = s"
    "pb_planned s \<noteq> slot s (used s - 1) \<longrightarrow> fastest (used s) (max_spd s) (acc s) (spd t)"
    using recalculate_ok [OF assms] by blast
  have "fastest (used s) (max_spd s) (acc s) (spd t)"
  proof (cases "pb_planned s = slot s (used s - 1)")
    case True
    obtain p where p: "pb_planned s = slot s p" "p < used s" "settled p (max_spd s) (acc s) (spd s)"
      using assms by (auto simp: plan_ok_def)
    have "p = used s - 1"
      using slot_inj [of s p "used s - 1"] p True assms used_less [of s] by (simp add: plan_ok_def)
    then show ?thesis
      using settled_last [of "used s" "max_spd s" "acc s" "spd s"] assms t(5) True p(3) by (simp add: plan_ok_def)
  qed (use t(6) in simp)
  then show ?thesis using t same_ringD(2) [OF t(2)] by blast
qed

lemma replan_all_ok:
  assumes "plan_ok s"
  shows "plan_ok (s\<lparr>pb_planned := pb_tail s\<rparr>)" "used (s\<lparr>pb_planned := pb_tail s\<rparr>) = used s"
    "max_spd (s\<lparr>pb_planned := pb_tail s\<rparr>) = max_spd s" "acc (s\<lparr>pb_planned := pb_tail s\<rparr>) = acc s"
    "spd (s\<lparr>pb_planned := pb_tail s\<rparr>) = spd s"
proof -
  let ?t = "s\<lparr>pb_planned := pb_tail s\<rparr>"
  show e: "used ?t = used s" "max_spd ?t = max_spd s" "acc ?t = acc s" "spd ?t = spd s"
    by (simp_all add: fun_eq_iff used_def slot_def max_spd_def acc_def spd_def block_at_def)
  have "ring_ok ?t" "stepper_ok ?t"
    using assms e(1) by (simp_all add: plan_ok_def ring_ok_def stepper_ok_def next_slot_def)
  moreover have "pb_planned ?t = slot ?t 0" using slot_0 [OF \<open>ring_ok ?t\<close>] by simp
  ultimately show "plan_ok ?t"
    using assms e unfolding plan_ok_def by (auto intro!: exI [of _ 0])
qed

text \<open>
  C28. The pointer to the planned block is sound: when a block has been added to a reachable state,
  the plan computed from the pointer on is the plan computed from the first block on, and it is the
  fastest one: no other plan that can be executed from the same speed enters any block faster.
\<close>

theorem planned_pointer_sound:
  assumes "reach plan_start plan_step s" "\<not> plan_check_full_buffer s" "appended b s t"
  shows "\<exists>u v. planner_recalculate t = Some u \<and> planner_recalculate (t\<lparr>pb_planned := pb_tail t\<rparr>) = Some v
    \<and> (\<forall>i < used t. spd u i = spd v i)
    \<and> feasible (used t) (max_spd t) (acc t) (spd u)
    \<and> (\<forall>g. feasible (used t) (max_spd t) (acc t) g \<longrightarrow> g 0 = spd u 0 \<longrightarrow> (\<forall>i < used t. g i \<le> spd u i))"
proof -
  have t: "plan_ok t" "0 < used t"
    using appended_ok(1,2) [OF plan.reach_inv [OF assms(1)] assms(2,3)] by auto
  obtain u where u: "planner_recalculate t = Some u" "spd u 0 = spd t 0" "fastest (used t) (max_spd t) (acc t) (spd u)"
    using recalculate_fastest [OF t] by blast
  obtain v where v: "planner_recalculate (t\<lparr>pb_planned := pb_tail t\<rparr>) = Some v" "spd v 0 = spd t 0"
    "fastest (used t) (max_spd t) (acc t) (spd v)"
    using recalculate_fastest [OF replan_all_ok(1) [OF t(1)]] replan_all_ok(2-) [OF t(1)] t(2) by auto
  have "spd u i = spd v i" if "i < used t" for i
    using fastest_unique [OF u(3) v(3) _ that] u(2) v(2) by simp
  with u v show ?thesis by (auto simp: fastest_def)
qed

definition planner_demo :: planner where
  "planner_demo = snd (the (plan_reset (\<lambda>_. True) planner_zero))"

definition line_demo :: line_data where
  "line_demo = (plan_data_init 0 0 True planner_zero)\<lparr>pd_feed_rate := 500\<rparr>"

lemma planner_demo:
  "reach plan_start plan_step planner_demo" "\<not> plan_check_full_buffer planner_demo" "used planner_demo = 0"
  "st_pl_block planner_demo = None"
proof -
  obtain t where t: "plan_reset (\<lambda>_. True) planner_zero = Some (True, t)"
    and f: "pb_tail t = 0" "pb_head t = 0" "pb_next_head t = 1" "st_pl_block t = None"
    by (simp add: plan_reset_def planner_zero_def alloc_size.simps plan_reset_buffer_def Let_def next_slot_def)
  have "plan_start t"
    unfolding plan_start_def using t
    by (intro exI [of _ "\<lambda>_. True"] exI [of _ planner_zero]) (simp add: planner_zero_def)
  moreover have "planner_demo = t" by (simp add: planner_demo_def t)
  ultimately show "reach plan_start plan_step planner_demo" "\<not> plan_check_full_buffer planner_demo"
    "used planner_demo = 0" "st_pl_block planner_demo = None"
    using f by (auto intro: reach_init simp: plan_check_full_buffer_def used_def ring_used_def)
qed

lemma demo_line:
  "\<exists>pd' s. plan_buffer_line [1, 0, 0, 0, 0] line_demo planner_demo = Some ((True, pd'), s) \<and> used s = 1
    \<and> reach plan_start plan_step s"
proof -
  note d = planner_demo
  have "axis_steps_per_mm planner_demo = replicate 5 100" "p_position planner_demo = replicate 5 0"
    by (simp_all add: planner_demo_def plan_reset_def planner_zero_def alloc_size.simps plan_reset_buffer_def
        Let_def N_AXIS_def)
  then have delta: "line_delta [1, 0, 0, 0, 0] line_demo planner_demo = [100, 0, 0, 0, 0]"
    by (simp add: line_delta_def target_steps_def lround_def line_demo_def plan_data_init_def cond_zero_def
        numeral_eq_Suc)
  have "plan_ok planner_demo" by (rule plan.reach_inv [OF d(1)])
  then obtain pd' s where s: "plan_buffer_line [1, 0, 0, 0, 0] line_demo planner_demo = Some ((True, pd'), s)"
    "used s = 1"
    using buffer_line_total [OF _ d(2), of line_demo "[1, 0, 0, 0, 0]"] delta d(3)
    by (auto simp: line_demo_def plan_data_init_def cond_zero_def)
  from reach_step [OF d(1) plan_line [OF d(2) s(1)]] s show ?thesis by blast
qed


lemma planned_pointer_sound_witness:
  "\<exists>t u v. used t = 1 \<and> planner_recalculate t = Some u \<and> planner_recalculate (t\<lparr>pb_planned := pb_tail t\<rparr>) = Some v
    \<and> spd u 0 = spd v 0"
proof -
  note d = planner_demo
  let ?b = "block_zero\<lparr>b_acceleration := 1, b_millimeters := 1\<rparr>" and ?s = planner_demo
  let ?t = "?s\<lparr>pb_blocks := (pb_blocks ?s)[pb_head ?s := ?b], pb_head := pb_next_head ?s,
    pb_next_head := next_slot ?s (pb_next_head ?s)\<rparr>"
  have a: "appended ?b ?s ?t" by (simp add: appended_def block_zero_def accel_dist_def)
  have "used ?t = 1" using appended_ok(2) [OF plan.reach_inv [OF d(1)] d(2) a] d(3) by simp
  with planned_pointer_sound [OF d(1,2) a] show ?thesis by auto
qed

end
