(* ===== verification/PlannerLimits.thy ===== *)
theory PlannerLimits
  imports PlannerProps
begin

text \<open>
  Limits of the axes, the position the planner is at, and what a feed override does to a plan.
\<close>

lemma axis_limit: "i < N_AXIS \<Longrightarrow> \<bar>u ! i\<bar> * limit_by_axis_maximum m u \<le> \<bar>m ! i\<bar>"
proof -
  assume i: "i < N_AXIS"
  let ?f = "\<lambda>i lim. if u ! i \<noteq> 0 then min lim \<bar>m ! i / u ! i\<bar> else lim"
  have le: "fold ?f xs z \<le> z" for xs z
  proof (induction xs arbitrary: z)
    case (Cons a xs)
    have "fold ?f xs (?f a z) \<le> ?f a z" by (rule Cons.IH)
    also have "\<dots> \<le> z" by simp
    finally show ?case by simp
  qed simp
  have "fold ?f xs z \<le> \<bar>m ! i / u ! i\<bar>" if "i \<in> set xs" "u ! i \<noteq> 0" for xs z
    using that
  proof (induction xs arbitrary: z)
    case (Cons x xs)
    show ?case
    proof (cases "x = i")
      case True
      then show ?thesis using le [of xs "?f x z"] Cons.prems(2) by auto
    qed (use Cons in auto)
  qed simp
  then have "limit_by_axis_maximum m u \<le> \<bar>m ! i / u ! i\<bar>" if "u ! i \<noteq> 0"
    unfolding limit_by_axis_maximum_def using i that by (intro \<open>\<And>xs z. i \<in> set xs \<Longrightarrow> u ! i \<noteq> 0 \<Longrightarrow> fold ?f xs z \<le> \<bar>m ! i / u ! i\<bar>\<close>) auto
  then show ?thesis
    by (cases "u ! i = 0") (auto simp: abs_divide field_simps)
qed

text \<open>
  C29. The limits of the axes: along the direction of a block no axis goes faster than its maximum
  rate and none accelerates more than its maximum, whatever the feed rate and the overrides, as long
  as the rapid override is at most 100 percent, rapids are not per revolution, and the axes allow
  the minimum feed rate of 1 mm/min.
\<close>

theorem axis_limits_kept:
  assumes "b = block_limits delta_mm pd s b0" "u = fst (convert_delta_vector_to_unit_vector delta_mm)"
    and "i < N_AXIS" "p_rapid_rate s' \<le> 100" "MINIMUM_FEED_RATE \<le> b_rapid_rate b"
    and "c_rapid_motion (b_condition b) \<Longrightarrow> \<not> c_units_per_rev (b_condition b) \<and> \<not> ls_synchronized (b_spindle b)"
  shows "\<bar>u ! i\<bar> * fst (plan_compute_profile_nominal_speed b s') \<le> \<bar>axis_max_rate s ! i\<bar>
    \<and> \<bar>u ! i\<bar> * b_acceleration b \<le> \<bar>axis_acceleration s ! i\<bar>"
proof -
  have r: "b_rapid_rate b = limit_by_axis_maximum (axis_max_rate s) u"
    "b_acceleration b = limit_by_axis_maximum (axis_acceleration s) u"
    "c_rapid_motion (b_condition b) \<Longrightarrow> b_programmed_rate b = b_rapid_rate b"
    using assms(1,2) by (simp_all add: block_limits_def Let_def case_prod_beta limit_max_rate_by_axis_maximum_def
        limit_acceleration_by_axis_maximum_def)
  have "fst (plan_compute_profile_nominal_speed b s') \<le> b_rapid_rate b"
  proof (cases "c_rapid_motion (b_condition b)")
    case True
    have "b_rapid_rate b * (1 / 100 * real (p_rapid_rate s')) \<le> b_rapid_rate b * 1"
      using assms(4,5) by (intro mult_left_mono) (auto simp: MINIMUM_FEED_RATE_def)
    then show ?thesis
      using True assms(5,6) r(3) by (simp add: plan_compute_profile_nominal_speed_def Let_def)
  next
    case False
    then show ?thesis using assms(5) by (simp add: plan_compute_profile_nominal_speed_def Let_def)
  qed
  then have "\<bar>u ! i\<bar> * fst (plan_compute_profile_nominal_speed b s') \<le> \<bar>u ! i\<bar> * b_rapid_rate b"
    by (intro mult_left_mono) auto
  with axis_limit [OF assms(3), of u "axis_max_rate s"] axis_limit [OF assms(3), of u "axis_acceleration s"] r
  show ?thesis by simp
qed

lemma axis_limits_kept_witness:
  "\<exists>b. b = block_limits [0, 1, 0, 0, 0] line_demo planner_zero block_zero
     \<and> fst (plan_compute_profile_nominal_speed b planner_zero) \<le> 1000"
proof -
  let ?b = "block_limits [0, 1, 0, 0, 0] line_demo planner_zero block_zero"
  have u: "fst (convert_delta_vector_to_unit_vector [0, 1, 0, 0, 0]) = [0, 1, 0, 0, 0]"
    by (simp add: convert_delta_vector_to_unit_vector_def)
  have "b_rapid_rate ?b = 1000"
    using u by (simp add: block_limits_def Let_def case_prod_beta limit_max_rate_by_axis_maximum_def
        limit_by_axis_maximum_def N_AXIS_def upt_rec_numeral SOME_LARGE_VALUE_def planner_zero_def numeral_eq_Suc)
  then have "\<bar>[0, 1, 0, 0, 0 :: real] ! 1\<bar> * fst (plan_compute_profile_nominal_speed ?b (planner_zero\<lparr>p_rapid_rate := 0\<rparr>))
      \<le> \<bar>axis_max_rate planner_zero ! 1\<bar>"
    using axis_limits_kept [OF refl u [symmetric], of 1 "planner_zero\<lparr>p_rapid_rate := 0\<rparr>" line_demo planner_zero block_zero]
    by (simp add: N_AXIS_def MINIMUM_FEED_RATE_def block_limits_fields block_zero_def cond_zero_def)
  moreover have "planner_zero\<lparr>p_rapid_rate := 0\<rparr> = planner_zero" by (simp add: planner_zero_def)
  ultimately show ?thesis by (simp add: planner_zero_def)
qed

section \<open>Position\<close>

lemma lround_close: "\<bar>real_of_int (lround x) - x\<bar> \<le> 1 / 2"
proof -
  have "real_of_int \<lfloor>x + 1 / 2\<rfloor> \<le> x + 1 / 2" "x + 1 / 2 < real_of_int \<lfloor>x + 1 / 2\<rfloor> + 1"
    "x - 1 / 2 \<le> real_of_int \<lceil>x - 1 / 2\<rceil>" "real_of_int \<lceil>x - 1 / 2\<rceil> < x - 1 / 2 + 1"
    by linarith+
  then show ?thesis unfolding lround_def abs_le_iff
    by (cases "0 \<le> x") (simp_all only: if_True if_False, linarith+)
qed

text \<open>
  C30. After a line has been added, the position the planner reports is its target, up to half a
  step of each axis.
\<close>

theorem planned_position_close:
  assumes "reach plan_start plan_step s" "\<not> plan_check_full_buffer s"
    and "plan_buffer_line target pd s = Some ((True, pd'), s')"
    and "\<not> c_system_motion (pd_condition pd)" "\<not> c_backlash_motion (pd_condition pd)"
    and "i < length target" "i < length (axis_steps_per_mm s)" "0 < axis_steps_per_mm s ! i"
  shows "\<bar>plan_get_position s' ! i - target ! i\<bar> \<le> 1 / (2 * axis_steps_per_mm s ! i)"
proof -
  obtain b2 u d m where r: "planner_recalculate (append_block b2 u (target_steps target s)
        (s\<lparr>p_direction := d, css_mem := m\<rparr>)) = Some s'" (is "planner_recalculate ?t = _")
    and b2: "b_entry_speed_sqr b2 = 0" "0 \<le> accel_dist b2" "0 \<le> b_max_junction_speed_sqr b2"
      "b_condition b2 = pd_condition pd"
    using buffer_line_appends [OF assms(3,4)] by blast
  obtain b3 where b3: "appended b3 s ?t" using append_block_appended [OF b2(1-3)] by metis
  have p: "plan_ok s" by (rule plan.reach_inv [OF assms(1)])
  obtain x where x: "snd (plan_compute_profile_nominal_speed b2 (s\<lparr>p_direction := d, css_mem := m\<rparr>))
      = s\<lparr>p_direction := d, css_mem := m, p_actual_rpm := x\<rparr>"
    using nominal_speed_state [of b2 "s\<lparr>p_direction := d, css_mem := m\<rparr>"] by auto
  have t: "p_position ?t = target_steps target s" "axis_steps_per_mm ?t = axis_steps_per_mm s"
    using assms(5) b2(4)
    by (simp_all add: append_block_def Let_def case_prod_beta x upd_block_def plan_compute_profile_parameters_def)
  have "strip s' = strip ?t"
    using recalculate_ok [OF appended_ok(1) [OF p assms(2) b3]] appended_ok(2) [OF p assms(2) b3] r
    by (auto simp: same_ring_def)
  then have "p_position s' = target_steps target s" "axis_steps_per_mm s' = axis_steps_per_mm s"
    using strip_fields(6,7) [of s' ?t] t by (simp_all only: True_implies_equals)
  then have "plan_get_position s' ! i = real_of_int (lround (target ! i * axis_steps_per_mm s ! i)) / axis_steps_per_mm s ! i"
    using assms(6,7) by (simp add: plan_get_position_def target_steps_def)
  moreover have "\<bar>y / k - v\<bar> \<le> 1 / (2 * k)" if "\<bar>y - v * k\<bar> \<le> 1 / 2" "0 < k" for y v k :: real
    using that by (simp add: abs_le_iff field_simps)
  ultimately show ?thesis using lround_close [of "target ! i * axis_steps_per_mm s ! i"] assms(8) by simp
qed

lemma planned_position_close_witness:
  "\<exists>s. \<bar>plan_get_position s ! 0 - 1\<bar> \<le> 1 / (2 * 100)"
proof -
  obtain pd' s where s: "plan_buffer_line [1, 0, 0, 0, 0] line_demo planner_demo = Some ((True, pd'), s)"
    using demo_line by blast
  have "axis_steps_per_mm planner_demo = replicate 5 100"
    by (simp add: planner_demo_def plan_reset_def planner_zero_def alloc_size.simps plan_reset_buffer_def Let_def)
  then have "\<bar>plan_get_position s ! 0 - 1\<bar> \<le> 1 / (2 * 100)"
    using planned_position_close [OF planner_demo(1,2) s, of 0]
    by (simp add: line_demo_def plan_data_init_def cond_zero_def)
  then show ?thesis by blast
qed

section \<open>Overrides\<close>

definition override_block :: "real \<Rightarrow> real \<Rightarrow> real \<Rightarrow> real \<Rightarrow> real \<Rightarrow> planner_block" where
  "override_block rate junction entry max_entry accel = block_zero
     \<lparr>b_programmed_rate := rate, b_rapid_rate := 1000, b_max_junction_speed_sqr := junction,
      b_entry_speed_sqr := entry, b_max_entry_speed_sqr := max_entry, b_acceleration := accel,
      b_millimeters := 1\<rparr>"

text \<open>Three blocks in a ring of four slots, at feed override \<open>f\<close>.\<close>

definition override_plan :: "nat \<Rightarrow> nat \<Rightarrow> real \<Rightarrow> planner_event list \<Rightarrow> planner_block list \<Rightarrow> planner" where
  "override_plan f planned nominal events blocks = planner_zero
     \<lparr>pb_size := 3, pb_blocks := blocks, pb_head := 3, pb_next_head := 0, pb_planned := planned,
      p_feed_rate := f, p_rapid_rate := 100, sys_feed_rate := f, sys_rapid_rate := 100,
      p_previous_nominal_speed := nominal, p_events := events\<rparr>"

definition override_demo :: planner where
  "override_demo = override_plan 100 0 0 []
     [override_block 40 0 0 0 100, override_block 40 100 100 100 10,
      override_block 12 SOME_LARGE_VALUE 120 144 60, block_zero]"

lemma override_block_sel [simp]:
  "b_programmed_rate (override_block r j e m a) = r" "b_rapid_rate (override_block r j e m a) = 1000"
  "b_max_junction_speed_sqr (override_block r j e m a) = j" "b_entry_speed_sqr (override_block r j e m a) = e"
  "b_max_entry_speed_sqr (override_block r j e m a) = m" "accel_dist (override_block r j e m a) = 2 * a"
  "b_condition (override_block r j e m a) = cond_zero" "b_spindle (override_block r j e m a) = spindle_zero"
  "(override_block r j e m a)\<lparr>b_entry_speed_sqr := e'\<rparr> = override_block r j e' m a"
  "(override_block r j e m a)\<lparr>b_max_entry_speed_sqr := m'\<rparr> = override_block r j e m' a"
  by (simp_all add: override_block_def accel_dist_def block_zero_def)

lemma override_plan_sel [simp]:
  "pb_size (override_plan f p n e bs) = 3" "pb_blocks (override_plan f p n e bs) = bs"
  "pb_tail (override_plan f p n e bs) = 0" "pb_head (override_plan f p n e bs) = 3"
  "pb_next_head (override_plan f p n e bs) = 0" "pb_planned (override_plan f p n e bs) = p"
  "st_pl_block (override_plan f p n e bs) = None"
  "p_feed_rate (override_plan f p n e bs) = f" "p_rapid_rate (override_plan f p n e bs) = 100"
  "sys_feed_rate (override_plan f p n e bs) = f" "sys_rapid_rate (override_plan f p n e bs) = 100"
  "p_events (override_plan f p n e bs) = e" "\<not> sys_rates_disable (override_plan f p n e bs)"
  by (simp_all add: override_plan_def planner_zero_def)

lemma override_plan_upd [simp]:
  "(override_plan f p n e bs)\<lparr>pb_planned := p'\<rparr> = override_plan f p' n e bs"
  "(override_plan f p n e bs)\<lparr>p_previous_nominal_speed := n'\<rparr> = override_plan f p n' e bs"
  "(override_plan f p n e bs)\<lparr>p_events := e'\<rparr> = override_plan f p n e' bs"
  "(override_plan f p n e bs)\<lparr>pb_blocks := bs'\<rparr> = override_plan f p n e bs'"
  "(override_plan f p n e bs)\<lparr>sys_feed_rate := f', sys_rapid_rate := 100, p_events := e',
     p_feed_rate := f', p_rapid_rate := 100\<rparr> = override_plan f' p n e' bs"
  by (simp_all add: override_plan_def)

lemma override_nominal:
  "1 \<le> r \<Longrightarrow> r \<le> 200 \<Longrightarrow> plan_compute_profile_nominal_speed (override_block r j e m a) (override_plan 50 p n ev bs) =
     (max (r / 2) 1, override_plan 50 p n ev bs)"
  by (simp add: plan_compute_profile_nominal_speed_def cond_zero_def spindle_zero_def Let_def MINIMUM_FEED_RATE_def min_def)

lemma override_fuel: "(4 :: nat) = Suc (Suc (Suc (Suc 0)))"
  by simp

lemmas override_run = override_fuel numeral_3_eq_3 numeral_2_eq_2 next_slot_def prev_slot_def upd_block_def Let_def

lemma SOME_LARGE_VALUE_large [simp]:
  "r \<le> 1000 \<Longrightarrow> \<not> SOME_LARGE_VALUE < r" "r < 1000 \<Longrightarrow> r < SOME_LARGE_VALUE"
  by (simp_all add: SOME_LARGE_VALUE_def)

lemma override_profiles:
  "update_profiles 4 0 SOME_LARGE_VALUE (override_plan 50 0 n ev
     [override_block 40 0 0 0 100, override_block 40 100 100 100 10, override_block 12 SOME_LARGE_VALUE 120 144 60, block_zero]) =
   Some (override_plan 50 0 6 ev
     [override_block 40 0 0 0 100, override_block 40 100 100 100 10, override_block 12 SOME_LARGE_VALUE 120 36 60, block_zero])"
  by (simp add: override_nominal override_run plan_compute_profile_parameters_def)

lemma override_passes:
  fixes bs defines "bs \<equiv> [override_block 40 0 0 0 100, override_block 40 100 100 100 10,
    override_block 12 SOME_LARGE_VALUE 36 36 60, block_zero]"
  shows "reverse_pass (Suc (Suc k)) 2 1 (override_plan 50 0 n ev bs) = Some (override_plan 50 0 n ev bs)"
    and "forward_pass (Suc (Suc (Suc k))) 0 1 (override_plan 50 0 n ev bs) = Some (override_plan 50 2 n ev bs)"
proof -
  have "reverse_pass (Suc k) 1 0 (override_plan 50 0 n ev bs) = Some (override_plan 50 0 n ev bs)" by simp
  then show "reverse_pass (Suc (Suc k)) 2 1 (override_plan 50 0 n ev bs) = Some (override_plan 50 0 n ev bs)"
    by (subst reverse_pass.simps) (simp add: bs_def prev_slot_def st_update_plan_block_parameters_def del: reverse_pass.simps)
  have "forward_pass (Suc (Suc k)) 1 2 (override_plan 50 1 n ev bs) = Some (override_plan 50 2 n ev bs)"
    by (subst forward_pass.simps) (simp add: bs_def next_slot_def)
  then show "forward_pass (Suc (Suc (Suc k))) 0 1 (override_plan 50 0 n ev bs) = Some (override_plan 50 2 n ev bs)"
    by (subst forward_pass.simps) (simp add: bs_def next_slot_def numeral_2_eq_2 del: forward_pass.simps)
qed

lemma override_recalculate:
  "planner_recalculate (override_plan 50 0 n ev
     [override_block 40 0 0 0 100, override_block 40 100 100 100 10, override_block 12 SOME_LARGE_VALUE 120 36 60, block_zero]) =
   Some (override_plan 50 2 n ev
     [override_block 40 0 0 0 100, override_block 40 100 100 100 10, override_block 12 SOME_LARGE_VALUE 36 36 60, block_zero])"
  using override_passes(1) [of 2 n ev] override_passes(2) [of 1 n ev]
  by (simp add: planner_recalculate_def prev_slot_def next_slot_def upd_block_def numeral_eq_Suc Let_def
      del: reverse_pass.simps forward_pass.simps)

lemma override_result:
  "\<exists>ev. plan_feed_override 50 100 override_demo = Some (override_plan 50 2 6 ev
     [override_block 40 0 0 0 100, override_block 40 100 100 100 10, override_block 12 SOME_LARGE_VALUE 36 36 60, block_zero])"
  by (simp add: plan_feed_override_def plan_feed_override_inner_def constrain_def replan_def
      plan_update_velocity_profile_parameters_def plan_cycle_reinitialize_def st_update_plan_block_parameters_def
      MIN_FEED_RATE_OVERRIDE_def MAX_FEED_RATE_OVERRIDE_def override_demo_def planner_emit_def
      override_profiles override_recalculate exI [of _ "[ReportOverrides, OverrideChangedFeed]"])

text \<open>
  C31. A feed override can leave a plan that cannot be executed: a block entered at the speed of its
  junction, which the override does not change, is skipped when the plan is computed anew, although
  the block after it has become too slow to be reached with the acceleration of the block.
\<close>

theorem override_breaks_plan:
  "\<exists>s s'. plan_ok s \<and> plan_feed_override 50 100 s = Some s'
     \<and> used s' = 3 \<and> spd s' 1 > spd s' 2 + acc s' 1"
proof -
  let ?s = override_demo
  have u: "used (override_plan f p n e bs) = 3" for f p n e bs by (simp add: used_def ring_used_def)
  then have us: "used ?s = 3" by (simp add: override_demo_def)
  have sl: "slot (override_plan f p n e bs) i = i" if "i < 3" for f p n e bs i
    using that by (simp add: slot_def)
  have n: "spd ?s 0 = 0" "spd ?s 1 = 100" "spd ?s 2 = 120" "acc ?s 0 = 200" "acc ?s 1 = 20" "acc ?s 2 = 120"
    "max_spd ?s 1 = 100" "max_spd ?s 2 = 144"
    by (simp_all add: spd_def acc_def max_spd_def block_at_def override_demo_def sl numeral_2_eq_2)
  have lt: "i < 3 \<longleftrightarrow> i = 0 \<or> i = 1 \<or> i = 2" "Suc i < 3 \<longleftrightarrow> i = 0 \<or> i = 1" for i :: nat by auto
  have "feasible 3 (max_spd ?s) (acc ?s) (spd ?s)"
    using n by (auto simp: feasible_def lt numeral_2_eq_2)
  moreover have "ring_ok ?s" "stepper_ok ?s" "pb_planned ?s = slot ?s 0"
    using sl [of 0] by (simp_all add: ring_ok_def stepper_ok_def override_demo_def next_slot_def)
  ultimately have "plan_ok ?s"
    unfolding plan_ok_def us using n by (auto simp: lt intro!: exI [of _ 0])
  moreover obtain s' ev where s': "plan_feed_override 50 100 ?s = Some s'" "s' = override_plan 50 2 6 ev
     [override_block 40 0 0 0 100, override_block 40 100 100 100 10, override_block 12 SOME_LARGE_VALUE 36 36 60, block_zero]"
    using override_result by blast
  moreover have "used s' = 3" "spd s' 1 > spd s' 2 + acc s' 1"
    by (simp_all add: s'(2) u spd_def acc_def block_at_def sl numeral_2_eq_2)
  ultimately show ?thesis by blast
qed

end
