(* ===== verification/NgcExpr.thy ===== *)
theory NgcExpr
  imports Numbers NgcParams
begin

text \<open>
  \<open>grbl/ngc_expr.c\<close>: the expressions of G-code. A float is a real, an infinity or not a number;
  signed zeros, rounding and the range of floats are left out. The functions that call one another
  recursively take the reader of values as an argument, and \<open>ngc_read_real_value\<close> closes the
  recursion with fuel; a call is at least one character further on, so that the length of the line is
  enough of it. What the language leaves undefined (a conversion out of range, a write outside an
  array) is the result \<open>Undefined\<close>. A variable not yet assigned holds \<open>ee_junk\<close>.
\<close>

section \<open>Floats\<close>

datatype fval = Fin real | Inf bool | NaN

fun fneg :: "fval \<Rightarrow> fval" where
  "fneg (Fin x) = Fin (- x)"
| "fneg (Inf n) = Inf (\<not> n)"
| "fneg NaN = NaN"

fun flt :: "fval \<Rightarrow> fval \<Rightarrow> bool" where
  "flt (Fin x) (Fin y) = (x < y)"
| "flt (Fin x) (Inf n) = (\<not> n)"
| "flt (Inf n) (Fin y) = n"
| "flt (Inf n) (Inf m) = (n \<and> \<not> m)"
| "flt _ _ = False"

fun feq :: "fval \<Rightarrow> fval \<Rightarrow> bool" where
  "feq NaN _ = False"
| "feq _ NaN = False"
| "feq x y = (x = y)"

definition fle :: "fval \<Rightarrow> fval \<Rightarrow> bool" where
  "fle x y \<longleftrightarrow> flt x y \<or> feq x y"

definition fabs :: "fval \<Rightarrow> fval" where
  "fabs x = (if flt x (Fin 0) then fneg x else x)"

fun fadd :: "fval \<Rightarrow> fval \<Rightarrow> fval" where
  "fadd (Fin x) (Fin y) = Fin (x + y)"
| "fadd (Fin x) (Inf n) = Inf n"
| "fadd (Inf n) (Fin y) = Inf n"
| "fadd (Inf n) (Inf m) = (if n = m then Inf n else NaN)"
| "fadd _ _ = NaN"

definition fsub :: "fval \<Rightarrow> fval \<Rightarrow> fval" where
  "fsub x y = fadd x (fneg y)"

fun fmul :: "fval \<Rightarrow> fval \<Rightarrow> fval" where
  "fmul (Fin x) (Fin y) = Fin (x * y)"
| "fmul (Fin x) (Inf n) = (if x = 0 then NaN else Inf (n \<noteq> (x < 0)))"
| "fmul (Inf n) (Fin y) = (if y = 0 then NaN else Inf (n \<noteq> (y < 0)))"
| "fmul (Inf n) (Inf m) = Inf (n \<noteq> m)"
| "fmul _ _ = NaN"

text \<open>Division, for a divisor that is not zero, and the remainder of C.\<close>

fun fdiv :: "fval \<Rightarrow> fval \<Rightarrow> fval" where
  "fdiv (Fin x) (Fin y) = Fin (x / y)"
| "fdiv (Fin x) (Inf n) = Fin 0"
| "fdiv (Inf n) (Fin y) = Inf (n \<noteq> (y < 0))"
| "fdiv _ _ = NaN"

fun fmod :: "fval \<Rightarrow> fval \<Rightarrow> fval" where
  "fmod (Fin x) (Fin y) = (if y = 0 then NaN else Fin (x - y * real_of_int (float_trunc (x / y))))"
| "fmod (Fin x) (Inf n) = Fin x"
| "fmod _ _ = NaN"

definition is_whole :: "fval \<Rightarrow> bool" where
  "is_whole x \<longleftrightarrow> (case x of Fin r \<Rightarrow> real_of_int \<lfloor>r\<rfloor> = r | Inf n \<Rightarrow> True | NaN \<Rightarrow> False)"

text \<open>\<open>powf\<close>.\<close>

definition fpow_fin :: "real \<Rightarrow> real \<Rightarrow> fval" where
  "fpow_fin x y =
     (if y = 0 then Fin 1
      else if x = 0 then (if 0 < y then Fin 0 else Inf False)
      else if 0 < x then Fin (x powr y)
      else if real_of_int \<lfloor>y\<rfloor> = y then Fin (x powi \<lfloor>y\<rfloor>) else NaN)"

fun fpow :: "fval \<Rightarrow> fval \<Rightarrow> fval" where
  "fpow (Fin x) (Fin y) = fpow_fin x y"
| "fpow (Fin x) (Inf n) =
     (if \<bar>x\<bar> = 1 then Fin 1 else if (\<bar>x\<bar> < 1) = n then Inf False else Fin 0)"
| "fpow (Inf n) (Fin y) =
     (if y = 0 then Fin 1 else if y < 0 then Fin 0
      else Inf (n \<and> real_of_int \<lfloor>y\<rfloor> = y \<and> odd \<lfloor>y\<rfloor>))"
| "fpow (Inf n) (Inf m) = (if m then Fin 0 else Inf False)"
| "fpow x y = (if y = Fin 0 \<or> x = Fin 1 then Fin 1 else NaN)"

text \<open>\<open>atan2f\<close>.\<close>

fun fatan2 :: "fval \<Rightarrow> fval \<Rightarrow> fval" where
  "fatan2 (Fin y) (Fin x) = Fin (atan2 y x)"
| "fatan2 (Inf n) (Fin x) = Fin (if n then - (pi / 2) else pi / 2)"
| "fatan2 (Fin y) (Inf m) = Fin (if m then (if y < 0 then - pi else pi) else 0)"
| "fatan2 (Inf n) (Inf m) = Fin ((if n then - 1 else 1) * (if m then 3 * pi / 4 else pi / 4))"
| "fatan2 _ _ = NaN"

definition truth :: "bool \<Rightarrow> fval" where
  "truth b = Fin (if b then 1 else 0)"

section \<open>Operations\<close>

definition MAX_STACK :: nat where "MAX_STACK = 7"

definition TOLERANCE_EQUAL :: real where "TOLERANCE_EQUAL = 1 / 10000"

definition RADDEG :: real where "RADDEG = 1745329251994329577 / 100000000000000000000"

definition DEGRAD :: real where "DEGRAD = 5729577951308232087680 / 100000000000000000000"

datatype ngc_binary_op =
    NGCBinaryOp_NoOp | NGCBinaryOp_DividedBy | NGCBinaryOp_Modulo | NGCBinaryOp_Power
  | NGCBinaryOp_Times | NGCBinaryOp_And2 | NGCBinaryOp_ExclusiveOR | NGCBinaryOp_Minus
  | NGCBinaryOp_NotExclusiveOR | NGCBinaryOp_Plus | NGCBinaryOp_RightBracket
  | NGCBinaryOp_LT | NGCBinaryOp_EQ | NGCBinaryOp_NE | NGCBinaryOp_LE | NGCBinaryOp_GE | NGCBinaryOp_GT

datatype ngc_unary_op =
    NGCUnaryOp_ABS | NGCUnaryOp_ACOS | NGCUnaryOp_ASIN | NGCUnaryOp_ATAN | NGCUnaryOp_COS
  | NGCUnaryOp_EXP | NGCUnaryOp_FIX | NGCUnaryOp_FUP | NGCUnaryOp_LN | NGCUnaryOp_Round
  | NGCUnaryOp_SIN | NGCUnaryOp_SQRT | NGCUnaryOp_TAN | NGCUnaryOp_Exists | NGCUnaryOp_Parameter

definition execute_binary1 :: "fval \<Rightarrow> ngc_binary_op \<Rightarrow> fval \<Rightarrow> u8 \<times> fval" where
  "execute_binary1 lhs op rhs =
     (case op of
        NGCBinaryOp_DividedBy \<Rightarrow>
          if feq rhs (Fin 0) then (Status_ExpressionDivideByZero, lhs) else (Status_OK, fdiv lhs rhs)
      | NGCBinaryOp_Modulo \<Rightarrow>
          let lhs = fmod lhs rhs
          in (Status_OK, if flt lhs (Fin 0) then fadd lhs (fabs rhs) else lhs)
      | NGCBinaryOp_Power \<Rightarrow>
          if flt lhs (Fin 0) \<and> \<not> is_whole rhs then (Status_ExpressionInvalidArgument, lhs)
          else (Status_OK, fpow lhs rhs)
      | NGCBinaryOp_Times \<Rightarrow> (Status_OK, fmul lhs rhs)
      | _ \<Rightarrow> (Status_ExpressionUknownOp, lhs))"

definition fdiff :: "fval \<Rightarrow> fval \<Rightarrow> fval" where
  "fdiff x y = (let d = fsub x y in if flt d (Fin 0) then fneg d else d)"

definition execute_binary2 :: "fval \<Rightarrow> ngc_binary_op \<Rightarrow> fval \<Rightarrow> u8 \<times> fval" where
  "execute_binary2 lhs op rhs =
     (let l0 = feq lhs (Fin 0); r0 = feq rhs (Fin 0)
      in case op of
        NGCBinaryOp_And2 \<Rightarrow> (Status_OK, truth (\<not> (l0 \<or> r0)))
      | NGCBinaryOp_ExclusiveOR \<Rightarrow> (Status_OK, truth (l0 \<and> \<not> r0 \<or> \<not> l0 \<and> r0))
      | NGCBinaryOp_Minus \<Rightarrow> (Status_OK, fsub lhs rhs)
      | NGCBinaryOp_NotExclusiveOR \<Rightarrow> (Status_OK, truth (\<not> l0 \<or> \<not> r0))
      | NGCBinaryOp_Plus \<Rightarrow> (Status_OK, fadd lhs rhs)
      | NGCBinaryOp_LT \<Rightarrow> (Status_OK, truth (flt lhs rhs))
      | NGCBinaryOp_EQ \<Rightarrow> (Status_OK, truth (flt (fdiff lhs rhs) (Fin TOLERANCE_EQUAL)))
      | NGCBinaryOp_NE \<Rightarrow> (Status_OK, truth (fle (Fin TOLERANCE_EQUAL) (fdiff lhs rhs)))
      | NGCBinaryOp_LE \<Rightarrow> (Status_OK, truth (fle lhs rhs))
      | NGCBinaryOp_GE \<Rightarrow> (Status_OK, truth (fle rhs lhs))
      | NGCBinaryOp_GT \<Rightarrow> (Status_OK, truth (flt rhs lhs))
      | _ \<Rightarrow> (Status_ExpressionUknownOp, lhs))"

definition execute_binary :: "fval \<Rightarrow> ngc_binary_op \<Rightarrow> fval \<Rightarrow> u8 \<times> fval" where
  "execute_binary lhs op rhs =
     (if op \<in> {NGCBinaryOp_NoOp, NGCBinaryOp_DividedBy, NGCBinaryOp_Modulo, NGCBinaryOp_Power, NGCBinaryOp_Times}
      then execute_binary1 lhs op rhs else execute_binary2 lhs op rhs)"

text \<open>A function of a finite value; an infinity is mapped by \<open>g\<close>.\<close>

definition fmap1 :: "(real \<Rightarrow> real) \<Rightarrow> (bool \<Rightarrow> fval) \<Rightarrow> fval \<Rightarrow> fval" where
  "fmap1 f g x = (case x of Fin r \<Rightarrow> Fin (f r) | Inf n \<Rightarrow> g n | NaN \<Rightarrow> NaN)"

definition execute_unary :: "fval \<Rightarrow> ngc_unary_op \<Rightarrow> (u8 \<times> fval) run" where
  "execute_unary x op =
     (let out = flt x (Fin (- 1)) \<or> flt (Fin 1) x
      in case op of
        NGCUnaryOp_ABS \<Rightarrow> Done (Status_OK, if flt x (Fin 0) then fmul (Fin (- 1)) x else x)
      | NGCUnaryOp_ACOS \<Rightarrow>
          Done (if out then (Status_ExpressionArgumentOutOfRange, x)
                else (Status_OK, fmap1 (\<lambda>r. arccos r * DEGRAD) Inf x))
      | NGCUnaryOp_ASIN \<Rightarrow>
          Done (if out then (Status_ExpressionArgumentOutOfRange, x)
                else (Status_OK, fmap1 (\<lambda>r. arcsin r * DEGRAD) Inf x))
      | NGCUnaryOp_COS \<Rightarrow> Done (Status_OK, fmap1 (\<lambda>r. cos (r * RADDEG)) (\<lambda>_. NaN) x)
      | NGCUnaryOp_Exists \<Rightarrow> Done (Status_OK, x)
      | NGCUnaryOp_EXP \<Rightarrow> Done (Status_OK, fmap1 exp (\<lambda>n. if n then Fin 0 else Inf False) x)
      | NGCUnaryOp_FIX \<Rightarrow> Done (Status_OK, fmap1 (\<lambda>r. real_of_int \<lfloor>r\<rfloor>) Inf x)
      | NGCUnaryOp_FUP \<Rightarrow> Done (Status_OK, fmap1 (\<lambda>r. real_of_int \<lceil>r\<rceil>) Inf x)
      | NGCUnaryOp_LN \<Rightarrow>
          Done (if fle x (Fin 0) then (Status_ExpressionArgumentOutOfRange, x) else (Status_OK, fmap1 ln Inf x))
      | NGCUnaryOp_Round \<Rightarrow>
          (case x of
             Fin r \<Rightarrow>
               let i = float_trunc (r + (if r < 0 then - 1 / 2 else 1 / 2))
               in if - (2 ^ 31) \<le> i \<and> i < 2 ^ 31 then Done (Status_OK, Fin (real_of_int i)) else Undefined
           | _ \<Rightarrow> Undefined)
      | NGCUnaryOp_SIN \<Rightarrow> Done (Status_OK, fmap1 (\<lambda>r. sin (r * RADDEG)) (\<lambda>_. NaN) x)
      | NGCUnaryOp_SQRT \<Rightarrow>
          Done (if flt x (Fin 0) then (Status_ExpressionArgumentOutOfRange, x) else (Status_OK, fmap1 sqrt Inf x))
      | NGCUnaryOp_TAN \<Rightarrow> Done (Status_OK, fmap1 (\<lambda>r. tan (r * RADDEG)) (\<lambda>_. NaN) x)
      | _ \<Rightarrow> Done (Status_ExpressionUknownOp, x))"

definition precedence :: "ngc_binary_op \<Rightarrow> nat" where
  "precedence op =
     (case op of
        NGCBinaryOp_RightBracket \<Rightarrow> 1
      | NGCBinaryOp_And2 \<Rightarrow> 2 | NGCBinaryOp_ExclusiveOR \<Rightarrow> 2 | NGCBinaryOp_NotExclusiveOR \<Rightarrow> 2
      | NGCBinaryOp_LT \<Rightarrow> 3 | NGCBinaryOp_EQ \<Rightarrow> 3 | NGCBinaryOp_NE \<Rightarrow> 3
      | NGCBinaryOp_LE \<Rightarrow> 3 | NGCBinaryOp_GE \<Rightarrow> 3 | NGCBinaryOp_GT \<Rightarrow> 3
      | NGCBinaryOp_Minus \<Rightarrow> 4 | NGCBinaryOp_Plus \<Rightarrow> 4
      | NGCBinaryOp_NoOp \<Rightarrow> 5 | NGCBinaryOp_DividedBy \<Rightarrow> 5 | NGCBinaryOp_Modulo \<Rightarrow> 5 | NGCBinaryOp_Times \<Rightarrow> 5
      | NGCBinaryOp_Power \<Rightarrow> 6)"

section \<open>Reading operations and names\<close>

definition starts_at :: "string \<Rightarrow> nat \<Rightarrow> string \<Rightarrow> bool" where
  "starts_at line pos s \<longleftrightarrow> take (length s) (drop pos line) = s"

text \<open>The operations in the order in which the alternatives of a letter are tried.\<close>

definition binary_ops :: "(string \<times> ngc_binary_op) list" where
  "binary_ops =
     [(''+'', NGCBinaryOp_Plus), (''-'', NGCBinaryOp_Minus), (''/'', NGCBinaryOp_DividedBy),
      (''**'', NGCBinaryOp_Power), (''*'', NGCBinaryOp_Times), ('']'', NGCBinaryOp_RightBracket),
      (''AND'', NGCBinaryOp_And2), (''MOD'', NGCBinaryOp_Modulo), (''OR'', NGCBinaryOp_NotExclusiveOR),
      (''XOR'', NGCBinaryOp_ExclusiveOR), (''EQ'', NGCBinaryOp_EQ), (''NE'', NGCBinaryOp_NE),
      (''GE'', NGCBinaryOp_GE), (''GT'', NGCBinaryOp_GT), (''LE'', NGCBinaryOp_LE), (''LT'', NGCBinaryOp_LT)]"

definition read_operation :: "string \<Rightarrow> nat \<Rightarrow> u8 \<times> nat \<times> ngc_binary_op" where
  "read_operation line pos =
     (case find (\<lambda>(name, _). starts_at line pos name) binary_ops of
        Some (name, op) \<Rightarrow> (Status_OK, pos + length name, op)
      | None \<Rightarrow> (Status_ExpressionUknownOp, pos + 1, NGCBinaryOp_NoOp))"

definition unary_ops :: "(string \<times> ngc_unary_op) list" where
  "unary_ops =
     [(''ABS'', NGCUnaryOp_ABS), (''ACOS'', NGCUnaryOp_ACOS), (''ASIN'', NGCUnaryOp_ASIN),
      (''ATAN'', NGCUnaryOp_ATAN), (''COS'', NGCUnaryOp_COS), (''EXP'', NGCUnaryOp_EXP),
      (''EXISTS'', NGCUnaryOp_Exists), (''FIX'', NGCUnaryOp_FIX), (''FUP'', NGCUnaryOp_FUP),
      (''LN'', NGCUnaryOp_LN), (''ROUND'', NGCUnaryOp_Round), (''SIN'', NGCUnaryOp_SIN),
      (''SQRT'', NGCUnaryOp_SQRT), (''TAN'', NGCUnaryOp_TAN), (''PRM'', NGCUnaryOp_Parameter)]"

definition read_operation_unary :: "string \<Rightarrow> nat \<Rightarrow> u8 \<times> nat \<times> ngc_unary_op" where
  "read_operation_unary line pos =
     (case find (\<lambda>(name, _). starts_at line pos name) unary_ops of
        Some (name, op) \<Rightarrow> (Status_OK, pos + length name, op)
      | None \<Rightarrow> (Status_ExpressionUknownOp, pos + 1, NGCUnaryOp_Exists))"

text \<open>
  A name between angle brackets. The loop copies up to 31 characters; the buffer has room for 31 with
  the terminator, so a name of 31 characters puts the terminator behind the buffer.
\<close>

definition ngc_read_name :: "string \<Rightarrow> nat \<Rightarrow> (u8 \<times> nat \<times> string) run" where
  "ngc_read_name line pos =
     (if char_at line pos = CHR ''<'' then
        let name = take (NGC_MAX_PARAM_LENGTH + 1) (takeWhile (\<lambda>c. c \<noteq> CHR ''>'') (drop (pos + 1) line));
            pos = pos + 1 + length name
        in if char_at line pos = CHR ''>'' then
             (if length name \<le> NGC_MAX_PARAM_LENGTH then Done (Status_OK, pos + 1, name) else Undefined)
           else Done (Status_FlowControlSyntaxError, pos, name)
      else Done (Status_BadNumberFormat, pos + 1, []))"

section \<open>Reading values\<close>

record setting_info =
  si_id :: u32
  si_is_decimal :: bool
  si_is_integer_or_list :: bool

text \<open>
  What an expression is evaluated in: the predefined parameters, the settings with the value of an
  index in their group, and what a float variable holds before it is assigned.
\<close>

record expr_env =
  ee_ro :: "ngc_param_id \<Rightarrow> fval"
  ee_named_ro :: "string \<Rightarrow> real"
  ee_setting :: "u32 \<Rightarrow> setting_info option"
  ee_float_value :: "u32 \<Rightarrow> u32 \<Rightarrow> real"
  ee_int_value :: "u32 \<Rightarrow> u32 \<Rightarrow> u32"
  ee_junk :: fval

text \<open>The result of a reader: the status, the position, and what its variable holds afterwards.\<close>

type_synonym read_result = "(u8 \<times> nat \<times> fval) run"
type_synonym reader = "nat \<Rightarrow> fval \<Rightarrow> read_result"

definition param_value :: "expr_env \<Rightarrow> ngc_param_id \<Rightarrow> ngc_state \<Rightarrow> bool \<times> fval" where
  "param_value env pid s =
     (let (found, v) = ngc_param_get (\<lambda>_. 0) pid s
      in (found, if found \<and> \<not> ngc_param_is_rw pid then ee_ro env pid else Fin v))"

text \<open>An integer: the nearest one, when the value is at most a ten-thousandth off.\<close>

definition ngc_read_integer_value :: "expr_env \<Rightarrow> reader \<Rightarrow> nat \<Rightarrow> (u8 \<times> nat \<times> int) run" where
  "ngc_read_integer_value env rd pos =
     bind_run (rd pos (ee_junk env)) (\<lambda>(status, pos, v).
       if status \<noteq> Status_OK then Done (status, pos, 0)
       else case v of
           Fin x \<Rightarrow>
             let n = \<lfloor>x\<rfloor>
             in if n < - (2 ^ 31) \<or> 2 ^ 31 \<le> n then Undefined
                else if x - real_of_int n > 9999 / 10000 then
                  (if \<lceil>x\<rceil> < 0 \<or> 2 ^ 32 \<le> \<lceil>x\<rceil> then Undefined
                   else Done (Status_OK, pos, sint (word_of_int \<lceil>x\<rceil> :: u32)))
                else if x - real_of_int n > 1 / 10000 then Done (Status_GcodeCommandValueNotInteger, pos, n)
                else Done (Status_OK, pos, n)
         | _ \<Rightarrow> Undefined)"

definition ngc_read_parameter ::
  "expr_env \<Rightarrow> ngc_state \<Rightarrow> reader \<Rightarrow> string \<Rightarrow> nat \<Rightarrow> fval \<Rightarrow> bool \<Rightarrow> read_result" where
  "ngc_read_parameter env s rd line pos v check =
     (if char_at line pos \<noteq> CHR ''#'' then Done (Status_BadNumberFormat, pos, v)
      else if char_at line (pos + 1) = CHR ''<'' then
        bind_run (ngc_read_name line (pos + 1)) (\<lambda>(status, pos, name).
          if status \<noteq> Status_OK then Done (status, pos, v)
          else
            let (found, value) = ngc_named_param_get (ee_named_ro env) name s;
                v = (case value of Some x \<Rightarrow> Fin x | None \<Rightarrow> v)
            in Done (if found then Status_OK else Status_BadNumberFormat, pos, v))
      else
        bind_run (ngc_read_integer_value env rd (pos + 1)) (\<lambda>(status, pos, param).
          if status \<noteq> Status_OK then Done (status, pos, v)
          else if param < 0 \<or> check \<and> \<not> ngc_param_exists (word_of_int param)
          then Done (Status_GcodeValueOutOfRange, pos, v)
          else
            let (found, value) = param_value env (word_of_int param) s
            in Done (if found then Status_OK else Status_GcodeValueOutOfRange, pos, value)))"

section \<open>Expressions\<close>

text \<open>The operations on top of the stack that bind at least as strongly as the last one read.\<close>

fun reduce :: "nat \<Rightarrow> fval list \<Rightarrow> ngc_binary_op list \<Rightarrow> u8 \<times> fval list \<times> ngc_binary_op list \<times> nat" where
  "reduce 0 vs ops = (Status_OK, vs, ops, 0)"
| "reduce (Suc k) vs ops =
     (if precedence (ops ! Suc k) \<le> precedence (ops ! k) then
        let (status, v) = execute_binary (vs ! k) (ops ! k) (vs ! Suc k); vs = vs[k := v]
        in if status \<noteq> Status_OK then (status, vs, ops, Suc k)
           else
             let ops = ops[k := ops ! Suc k]
             in if 0 < k \<and> precedence (ops ! k) \<le> precedence (ops ! (k - 1)) then reduce k vs ops
                else (Status_OK, vs, ops, Suc k)
      else (Status_OK, vs, ops, Suc k))"

fun eval_loop ::
  "nat \<Rightarrow> reader \<Rightarrow> string \<Rightarrow> nat \<Rightarrow> fval list \<Rightarrow> ngc_binary_op list \<Rightarrow> nat \<Rightarrow> (u8 \<times> nat \<times> fval list) run" where
  "eval_loop 0 rd line pos vs ops k = NoFuel"
| "eval_loop (Suc n) rd line pos vs ops k =
     (if ops ! 0 = NGCBinaryOp_RightBracket then Done (Status_OK, pos, vs)
      else if MAX_STACK \<le> k then Undefined
      else
        bind_run (rd pos (vs ! k)) (\<lambda>(status, pos, v).
          if status \<noteq> Status_OK then Done (status, pos, vs)
          else
            let vs = vs[k := v]; (status, pos, op) = read_operation line pos
            in if status \<noteq> Status_OK then Done (status, pos, vs)
               else
                 let ops = ops[k := op]
                 in if precedence (ops ! k) > precedence (ops ! (k - 1)) then eval_loop n rd line pos vs ops (k + 1)
                    else
                      let (status, vs, ops, k) = reduce k vs ops
                      in if status \<noteq> Status_OK then Done (status, pos, vs) else eval_loop n rd line pos vs ops k))"

definition eval_expression :: "expr_env \<Rightarrow> reader \<Rightarrow> string \<Rightarrow> nat \<Rightarrow> fval \<Rightarrow> read_result" where
  "eval_expression env rd line pos v =
     (if char_at line pos \<noteq> CHR ''['' then Done (Status_GcodeUnsupportedCommand, pos, v)
      else
        let vs = replicate MAX_STACK (ee_junk env); ops = replicate MAX_STACK NGCBinaryOp_NoOp
        in bind_run (rd (pos + 1) (vs ! 0)) (\<lambda>(status, pos, x).
             if status \<noteq> Status_OK then Done (status, pos, v)
             else
               let (status, pos, op) = read_operation line pos
               in if status \<noteq> Status_OK then Done (status, pos, v)
                  else
                    bind_run (eval_loop (length line + 1) rd line pos (vs[0 := x]) (ops[0 := op]) 1)
                      (\<lambda>(status, pos, vs). Done (status, pos, if status = Status_OK then vs ! 0 else v))))"

definition read_atan :: "expr_env \<Rightarrow> reader \<Rightarrow> string \<Rightarrow> nat \<Rightarrow> fval \<Rightarrow> read_result" where
  "read_atan env rd line pos v =
     (if char_at line pos \<noteq> CHR ''/'' then Done (Status_ExpressionSyntaxError, pos, v)
      else if char_at line (pos + 1) \<noteq> CHR ''['' then Done (Status_ExpressionSyntaxError, pos + 1, v)
      else
        bind_run (eval_expression env rd line (pos + 1) (ee_junk env)) (\<lambda>(status, pos, w).
          Done (status, pos, if status = Status_OK then fmul (fatan2 v w) (Fin DEGRAD) else v)))"

text \<open>\<open>EXISTS[#<name>]\<close>, from the bracket on.\<close>

definition read_exists :: "expr_env \<Rightarrow> ngc_state \<Rightarrow> string \<Rightarrow> nat \<Rightarrow> fval \<Rightarrow> read_result" where
  "read_exists env s line pos v =
     (let pos = pos + 1; arg = takeWhile (\<lambda>c. c \<noteq> CHR '']'') (drop (pos + 2) line)
      in if starts_at line pos ''#<'' \<and> char_at line (pos + 2 + length arg) = CHR '']''
            \<and> char_at line (pos + 1 + length arg) = CHR ''>'' then
           let name = butlast arg
           in if length (ngc_name_tolower name) \<le> NGC_MAX_PARAM_LENGTH
              then Done (Status_OK, pos + length arg + 3, truth (ngc_named_param_exists (ee_named_ro env) name s))
              else Undefined
         else Done (Status_ExpressionSyntaxError, pos, v))"

text \<open>\<open>PRM[id]\<close> and \<open>PRM[id,bit]\<close>, from the bracket on.\<close>

definition read_prm :: "expr_env \<Rightarrow> reader \<Rightarrow> string \<Rightarrow> nat \<Rightarrow> fval \<Rightarrow> read_result" where
  "read_prm env rd line pos v =
     bind_run (ngc_read_integer_value env rd (pos + 1)) (\<lambda>(status, pos, setting_id).
       if status \<noteq> Status_OK then Done (status, pos, v)
       else
         let get_bit = (char_at line pos = CHR '','')
         in bind_run (if get_bit then ngc_read_integer_value env rd (pos + 1) else Done (Status_OK, pos, 0))
              (\<lambda>(status, pos, bitnum).
                if status \<noteq> Status_OK then Done (status, pos, v)
                else if bitnum < 0 \<or> 31 < bitnum then Done (Status_ExpressionArgumentOutOfRange, pos, v)
                else if char_at line pos \<noteq> CHR '']'' then Done (Status_ExpressionSyntaxError, pos, v)
                else case ee_setting env (word_of_int setting_id) of
                    None \<Rightarrow> Done (Status_ExpressionArgumentOutOfRange, pos + 1, v)
                  | Some si \<Rightarrow>
                      let offset = word_of_int (setting_id - uint (si_id si))
                      in if si_is_decimal si
                         then Done (Status_OK, pos + 1, Fin (ee_float_value env (si_id si) offset))
                         else if si_is_integer_or_list si then
                           let w = ee_int_value env (si_id si) offset
                           in Done (Status_OK, pos + 1,
                                if get_bit then truth (bit w (nat bitnum)) else Fin (real (unat w)))
                         else Done (Status_ExpressionArgumentOutOfRange, pos + 1, v)))"

definition read_unary :: "expr_env \<Rightarrow> ngc_state \<Rightarrow> reader \<Rightarrow> string \<Rightarrow> nat \<Rightarrow> fval \<Rightarrow> read_result" where
  "read_unary env s rd line pos v =
     (let (status, pos, op) = read_operation_unary line pos
      in if status \<noteq> Status_OK then Done (status, pos, v)
         else if char_at line pos \<noteq> CHR ''['' then Done (Status_ExpressionSyntaxError, pos, v)
         else if op = NGCUnaryOp_Exists then read_exists env s line pos v
         else if op = NGCUnaryOp_Parameter then read_prm env rd line pos v
         else
           bind_run (eval_expression env rd line pos v) (\<lambda>(status, pos, v).
             if status \<noteq> Status_OK then Done (status, pos, v)
             else if op = NGCUnaryOp_ATAN then read_atan env rd line pos v
             else bind_run (execute_unary v op) (\<lambda>(status, v). Done (status, pos, v))))"

fun ngc_read_real_value :: "nat \<Rightarrow> expr_env \<Rightarrow> ngc_state \<Rightarrow> string \<Rightarrow> reader" where
  "ngc_read_real_value 0 env s line pos v = NoFuel"
| "ngc_read_real_value (Suc n) env s line pos v =
     (let c = char_at line pos; c1 = char_at line (pos + 1); rd = ngc_read_real_value n env s line;
          sign = (c1 \<noteq> CHR 0x00 \<and> \<not> is_digit c1 \<and> c1 \<noteq> CHR ''.'')
      in if c = CHR 0x00 then Done (Status_ExpressionSyntaxError, pos, v)
         else
           bind_run
             (if c = CHR ''['' then eval_expression env rd line pos v
              else if c = CHR ''#'' then ngc_read_parameter env s rd line pos v False
              else if c = CHR ''+'' \<and> sign then rd (pos + 1) v
              else if c = CHR ''-'' \<and> sign
              then bind_run (rd (pos + 1) v) (\<lambda>(status, pos, v). Done (status, pos, fneg v))
              else if CHR ''A'' \<le> c \<and> c \<le> CHR ''Z'' then read_unary env s rd line pos v
              else case read_float line pos of
                  Some (pos, x) \<Rightarrow> Done (Status_OK, pos, Fin x)
                | None \<Rightarrow> Done (Status_BadNumberFormat, pos, v))
             (\<lambda>(status, pos, v).
               Done (case v of Fin x \<Rightarrow> status | _ \<Rightarrow> Status_ExpressionInvalidResult, pos, v)))"

text \<open>The functions the other modules call, with the length of the line as fuel.\<close>

definition real_value :: "expr_env \<Rightarrow> ngc_state \<Rightarrow> string \<Rightarrow> reader" where
  "real_value env s line = ngc_read_real_value (length line + 1) env s line"

definition ngc_eval_expression :: "expr_env \<Rightarrow> ngc_state \<Rightarrow> string \<Rightarrow> reader" where
  "ngc_eval_expression env s line pos v = eval_expression env (real_value env s line) line pos v"

definition ngc_read_integer_unsigned :: "string \<Rightarrow> nat \<Rightarrow> u8 + nat \<times> nat" where
  "ngc_read_integer_unsigned line pos =
     (if char_at line pos = CHR ''+'' then Inl Status_GcodeCommandValueNotInteger else read_uint line pos)"

end
