(* ===== verification/NumbersProps.thy ===== *)
theory NumbersProps
  imports Numbers
begin

text \<open>
  What the readers make of the texts of the printers: values of digit strings, the range of the
  32 bit integers, and the round trips.
\<close>

section \<open>Digits\<close>

lemma digit_code: "d < 10 \<Longrightarrow> of_char (digit_char d) = (48 + d :: nat)"
  by (simp add: digit_char_def)

lemma digit_char [simp]:
  assumes "d < 10"
  shows "is_digit (digit_char d)" "digit_value (digit_char d) = d"
  using digit_code [OF assms] assms by (simp_all add: is_digit_def digit_value_def less_eq_char_def)

lemma not_digit [simp]:
  "\<not> is_digit CHR ''.''" "\<not> is_digit CHR ''-''" "\<not> is_digit CHR ''+''" "\<not> is_digit CHR 0x00"
  by (simp_all add: is_digit_def less_eq_char_def)

lemma digit_value_less: "is_digit c \<Longrightarrow> digit_value c < 10"
  unfolding is_digit_def digit_value_def less_eq_char_def by simp linarith

abbreviation digits :: "string \<Rightarrow> bool" where
  "digits s \<equiv> (\<forall>c \<in> set s. is_digit c)"

fun dec_from :: "nat \<Rightarrow> string \<Rightarrow> nat" where
  "dec_from v [] = v"
| "dec_from v (c # cs) = dec_from (v * 10 + digit_value c) cs"

abbreviation dec_value :: "string \<Rightarrow> nat" where
  "dec_value \<equiv> dec_from 0"

lemma dec_from_append [simp]: "dec_from v (s @ t) = dec_from (dec_from v s) t"
  by (induction s arbitrary: v) auto

lemma dec_from_eq: "dec_from v s = v * 10 ^ length s + dec_value s"
proof (induction s rule: rev_induct)
  case (snoc c s)
  then show ?case by (simp add: algebra_simps)
qed simp

lemma dec_from_ge: "v \<le> dec_from v s"
  by (subst dec_from_eq) (simp add: trans_le_add1)

lemma dec_value_less: "digits s \<Longrightarrow> dec_value s < 10 ^ length s"
proof (induction s rule: rev_induct)
  case (snoc c s)
  then have "dec_value s + 1 \<le> 10 ^ length s" "digit_value c < 10" by (auto simp: digit_value_less)
  then show ?case by simp
qed simp

section \<open>Printed naturals\<close>

lemma nat_digits_app: "nat_digits n acc = nat_digits n [] @ acc"
proof (induction n arbitrary: acc rule: less_induct)
  case (less n)
  show ?case
  proof (cases "n = 0")
    case False
    then show ?thesis
      using less [of "n div 10" "digit_char (n mod 10) # acc"] less [of "n div 10" "[digit_char (n mod 10)]"]
        nat_digits.simps [of n] by simp
  qed (simp add: nat_digits.simps)
qed

lemma nat_digits_rec: "0 < n \<Longrightarrow> nat_digits n [] = nat_digits (n div 10) [] @ [digit_char (n mod 10)]"
  by (subst nat_digits.simps) (simp add: nat_digits_app [of _ "[_]"])

lemma nat_digits_props:
  "digits (nat_digits n []) \<and> dec_value (nat_digits n []) = n
   \<and> (0 < n \<longrightarrow> 10 ^ (length (nat_digits n []) - 1) \<le> n) \<and> n < 10 ^ length (nat_digits n [])"
proof (induction n rule: less_induct)
  case (less n)
  show ?case
  proof (cases "n = 0")
    case False
    let ?m = "n div 10" and ?l = "length (nat_digits (n div 10) [])"
    have m: "?m < n" using False by simp
    note IH = less [OF m]
    have "10 ^ (Suc ?l - 1) \<le> n"
    proof (cases "?m = 0")
      case True
      then show ?thesis using False by (simp add: nat_digits.simps)
    next
      case m0: False
      then have "nat_digits ?m [] \<noteq> []" using IH by (metis dec_from.simps(1))
      then obtain l where l: "?l = Suc l" by (cases ?l) auto
      then have "10 ^ l \<le> ?m" using IH m0 by simp
      then have "10 ^ l * 10 \<le> ?m * 10" by simp
      also have "\<dots> \<le> n" by simp
      finally show ?thesis using l by simp
    qed
    moreover have "n < 10 * 10 ^ ?l"
    proof -
      have "?m + 1 \<le> 10 ^ ?l" using IH by simp
      then have "(?m + 1) * 10 \<le> 10 ^ ?l * 10" by simp
      then show ?thesis by presburger
    qed
    ultimately show ?thesis using IH False by (auto simp: nat_digits_rec)
  qed (simp add: nat_digits.simps)
qed

lemma nat_text_props:
  "digits (nat_text n)" "dec_value (nat_text n) = n" "nat_text n \<noteq> []" "n < 10 ^ length (nat_text n)"
proof -
  have "is_digit CHR ''0''" "digit_value CHR ''0'' = 0" by (simp_all add: is_digit_def digit_value_def)
  then show "digits (nat_text n)" "dec_value (nat_text n) = n" "n < 10 ^ length (nat_text n)"
    using nat_digits_props [of n] by (auto simp: nat_text_def)
  show "nat_text n \<noteq> []" using nat_digits_props [of n] by (auto simp: nat_text_def)
qed

lemma length_nat_text: "n < 10 ^ k \<Longrightarrow> 0 < k \<Longrightarrow> length (nat_text n) \<le> k"
proof (cases "n = 0")
  case False
  assume "n < 10 ^ k"
  moreover have "10 ^ (length (nat_text n) - 1) \<le> n" using nat_digits_props [of n] False by (simp add: nat_text_def)
  ultimately have "(10 :: nat) ^ (length (nat_text n) - 1) < 10 ^ k" by linarith
  then show ?thesis by (simp add: power_strict_increasing_iff)
qed (simp add: nat_text_def)

lemma fixed_digits_props:
  "digits (fixed_digits k b)" "length (fixed_digits k b) = k" "b < 10 ^ k \<Longrightarrow> dec_value (fixed_digits k b) = b"
proof -
  show "digits (fixed_digits k b)" by (induction k arbitrary: b) auto
  show "length (fixed_digits k b) = k" by (induction k arbitrary: b) auto
  show "b < 10 ^ k \<Longrightarrow> dec_value (fixed_digits k b) = b"
  proof (induction k arbitrary: b)
    case (Suc k)
    then have "b div 10 < 10 ^ k" by auto
    with Suc.IH show ?case by simp
  qed simp
qed

section \<open>Reading floats\<close>

text \<open>The number of digits counted is that of the value, and no value of the loop needs more than 32 bits.\<close>

definition sig_digits :: "nat \<Rightarrow> nat \<Rightarrow> bool" where
  "sig_digits v n \<longleftrightarrow> v < 10 ^ n \<and> (if v = 0 then n = 0 else 10 ^ (n - 1) \<le> v)"

lemma sig_digits_step:
  assumes "sig_digits v n" "d < 10"
  shows "sig_digits (v * 10 + d) (if d \<noteq> 0 \<or> v \<noteq> 0 then n + 1 else n)"
proof (cases "v = 0")
  case False
  then have "0 < n" "v + 1 \<le> 10 ^ n" using assms by (auto simp: sig_digits_def intro: gr0I)
  then obtain m where "n = Suc m" by (cases n) auto
  have "(v + 1) * 10 \<le> 10 ^ n * 10" using \<open>v + 1 \<le> 10 ^ n\<close> by simp
  then show ?thesis using assms False \<open>n = Suc m\<close> by (auto simp: sig_digits_def)
qed (use assms in \<open>auto simp: sig_digits_def\<close>)

lemma sig_digits_le:
  assumes "sig_digits v n" "v < 10 ^ k"
  shows "n \<le> k"
proof (cases "v = 0")
  case False
  then have "(10 :: nat) ^ (n - 1) < 10 ^ k" using assms unfolding sig_digits_def by (simp only: if_False) linarith
  then have "n - 1 < k" by (rule power_less_imp_less_exp [rotated]) simp
  then show ?thesis by simp
qed (use assms in \<open>auto simp: sig_digits_def\<close>)

lemma scan_float_bound:
  assumes "v < 10 ^ min n MAX_INT_DIGITS" "scan_float v e n dec ok s = (v', r)"
  shows "v' < 10 ^ MAX_INT_DIGITS"
  using assms
proof (induction v e n dec ok s rule: scan_float.induct)
  case (1 v e n dec ok)
  have "(10 :: nat) ^ min n MAX_INT_DIGITS \<le> 10 ^ MAX_INT_DIGITS" by (intro power_increasing) auto
  moreover have "v' = v" using 1(2) by simp
  ultimately show ?case using 1(1) by (simp only: order_less_le_trans)
next
  case (2 v e n dec ok c cs)
  let ?d = "digit_value c"
  define m where "m = (if ?d \<noteq> 0 \<or> v \<noteq> 0 then n + 1 else n)"
  have le: "(10 :: nat) ^ min i MAX_INT_DIGITS \<le> 10 ^ min j MAX_INT_DIGITS" if "i \<le> j" for i j
    using that by (intro power_increasing) auto
  have v: "v < 10 ^ MAX_INT_DIGITS"
    using order_less_le_trans [OF 2(4) power_increasing [of "min n MAX_INT_DIGITS" MAX_INT_DIGITS 10]] by simp
  show ?case
  proof (cases "is_digit c")
    case True
    have step: "v * 10 + ?d < 10 ^ min m MAX_INT_DIGITS" if "m \<le> MAX_INT_DIGITS"
    proof -
      have "min n MAX_INT_DIGITS = n" using that by (simp add: m_def min_def split: if_splits)
      with 2(4) have "v + 1 \<le> 10 ^ n" by simp
      then have "(v + 1) * 10 \<le> 10 ^ n * 10" by simp
      then show ?thesis using that digit_value_less [OF True] by (auto simp: m_def)
    qed
    have "v < 10 ^ min m MAX_INT_DIGITS" using order_less_le_trans [OF 2(4) le [of n m]] by (simp add: m_def)
    then show ?thesis
      using 2(1,2) [OF True refl m_def] 2(5) True step
      unfolding scan_float.simps Let_def m_def [symmetric] by (simp split: if_splits)
  next
    case False
    then show ?thesis using 2 v by (auto split: if_splits)
  qed
qed

text \<open>Up to nine digits nothing is dropped.\<close>

lemma scan_float_digits:
  assumes "digits ds" "sig_digits v n" "dec_from v ds < 10 ^ 9"
  shows "\<exists>n'. sig_digits (dec_from v ds) n' \<and> scan_float v e n dec ok (ds @ rest) =
    scan_float (dec_from v ds) (if dec then e - int (length ds) else e) n' dec (ok \<or> ds \<noteq> []) rest"
  using assms
proof (induction ds arbitrary: v e n ok)
  case (Cons c ds)
  let ?d = "digit_value c"
  define m where "m = (if ?d \<noteq> 0 \<or> v \<noteq> 0 then n + 1 else n)"
  have c: "is_digit c" and "?d < 10" using Cons.prems by (auto simp: digit_value_less)
  then have sig: "sig_digits (v * 10 + ?d) m" using sig_digits_step [OF Cons.prems(2)] by (simp add: m_def)
  have "v * 10 + ?d < 10 ^ 9" using dec_from_ge [of "v * 10 + ?d" ds] Cons.prems(3) by simp
  then have "m \<le> 9" using sig_digits_le [OF sig] by simp
  then have "scan_float v e n dec ok ((c # ds) @ rest) =
      scan_float (v * 10 + ?d) (if dec then e - 1 else e) m dec True (ds @ rest)"
    unfolding append_Cons scan_float.simps Let_def m_def [symmetric] using c by (simp add: MAX_INT_DIGITS_def)
  then show ?case
    using Cons.IH [OF _ sig, where e = "if dec then e - 1 else e" and ok = True] Cons.prems by (auto simp: algebra_simps)
qed auto

definition stops :: "bool \<Rightarrow> string \<Rightarrow> bool" where
  "stops dec rest \<longleftrightarrow> (case rest of [] \<Rightarrow> True | c # _ \<Rightarrow> \<not> is_digit c \<and> (dec \<or> c \<noteq> CHR ''.''))"

lemma scan_float_stops: "stops dec rest \<Longrightarrow> scan_float v e n dec ok rest = (v, e, ok, rest)"
  by (cases rest) (auto simp: stops_def)

lemma scale_down_eq:
  "e \<le> 0 \<Longrightarrow> \<exists>e'. scale_down f e = (f * 10 powi (e - e'), e') \<and> - 1 \<le> e' \<and> e' \<le> 0"
proof (induction f e rule: scale_down.induct)
  case (1 f e)
  show ?case
  proof (cases "e \<le> - 2")
    case True
    then obtain e' where e': "scale_down (f * (1 / 100)) (e + 2) = (f * (1 / 100) * 10 powi (e + 2 - e'), e')"
      "- 1 \<le> e'" "e' \<le> 0"
      using 1 by (cases "e = - 2") (auto simp: scale_down.simps [of _ 0])
    have "(10 :: real) powi (e + 2 - e') = 10 powi (e - e') * 10 powi 2"
      by (subst power_int_add [symmetric]) (simp_all add: algebra_simps)
    then show ?thesis using e' True by (subst scale_down.simps) (auto simp: power_int_def)
  next
    case False
    then show ?thesis using 1(2) by (subst scale_down.simps) (auto intro!: exI [of _ e])
  qed
qed

lemma scale_up_eq: "scale_up f n = f * 10 ^ n"
  by (induction n arbitrary: f) (auto simp: algebra_simps)

lemma apply_exp_eq: "apply_exp f e = f * 10 powi e"
proof (cases "e \<le> 0")
  case True
  obtain e' where e': "scale_down f e = (f * 10 powi (e - e'), e')" "- 1 \<le> e'" "e' \<le> 0"
    using scale_down_eq [OF True] by blast
  have "e' = 0 \<or> e' = - 1" using e' by auto
  moreover have "(10 :: real) powi (e + 1) * (1 / 10) = 10 powi e" by (simp add: power_int_add)
  ultimately show ?thesis using e' by (auto simp: apply_exp_def algebra_simps)
next
  case False
  then show ?thesis by (simp add: apply_exp_def scale_down.simps [of f e] scale_up_eq power_int_def)
qed

text \<open>A decimal number: an optional sign, digits, and optionally a point and digits.\<close>

definition decimal_text :: "bool \<Rightarrow> string \<Rightarrow> bool \<Rightarrow> string \<Rightarrow> string" where
  "decimal_text neg ip point fp = (if neg then ''-'' else []) @ ip @ (if point then ''.'' @ fp else [])"

lemma char_at_append [simp]: "char_at (pre @ s) (length pre) = (case s of [] \<Rightarrow> CHR 0x00 | c # _ \<Rightarrow> c)"
  by (cases s) (auto simp: char_at_def nth_append)

text \<open>
  A decimal number of up to nine significant digits is read exactly, wherever it stands in the
  line, and the position after it is that of the first character that does not belong to it.
\<close>

theorem read_float_exact:
  assumes "digits (ip @ fp)" "ip @ fp \<noteq> []" "dec_value (ip @ fp) < 10 ^ 9" "point \<or> fp = []" "stops point rest"
  shows "read_float (pre @ decimal_text neg ip point fp @ rest) (length pre) =
    Some (length pre + length (decimal_text neg ip point fp),
      (if neg then - 1 else 1) * real (dec_value (ip @ fp)) / 10 ^ length fp)"
proof -
  let ?body = "ip @ (if point then ''.'' @ fp else []) @ rest" and ?line = "pre @ decimal_text neg ip point fp @ rest"
  have s0: "sig_digits 0 0" by (simp add: sig_digits_def)
  have le: "dec_value ip < 10 ^ 9" using dec_from_ge [of "dec_value ip" fp] assms(3) by simp
  obtain n1 where n1: "sig_digits (dec_value ip) n1" "scan_float 0 0 0 False False ?body =
      scan_float (dec_value ip) 0 n1 False (ip \<noteq> []) ((if point then ''.'' @ fp else []) @ rest)"
    using scan_float_digits [OF _ s0 le, of 0 False False] assms(1) by auto
  have "scan_float 0 0 0 False False ?body = (dec_value (ip @ fp), - int (length fp), True, rest)"
  proof (cases point)
    case True
    obtain n2 where "scan_float (dec_value ip) 0 n1 True (ip \<noteq> []) (fp @ rest) =
        scan_float (dec_value (ip @ fp)) (- int (length fp)) n2 True (ip \<noteq> [] \<or> fp \<noteq> []) rest"
      using scan_float_digits [OF _ n1(1), of fp 0 True "ip \<noteq> []" rest] assms(1,3) by auto
    then show ?thesis using n1(2) True assms(2,5) by (simp add: scan_float_stops)
  next
    case False
    then show ?thesis using n1(2) assms(2,4,5) by (simp add: scan_float_stops)
  qed
  moreover have "char_at ?line (length pre) = CHR ''-'' \<longleftrightarrow> neg" "char_at ?line (length pre) \<noteq> CHR ''+''"
    using assms(1,2,4) by (cases ip; auto simp: decimal_text_def)+
  moreover have "drop (if neg then length pre + 1 else length pre) ?line = ?body"
    by (simp add: decimal_text_def)
  ultimately show ?thesis
    by (simp add: read_float_def Let_def apply_exp_eq power_int_minus divide_inverse decimal_text_def)
qed

lemma read_float_exact_witness:
  "read_float ''X-12.50Y1'' 1 = Some (7, - 12.5)"
proof -
  have "read_float (''X'' @ decimal_text True ''12'' True ''50'' @ ''Y1'') (length ''X'') =
      Some (length ''X'' + length (decimal_text True ''12'' True ''50''), - 1 * real (dec_value (''12'' @ ''50'')) / 10 ^ 2)"
    by (subst read_float_exact) (simp_all add: is_digit_def digit_value_def less_eq_char_def stops_def)
  then show ?thesis by (simp add: decimal_text_def digit_value_def)
qed

section \<open>Printing floats\<close>

lemma froundvalues: "d \<le> 10 \<Longrightarrow> froundvalues ! d = 1 / 2 / 10 ^ d"
proof -
  assume "d \<le> 10"
  then have "d = 0 \<or> d = 1 \<or> d = 2 \<or> d = 3 \<or> d = 4 \<or> d = 5 \<or> d = 6 \<or> d = 7 \<or> d = 8 \<or> d = 9 \<or> d = 10"
    by presburger
  then show ?thesis by (auto simp: froundvalues_def numeral_eq_Suc)
qed

lemma scale_decimals: "scale_decimals f d = f * 10 ^ d"
proof (induction f d rule: scale_decimals.induct)
  case (1 f d)
  show ?case
  proof (cases "2 \<le> d")
    case True
    then obtain k where "d = Suc (Suc k)" by (metis add_2_eq_Suc le_Suc_ex)
    then show ?thesis using 1 by (subst scale_decimals.simps) simp
  qed (subst scale_decimals.simps, auto simp: le_Suc_eq not_le less_2_cases_iff)
qed

text \<open>The digits printed are those of the number in units of the last decimal.\<close>

lemma split_decimals:
  assumes "0 \<le> m" "a = nat \<lfloor>m\<rfloor>" "b = nat \<lfloor>(m - real a) * 10 ^ d\<rfloor>"
  shows "b < 10 ^ d" "int (a * 10 ^ d + b) = \<lfloor>m * 10 ^ d\<rfloor>"
proof -
  have a: "real a \<le> m" "m < real a + 1" using assms by linarith+
  then have f: "0 \<le> (m - real a) * 10 ^ d" "(m - real a) * 10 ^ d < 10 ^ d" by simp_all
  then have b: "real b \<le> (m - real a) * 10 ^ d" "(m - real a) * 10 ^ d < real b + 1" using assms(3) by linarith+
  then have "real b < 10 ^ d" using f by linarith
  then have "real b < real (10 ^ d)" by simp
  then show "b < 10 ^ d" by (simp only: of_nat_less_iff)
  show "int (a * 10 ^ d + b) = \<lfloor>m * 10 ^ d\<rfloor>"
    using b by (intro floor_unique [symmetric]) (simp_all add: algebra_simps)
qed

lemma ftoa_eq:
  assumes "d \<le> 10" "m = \<bar>x\<bar> + 1 / 2 / 10 ^ d" "a = nat \<lfloor>m\<rfloor>" "b = nat \<lfloor>(m - real a) * 10 ^ d\<rfloor>"
  shows "ftoa x d =
    (if a < 2 ^ 32 \<and> b < 2 ^ 32 \<and> (if x < 0 then 1 else 0) + length (nat_text a) + 1 + d \<le> 14
     then Some (decimal_text (x < 0) (nat_text a) True (fixed_digits d b)) else None)"
proof -
  have "\<not> length froundvalues \<le> d" using assms(1) by (simp add: froundvalues_def)
  then show ?thesis
    unfolding ftoa_def Let_def froundvalues [OF assms(1)] assms(2) [symmetric] scale_decimals
      assms(3) [symmetric] assms(4) [symmetric]
    by (simp add: decimal_text_def STRLEN_COORDVALUE_def MAX_INT_DIGITS_def fixed_digits_props)
qed

text \<open>
  C37. Printing a number and reading the text gives the number back up to half a unit of the last
  decimal, as long as it has no more than nine digits in all.
\<close>

theorem ftoa_read_float:
  assumes "\<bar>x\<bar> * 10 ^ d + 1 / 2 < 10 ^ 9" "d \<le> 9" "stops True rest"
  shows "\<exists>s v. ftoa x d = Some s \<and> read_float (s @ rest) 0 = Some (length s, v) \<and> \<bar>v - x\<bar> \<le> 1 / 2 / 10 ^ d"
proof -
  define m where "m = \<bar>x\<bar> + 1 / 2 / 10 ^ d"
  define a where "a = nat \<lfloor>m\<rfloor>"
  define b where "b = nat \<lfloor>(m - real a) * 10 ^ d\<rfloor>"
  define k where "k = a * 10 ^ d + b"
  have m: "0 \<le> m" "m * 10 ^ d = \<bar>x\<bar> * 10 ^ d + 1 / 2" by (simp_all add: m_def algebra_simps)
  note ab = split_decimals [OF m(1) a_def b_def]
  have k: "real k \<le> \<bar>x\<bar> * 10 ^ d + 1 / 2" "\<bar>x\<bar> * 10 ^ d + 1 / 2 < real k + 1"
    using ab(2) m(2) unfolding k_def by linarith+
  then have "real k < real (10 ^ 9)" using assms(1) by simp
  then have k9: "k < 10 ^ 9" by (simp only: of_nat_less_iff)
  define fp where "fp = fixed_digits d b"
  have fp: "digits fp" "length fp = d" "dec_value fp = b" using fixed_digits_props ab(1) by (auto simp: fp_def)
  have dv: "dec_value (nat_text a @ fp) = k"
    using fp dec_from_eq [of a fp] by (simp add: nat_text_props k_def)
  have "a * 10 ^ d < 10 ^ (9 - d) * 10 ^ d" using k9 assms(2) by (simp add: k_def power_add [symmetric])
  then have a9: "a < 10 ^ (9 - d)" by simp
  have "length (nat_text a) \<le> max 1 (9 - d)"
    using a9 length_nat_text [of a "9 - d"] by (cases "9 - d") (auto simp: nat_text_def)
  moreover have "(10 :: nat) ^ (9 - d) \<le> 10 ^ 9" "b < 10 ^ 9"
    using k9 power_increasing [of "9 - d" 9 "10 :: nat"] by (simp_all add: k_def)
  ultimately have s: "ftoa x d = Some (decimal_text (x < 0) (nat_text a) True fp)"
    using assms(2) a9 fp(2) ftoa_eq [OF _ m_def a_def b_def] by (simp add: fp_def max_def split: if_splits)
  have "digits (nat_text a @ fp)" using fp(1) nat_text_props(1) [of a] by auto
  then have "read_float (decimal_text (x < 0) (nat_text a) True fp @ rest) 0 =
      Some (length (decimal_text (x < 0) (nat_text a) True fp), (if x < 0 then - 1 else 1) * real k / 10 ^ d)"
    using read_float_exact [of "nat_text a" fp True rest "[]" "x < 0"] fp(2) nat_text_props(3) [of a] dv k9 assms(3) by simp
  moreover have "\<bar>(if x < 0 then - 1 else 1) * real k / 10 ^ d - x\<bar> \<le> 1 / 2 / 10 ^ d"
  proof -
    have "\<bar>real k / 10 ^ d - \<bar>x\<bar>\<bar> = \<bar>real k - \<bar>x\<bar> * 10 ^ d\<bar> / 10 ^ d"
    proof -
      have "real k / 10 ^ d - \<bar>x\<bar> = (real k - \<bar>x\<bar> * 10 ^ d) / 10 ^ d" by (simp add: diff_divide_distrib)
      then show ?thesis by (simp add: abs_divide)
    qed
    also have "\<bar>real k - \<bar>x\<bar> * 10 ^ d\<bar> \<le> 1 / 2" using k by linarith
    then have "\<bar>real k - \<bar>x\<bar> * 10 ^ d\<bar> / 10 ^ d \<le> 1 / 2 / 10 ^ d" by (rule divide_right_mono) simp
    finally show ?thesis by (cases "x < 0") (auto simp: abs_if split: if_splits)
  qed
  ultimately show ?thesis using s by blast
qed

lemma ftoa_read_float_witness:
  "\<exists>s v. ftoa (- 12.3456) 3 = Some s \<and> read_float (s @ [CHR '' '']) 0 = Some (length s, v) \<and> \<bar>v - (- 12.3456)\<bar> \<le> 1 / 2 / 10 ^ 3"
  by (rule ftoa_read_float) (simp_all add: stops_def is_digit_def less_eq_char_def)

text \<open>
  The buffer of the printer is sized for nine digits and four decimals. With more decimals, which
  the format \<open>%.9f\<close> of a message asks for, a number of five digits before the point is printed
  past the start of the buffer; with at most three decimals every number of nine digits before the point fits.
\<close>

theorem ftoa_buffer:
  "ftoa 12345 9 = None \<and> (d \<le> 3 \<longrightarrow> \<bar>x\<bar> < 999999999 \<longrightarrow> ftoa x d \<noteq> None)"
proof (intro conjI impI)
  have "length (nat_text 12345) = 5"
    by (simp add: nat_text_def nat_digits.simps)
  moreover have "nat \<lfloor>\<bar>12345\<bar> + 1 / 2 / 10 ^ 9 :: real\<rfloor> = 12345" by (simp add: floor_unique)
  ultimately show "ftoa 12345 9 = None"
    using ftoa_eq [of 9 "\<bar>12345\<bar> + 1 / 2 / 10 ^ 9" 12345 12345] by simp
next
  assume d: "d \<le> 3" and x: "\<bar>x\<bar> < 999999999"
  define m where "m = \<bar>x\<bar> + 1 / 2 / 10 ^ d"
  have "1 / 2 / 10 ^ d \<le> (1 / 2 :: real)" using divide_left_mono [of 1 "10 ^ d" "1 / 2 :: real"] by simp
  with x have "m < 999999999 + 1 / 2" unfolding m_def by (rule add_less_le_mono)
  then have "m < 10 ^ 9" by simp
  then have m: "0 \<le> m" "m < 10 ^ 9" by (simp_all add: m_def)
  then have a: "nat \<lfloor>m\<rfloor> < 10 ^ 9" by (simp add: nat_less_iff floor_less_iff)
  then have "length (nat_text (nat \<lfloor>m\<rfloor>)) \<le> 9" by (rule length_nat_text) simp
  moreover have "nat \<lfloor>(m - real (nat \<lfloor>m\<rfloor>)) * 10 ^ d\<rfloor> < 10 ^ 9"
    by (rule order_less_le_trans [OF split_decimals(1) [OF m(1) refl refl, of d] power_increasing]) (use d in simp_all)
  ultimately show "ftoa x d \<noteq> None"
    using a d ftoa_eq [OF _ m_def refl refl] by simp
qed

lemma ftoa_buffer_witness: "ftoa (- 3) 3 \<noteq> None"
  using ftoa_buffer [of 3 "- 3"] by simp

section \<open>Unsigned integers\<close>

lemma scan_uint_digits:
  assumes "digits ds" "sig_digits v n" "dec_from v ds < 10 ^ 9"
  shows "\<exists>n'. sig_digits (dec_from v ds) n' \<and>
    scan_uint v n False ok (ds @ rest) = scan_uint (dec_from v ds) n' False (ok \<or> ds \<noteq> []) rest"
  using assms
proof (induction ds arbitrary: v n ok)
  case (Cons c ds)
  let ?d = "digit_value c"
  define m where "m = (if \<not> False \<and> (?d \<noteq> 0 \<or> v \<noteq> 0) then n + 1 else n)"
  have c: "is_digit c" and "?d < 10" using Cons.prems by (auto simp: digit_value_less)
  then have sig: "sig_digits (v * 10 + ?d) m" using sig_digits_step [OF Cons.prems(2)] by (simp add: m_def)
  have v: "v * 10 + ?d < 10 ^ 9" using dec_from_ge [of "v * 10 + ?d" ds] Cons.prems(3) by simp
  then have "m \<le> 9" using sig_digits_le [OF sig] by simp
  then have "scan_uint v n False ok ((c # ds) @ rest) = scan_uint (v * 10 + ?d) m False True (ds @ rest)"
    unfolding append_Cons scan_uint.simps Let_def m_def [symmetric] using c v by simp
  then show ?case using Cons.IH [OF _ sig, of True] Cons.prems by auto
qed auto

lemma scan_uint_stops: "stops dec rest \<Longrightarrow> scan_uint v n dec ok rest = Inr (v, ok, rest)"
  by (cases rest) (auto simp: stops_def)

text \<open>No value of the loop needs more than 32 bits: after the point only zeros are appended.\<close>

lemma scan_uint_bound:
  "v < 2 ^ 32 \<Longrightarrow> (v < 10 ^ n \<or> dec) \<Longrightarrow> scan_uint v n dec ok s = Inr (v', r) \<Longrightarrow> v' < 2 ^ 32"
proof (induction v n dec ok s rule: scan_uint.induct)
  case (2 v n dec ok c cs)
  show ?case
  proof (cases "is_digit c")
    case True
    define m where "m = (if \<not> dec \<and> (digit_value c \<noteq> 0 \<or> v \<noteq> 0) then n + 1 else n)"
    have "v * 10 + digit_value c < 2 ^ 32"
      if "\<not> (dec \<and> digit_value c \<noteq> 0)" "m \<le> 9 \<or> digit_value c \<le> 4" "v \<le> 429496729"
    proof (cases "digit_value c \<le> 4")
      case False
      then have "n + 1 \<le> 9" "\<not> dec" using that by (auto simp: m_def)
      then have "v < 10 ^ n" "(10 :: nat) ^ n \<le> 10 ^ 8"
        using 2(5) power_increasing [of n 8 "10 :: nat"] by simp_all
      then show ?thesis using digit_value_less [OF True] by simp
    qed (use that in simp)
    moreover have "v * 10 + digit_value c < 10 ^ m \<or> dec" "v < 10 ^ m \<or> dec"
      using 2(5) digit_value_less [OF True] sig_digits_step [of v n] by (auto simp: m_def intro: order_less_le_trans)
    ultimately show ?thesis
      using 2(1,2) [OF True refl m_def] 2(4,6) True
      unfolding scan_uint.simps Let_def m_def [symmetric] by (simp split: if_splits)
  next
    case False
    then show ?thesis using 2 by (auto split: if_splits)
  qed
qed simp

text \<open>
  C38. Reading back a printed unsigned integer gives the integer, except that a number of ten digits
  whose last digit is greater than 4 loses that digit, without an error: the guard against overflow
  takes the last digit of the greatest 32 bit number for that of every number of ten digits.
\<close>

theorem read_uint_uitoa:
  assumes "stops False rest"
  shows "read_uint (uitoa w @ rest) 0 =
    Inr (length (uitoa w), if unat w < 10 ^ 9 \<or> unat w mod 10 \<le> 4 then unat w else unat w div 10)"
proof -
  let ?n = "unat w"
  have s0: "sig_digits 0 0" by (simp add: sig_digits_def)
  have hd: "char_at (nat_text n @ rest) 0 = hd (nat_text n)" "is_digit (hd (nat_text n))" for n
    using nat_text_props [of n] by (auto simp: char_at_def nth_append hd_conv_nth)
  have sgn: "hd (nat_text ?n) \<noteq> CHR ''-''" "hd (nat_text ?n) \<noteq> CHR ''+''" using hd(2) [of ?n] by auto
  have "scan_uint 0 0 False False (nat_text ?n @ rest) =
    Inr (if ?n < 10 ^ 9 \<or> ?n mod 10 \<le> 4 then ?n else ?n div 10, True, rest)"
  proof (cases "?n < 10 ^ 9")
    case True
    then show ?thesis
      using scan_uint_digits [of "nat_text ?n" 0 0 False rest] s0 nat_text_props [of ?n] assms
      by (auto simp: scan_uint_stops)
  next
    case False
    let ?m = "?n div 10"
    have n32: "?n < 2 ^ 32" using unsigned_less [of w] by simp
    have m: "10 ^ 8 \<le> ?m" "?m < 10 ^ 9" "?m \<le> 429496729" using False n32 by simp_all
    then have nt: "nat_text ?n = nat_text ?m @ [digit_char (?n mod 10)]"
      using False by (simp add: nat_text_def nat_digits_rec)
    obtain k where k: "sig_digits ?m k" "scan_uint 0 0 False False (nat_text ?m @ [digit_char (?n mod 10)] @ rest) =
        scan_uint ?m k False True ([digit_char (?n mod 10)] @ rest)"
      using scan_uint_digits [of "nat_text ?m" 0 0 False "[digit_char (?n mod 10)] @ rest"] s0 nat_text_props [of ?m] m(2) by auto
    have "k = 9"
    proof -
      have "(10 :: nat) ^ 8 < 10 ^ k" "k \<le> 9" using k(1) m sig_digits_le [OF k(1), of 9] by (auto simp: sig_digits_def)
      then have "8 < k" by (intro power_less_imp_less_exp [of "10 :: nat" 8 k]) simp_all
      then show ?thesis using \<open>k \<le> 9\<close> by simp
    qed
    have "scan_uint ?m k False True ([digit_char (?n mod 10)] @ rest) =
        (if ?n mod 10 \<le> 4 then scan_uint (?m * 10 + ?n mod 10) 10 False True rest else scan_uint ?m 10 False True rest)"
      using m \<open>k = 9\<close> by (simp add: Let_def)
    then show ?thesis using k(2) nt False assms by (simp add: scan_uint_stops)
  qed
  then show ?thesis using hd(1) [of ?n] sgn nat_text_props(3) [of ?n] by (simp add: read_uint_def uitoa_def Let_def)
qed

lemma read_uint_uitoa_witness:
  "read_uint (uitoa 4294967295 @ []) 0 = Inr (10, 429496729)"
proof -
  have "length (uitoa 4294967295) = 10" by (simp add: uitoa_def nat_text_def nat_digits.simps)
  then show ?thesis using read_uint_uitoa [of "[]" 4294967295] by (simp add: stops_def)
qed

text \<open>A fraction of zeros is appended to the integer: \<open>10.00\<close> reads as 1000.\<close>

lemma read_uint_fraction: "read_uint ''10.00'' 0 = Inr (5, 1000)"
  by (simp add: read_uint_def char_at_def is_digit_def less_eq_char_def digit_value_def)

section \<open>Counting bits\<close>

text \<open>The number of ones of a binary number, as a reference.\<close>

fun ones :: "nat \<Rightarrow> nat" where "ones n = (if n = 0 then 0 else n mod 2 + ones (n div 2))"
declare ones.simps [simp del]

lemma ones_and_pred: "0 < n \<Longrightarrow> ones (n AND (n - 1)) + 1 = ones (n :: nat)"
proof (induction n rule: less_induct)
  case (less n)
  show ?case
  proof (cases "even n")
    case True
    then obtain m where m: "n = 2 * m" by blast
    have "n AND (n - 1) = 2 * (m AND (m - 1))"
    proof -
      have "(2 * m) AND (2 * m - 1) = 2 * (m AND ((2 * m - 1) div 2))"
        using less.prems m by (subst and_nat_rec) auto
      moreover have "(2 * m - 1) div 2 = m - 1" using less.prems m by simp
      ultimately show ?thesis using m by simp
    qed
    moreover have "ones (m AND (m - 1)) + 1 = ones m" using less m by simp
    moreover have "ones (2 * k) = ones k" for k by (subst ones.simps) (simp add: ones.simps [of 0])
    ultimately show ?thesis using m by simp
  next
    case False
    then obtain m where m: "n = 2 * m + 1" using oddE by blast
    have "n AND (n - 1) = 2 * m"
      using m by (subst and_nat_rec) auto
    moreover have "ones (2 * m) = ones m" by (subst ones.simps) (simp add: ones.simps [of 0])
    moreover have "ones (2 * m + 1) = 1 + ones m" by (subst ones.simps) simp
    ultimately show ?thesis using m by simp
  qed
qed

lemma ones_le: "n < 2 ^ k \<Longrightarrow> ones n \<le> k"
proof (induction k arbitrary: n)
  case (Suc k)
  then have "n div 2 < 2 ^ k" by auto
  with Suc.IH have "ones (n div 2) \<le> k" by blast
  then show ?case by (subst ones.simps) (auto simp: le_Suc_eq)
qed (simp add: ones.simps)

lemma bit_count_loop: "ones (unat w) \<le> k \<Longrightarrow> bit_count_loop k w = ones (unat w)"
proof (induction k arbitrary: w)
  case 0
  then show ?case by simp
next
  case (Suc k)
  show ?case
  proof (cases "w = 0")
    case False
    then have u: "0 < unat w" "unat (w - 1) = unat w - 1" by (auto simp: unat_gt_0 unat_minus_one)
    have "unat (w AND (w - 1)) = unat w AND (unat w - 1)" using u by (simp add: unsigned_and_eq)
    then show ?thesis using Suc ones_and_pred [OF u(1)] False by simp
  qed (simp add: ones.simps)
qed
lemma bit_count_eq: "bit_count w = ones (unat w)"
  unfolding bit_count_def by (rule bit_count_loop, rule ones_le) (use unsigned_less [of w] in simp)

end
