(* ===== verification/ExprTree.thy ===== *)
theory ExprTree
  imports NgcExpr NumbersProps
begin

text \<open>
  The operator stack of the expression evaluator as a list, and expression trees: their text with no
  more brackets than the precedences ask for, and their value. The evaluator computes the value of a
  tree from its text.
\<close>

section \<open>The operator stack\<close>

text \<open>The operands waiting for their right operand, with their operations, the last one first.\<close>

type_synonym op_stack = "(fval \<times> ngc_binary_op) list"

fun push_op :: "op_stack \<Rightarrow> fval \<Rightarrow> ngc_binary_op \<Rightarrow> op_stack option" where
  "push_op [] v op = Some [(v, op)]"
| "push_op ((v1, op1) # st) v op =
     (if precedence op1 < precedence op then Some ((v, op) # (v1, op1) # st)
      else let (status, x) = execute_binary v1 op1 v in if status = Status_OK then push_op st x op else None)"

text \<open>The stack in the arrays of the code, and what holds of it: precedences grow towards the top.\<close>

definition stack_of :: "fval list \<Rightarrow> ngc_binary_op list \<Rightarrow> nat \<Rightarrow> op_stack" where
  "stack_of vs ops k = rev (zip (take k vs) (take k ops))"

definition growing :: "op_stack \<Rightarrow> bool" where
  "growing st \<longleftrightarrow> sorted_wrt (\<lambda>a b. precedence (snd b) < precedence (snd a)) st"

definition arrays_ok :: "fval list \<Rightarrow> ngc_binary_op list \<Rightarrow> nat \<Rightarrow> bool" where
  "arrays_ok vs ops k \<longleftrightarrow>
     length vs = MAX_STACK \<and> length ops = MAX_STACK \<and> 0 < k \<and> k \<le> MAX_STACK \<and> growing (stack_of vs ops k)"

lemma precedence_bounds: "1 \<le> precedence op" "precedence op \<le> 6" "precedence op = 1 \<longleftrightarrow> op = NGCBinaryOp_RightBracket"
  by (cases op; simp add: precedence_def)+

lemma stack_of_Suc:
  assumes "k < length vs" "k < length ops"
  shows "stack_of vs ops (Suc k) = (vs ! k, ops ! k) # stack_of vs ops k"
  using assms by (simp add: stack_of_def take_Suc_conv_app_nth)

lemma stack_of_upd [simp]:
  "k \<le> i \<Longrightarrow> stack_of (vs[i := v]) ops k = stack_of vs ops k"
  "k \<le> i \<Longrightarrow> stack_of vs (ops[i := op]) k = stack_of vs ops k"
  by (simp_all add: stack_of_def)

lemma length_stack_of: "length vs = length ops \<Longrightarrow> k \<le> length vs \<Longrightarrow> length (stack_of vs ops k) = k"
  by (simp add: stack_of_def)

text \<open>Precedences that grow from at least 2 leave room for five entries.\<close>

lemma growing_length:
  assumes "growing st" "st \<noteq> []" "snd (last st) \<noteq> NGCBinaryOp_RightBracket"
  shows "length st \<le> 5"
proof -
  have two: "2 \<le> precedence (snd e)" if "e \<in> set st" for e
  proof (cases "e = last st")
    case True
    then show ?thesis using precedence_bounds(1,3) [of "snd e"] assms(3) by (metis Suc_1 Suc_leI le_neq_implies_less)
  next
    case False
    have "sorted_wrt (\<lambda>a b. precedence (snd b) < precedence (snd a)) (butlast st @ [last st])"
      using assms(1,2) by (simp add: growing_def)
    moreover have "e \<in> set (butlast st)" using that False assms(2) by (metis append_butlast_last_id in_set_conv_decomp_first rotate1.simps(2) set_ConsD set_rotate1)
    ultimately have "precedence (snd (last st)) < precedence (snd e)" by (auto simp: sorted_wrt_append)
    then show ?thesis using precedence_bounds(1) [of "snd (last st)"] by linarith
  qed
  have "distinct (map (\<lambda>e. precedence (snd e)) st)"
    using assms(1) unfolding growing_def by (induction st) auto
  then have "length st = card ((\<lambda>e. precedence (snd e)) ` set st)"
    using distinct_card [of "map (\<lambda>e. precedence (snd e)) st"] by simp
  also have "\<dots> \<le> card {2..6 :: nat}"
    by (rule card_mono) (use two precedence_bounds(2) in auto)
  finally show ?thesis by simp
qed

lemma push_op_growing: "growing st \<Longrightarrow> push_op st v op = Some st' \<Longrightarrow> growing st' \<and> st' \<noteq> []"
proof (induction st v op rule: push_op.induct)
  case (1 v op)
  then show ?case by (auto simp: growing_def)
next
  case (2 v1 op1 st v op)
  show ?case
  proof (cases "precedence op1 < precedence op")
    case True
    then show ?thesis using 2(2,3) by (fastforce simp: growing_def)
  next
    case False
    then show ?thesis using 2 by (auto simp: growing_def Let_def split: prod.splits if_splits)
  qed
qed

text \<open>The loop of the code that reduces the arrays pushes the last operand and operation read.\<close>

lemma reduce_push:
  assumes "length vs = length ops" "Suc k < length vs" "precedence (ops ! Suc k) \<le> precedence (ops ! k)"
  shows "case push_op (stack_of vs ops (Suc k)) (vs ! Suc k) (ops ! Suc k) of
      Some st \<Rightarrow> \<exists>vs' ops' k'. reduce (Suc k) vs ops = (Status_OK, vs', ops', k') \<and> length vs' = length vs
        \<and> length ops' = length ops \<and> 0 < k' \<and> k' \<le> Suc k \<and> stack_of vs' ops' k' = st
    | None \<Rightarrow> fst (reduce (Suc k) vs ops) \<noteq> Status_OK"
  using assms
proof (induction k arbitrary: vs ops)
  case (Suc k)
  obtain status x where e: "execute_binary (vs ! Suc k) (ops ! Suc k) (vs ! Suc (Suc k)) = (status, x)" by fastforce
  let ?vs = "vs[Suc k := x]" and ?ops = "ops[Suc k := ops ! Suc (Suc k)]"
  have st: "stack_of vs ops (Suc (Suc k)) = (vs ! Suc k, ops ! Suc k) # stack_of vs ops (Suc k)"
    using Suc.prems by (intro stack_of_Suc) auto
  show ?case
  proof (cases "status = Status_OK")
    case False
    then show ?thesis using Suc.prems(3) e st by (simp add: Let_def)
  next
    case True
    show ?thesis
    proof (cases "precedence (ops ! Suc (Suc k)) \<le> precedence (ops ! k)")
      case le: True
      have "reduce (Suc (Suc k)) vs ops = reduce (Suc k) ?vs ?ops"
        using Suc.prems e True le by (simp add: Let_def)
      moreover have "push_op (stack_of vs ops (Suc (Suc k))) (vs ! Suc (Suc k)) (ops ! Suc (Suc k)) =
          push_op (stack_of ?vs ?ops (Suc k)) (?vs ! Suc k) (?ops ! Suc k)"
        using Suc.prems e True st by simp
      ultimately show ?thesis
        using Suc.IH [of ?vs ?ops] Suc.prems le by (auto simp del: reduce.simps push_op.simps split: option.splits)
    next
      case False
      have "reduce (Suc (Suc k)) vs ops = (Status_OK, ?vs, ?ops, Suc (Suc k))"
        using Suc.prems e True False by (simp add: Let_def)
      moreover have "stack_of vs ops (Suc k) = (vs ! k, ops ! k) # stack_of vs ops k"
        using Suc.prems by (intro stack_of_Suc) auto
      then have "push_op (stack_of vs ops (Suc (Suc k))) (vs ! Suc (Suc k)) (ops ! Suc (Suc k)) =
          Some ((x, ops ! Suc (Suc k)) # stack_of vs ops (Suc k))"
        using Suc.prems e True st False by simp
      moreover have "stack_of ?vs ?ops (Suc (Suc k)) = (x, ops ! Suc (Suc k)) # stack_of vs ops (Suc k)"
        using Suc.prems by (subst stack_of_Suc) auto
      ultimately show ?thesis by simp
    qed
  qed
next
  case 0
  obtain status x where e: "execute_binary (vs ! 0) (ops ! 0) (vs ! Suc 0) = (status, x)" by fastforce
  have l: "0 < length vs" "0 < length ops" using 0 by linarith+
  have "stack_of vs ops (Suc 0) = [(vs ! 0, ops ! 0)]"
    using 0 by (subst stack_of_Suc) (auto simp: stack_of_def)
  moreover have "stack_of (vs[0 := x]) (ops[0 := ops ! Suc 0]) (Suc 0) = [(x, ops ! Suc 0)]"
    using l by (subst stack_of_Suc) (auto simp: stack_of_def)
  ultimately show ?case using 0 e by (simp add: Let_def)
qed

section \<open>The loop\<close>

text \<open>A reader that finds an operand at a position whatever its variable holds before.\<close>

definition reads :: "reader \<Rightarrow> nat \<Rightarrow> nat \<Rightarrow> fval \<Rightarrow> bool" where
  "reads rd pos pos' x \<longleftrightarrow> (\<forall>v. rd pos v = Done (Status_OK, pos', x))"

text \<open>Operands and operations read one after the other, up to the closing bracket.\<close>

abbreviation still_open :: "op_stack \<Rightarrow> bool" where
  "still_open st \<equiv> st = [] \<or> snd (last st) \<noteq> NGCBinaryOp_RightBracket"

inductive op_steps :: "reader \<Rightarrow> string \<Rightarrow> nat \<Rightarrow> nat \<Rightarrow> op_stack \<Rightarrow> nat \<Rightarrow> op_stack \<Rightarrow> bool"
  for rd line where
  none: "op_steps rd line 0 pos st pos st"
| more: "still_open st \<Longrightarrow> reads rd pos p x \<Longrightarrow> read_operation line p = (Status_OK, pos1, op)
    \<Longrightarrow> push_op st x op = Some st1 \<Longrightarrow> op_steps rd line n pos1 st1 pos2 st2
    \<Longrightarrow> op_steps rd line (Suc n) pos st pos2 st2"

lemma op_steps_one:
  "still_open st \<Longrightarrow> reads rd pos p x \<Longrightarrow> read_operation line p = (Status_OK, pos1, op)
    \<Longrightarrow> push_op st x op = Some st1 \<Longrightarrow> op_steps rd line 1 pos st pos1 st1"
  using op_steps.more [of st rd pos p x line pos1 op st1 0] op_steps.none by simp

lemma op_steps_trans:
  "op_steps rd line n pos st pos1 st1 \<Longrightarrow> op_steps rd line m pos1 st1 pos2 st2
    \<Longrightarrow> op_steps rd line (n + m) pos st pos2 st2"
  by (induction rule: op_steps.induct) (auto intro: op_steps.more)

lemma last_stack_of: "0 < k \<Longrightarrow> k \<le> length vs \<Longrightarrow> length vs = length ops \<Longrightarrow> last (stack_of vs ops k) = (vs ! 0, ops ! 0)"
  by (cases vs; cases ops; cases k) (auto simp: stack_of_def)

text \<open>One pass of the loop; it never runs out of the arrays.\<close>

lemma loop_step:
  assumes a: "arrays_ok vs ops k" and op: "ops ! 0 \<noteq> NGCBinaryOp_RightBracket"
    and rd: "reads rd pos p x" and o: "read_operation line p = (Status_OK, pos1, op)"
    and st: "push_op (stack_of vs ops k) x op = Some st1"
  shows "\<exists>vs' ops' k'. eval_loop (Suc n) rd line pos vs ops k = eval_loop n rd line pos1 vs' ops' k'
    \<and> arrays_ok vs' ops' k' \<and> stack_of vs' ops' k' = st1"
proof -
  have len: "length vs = MAX_STACK" "length ops = MAX_STACK" "0 < k" "k \<le> MAX_STACK" "growing (stack_of vs ops k)"
    using a by (simp_all add: arrays_ok_def)
  have "k \<le> 5"
    using growing_length [OF len(5)] len op last_stack_of [of k vs ops] length_stack_of [of vs ops k] by fastforce
  then have k: "k < 7" by simp
  obtain j where j: "k = Suc j" using len(3) by (cases k) auto
  let ?vs = "vs[k := x]" and ?ops = "ops[k := op]"
  have top: "stack_of vs ops k = (vs ! j, ops ! j) # stack_of vs ops j"
    using len k j by (simp add: stack_of_Suc MAX_STACK_def)
  have nth: "?vs ! k = x" "?ops ! k = op" "?vs ! j = vs ! j" "?ops ! j = ops ! j"
    using len k j by (simp_all add: MAX_STACK_def)
  have same: "stack_of ?vs ?ops k = stack_of vs ops k" by simp
  show ?thesis
  proof (cases "precedence (ops ! j) < precedence op")
    case True
    then have s1: "st1 = (x, op) # stack_of vs ops k" using st top by simp
    have "eval_loop (Suc n) rd line pos vs ops k = eval_loop n rd line pos1 ?vs ?ops (Suc k)"
      using op k rd o True j nth by (simp add: reads_def MAX_STACK_def Let_def)
    moreover have eq: "stack_of ?vs ?ops (Suc k) = st1"
      using len k nth s1 by (subst stack_of_Suc) (simp_all add: MAX_STACK_def)
    moreover have "arrays_ok ?vs ?ops (Suc k)"
      using len k push_op_growing [OF len(5) st] eq by (simp add: arrays_ok_def MAX_STACK_def)
    ultimately show ?thesis by blast
  next
    case False
    obtain vs' ops' k' where r: "reduce k ?vs ?ops = (Status_OK, vs', ops', k')" "length vs' = length vs"
        "length ops' = length ops" "0 < k'" "k' \<le> k" "stack_of vs' ops' k' = st1"
      using reduce_push [of ?vs ?ops j] len k j nth False st same by (auto simp: MAX_STACK_def)
    have "eval_loop (Suc n) rd line pos vs ops k = eval_loop n rd line pos1 vs' ops' k'"
      using op k rd o False j nth r by (simp add: reads_def MAX_STACK_def Let_def del: reduce.simps)
    moreover have "arrays_ok vs' ops' k'"
      using r len k push_op_growing [OF len(5) st] by (simp add: arrays_ok_def)
    ultimately show ?thesis using r(6) by blast
  qed
qed

lemma loop_steps:
  "op_steps rd line n pos st pos1 st1 \<Longrightarrow> arrays_ok vs ops k \<Longrightarrow> stack_of vs ops k = st \<Longrightarrow>
    \<exists>vs' ops' k'. eval_loop (n + m) rd line pos vs ops k = eval_loop m rd line pos1 vs' ops' k'
      \<and> arrays_ok vs' ops' k' \<and> stack_of vs' ops' k' = st1"
proof (induction arbitrary: vs ops k rule: op_steps.induct)
  case (none pos st)
  then show ?case by auto
next
  case (more st pos p x pos1 op st1 n pos2 st2)
  have len: "0 < k" "k \<le> length vs" "length vs = length ops" using more.prems by (simp_all add: arrays_ok_def)
  then have "st \<noteq> []" using length_stack_of [of vs ops k] more.prems(2) by auto
  then have "ops ! 0 \<noteq> NGCBinaryOp_RightBracket" using more.hyps(1) last_stack_of [OF len] more.prems(2) by simp
  then obtain vs' ops' k' where "eval_loop (Suc (n + m)) rd line pos vs ops k = eval_loop (n + m) rd line pos1 vs' ops' k'"
      "arrays_ok vs' ops' k'" "stack_of vs' ops' k' = st1"
    using loop_step [OF more.prems(1) _ more.hyps(2,3)] more.hyps(4) more.prems(2) by blast
  then show ?case using more.IH [of vs' ops' k'] by auto
qed

text \<open>A bracketed sequence of operands and operations is evaluated on the stack.\<close>

lemma eval_expression_steps:
  assumes "char_at line pos = CHR ''[''" "op_steps rd line (Suc n) (pos + 1) [] pos2 [(y, NGCBinaryOp_RightBracket)]"
    and "n \<le> length line"
  shows "eval_expression env rd line pos v = Done (Status_OK, pos2, y)"
proof -
  obtain p x pos1 op st1 where s: "reads rd (pos + 1) p x" "read_operation line p = (Status_OK, pos1, op)"
      "push_op [] x op = Some st1" "op_steps rd line n pos1 st1 pos2 [(y, NGCBinaryOp_RightBracket)]"
    using assms(2) by (cases rule: op_steps.cases) auto
  define vs where "vs = (replicate MAX_STACK (ee_junk env))[0 := x]"
  define ops where "ops = (replicate MAX_STACK NGCBinaryOp_NoOp)[0 := op]"
  have s1: "stack_of vs ops 1 = [(x, op)]"
    unfolding One_nat_def by (subst stack_of_Suc) (auto simp: vs_def ops_def MAX_STACK_def stack_of_def)
  have "growing (stack_of vs ops 1)" unfolding s1 by (simp add: growing_def)
  moreover have "length vs = MAX_STACK" "length ops = MAX_STACK" by (simp_all add: vs_def ops_def)
  ultimately have a: "arrays_ok vs ops 1" "stack_of vs ops 1 = st1"
    using s(3) s1 by (simp_all add: arrays_ok_def MAX_STACK_def)
  obtain vs' ops' k' where r: "eval_loop (n + (Suc (length line - n))) rd line pos1 vs ops 1 =
      eval_loop (Suc (length line - n)) rd line pos2 vs' ops' k'"
    "arrays_ok vs' ops' k'" "stack_of vs' ops' k' = [(y, NGCBinaryOp_RightBracket)]"
    using loop_steps [OF s(4) a] by blast
  have "(vs' ! 0, ops' ! 0) = (y, NGCBinaryOp_RightBracket)"
    using last_stack_of [of k' vs' ops'] r(2,3) by (simp add: arrays_ok_def)
  moreover have "n + (Suc (length line - n)) = length line + 1" using assms(3) by simp
  ultimately have "eval_loop (length line + 1) rd line pos1 vs ops 1 = Done (Status_OK, pos2, vs')" "vs' ! 0 = y"
    using r(1) by simp_all
  then show ?thesis
    using assms(1) s(1,2)
    by (simp add: eval_expression_def reads_def Let_def vs_def [symmetric] ops_def [symmetric] del: eval_loop.simps)
qed

section \<open>Trees\<close>

text \<open>
  A number is given by its digits before and, with a point, after the point. The text of a tree as an
  operand, and within brackets, where a left operand needs brackets of its own when it binds weaker,
  a right one also when it binds equally strong.
\<close>

datatype expr =
    Num string bool string
  | Param expr
  | Neg expr
  | Bin expr ngc_binary_op expr
  | Fun ngc_unary_op expr
  | Atan expr expr

definition op_name :: "ngc_binary_op \<Rightarrow> string" where
  "op_name op = (case find (\<lambda>(_, x). x = op) binary_ops of Some (name, _) \<Rightarrow> name | None \<Rightarrow> [])"

definition fun_name :: "ngc_unary_op \<Rightarrow> string" where
  "fun_name op = (case find (\<lambda>(_, x). x = op) unary_ops of Some (name, _) \<Rightarrow> name | None \<Rightarrow> [])"

definition root_prec :: "expr \<Rightarrow> nat" where
  "root_prec e = (case e of Bin _ op _ \<Rightarrow> precedence op | _ \<Rightarrow> 7)"

fun expr_text :: "bool \<Rightarrow> expr \<Rightarrow> string" where
  "expr_text b (Num ip point fp) = decimal_text False ip point fp"
| "expr_text b (Param e) = ''#'' @ expr_text True e"
| "expr_text b (Neg e) = ''-'' @ expr_text True e"
| "expr_text b (Bin l op r) =
     (let t = expr_text (root_prec l < precedence op) l @ op_name op @ expr_text (root_prec r \<le> precedence op) r
      in if b then ''['' @ t @ '']'' else t)"
| "expr_text b (Fun op e) = fun_name op @ ''['' @ expr_text False e @ '']''"
| "expr_text b (Atan e f) = ''ATAN['' @ expr_text False e @ '']/['' @ expr_text False f @ '']''"

text \<open>The text of a tree in brackets, the form in which conditions and word values are written.\<close>

definition bracketed :: "expr \<Rightarrow> string" where
  "bracketed e = ''['' @ expr_text False e @ '']''"

text \<open>Well formed: digits, at most nine of them significant, no bracket as an operation, plain functions.\<close>

fun expr_ok :: "expr \<Rightarrow> bool" where
  "expr_ok (Num ip point fp) \<longleftrightarrow> digits (ip @ fp) \<and> ip \<noteq> [] \<and> dec_value (ip @ fp) < 10 ^ 9 \<and> (point \<or> fp = [])"
| "expr_ok (Param e) \<longleftrightarrow> expr_ok e"
| "expr_ok (Neg e) \<longleftrightarrow> expr_ok e"
| "expr_ok (Bin l op r) \<longleftrightarrow> expr_ok l \<and> expr_ok r \<and> op \<notin> {NGCBinaryOp_RightBracket, NGCBinaryOp_NoOp}"
| "expr_ok (Fun op e) \<longleftrightarrow> expr_ok e \<and> op \<notin> {NGCUnaryOp_ATAN, NGCUnaryOp_Exists, NGCUnaryOp_Parameter}"
| "expr_ok (Atan e f) \<longleftrightarrow> expr_ok e \<and> expr_ok f"

text \<open>The value of a tree, when every operation in it is defined and gives a finite result.\<close>

definition finite_value :: "u8 \<times> fval \<Rightarrow> real option" where
  "finite_value r = (case r of (status, Fin x) \<Rightarrow> if status = Status_OK then Some x else None | _ \<Rightarrow> None)"

definition number_of :: "real \<Rightarrow> int option" where
  "number_of x =
     (let n = \<lfloor>x\<rfloor>
      in if n < 0 \<or> 2 ^ 31 - 1 \<le> n then None
         else if x - real_of_int n > 9999 / 10000 then Some \<lceil>x\<rceil>
         else if x - real_of_int n > 1 / 10000 then None else Some n)"

fun expr_value :: "expr_env \<Rightarrow> ngc_state \<Rightarrow> expr \<Rightarrow> real option" where
  "expr_value env s (Num ip point fp) = Some (real (dec_value (ip @ fp)) / 10 ^ length fp)"
| "expr_value env s (Param e) =
     Option.bind (Option.bind (expr_value env s e) number_of) (\<lambda>n.
       finite_value (let (found, v) = param_value env (word_of_int n) s
                     in (if found then Status_OK else Status_GcodeValueOutOfRange, v)))"
| "expr_value env s (Neg e) = map_option uminus (expr_value env s e)"
| "expr_value env s (Bin l op r) =
     Option.bind (expr_value env s l) (\<lambda>x. Option.bind (expr_value env s r) (\<lambda>y.
       finite_value (execute_binary (Fin x) op (Fin y))))"
| "expr_value env s (Fun op e) =
     Option.bind (expr_value env s e) (\<lambda>x.
       case execute_unary (Fin x) op of Done r \<Rightarrow> finite_value r | _ \<Rightarrow> None)"
| "expr_value env s (Atan e f) =
     Option.bind (expr_value env s e) (\<lambda>y. map_option (\<lambda>x. atan2 y x * DEGRAD) (expr_value env s f))"

section \<open>Reading the text\<close>

lemma find_binary_op:
  assumes "op \<notin> {NGCBinaryOp_NoOp}" "op = NGCBinaryOp_Times \<Longrightarrow> rest = [] \<or> hd rest \<noteq> CHR ''*''"
  shows "read_operation (pre @ op_name op @ rest) (length pre) = (Status_OK, length pre + length (op_name op), op)"
  using assms by (cases op; cases rest) (auto simp: read_operation_def binary_ops_def op_name_def starts_at_def)

lemma find_unary_op:
  "read_operation_unary (pre @ fun_name op @ rest) (length pre) = (Status_OK, length pre + length (fun_name op), op)"
  by (cases op) (simp_all add: read_operation_unary_def unary_ops_def fun_name_def starts_at_def)

lemma op_name_start:
  "op \<noteq> NGCBinaryOp_NoOp \<Longrightarrow> op_name op \<noteq> []" "op \<noteq> NGCBinaryOp_NoOp \<Longrightarrow> stops False (op_name op @ rest)"
  by (cases op; simp add: op_name_def binary_ops_def stops_def is_digit_def less_eq_char_def)+

lemma fun_name_start:
  "\<exists>c t. fun_name op = c # t \<and> CHR ''A'' \<le> c \<and> c \<le> CHR ''Z''"
  by (cases op) (simp_all add: fun_name_def unary_ops_def less_eq_char_def)

text \<open>What a text can start with.\<close>

definition starter :: "char \<Rightarrow> bool" where
  "starter c \<longleftrightarrow> is_digit c \<or> c \<in> {CHR ''#'', CHR ''-'', CHR ''[''} \<or> CHR ''A'' \<le> c \<and> c \<le> CHR ''Z''"

lemma starterD: "starter c \<Longrightarrow> c \<noteq> CHR ''*'' \<and> c \<noteq> CHR ''<'' \<and> c \<noteq> CHR ''.'' \<and> c \<noteq> CHR 0x00 \<and> c \<noteq> CHR ''+''"
  by (auto simp: starter_def is_digit_def less_eq_char_def)

lemma text_start:
  "expr_ok e \<Longrightarrow> \<exists>c t. expr_text b e = c # t \<and> starter c \<and> (is_digit c \<and> b \<longrightarrow> (\<exists>ip point fp. e = Num ip point fp))"
proof (induction e arbitrary: b)
  case (Num ip point fp)
  then show ?case by (cases ip) (auto simp: decimal_text_def starter_def)
next
  case (Bin l op r)
  then obtain c t where "expr_text (root_prec l < precedence op) l = c # t" "starter c" by fastforce
  then show ?case by (cases b) (auto simp: Let_def starter_def is_digit_def less_eq_char_def)
next
  case (Fun op e)
  then show ?case using fun_name_start [of op] by (auto simp: starter_def is_digit_def less_eq_char_def)
qed (auto simp: starter_def is_digit_def less_eq_char_def)

definition operand_read :: "expr_env \<Rightarrow> ngc_state \<Rightarrow> expr \<Rightarrow> real \<Rightarrow> bool" where
  "operand_read env s e x \<longleftrightarrow>
     (\<forall>m pre rest v. stops False rest \<longrightarrow> length (expr_text True e) \<le> m \<longrightarrow>
       ngc_read_real_value m env s (pre @ expr_text True e @ rest) (length pre) v =
         Done (Status_OK, length pre + length (expr_text True e), Fin x))"

text \<open>The text and the operation after it are read onto the stack.\<close>

definition text_read :: "expr_env \<Rightarrow> ngc_state \<Rightarrow> bool \<Rightarrow> expr \<Rightarrow> real \<Rightarrow> bool" where
  "text_read env s b e x \<longleftrightarrow>
     (\<forall>m pre rest op st st' line. line = pre @ expr_text b e @ op_name op @ rest \<longrightarrow> length (expr_text b e) \<le> m \<longrightarrow>
       op \<noteq> NGCBinaryOp_NoOp \<longrightarrow> (op = NGCBinaryOp_Times \<longrightarrow> rest = [] \<or> hd rest \<noteq> CHR ''*'') \<longrightarrow> still_open st \<longrightarrow>
       b \<or> precedence op \<le> root_prec e \<and> (st = [] \<or> precedence (snd (hd st)) < root_prec e) \<longrightarrow>
       push_op st (Fin x) op = Some st' \<longrightarrow>
       (\<exists>n. n < length (expr_text b e) \<and> op_steps (ngc_read_real_value m env s line) line (Suc n)
         (length pre) st (length pre + length (expr_text b e) + length (op_name op)) st'))"

lemma text_readD:
  "text_read env s b e x \<Longrightarrow> line = pre @ expr_text b e @ op_name op @ rest \<Longrightarrow> length (expr_text b e) \<le> m
    \<Longrightarrow> op \<noteq> NGCBinaryOp_NoOp \<Longrightarrow> (op = NGCBinaryOp_Times \<longrightarrow> rest = [] \<or> hd rest \<noteq> CHR ''*'') \<Longrightarrow> still_open st
    \<Longrightarrow> b \<or> precedence op \<le> root_prec e \<and> (st = [] \<or> precedence (snd (hd st)) < root_prec e)
    \<Longrightarrow> push_op st (Fin x) op = Some st'
    \<Longrightarrow> \<exists>n < length (expr_text b e). op_steps (ngc_read_real_value m env s line) line (Suc n)
         (length pre) st (length pre + length (expr_text b e) + length (op_name op)) st'"
  unfolding text_read_def by blast

lemma text_read_operand: "operand_read env s e x \<Longrightarrow> expr_ok e \<Longrightarrow> expr_text b e = expr_text True e \<Longrightarrow> text_read env s b e x"
  unfolding text_read_def
proof (intro allI impI)
  fix m pre rest op st st' and line :: string
  assume e: "operand_read env s e x" "expr_ok e" "expr_text b e = expr_text True e"
    and line: "line = pre @ expr_text b e @ op_name op @ rest"
    and m: "length (expr_text b e) \<le> m" and op: "op \<noteq> NGCBinaryOp_NoOp" "op = NGCBinaryOp_Times \<longrightarrow> rest = [] \<or> hd rest \<noteq> CHR ''*''"
    and st: "still_open st" "push_op st (Fin x) op = Some st'"
  have "reads (ngc_read_real_value m env s line) (length pre) (length pre + length (expr_text b e)) (Fin x)"
    using e m op_name_start(2) [OF op(1), of rest] by (simp add: reads_def operand_read_def line)
  moreover have "read_operation line (length pre + length (expr_text b e)) =
      (Status_OK, length pre + length (expr_text b e) + length (op_name op), op)"
    using find_binary_op [of op rest "pre @ expr_text b e"] op by (simp add: line)
  ultimately have "op_steps (ngc_read_real_value m env s line) line (Suc 0)
         (length pre) st (length pre + length (expr_text b e) + length (op_name op)) st'"
    using op_steps_one [OF st(1) _ _ st(2)] by simp
  moreover have "0 < length (expr_text b e)" using text_start [OF e(2), of b] by auto
  ultimately show "\<exists>n < length (expr_text b e). op_steps (ngc_read_real_value m env s line) line (Suc n)
         (length pre) st (length pre + length (expr_text b e) + length (op_name op)) st'" by blast
qed

lemma bracketed_read:
  assumes "text_read env s False e x" "length (expr_text False e) \<le> m"
  shows "eval_expression env (ngc_read_real_value m env s (pre @ bracketed e @ rest))
      (pre @ bracketed e @ rest) (length pre) v =
    Done (Status_OK, length pre + length (bracketed e), Fin x)"
proof -
  let ?line = "(pre @ ''['') @ expr_text False e @ op_name NGCBinaryOp_RightBracket @ rest"
  have rb: "op_name NGCBinaryOp_RightBracket = '']''" by (simp add: op_name_def binary_ops_def)
  have line: "?line = pre @ bracketed e @ rest" by (simp add: rb bracketed_def)
  have pr: "precedence NGCBinaryOp_RightBracket \<le> root_prec e"
    using precedence_bounds(1) by (cases e) (simp_all add: root_prec_def precedence_def [of NGCBinaryOp_RightBracket])
  obtain n where n: "n < length (expr_text False e)" "op_steps (ngc_read_real_value m env s ?line) ?line (Suc n)
      (length (pre @ ''['')) [] (length (pre @ ''['') + length (expr_text False e) + length (op_name NGCBinaryOp_RightBracket))
      [(Fin x, NGCBinaryOp_RightBracket)]"
    using assms(1) [unfolded text_read_def, rule_format, of ?line "pre @ ''[''" NGCBinaryOp_RightBracket rest m "[]"] assms(2) pr
    by (auto simp: rb)
  then show ?thesis
    using eval_expression_steps [of ?line "length pre" "ngc_read_real_value m env s ?line" n]
    by (simp add: rb bracketed_def)
qed

lemma bracketed_split: "''['' @ expr_text False e @ '']'' @ rest = bracketed e @ rest"
  by (simp add: bracketed_def)

lemma text_read_bin:
  assumes l: "operand_read env s l x" "text_read env s False l x" and r: "operand_read env s r y" "text_read env s False r y"
    and ok: "expr_ok (Bin l op r)" and v: "finite_value (execute_binary (Fin x) op (Fin y)) = Some z"
  shows "text_read env s False (Bin l op r) z"
  unfolding text_read_def
proof (intro allI impI)
  fix m pre rest o2 st st' and line :: string
  let ?bl = "root_prec l < precedence op" and ?br = "root_prec r \<le> precedence op"
  let ?tl = "expr_text ?bl l" and ?tr = "expr_text ?br r" and ?rd = "ngc_read_real_value m env s line"
  assume line: "line = pre @ expr_text False (Bin l op r) @ op_name o2 @ rest"
    and m: "length (expr_text False (Bin l op r)) \<le> m" and o2: "o2 \<noteq> NGCBinaryOp_NoOp" "o2 = NGCBinaryOp_Times \<longrightarrow> rest = [] \<or> hd rest \<noteq> CHR ''*''"
    and st: "still_open st" "push_op st (Fin z) o2 = Some st'"
    and pr: "False \<or> precedence o2 \<le> root_prec (Bin l op r) \<and> (st = [] \<or> precedence (snd (hd st)) < root_prec (Bin l op r))"
  have line': "line = pre @ ?tl @ op_name op @ ?tr @ op_name o2 @ rest" using line by (simp add: Let_def)
  have op: "op \<noteq> NGCBinaryOp_NoOp" "op \<noteq> NGCBinaryOp_RightBracket" using ok by auto
  have tl: "text_read env s ?bl l x" and tr: "text_read env s ?br r y"
    using l r ok text_read_operand [of env s l x True] text_read_operand [of env s r y True] by (cases ?bl; cases ?br; simp)+
  obtain c t where ct: "?tr = c # t" "c \<noteq> CHR ''*''" using text_start [of r ?br] ok starterD by fastforce
  then have star: "op = NGCBinaryOp_Times \<longrightarrow> ?tr @ op_name o2 @ rest = [] \<or> hd (?tr @ op_name o2 @ rest) \<noteq> CHR ''*''"
    by (simp only: append_Cons list.sel) simp
  have "push_op st (Fin x) op = Some ((Fin x, op) # st)"
    using pr by (cases st) (auto simp: root_prec_def)
  moreover have "?bl \<or> precedence op \<le> root_prec l \<and> (st = [] \<or> precedence (snd (hd st)) < root_prec l)"
    using pr by (auto simp: root_prec_def)
  moreover have "length ?tl \<le> m" "length ?tr \<le> m" using m by (simp_all add: Let_def)
  ultimately obtain n1 where n1: "n1 < length ?tl" "op_steps ?rd line (Suc n1) (length pre) st
      (length pre + length ?tl + length (op_name op)) ((Fin x, op) # st)"
    using text_readD [OF tl line' _ op(1) star st(1)] by blast
  have "push_op ((Fin x, op) # st) (Fin y) o2 = Some st'"
    using pr v st(2) by (auto simp: root_prec_def finite_value_def split: prod.splits fval.splits if_splits)
  moreover have "still_open ((Fin x, op) # st)" using st(1) op by auto
  moreover have "?br \<or> precedence o2 \<le> root_prec r \<and> ((Fin x, op) # st = [] \<or> precedence (snd (hd ((Fin x, op) # st))) < root_prec r)"
    using pr by (auto simp: root_prec_def [of "Bin l op r"])
  ultimately obtain n2 where n2: "n2 < length ?tr" "op_steps ?rd line (Suc n2) (length (pre @ ?tl @ op_name op))
      ((Fin x, op) # st) (length (pre @ ?tl @ op_name op) + length ?tr + length (op_name o2)) st'"
    using text_readD [OF tr, of line "pre @ ?tl @ op_name op" o2 rest m "(Fin x, op) # st" st'] line' \<open>length ?tr \<le> m\<close> o2 by auto
  show "\<exists>n < length (expr_text False (Bin l op r)). op_steps ?rd line (Suc n)
         (length pre) st (length pre + length (expr_text False (Bin l op r)) + length (op_name o2)) st'"
    using op_steps_trans [OF n1(2), of "Suc n2" "length (pre @ ?tl @ op_name op) + length ?tr + length (op_name o2)" st']
      n1(1) n2
    by (intro exI [of _ "n1 + Suc n2"]) (simp add: Let_def add.assoc)
qed

section \<open>The value of a tree\<close>

lemma read_num:
  assumes "expr_ok (Num ip point fp)" "stops False rest"
  shows "ngc_read_real_value (Suc m) env s (pre @ decimal_text False ip point fp @ rest) (length pre) v =
      Done (Status_OK, length pre + length (decimal_text False ip point fp), Fin (real (dec_value (ip @ fp)) / 10 ^ length fp))"
    and "ngc_read_real_value (Suc m) env s (pre @ ''-'' @ decimal_text False ip point fp @ rest) (length pre) v =
      Done (Status_OK, length pre + Suc (length (decimal_text False ip point fp)), Fin (- (real (dec_value (ip @ fp)) / 10 ^ length fp)))"
proof -
  obtain c t where c: "ip = c # t" "is_digit c" using assms(1) by (cases ip) auto
  have nd: "c \<noteq> CHR 0x00" "c \<noteq> CHR ''[''" "c \<noteq> CHR ''#''" "c \<noteq> CHR ''+''" "c \<noteq> CHR ''-''"
    "\<not> (CHR ''A'' \<le> c \<and> c \<le> CHR ''Z'')"
    using c(2) by (auto simp: is_digit_def less_eq_char_def)
  have st: "stops point rest" using assms(2) by (auto simp: stops_def split: list.splits)
  have rf: "read_float (pre @ decimal_text neg ip point fp @ rest) (length pre) = Some (length pre + length (decimal_text neg ip point fp),
      (if neg then - 1 else 1) * real (dec_value (ip @ fp)) / 10 ^ length fp)" for neg
    by (rule read_float_exact) (use assms(1) st in auto)
  show "ngc_read_real_value (Suc m) env s (pre @ decimal_text False ip point fp @ rest) (length pre) v =
      Done (Status_OK, length pre + length (decimal_text False ip point fp), Fin (real (dec_value (ip @ fp)) / 10 ^ length fp))"
    using rf [of False] nd c by (auto simp: decimal_text_def Let_def)
  have "char_at (pre @ CHR ''-'' # c # u) (Suc (length pre)) = c" for u
    by (simp add: char_at_def nth_append)
  then show "ngc_read_real_value (Suc m) env s (pre @ ''-'' @ decimal_text False ip point fp @ rest) (length pre) v =
      Done (Status_OK, length pre + Suc (length (decimal_text False ip point fp)), Fin (- (real (dec_value (ip @ fp)) / 10 ^ length fp)))"
    using rf [of True] nd c by (auto simp: decimal_text_def Let_def less_eq_char_def)
qed

lemma char_at_cons [simp]: "char_at (pre @ c # s) (Suc (length pre)) = (case s of [] \<Rightarrow> CHR 0x00 | d # _ \<Rightarrow> d)"
  by (cases s) (auto simp: char_at_def nth_append)

lemma finite_value_Some: "finite_value r = Some x \<longleftrightarrow> r = (Status_OK, Fin x)"
  by (cases r) (auto simp: finite_value_def split: fval.splits)

lemma number_of_int:
  assumes "number_of x = Some n" "rd pos (ee_junk env) = Done (Status_OK, pos', Fin x)"
  shows "ngc_read_integer_value env rd pos = Done (Status_OK, pos', n)" "0 \<le> n"
proof -
  have f: "0 \<le> \<lfloor>x\<rfloor>" "\<lfloor>x\<rfloor> < 2 ^ 31 - 1" and n: "n = \<lceil>x\<rceil> \<or> n = \<lfloor>x\<rfloor>"
    using assms(1) by (auto simp: number_of_def Let_def split: if_splits)
  have c: "\<lfloor>x\<rfloor> \<le> \<lceil>x\<rceil>" "\<lceil>x\<rceil> \<le> \<lfloor>x\<rfloor> + 1" by linarith+
  then have "sint (word_of_int \<lceil>x\<rceil> :: u32) = \<lceil>x\<rceil>"
    using f by (simp add: sint_sbintrunc' signed_take_bit_int_eq_self)
  then show "ngc_read_integer_value env rd pos = Done (Status_OK, pos', n)"
    using assms f c by (auto simp: ngc_read_integer_value_def number_of_def Let_def split: if_splits)
  show "0 \<le> n" using n f c by auto
qed

lemma read_bracket:
  assumes "text_read env s False e x" "length (bracketed e) \<le> Suc m"
  shows "eval_expression env (ngc_read_real_value m env s (pre @ bracketed e @ rest)) (pre @ bracketed e @ rest) (length pre) v =
    Done (Status_OK, length pre + length (bracketed e), Fin x)"
  using bracketed_read [OF assms(1)] assms(2) by (simp add: bracketed_def)

lemma read_fun:
  assumes "text_read env s False e x" "expr_ok (Fun op e)" "execute_unary (Fin x) op = Done (Status_OK, Fin y)"
  shows "operand_read env s (Fun op e) y"
  unfolding operand_read_def
proof (intro allI impI)
  fix m pre rest v assume m: "length (expr_text True (Fun op e)) \<le> m"
  obtain c t where c: "fun_name op = c # t" "CHR ''A'' \<le> c \<and> c \<le> CHR ''Z''" using fun_name_start [of op] by blast
  obtain k where k: "m = Suc k" using m by (cases m) auto
  have letter: "c \<noteq> CHR 0x00" "c \<noteq> CHR ''[''" "c \<noteq> CHR ''#''" "c \<noteq> CHR ''+''" "c \<noteq> CHR ''-''"
    using c(2) by (auto simp: less_eq_char_def)
  let ?line = "pre @ fun_name op @ bracketed e @ rest"
  have "eval_expression env (ngc_read_real_value k env s ((pre @ fun_name op) @ bracketed e @ rest)) ((pre @ fun_name op) @ bracketed e @ rest)
      (length (pre @ fun_name op)) v = Done (Status_OK, length (pre @ fun_name op) + length (bracketed e), Fin x)"
    using m k c(1) by (intro read_bracket [OF assms(1)]) (simp add: bracketed_def)
  then have ev: "eval_expression env (ngc_read_real_value k env s ?line) ?line (length pre + length (fun_name op)) v =
      Done (Status_OK, length pre + length (fun_name op) + length (bracketed e), Fin x)" by simp
  have "char_at ((pre @ fun_name op) @ bracketed e @ rest) (length (pre @ fun_name op)) = CHR ''[''"
    by (simp only: char_at_append) (simp add: bracketed_def)
  then have br: "char_at ?line (length pre + length (fun_name op)) = CHR ''[''" by simp
  have "read_unary env s (ngc_read_real_value k env s ?line) ?line (length pre) v =
      Done (Status_OK, length pre + length (fun_name op) + length (bracketed e), Fin y)"
    using assms(2,3) br ev find_unary_op [of pre op "bracketed e @ rest"] by (auto simp: read_unary_def)
  then have "ngc_read_real_value (Suc k) env s ?line (length pre) v =
      Done (Status_OK, length pre + length (fun_name op) + length (bracketed e), Fin y)"
    using c(2) letter by (simp add: Let_def c(1))
  then show "ngc_read_real_value m env s (pre @ expr_text True (Fun op e) @ rest) (length pre) v =
      Done (Status_OK, length pre + length (expr_text True (Fun op e)), Fin y)"
    by (simp add: k bracketed_def add.assoc)
qed

text \<open>The cases of an operand other than a plain function.\<close>

lemma operand_readI:
  assumes "\<And>k pre rest v. stops False rest \<Longrightarrow> length (expr_text True e) \<le> Suc k \<Longrightarrow>
      ngc_read_real_value (Suc k) env s (pre @ expr_text True e @ rest) (length pre) v =
        Done (Status_OK, length pre + length (expr_text True e), Fin x)" "expr_ok e"
  shows "operand_read env s e x"
  unfolding operand_read_def
proof (intro allI impI)
  fix m pre rest v assume m: "stops False rest" "length (expr_text True e) \<le> m"
  obtain c t where "expr_text True e = c # t" using text_start [OF assms(2), of True] by blast
  then obtain k where "m = Suc k" using m(2) by (cases m) auto
  then show "ngc_read_real_value m env s (pre @ expr_text True e @ rest) (length pre) v =
        Done (Status_OK, length pre + length (expr_text True e), Fin x)"
    using assms(1) m by blast
qed

lemma operand_readD:
  "operand_read env s e x \<Longrightarrow> stops False rest \<Longrightarrow> length (expr_text True e) \<le> m \<Longrightarrow>
    ngc_read_real_value m env s (pre @ expr_text True e @ rest) (length pre) v =
      Done (Status_OK, length pre + length (expr_text True e), Fin x)"
  unfolding operand_read_def by blast

lemma read_bin:
  assumes "text_read env s False (Bin l op r) x" "expr_ok (Bin l op r)"
  shows "operand_read env s (Bin l op r) x"
proof (rule operand_readI [OF _ assms(2)])
  fix k pre rest v assume m: "length (expr_text True (Bin l op r)) \<le> Suc k"
  have t: "expr_text True (Bin l op r) = bracketed (Bin l op r)" by (simp add: bracketed_def Let_def)
  have "char_at (pre @ bracketed (Bin l op r) @ rest) (length pre) = CHR ''[''" by (simp add: bracketed_def)
  then show "ngc_read_real_value (Suc k) env s (pre @ expr_text True (Bin l op r) @ rest) (length pre) v =
      Done (Status_OK, length pre + length (expr_text True (Bin l op r)), Fin x)"
    using read_bracket [OF assms(1), of k pre rest v] m unfolding t by (simp add: Let_def)
qed

lemma read_neg:
  assumes "operand_read env s e x" "expr_ok e"
    and num: "\<And>ip point fp. e = Num ip point fp \<Longrightarrow> x = real (dec_value (ip @ fp)) / 10 ^ length fp"
  shows "operand_read env s (Neg e) (- x)"
proof (rule operand_readI)
  fix k pre rest v assume m: "stops False rest" "length (expr_text True (Neg e)) \<le> Suc k"
  show "ngc_read_real_value (Suc k) env s (pre @ expr_text True (Neg e) @ rest) (length pre) v =
      Done (Status_OK, length pre + length (expr_text True (Neg e)), Fin (- x))"
  proof (cases "\<exists>ip point fp. e = Num ip point fp")
    case True
    then obtain ip point fp where e: "e = Num ip point fp" by blast
    then show ?thesis
      using read_num(2) [of ip point fp rest k env s pre v] assms(2) m(1) num [OF e] by simp
  next
    case False
    obtain c t where c: "expr_text True e = c # t" "starter c" "\<not> is_digit c"
      using text_start [OF assms(2), of True] False by blast
    have "ngc_read_real_value k env s ((pre @ ''-'') @ expr_text True e @ rest) (length (pre @ ''-'')) v =
        Done (Status_OK, length (pre @ ''-'') + length (expr_text True e), Fin x)"
      using m by (intro operand_readD [OF assms(1)]) auto
    then show ?thesis using c starterD [OF c(2)] by (simp add: Let_def)
  qed
qed (use assms(2) in simp)

lemma read_param:
  assumes "operand_read env s e x" "expr_ok e" "number_of x = Some n"
    and "param_value env (word_of_int n) s = (True, Fin y)"
  shows "operand_read env s (Param e) y"
proof (rule operand_readI)
  fix k pre rest v assume m: "stops False rest" "length (expr_text True (Param e)) \<le> Suc k"
  obtain c t where c: "expr_text True e = c # t" "starter c"
    using text_start [OF assms(2), of True] by blast
  let ?line = "pre @ ''#'' @ expr_text True e @ rest"
  have "ngc_read_real_value k env s ((pre @ ''#'') @ expr_text True e @ rest) (length (pre @ ''#'')) (ee_junk env) =
      Done (Status_OK, length (pre @ ''#'') + length (expr_text True e), Fin x)"
    using m by (intro operand_readD [OF assms(1)]) auto
  then have i: "ngc_read_integer_value env (ngc_read_real_value k env s ?line) (Suc (length pre)) =
      Done (Status_OK, Suc (length pre) + length (expr_text True e), n)" "0 \<le> n"
    using number_of_int [OF assms(3), of "ngc_read_real_value k env s ?line"] by auto
  have "ngc_read_parameter env s (ngc_read_real_value k env s ?line) ?line (length pre) v False =
      Done (Status_OK, Suc (length pre) + length (expr_text True e), Fin y)"
    using i c starterD [OF c(2)] assms(4) by (simp add: ngc_read_parameter_def)
  then show "ngc_read_real_value (Suc k) env s (pre @ expr_text True (Param e) @ rest) (length pre) v =
      Done (Status_OK, length pre + length (expr_text True (Param e)), Fin y)"
    by (simp add: Let_def)
qed (use assms(2) in simp)

lemma read_atan_text:
  assumes "text_read env s False e y" "text_read env s False f x" "expr_ok e" "expr_ok f"
  shows "operand_read env s (Atan e f) (atan2 y x * DEGRAD)"
proof (rule operand_readI)
  fix k pre rest v assume m: "length (expr_text True (Atan e f)) \<le> Suc k"
  let ?line = "pre @ ''ATAN'' @ bracketed e @ ''/'' @ bracketed f @ rest" and ?p1 = "Suc (Suc (Suc (Suc (length pre))))"
  let ?p2 = "?p1 + length (bracketed e)"
  have t: "pre @ expr_text True (Atan e f) @ rest = ?line" by (simp add: bracketed_def)
  have "eval_expression env (ngc_read_real_value k env s ((pre @ ''ATAN'') @ bracketed e @ ''/'' @ bracketed f @ rest))
      ((pre @ ''ATAN'') @ bracketed e @ ''/'' @ bracketed f @ rest) (length (pre @ ''ATAN'')) v =
      Done (Status_OK, length (pre @ ''ATAN'') + length (bracketed e), Fin y)"
    using m by (intro read_bracket [OF assms(1)]) (simp add: bracketed_def)
  then have e1: "eval_expression env (ngc_read_real_value k env s ?line) ?line ?p1 v = Done (Status_OK, ?p2, Fin y)" by simp
  have "eval_expression env (ngc_read_real_value k env s ((pre @ ''ATAN'' @ bracketed e @ ''/'') @ bracketed f @ rest))
      ((pre @ ''ATAN'' @ bracketed e @ ''/'') @ bracketed f @ rest) (length (pre @ ''ATAN'' @ bracketed e @ ''/'')) (ee_junk env) =
      Done (Status_OK, length (pre @ ''ATAN'' @ bracketed e @ ''/'') + length (bracketed f), Fin x)"
    using m by (intro read_bracket [OF assms(2)]) (simp add: bracketed_def)
  then have e2: "eval_expression env (ngc_read_real_value k env s ?line) ?line (Suc ?p2) (ee_junk env) =
      Done (Status_OK, Suc ?p2 + length (bracketed f), Fin x)" by (simp add: add.assoc)
  have fn: "fun_name NGCUnaryOp_ATAN = ''ATAN''" by (simp add: fun_name_def unary_ops_def)
  have ru: "read_operation_unary ?line (length pre) = (Status_OK, ?p1, NGCUnaryOp_ATAN)"
    using find_unary_op [of pre NGCUnaryOp_ATAN "bracketed e @ ''/'' @ bracketed f @ rest"] by (simp add: fn)
  have "char_at ((pre @ ''ATAN'' @ bracketed e) @ ''/'' @ bracketed f @ rest) (length (pre @ ''ATAN'' @ bracketed e)) = CHR ''/''"
    "char_at ((pre @ ''ATAN'' @ bracketed e) @ ''/'' @ bracketed f @ rest) (Suc (length (pre @ ''ATAN'' @ bracketed e))) = CHR ''[''"
    "char_at ((pre @ ''ATAN'') @ bracketed e @ ''/'' @ bracketed f @ rest) (length (pre @ ''ATAN'')) = CHR ''[''"
    by (simp_all only: char_at_append append_Cons append_Nil char_at_cons) (simp_all add: bracketed_def)
  then have ch: "char_at ?line ?p2 = CHR ''/''" "char_at ?line (Suc ?p2) = CHR ''[''" "char_at ?line ?p1 = CHR ''[''" 
    by (simp_all add: add.assoc)
  have "read_atan env (ngc_read_real_value k env s ?line) ?line ?p2 (Fin y) =
      Done (Status_OK, Suc ?p2 + length (bracketed f), Fin (atan2 y x * DEGRAD))"
    unfolding read_atan_def using ch e2 by simp
  then have "read_unary env s (ngc_read_real_value k env s ?line) ?line (length pre) v =
      Done (Status_OK, Suc ?p2 + length (bracketed f), Fin (atan2 y x * DEGRAD))"
    unfolding read_unary_def ru using ch(3) e1 by simp
  moreover have "char_at ?line (length pre) = CHR ''A''" by simp
  ultimately have "ngc_read_real_value (Suc k) env s ?line (length pre) v =
      Done (Status_OK, Suc ?p2 + length (bracketed f), Fin (atan2 y x * DEGRAD))"
    by (simp add: Let_def less_eq_char_def del: char_at_append)
  then show "ngc_read_real_value (Suc k) env s (pre @ expr_text True (Atan e f) @ rest) (length pre) v =
      Done (Status_OK, length pre + length (expr_text True (Atan e f)), Fin (atan2 y x * DEGRAD))"
    unfolding t by (simp add: bracketed_def add.assoc)
qed (use assms in simp)

lemma tree_read:
  "expr_ok e \<Longrightarrow> expr_value env s e = Some x \<Longrightarrow> operand_read env s e x \<and> (\<forall>b. text_read env s b e x)"
proof (induction e arbitrary: x)
  case (Num ip point fp)
  then have "operand_read env s (Num ip point fp) x"
    using read_num(1) by (intro operand_readI) auto
  then show ?case using text_read_operand Num.prems(1) by auto
next
  case (Param e)
  then obtain y n where v: "expr_value env s e = Some y" "number_of y = Some n" "param_value env (word_of_int n) s = (True, Fin x)"
  proof -
    obtain y n where yn: "expr_value env s e = Some y" "number_of y = Some n"
      "finite_value (let (found, v) = param_value env (word_of_int n) s
         in (if found then Status_OK else Status_GcodeValueOutOfRange, v)) = Some x"
      using Param.prems(2) unfolding expr_value.simps bind_eq_Some_conv by blast
    obtain found w where pv: "param_value env (word_of_int n) s = (found, w)" by fastforce
    have "found" "w = Fin x" using yn(3) unfolding pv finite_value_Some by (cases found; simp)+
    then show thesis using that yn(1,2) pv by simp
  qed
  then have "operand_read env s (Param e) x"
    using Param read_param [OF _ _ v(2,3), of e] by simp
  then show ?case using text_read_operand [of env s "Param e"] Param.prems(1) by simp
next
  case (Neg e)
  then obtain y where y: "expr_value env s e = Some y" "x = - y" by auto
  have "operand_read env s (Neg e) (- y)"
  proof (rule read_neg)
    show "operand_read env s e y" using Neg y(1) by simp
    show "expr_ok e" using Neg.prems(1) by simp
    show "y = real (dec_value (ip @ fp)) / 10 ^ length fp" if "e = Num ip point fp" for ip point fp
      using y(1) that by simp
  qed
  then show ?case using text_read_operand [of env s "Neg e"] Neg.prems(1) y(2) by simp
next
  case (Bin l op r)
  then obtain y z where v: "expr_value env s l = Some y" "expr_value env s r = Some z"
      "finite_value (execute_binary (Fin y) op (Fin z)) = Some x"
    by (auto simp: bind_eq_Some_conv)
  have t: "text_read env s False (Bin l op r) x"
    using Bin v by (intro text_read_bin [OF _ _ _ _ Bin.prems(1) v(3)]) auto
  have o: "operand_read env s (Bin l op r) x" using read_bin [OF t Bin.prems(1)] .
  then show ?case using t text_read_operand [OF o Bin.prems(1), of True] by (metis (full_types))
next
  case (Fun op e)
  then obtain y where v: "expr_value env s e = Some y" "execute_unary (Fin y) op = Done (Status_OK, Fin x)"
  proof -
    obtain y where y: "expr_value env s e = Some y"
      "(case execute_unary (Fin y) op of Done r \<Rightarrow> finite_value r | _ \<Rightarrow> None) = Some x"
      using Fun.prems(2) by (auto simp: bind_eq_Some_conv)
    then show thesis using that by (cases "execute_unary (Fin y) op") (simp_all add: finite_value_Some)
  qed
  then have "operand_read env s (Fun op e) x"
    using Fun by (intro read_fun [OF _ Fun.prems(1) v(2)]) auto
  then show ?case using text_read_operand [of env s "Fun op e"] Fun.prems(1) by simp
next
  case (Atan e f)
  then obtain y z where v: "expr_value env s e = Some y" "expr_value env s f = Some z" "x = atan2 y z * DEGRAD"
    by (auto simp: bind_eq_Some_conv)
  then have "operand_read env s (Atan e f) x"
    unfolding v(3) using Atan.IH v(1,2) Atan.prems(1) by (intro read_atan_text) simp_all
  then show ?case using text_read_operand [of env s "Atan e f"] Atan.prems(1) by simp
qed

text \<open>
  C32. The evaluator computes the value of the expression tree a text stands for: for every tree of
  numbers, parameters, signs, operations and functions, evaluating its text, with brackets only where
  the precedences ask for them and operations of equal precedence taken from the left, wherever it
  stands in a line, succeeds with the value of the tree and the position behind the text.
\<close>

theorem expression_value:
  assumes "expr_ok e" "expr_value env s e = Some x"
  shows "ngc_eval_expression env s (pre @ bracketed e @ rest) (length pre) v =
    Done (Status_OK, length pre + length (bracketed e), Fin x)"
  unfolding ngc_eval_expression_def real_value_def
  by (rule bracketed_read) (use tree_read [OF assms] in \<open>auto simp: bracketed_def\<close>)

definition expr_demo_env :: expr_env where
  "expr_demo_env = \<lparr>ee_ro = \<lambda>_. Fin 0, ee_named_ro = \<lambda>_. 0, ee_setting = \<lambda>_. None, ee_float_value = \<lambda>_ _. 0,
     ee_int_value = \<lambda>_ _. 0, ee_junk = Fin 0\<rparr>"

lemma expression_value_witness:
  "ngc_eval_expression expr_demo_env (ngc_initial 0) ''[1+2*3**2-[4-1]/3]'' 0 NaN = Done (Status_OK, 18, Fin 18)"
proof -
  let ?n = "\<lambda>d. Num d False []"
  let ?e = "Bin (Bin (?n ''1'') NGCBinaryOp_Plus (Bin (?n ''2'') NGCBinaryOp_Times (Bin (?n ''3'') NGCBinaryOp_Power (?n ''2''))))
    NGCBinaryOp_Minus (Bin (Bin (?n ''4'') NGCBinaryOp_Minus (?n ''1'')) NGCBinaryOp_DividedBy (?n ''3''))"
  have "bracketed ?e = ''[1+2*3**2-[4-1]/3]''"
    by (simp add: bracketed_def decimal_text_def op_name_def binary_ops_def root_prec_def precedence_def)
  moreover have "expr_ok ?e" by (simp add: is_digit_def less_eq_char_def digit_value_def)
  moreover have "expr_value expr_demo_env (ngc_initial 0) ?e = Some 18"
    by (simp add: digit_value_def execute_binary_def execute_binary1_def execute_binary2_def fpow_fin_def fsub_def
        finite_value_def)
  ultimately show ?thesis
    using expression_value [of ?e expr_demo_env "ngc_initial 0" 18 "[]" "[]" NaN] by simp
qed

end
