(* ===== verification/ExprTotal.thy ===== *)
theory ExprTotal
  imports ExprTree
begin

text \<open>
  The evaluator returns, and its arrays are large enough; where it does not keep what it means to:
  long names, large parameter numbers, results that are not numbers.
\<close>

section \<open>It returns\<close>

text \<open>A reader that, from some position on, returns, and moves forward when it succeeds.\<close>

definition advancing :: "reader \<Rightarrow> string \<Rightarrow> nat \<Rightarrow> bool" where
  "advancing rd line lo \<longleftrightarrow>
     (\<forall>pos v. lo \<le> pos \<longrightarrow> pos \<le> length line \<longrightarrow>
        rd pos v \<noteq> NoFuel \<and> (\<forall>p w. rd pos v = Done (Status_OK, p, w) \<longrightarrow> pos < p \<and> p \<le> length line))"

lemma advancingD:
  "advancing rd line lo \<Longrightarrow> lo \<le> pos \<Longrightarrow> pos \<le> length line \<Longrightarrow> rd pos v \<noteq> NoFuel"
  "advancing rd line lo \<Longrightarrow> lo \<le> pos \<Longrightarrow> pos \<le> length line \<Longrightarrow> rd pos v = Done (Status_OK, p, w) \<Longrightarrow> pos < p \<and> p \<le> length line"
  unfolding advancing_def by blast+

lemma advancing_later: "advancing rd line lo \<Longrightarrow> lo \<le> hi \<Longrightarrow> advancing rd line hi"
  unfolding advancing_def by (meson le_trans)

lemma char_at_inside: "char_at line pos \<noteq> CHR 0x00 \<Longrightarrow> pos < length line"
  by (simp add: char_at_def split: if_splits)

lemma starts_at_inside:
  assumes "starts_at line pos s" "s \<noteq> []"
  shows "pos < pos + length s" "pos + length s \<le> length line"
proof -
  have "length s = min (length s) (length line - pos)"
    using arg_cong [OF assms(1) [unfolded starts_at_def], of length] by simp
  then show "pos < pos + length s" "pos + length s \<le> length line" using assms(2) by (cases s; simp)+
qed

lemma find_in: "find P xs = Some x \<Longrightarrow> P x \<and> x \<in> set xs"
  by (induction xs) (auto split: if_splits)

lemma read_operation_inside:
  assumes "read_operation line pos = (Status_OK, p, op)"
  shows "pos < p \<and> p \<le> length line"
proof (cases "find (\<lambda>(name, _). starts_at line pos name) binary_ops")
  case (Some r)
  obtain name x where r: "r = (name, x)" by fastforce
  have n: "starts_at line pos name" "(name, x) \<in> set binary_ops"
    using find_in [OF Some] r by auto
  then have "name \<noteq> []" by (auto simp: binary_ops_def)
  moreover have "p = pos + length name" using assms Some r by (simp add: read_operation_def)
  ultimately show ?thesis using starts_at_inside [OF n(1)] by simp
qed (use assms in \<open>simp add: read_operation_def\<close>)

lemma read_operation_unary_inside:
  assumes "read_operation_unary line pos = (Status_OK, p, op)"
  shows "pos < p \<and> p \<le> length line"
proof (cases "find (\<lambda>(name, _). starts_at line pos name) unary_ops")
  case (Some r)
  obtain name x where r: "r = (name, x)" by fastforce
  have n: "starts_at line pos name" "(name, x) \<in> set unary_ops"
    using find_in [OF Some] r by auto
  then have "name \<noteq> []" by (auto simp: unary_ops_def)
  moreover have "p = pos + length name" using assms Some r by (simp add: read_operation_unary_def)
  ultimately show ?thesis using starts_at_inside [OF n(1)] by simp
qed (use assms in \<open>simp add: read_operation_unary_def\<close>)

lemma scan_float_rest:
  "scan_float v e n dec ok s = (v', e', ok', rest) \<Longrightarrow> length rest \<le> length s \<and> (ok' \<and> \<not> ok \<longrightarrow> length rest < length s)"
proof (induction v e n dec ok s rule: scan_float.induct)
  case (2 v e n dec ok c cs)
  then show ?case by (fastforce simp: Let_def split: if_splits)
qed auto

lemma read_float_inside:
  assumes "read_float line pos = Some (p, x)" "pos \<le> length line"
  shows "pos < p \<and> p \<le> length line"
proof -
  define start where "start = (if char_at line pos = CHR ''-'' \<or> char_at line pos = CHR ''+'' then pos + 1 else pos)"
  obtain v e ok rest where s: "scan_float 0 0 0 False False (drop start line) = (v, e, ok, rest)" using prod_cases4 by blast
  then have "ok" "p = length line - length rest"
    using assms(1) by (auto simp: read_float_def Let_def start_def [symmetric] split: if_splits)
  moreover have "pos \<le> start" by (simp add: start_def)
  moreover have "length rest < length line - start" using scan_float_rest [OF s] \<open>ok\<close> by simp
  ultimately show ?thesis by linarith
qed

lemma read_name_inside:
  assumes "ngc_read_name line pos = Done (Status_OK, p, name)"
  shows "pos < p \<and> p \<le> length line"
proof -
  have "char_at line (p - 1) = CHR ''>''" "pos + 1 < p"
    using assms by (auto simp: ngc_read_name_def Let_def split: if_splits)
  then show ?thesis using char_at_inside [of line "p - 1"] by auto
qed

lemma read_name_returns: "ngc_read_name line pos \<noteq> NoFuel"
  by (simp add: ngc_read_name_def Let_def)

lemma read_integer_inside:
  assumes "advancing rd line lo" "lo \<le> pos" "pos \<le> length line"
  shows "ngc_read_integer_value env rd pos \<noteq> NoFuel"
    and "ngc_read_integer_value env rd pos = Done (Status_OK, p, n) \<Longrightarrow> pos < p \<and> p \<le> length line"
proof -
  note a = advancingD(1) [OF assms, of "ee_junk env"] advancingD(2) [OF assms, of "ee_junk env"]
  show "ngc_read_integer_value env rd pos \<noteq> NoFuel"
    using a(1) by (cases "rd pos (ee_junk env)") (auto simp: ngc_read_integer_value_def Let_def split: fval.splits if_splits)
  assume r: "ngc_read_integer_value env rd pos = Done (Status_OK, p, n)"
  obtain status q w where q: "rd pos (ee_junk env) = Done (status, q, w)"
    using r by (cases "rd pos (ee_junk env)") (auto simp: ngc_read_integer_value_def)
  have "status = Status_OK" "p = q"
    using r q by (auto simp: ngc_read_integer_value_def Let_def split: fval.splits if_splits)
  then show "pos < p \<and> p \<le> length line" using a(2) q by blast
qed

lemma read_parameter_inside:
  assumes "advancing rd line (pos + 1)" "pos \<le> length line"
  shows "ngc_read_parameter env s rd line pos v check \<noteq> NoFuel"
    and "ngc_read_parameter env s rd line pos v check = Done (Status_OK, p, w) \<Longrightarrow> pos < p \<and> p \<le> length line"
proof -
  have h: "pos + 1 \<le> length line" if "char_at line pos = CHR ''#''"
    using char_at_inside [of line pos] that by simp
  note i = read_integer_inside [OF assms(1) order_refl h]
  show "ngc_read_parameter env s rd line pos v check \<noteq> NoFuel"
    using i(1) read_name_returns
    by (auto simp: ngc_read_parameter_def bind_run_iff Let_def split: prod.splits if_splits)
  assume r: "ngc_read_parameter env s rd line pos v check = Done (Status_OK, p, w)"
  then have c: "char_at line pos = CHR ''#''" by (auto simp: ngc_read_parameter_def split: if_splits)
  show "pos < p \<and> p \<le> length line"
  proof (cases "char_at line (pos + 1) = CHR ''<''")
    case True
    then obtain name where "ngc_read_name line (pos + 1) = Done (Status_OK, p, name)"
      using r c by (auto simp: ngc_read_parameter_def bind_run_iff Let_def split: prod.splits if_splits)
    then show ?thesis using read_name_inside by fastforce
  next
    case False
    then obtain status n where n: "ngc_read_integer_value env rd (pos + 1) = Done (status, p, n)" "status = Status_OK"
      using r c by (auto simp: ngc_read_parameter_def bind_run_iff Let_def split: prod.splits if_splits)
    then show ?thesis using i(2) [OF c] by fastforce
  qed
qed

text \<open>A result that stays inside the line and, on success, moves forward.\<close>

definition inside :: "string \<Rightarrow> nat \<Rightarrow> read_result \<Rightarrow> bool" where
  "inside line pos r \<longleftrightarrow> r \<noteq> NoFuel \<and> (\<forall>p w. r = Done (Status_OK, p, w) \<longrightarrow> pos < p \<and> p \<le> length line)"

lemma advancing_inside: "advancing rd line lo \<longleftrightarrow> (\<forall>pos v. lo \<le> pos \<longrightarrow> pos \<le> length line \<longrightarrow> inside line pos (rd pos v))"
  by (simp add: advancing_def inside_def)

lemma inside_simps [simp]:
  "inside line pos Undefined" "\<not> inside line pos NoFuel"
  "inside line pos (Done (status, p, w)) \<longleftrightarrow> (status = Status_OK \<longrightarrow> pos < p \<and> p \<le> length line)"
  by (auto simp: inside_def)

lemma inside_later: "inside line q r \<Longrightarrow> pos \<le> q \<Longrightarrow> inside line pos r"
  by (cases r) (auto intro: le_less_trans)

text \<open>What follows a reader: on success its continuation starts inside the line.\<close>

lemma inside_bind:
  assumes "r \<noteq> NoFuel" "\<And>status p w. r = Done (status, p, w) \<Longrightarrow> (status = Status_OK \<Longrightarrow> pos < p \<and> p \<le> length line)
      \<Longrightarrow> inside line pos (f (status, p, w))"
    and "\<And>p w. r = Done (Status_OK, p, w) \<Longrightarrow> pos < p \<and> p \<le> length line"
  shows "inside line pos (bind_run r f)"
  using assms by (cases r) auto

lemma eval_loop_inside:
  assumes "advancing rd line lo" "lo \<le> pos" "pos \<le> length line" "length line - pos < n"
  shows "eval_loop n rd line pos vs ops k \<noteq> NoFuel \<and>
    (\<forall>p ws. eval_loop n rd line pos vs ops k = Done (Status_OK, p, ws) \<longrightarrow> pos \<le> p \<and> p \<le> length line)"
  using assms(2-)
proof (induction n arbitrary: pos vs ops k)
  case (Suc n)
  show ?case
  proof (cases "ops ! 0 = NGCBinaryOp_RightBracket \<or> MAX_STACK \<le> k")
    case True
    then show ?thesis using Suc.prems by auto
  next
    case False
    show ?thesis
    proof (cases "rd pos (vs ! k)")
      case (Done r)
      obtain status p v where r: "r = (status, p, v)" using prod_cases3 by blast
      obtain status' p' op where o: "read_operation line p = (status', p', op)" using prod_cases3 by blast
      show ?thesis
      proof (cases "status = Status_OK \<and> status' = Status_OK")
        case ok: True
        have "pos < p" "p \<le> length line" using advancingD(2) [OF assms(1)] Suc.prems Done r ok by blast+
        moreover have "p < p'" "p' \<le> length line" using read_operation_inside o ok by blast+
        ultimately have p: "lo \<le> p'" "p' \<le> length line" "length line - p' < n" "pos \<le> p'" using Suc.prems by linarith+
        obtain status'' vs' ops' k' where red: "reduce k (vs[k := v]) (ops[k := op]) = (status'', vs', ops', k')"
          using prod_cases4 by blast
        note IH = Suc.IH [OF p(1-3)]
        note step = eval_loop.simps(2) [of n rd line pos vs ops k]
        show ?thesis
        proof (cases "precedence (ops[k := op] ! k) > precedence (ops[k := op] ! (k - 1))")
          case True
          then have "eval_loop (Suc n) rd line pos vs ops k = eval_loop n rd line p' (vs[k := v]) (ops[k := op]) (k + 1)"
            using False Done r o ok unfolding step by (simp add: Let_def del: eval_loop.simps)
          then show ?thesis using IH p(4) by (metis le_trans)
        next
          case same: False
          then have "eval_loop (Suc n) rd line pos vs ops k =
              (if status'' \<noteq> Status_OK then Done (status'', p', vs') else eval_loop n rd line p' vs' ops' k')"
            using False Done r o ok red unfolding step by (simp add: Let_def del: eval_loop.simps)
          then show ?thesis using IH p(4) by (metis le_trans prod.inject run.distinct(3) run.inject)
        qed
      qed (use False Done r o in \<open>auto simp: Let_def\<close>)
    qed (use False advancingD(1) [OF assms(1)] Suc.prems in auto)
  qed
qed simp

lemma eval_expression_inside:
  assumes "advancing rd line (pos + 1)" "pos \<le> length line"
  shows "inside line pos (eval_expression env rd line pos v)"
proof (cases "char_at line pos = CHR ''[''")
  case True
  then have le: "pos + 1 \<le> length line" using char_at_inside [of line pos] by simp
  let ?vs = "replicate MAX_STACK (ee_junk env)"
  show ?thesis
  proof (cases "rd (pos + 1) (?vs ! 0)")
    case (Done r)
    obtain status p x where r: "r = (status, p, x)" using prod_cases3 by blast
    obtain status' p' op where o: "read_operation line p = (status', p', op)" using prod_cases3 by blast
    show ?thesis
    proof (cases "status = Status_OK \<and> status' = Status_OK")
      case ok: True
      have "pos + 1 < p" using advancingD(2) [OF assms(1) order_refl le] Done r ok by blast
      moreover have "p < p'" "p' \<le> length line" using read_operation_inside o ok by blast+
      ultimately have p: "pos + 1 \<le> p'" "p' \<le> length line" "length line - p' < length line + 1" by linarith+
      note l = eval_loop_inside [OF assms(1) p, of "?vs[0 := x]" "(replicate MAX_STACK NGCBinaryOp_NoOp)[0 := op]" 1]
      have "eval_expression env rd line pos v = bind_run
          (eval_loop (length line + 1) rd line p' (?vs[0 := x]) ((replicate MAX_STACK NGCBinaryOp_NoOp)[0 := op]) 1)
          (\<lambda>(status, pos, vs). Done (status, pos, if status = Status_OK then vs ! 0 else v))"
        using True Done r o ok unfolding eval_expression_def by (simp add: Let_def del: eval_loop.simps)
      then show ?thesis
        using l p(1) by (cases "eval_loop (length line + 1) rd line p' (?vs[0 := x])
            ((replicate MAX_STACK NGCBinaryOp_NoOp)[0 := op]) 1") (auto simp del: eval_loop.simps)
    qed (use True Done r o in \<open>auto simp: eval_expression_def Let_def\<close>)
  qed (use True advancingD(1) [OF assms(1) order_refl le] in \<open>auto simp: eval_expression_def\<close>)
qed (simp add: eval_expression_def)

lemma read_atan_inside:
  assumes "advancing rd line pos" "pos \<le> length line"
  shows "inside line pos (read_atan env rd line pos v)"
proof (cases "char_at line pos = CHR ''/'' \<and> char_at line (pos + 1) = CHR ''[''")
  case True
  then have "pos + 1 \<le> length line" using char_at_inside [of line pos] by simp
  then have "inside line (pos + 1) (eval_expression env rd line (pos + 1) (ee_junk env))"
    using advancing_later [OF assms(1)] by (intro eval_expression_inside) auto
  then show ?thesis
    using True unfolding read_atan_def
    by (cases "eval_expression env rd line (pos + 1) (ee_junk env)") auto
qed (auto simp: read_atan_def)

lemma read_exists_inside: "inside line pos (read_exists env s line pos v)"
  using char_at_inside [of line "pos + 3 + length (takeWhile (\<lambda>c. c \<noteq> CHR '']'') (drop (pos + 3) line))"]
  by (auto simp: read_exists_def Let_def numeral_3_eq_3)

lemma read_prm_inside:
  assumes "advancing rd line (pos + 1)" "pos + 1 \<le> length line"
  shows "inside line pos (read_prm env rd line pos v)"
proof -
  note i = read_integer_inside [OF assms(1) order_refl assms(2), of env]
  show ?thesis
  proof (cases "ngc_read_integer_value env rd (pos + 1)")
    case (Done r)
    obtain status p n where r: "r = (status, p, n)" using prod_cases3 by blast
    show ?thesis
    proof (cases "status = Status_OK")
      case True
      then have p: "pos + 1 < p" "p \<le> length line" using i(2) Done r by blast+
      have h: "p + 1 \<le> length line" if "char_at line p = CHR '',''" using char_at_inside [of line p] that by simp
      have j: "ngc_read_integer_value env rd (p + 1) \<noteq> NoFuel"
        "ngc_read_integer_value env rd (p + 1) = Done (Status_OK, q, m) \<Longrightarrow> p + 1 < q \<and> q \<le> length line"
        if "char_at line p = CHR '',''" for q m
        using read_integer_inside [OF assms(1) _ h [OF that]] p(1) by auto
      have last: "q + 1 \<le> length line" if "char_at line q = CHR '']''" for q using char_at_inside [of line q] that by simp
      let ?second = "if char_at line p = CHR '','' then ngc_read_integer_value env rd (p + 1) else Done (Status_OK, p, 0)"
      show ?thesis
      proof (cases ?second)
        case (Done r2)
        obtain status2 q m where r2: "r2 = (status2, q, m)" using prod_cases3 by blast
        have "pos < q" if "status2 = Status_OK"
          using Done r2 that p(1) j(2) [of q m] by (cases "char_at line p = CHR '',''") auto
        moreover have "read_prm env rd line pos v = bind_run ?second (\<lambda>(status, pos, bitnum).
                if status \<noteq> Status_OK then Done (status, pos, v)
                else if bitnum < 0 \<or> 31 < bitnum then Done (Status_ExpressionArgumentOutOfRange, pos, v)
                else if char_at line pos \<noteq> CHR '']'' then Done (Status_ExpressionSyntaxError, pos, v)
                else case ee_setting env (word_of_int n) of
                    None \<Rightarrow> Done (Status_ExpressionArgumentOutOfRange, pos + 1, v)
                  | Some si \<Rightarrow>
                      let offset = word_of_int (n - uint (si_id si))
                      in if si_is_decimal si
                         then Done (Status_OK, pos + 1, Fin (ee_float_value env (si_id si) offset))
                         else if si_is_integer_or_list si then
                           let w = ee_int_value env (si_id si) offset
                           in Done (Status_OK, pos + 1,
                                if char_at line p = CHR '','' then truth (bit w (nat bitnum)) else Fin (real (unat w)))
                         else Done (Status_ExpressionArgumentOutOfRange, pos + 1, v))"
          using \<open>ngc_read_integer_value env rd (pos + 1) = Done r\<close> r True by (simp add: read_prm_def Let_def)
        ultimately show ?thesis
          using last [of q] unfolding Done r2 by (auto simp: Let_def split: option.splits)
      qed (use \<open>ngc_read_integer_value env rd (pos + 1) = Done r\<close> r True j(1) in \<open>auto simp: read_prm_def Let_def split: if_splits\<close>)
    qed (use Done r in \<open>auto simp: read_prm_def\<close>)
  qed (use i(1) in \<open>auto simp: read_prm_def\<close>)
qed

lemma execute_unary_returns: "execute_unary x op \<noteq> NoFuel"
  by (cases op) (simp_all add: execute_unary_def Let_def split: fval.splits)

lemma read_unary_inside:
  assumes "advancing rd line (pos + 1)" "pos \<le> length line"
  shows "inside line pos (read_unary env s rd line pos v)"
proof -
  obtain status p op where o: "read_operation_unary line pos = (status, p, op)" using prod_cases3 by blast
  show ?thesis
  proof (cases "status = Status_OK \<and> char_at line p = CHR ''[''")
    case True
    then have p: "pos < p" "p \<le> length line" using read_operation_unary_inside o by blast+
    then have le: "p + 1 \<le> length line" using char_at_inside [of line p] True by simp
    have ad: "advancing rd line (p + 1)" "advancing rd line p"
      using advancing_later [OF assms(1)] p(1) by auto
    have e: "inside line pos (read_exists env s line p v)" "inside line pos (read_prm env rd line p v)"
      using read_exists_inside [of line p env s v] read_prm_inside [OF ad(1) le, of env v] p(1)
      by (auto intro: inside_later)
    have "inside line p (eval_expression env rd line p v)" using eval_expression_inside [OF ad(1) p(2)] .
    moreover have "inside line pos (if status \<noteq> Status_OK then Done (status, q, w)
             else if op = NGCUnaryOp_ATAN then read_atan env rd line q w
             else bind_run (execute_unary w op) (\<lambda>(status, v). Done (status, q, v)))"
      if "status = Status_OK \<Longrightarrow> p < q \<and> q \<le> length line" for status q w
    proof (cases "status = Status_OK")
      case True
      then have q: "p < q" "q \<le> length line" using that by blast+
      have "inside line q (read_atan env rd line q w)"
        using q ad(2) advancing_later [of rd line p q] by (intro read_atan_inside) auto
      then have "inside line pos (read_atan env rd line q w)" using q(1) p(1) inside_later by (metis le_trans less_imp_le)
      moreover have "inside line pos (bind_run (execute_unary w op) (\<lambda>(status, v). Done (status, q, v)))"
        using execute_unary_returns [of w op] q p(1) by (cases "execute_unary w op") auto
      ultimately show ?thesis using True by simp
    qed simp
    ultimately show ?thesis
      using True o e by (cases "eval_expression env rd line p v") (auto simp: read_unary_def)
  qed (use o in \<open>auto simp: read_unary_def\<close>)
qed

lemma real_value_inside:
  "pos \<le> length line \<Longrightarrow> length line - pos < n \<Longrightarrow> inside line pos (ngc_read_real_value n env s line pos v)"
proof (induction n arbitrary: pos v)
  case (Suc n)
  show ?case
  proof (cases "char_at line pos = CHR 0x00")
    case False
    let ?rd = "ngc_read_real_value n env s line"
    have less: "pos + 1 \<le> length line" using char_at_inside [OF False] by simp
    then have ad: "advancing ?rd line (pos + 1)"
      unfolding advancing_inside using Suc.IH Suc.prems by simp
    have next_value: "inside line pos (?rd (pos + 1) v)"
      using ad less inside_later unfolding advancing_inside by (metis le_add1 order_refl)
    let ?r = "\<lambda>sgn_next. if char_at line pos = CHR ''['' then eval_expression env ?rd line pos v
              else if char_at line pos = CHR ''#'' then ngc_read_parameter env s ?rd line pos v False
              else if char_at line pos = CHR ''+'' \<and> sgn_next then ?rd (pos + 1) v
              else if char_at line pos = CHR ''-'' \<and> sgn_next
              then bind_run (?rd (pos + 1) v) (\<lambda>(status, pos, v). Done (status, pos, fneg v))
              else if CHR ''A'' \<le> char_at line pos \<and> char_at line pos \<le> CHR ''Z'' then read_unary env s ?rd line pos v
              else case read_float line pos of
                  Some (pos, x) \<Rightarrow> Done (Status_OK, pos, Fin x)
                | None \<Rightarrow> Done (Status_BadNumberFormat, pos, v)"
    have r: "inside line pos (?r b)" for b
    proof -
      have "inside line pos (ngc_read_parameter env s ?rd line pos v False)"
        unfolding inside_def using read_parameter_inside [OF ad Suc.prems(1)] by blast
      moreover have "inside line pos (bind_run (?rd (pos + 1) v) (\<lambda>(status, pos, v). Done (status, pos, fneg v)))"
        using next_value by (cases "?rd (pos + 1) v") auto
      moreover have "inside line pos (case read_float line pos of
                  Some (pos, x) \<Rightarrow> Done (Status_OK, pos, Fin x)
                | None \<Rightarrow> Done (Status_BadNumberFormat, pos, v))"
        using read_float_inside [OF _ Suc.prems(1)] by (auto split: option.splits)
      ultimately show ?thesis
        using next_value eval_expression_inside [OF ad Suc.prems(1)] read_unary_inside [OF ad Suc.prems(1)] by simp
    qed
    let ?sign = "char_at line (pos + 1) \<noteq> CHR 0x00 \<and> \<not> is_digit (char_at line (pos + 1)) \<and> char_at line (pos + 1) \<noteq> CHR ''.''"
    have "ngc_read_real_value (Suc n) env s line pos v = bind_run (?r ?sign)
        (\<lambda>(status, pos, v). Done (case v of Fin x \<Rightarrow> status | _ \<Rightarrow> Status_ExpressionInvalidResult, pos, v))"
      using False by (simp only: ngc_read_real_value.simps(2) Let_def if_False)
    then show ?thesis
      using r [of ?sign] by (cases "?r ?sign") (auto split: fval.splits)
  qed (simp add: Let_def)
qed simp

lemma real_value_advancing: "advancing (real_value env s line) line 0"
  unfolding advancing_inside real_value_def by (intro allI impI real_value_inside) auto

text \<open>
  C33. Reading a value and evaluating an expression end, on every line and at every position in it, and
  a reader that succeeds has moved forward and not beyond the end of the line: the length of the line
  bounds both the nesting of the readers and the passes of the evaluation loop.
\<close>

theorem expression_returns:
  assumes "pos \<le> length line"
  shows "ngc_eval_expression env s line pos v \<noteq> NoFuel \<and> real_value env s line pos v \<noteq> NoFuel \<and>
    (\<forall>p w. ngc_eval_expression env s line pos v = Done (Status_OK, p, w) \<or> real_value env s line pos v = Done (Status_OK, p, w)
      \<longrightarrow> pos < p \<and> p \<le> length line)"
  using eval_expression_inside [OF advancing_later [OF real_value_advancing] assms] real_value_advancing assms
  unfolding ngc_eval_expression_def inside_def advancing_inside by blast

lemma expression_returns_witness:
  "ngc_eval_expression expr_demo_env (ngc_initial 0) ''[1+[2'' 0 NaN \<noteq> NoFuel \<and>
   real_value expr_demo_env (ngc_initial 0) ''[1+[2'' 0 NaN \<noteq> NoFuel"
  using expression_returns [of 0 "''[1+[2''" expr_demo_env "ngc_initial 0" NaN] by blast

section \<open>Its arrays are large enough\<close>

lemma arrays_used:
  assumes "arrays_ok vs ops k" "ops ! 0 \<noteq> NGCBinaryOp_RightBracket"
  shows "k \<le> 5" "k < length vs" "k < length ops"
proof -
  have len: "length vs = MAX_STACK" "length ops = MAX_STACK" "0 < k" "k \<le> MAX_STACK" "growing (stack_of vs ops k)"
    using assms(1) by (simp_all add: arrays_ok_def)
  show "k \<le> 5"
    using growing_length [OF len(5)] len assms(2) last_stack_of [of k vs ops] length_stack_of [of vs ops k] by fastforce
  then show "k < length vs" "k < length ops" using len by (simp_all add: MAX_STACK_def)
qed

text \<open>One operand and operation more, whether the operation is the end or an error.\<close>

lemma arrays_kept:
  assumes "arrays_ok vs ops k" "ops ! 0 \<noteq> NGCBinaryOp_RightBracket"
  shows "precedence (ops ! (k - 1)) < precedence op \<Longrightarrow> arrays_ok (vs[k := v]) (ops[k := op]) (k + 1)"
    and "\<not> precedence (ops ! (k - 1)) < precedence op \<Longrightarrow>
      reduce k (vs[k := v]) (ops[k := op]) = (Status_OK, vs', ops', k') \<Longrightarrow> arrays_ok vs' ops' k'"
proof -
  note u = arrays_used [OF assms]
  have len: "length vs = MAX_STACK" "length ops = MAX_STACK" "0 < k" "growing (stack_of vs ops k)"
    using assms(1) by (simp_all add: arrays_ok_def)
  obtain j where j: "k = Suc j" using len(3) by (cases k) auto
  let ?vs = "vs[k := v]" and ?ops = "ops[k := op]"
  have top: "stack_of vs ops k = (vs ! j, ops ! j) # stack_of vs ops j" using u j by (simp add: stack_of_Suc)
  have nth: "?vs ! k = v" "?ops ! k = op" "?ops ! j = ops ! j" using u j by simp_all
  have same: "stack_of ?vs ?ops k = stack_of vs ops k" by simp
  {
    assume "precedence (ops ! (k - 1)) < precedence op"
    then have "push_op (stack_of vs ops k) v op = Some ((v, op) # stack_of vs ops k)" using top j by simp
    then have "growing ((v, op) # stack_of vs ops k)" using push_op_growing [OF len(4)] by blast
    moreover have "stack_of ?vs ?ops (Suc k) = (v, op) # stack_of vs ops k" using u nth by (subst stack_of_Suc) simp_all
    ultimately show "arrays_ok ?vs ?ops (k + 1)" using len u by (simp add: arrays_ok_def)
  }
  assume "\<not> precedence (ops ! (k - 1)) < precedence op" and r: "reduce k ?vs ?ops = (Status_OK, vs', ops', k')"
  then have "case push_op (stack_of vs ops k) v op of
      Some st \<Rightarrow> \<exists>vs' ops' k'. reduce k ?vs ?ops = (Status_OK, vs', ops', k') \<and> length vs' = length vs
        \<and> length ops' = length ops \<and> 0 < k' \<and> k' \<le> k \<and> stack_of vs' ops' k' = st
    | None \<Rightarrow> fst (reduce k ?vs ?ops) \<noteq> Status_OK"
    using reduce_push [of ?vs ?ops j] len u j nth same by (simp add: not_less del: reduce.simps push_op.simps split: option.splits)
  then obtain st where "push_op (stack_of vs ops k) v op = Some st" "length vs' = length vs" "length ops' = length ops"
      "0 < k'" "k' \<le> k" "stack_of vs' ops' k' = st"
    using r by (auto split: option.splits)
  then show "arrays_ok vs' ops' k'"
    using push_op_growing [OF len(4)] len u by (simp add: arrays_ok_def)
qed

lemma eval_loop_defined:
  assumes "\<And>pos v. rd pos v \<noteq> Undefined"
  shows "arrays_ok vs ops k \<Longrightarrow> eval_loop n rd line pos vs ops k \<noteq> Undefined"
proof (induction n arbitrary: pos vs ops k)
  case (Suc n)
  show ?case
  proof (cases "ops ! 0 = NGCBinaryOp_RightBracket")
    case False
    have k: "\<not> MAX_STACK \<le> k" using arrays_used(1) [OF Suc.prems False] by (simp add: MAX_STACK_def)
    show ?thesis
    proof (cases "rd pos (vs ! k)")
      case (Done r)
      obtain status p v where r: "r = (status, p, v)" using prod_cases3 by blast
      obtain status' p' op where o: "read_operation line p = (status', p', op)" using prod_cases3 by blast
      obtain status'' vs' ops' k' where red: "reduce k (vs[k := v]) (ops[k := op]) = (status'', vs', ops', k')"
        using prod_cases4 by blast
      have nth: "ops[k := op] ! k = op" "ops[k := op] ! (k - 1) = ops ! (k - 1)"
        using arrays_used [OF Suc.prems False] Suc.prems by (auto simp: arrays_ok_def nth_list_update)
      note kept = arrays_kept [OF Suc.prems False, where op = op and v = v]
      have "eval_loop (Suc n) rd line pos vs ops k \<noteq> Undefined" if "status = Status_OK" "status' = Status_OK"
      proof (cases "precedence (ops ! (k - 1)) < precedence op")
        case True
        then show ?thesis
          using False k Done r o that nth Suc.IH [OF kept(1)] unfolding eval_loop.simps(2) by (simp add: Let_def del: eval_loop.simps)
      next
        case same: False
        then have "eval_loop (Suc n) rd line pos vs ops k =
            (if status'' \<noteq> Status_OK then Done (status'', p', vs') else eval_loop n rd line p' vs' ops' k')"
          using False k Done r o that red nth unfolding eval_loop.simps(2) by (simp add: Let_def del: eval_loop.simps)
        then show ?thesis using Suc.IH [of vs' ops' k' p'] kept(2) [OF same] red by simp
      qed
      then show ?thesis using False k Done r o by (auto simp: Let_def)
    qed (use assms False k in auto)
  qed simp
qed simp

text \<open>
  C34. The evaluator never leaves the arrays of its stack: since the precedences of the operations on
  the stack grow, at most five are on it, whatever the text holds and however long it is, so that
  evaluating an expression is undefined only when reading one of its operands is.
\<close>

theorem expression_stack_bound:
  assumes "\<And>pos v. rd pos v \<noteq> Undefined"
  shows "eval_expression env rd line pos v \<noteq> Undefined"
proof (cases "char_at line pos = CHR ''[''")
  case True
  let ?vs = "replicate MAX_STACK (ee_junk env)" and ?ops = "replicate MAX_STACK NGCBinaryOp_NoOp"
  have "arrays_ok (?vs[0 := x]) (?ops[0 := op]) 1" for x op
    unfolding arrays_ok_def One_nat_def
    by (subst stack_of_Suc) (auto simp: MAX_STACK_def stack_of_def growing_def)
  from eval_loop_defined [OF assms this]
  have loop: "eval_loop n rd line p (?vs[0 := x]) (?ops[0 := op]) 1 \<noteq> Undefined" for n p x op .
  show ?thesis
    using assms loop True unfolding eval_expression_def
    by (auto simp: Let_def bind_run_Undefined simp del: eval_loop.simps split: prod.splits if_splits)
qed (simp add: eval_expression_def)

lemma expression_stack_bound_witness:
  "eval_expression expr_demo_env (\<lambda>pos v. case read_float ''[1OR1LT1+1*1**1]'' pos of
     Some (p, x) \<Rightarrow> Done (Status_OK, p, Fin x) | None \<Rightarrow> Done (Status_BadNumberFormat, pos, v)) ''[1OR1LT1+1*1**1]'' 0 NaN \<noteq> Undefined"
  by (rule expression_stack_bound) (simp split: option.splits)

section \<open>Names and numbers of parameters\<close>

text \<open>
  A name between angle brackets is read up to the length the module promises, 30 characters. A name
  of 31 characters is accepted too, and its terminator is written behind the buffer; only a longer one
  is refused.
\<close>

theorem read_name_length:
  assumes "CHR ''>'' \<notin> set name"
  shows "ngc_read_name (pre @ ''<'' @ name @ ''>'' @ rest) (length pre) =
    (if length name \<le> NGC_MAX_PARAM_LENGTH then Done (Status_OK, length pre + length name + 2, name)
     else if length name = NGC_MAX_PARAM_LENGTH + 1 then Undefined
     else Done (Status_FlowControlSyntaxError, length pre + 32, take 31 name))"
proof -
  let ?line = "pre @ ''<'' @ name @ ''>'' @ rest"
  have tw: "takeWhile (\<lambda>c. c \<noteq> CHR ''>'') (drop (length pre + 1) ?line) = name"
    using assms by (simp, subst takeWhile_append2) auto
  have first: "char_at ?line (length pre) = CHR ''<''" by simp
  have "char_at ((pre @ ''<'') @ (name @ ''>'' @ rest)) (length (pre @ ''<'') + n) = char_at (name @ ''>'' @ rest) n" for n
    by (simp add: char_at_def nth_append)
  then have at: "char_at ?line (length pre + 1 + n) = char_at (name @ ''>'' @ rest) n" for n by simp
  show ?thesis
  proof (cases "length name \<le> 31")
    case True
    then have "take 31 name = name" by simp
    then show ?thesis
      using True first tw at [of "length name"] by (auto simp: ngc_read_name_def NGC_MAX_PARAM_LENGTH_def Let_def)
  next
    case False
    then have "name ! 31 \<in> set name" by simp
    then have "name ! 31 \<noteq> CHR ''>''" using assms by metis
    then have "char_at ?line (length pre + 1 + 31) \<noteq> CHR ''>''"
      unfolding at using False by (simp add: char_at_def nth_append)
    then show ?thesis using False first tw by (simp add: ngc_read_name_def NGC_MAX_PARAM_LENGTH_def Let_def)
  qed
qed

lemma read_name_length_witness:
  "ngc_read_name (''<'' @ replicate 31 CHR ''a'' @ ''>'' @ ''='') 0 = Undefined"
  using read_name_length [of "replicate 31 CHR ''a''" "[]" "''=''"] by (simp add: NGC_MAX_PARAM_LENGTH_def)

text \<open>
  The number of a parameter is cut to 16 bits before the parameter is looked up: a reference with a
  number beyond 65535 does not fail, it reads the parameter with that number modulo 65536.
\<close>

theorem parameter_number_wraps:
  assumes "digits ds" "ds \<noteq> []" "dec_value ds < 10 ^ 9"
    and "param_value env (word_of_nat (dec_value ds mod 65536)) s = (True, Fin x)"
  shows "ngc_eval_expression env s (pre @ ''[#'' @ ds @ '']'' @ rest) (length pre) v =
    Done (Status_OK, length pre + length ds + 3, Fin x)"
proof -
  have "(word_of_nat (dec_value ds mod 65536) :: u16) = word_of_int (int (dec_value ds))"
    by (simp add: word_unat_eq_iff unat_of_nat)
  moreover have "number_of (real (dec_value ds)) = Some (int (dec_value ds))"
    using assms(3) by (simp add: number_of_def)
  ultimately have v: "expr_value env s (Param (Num ds False [])) = Some x"
    using assms(4) by (simp add: finite_value_def)
  have t: "''[#'' @ ds @ '']'' = bracketed (Param (Num ds False []))"
    using assms(2) by (simp add: bracketed_def decimal_text_def)
  have "ngc_eval_expression env s (pre @ bracketed (Param (Num ds False [])) @ rest) (length pre) v =
      Done (Status_OK, length pre + length (bracketed (Param (Num ds False []))), Fin x)"
    unfolding ngc_eval_expression_def real_value_def
    by (rule bracketed_read) (use tree_read [OF _ v] assms in \<open>auto simp: bracketed_def\<close>)
  then show ?thesis unfolding t [symmetric] by simp
qed

lemma parameter_number_wraps_witness:
  "ngc_eval_expression expr_demo_env (ngc_initial 0) ''[#65537]'' 0 NaN = Done (Status_OK, 8, Fin 0)"
proof -
  have "param_value expr_demo_env (1 :: u16) (ngc_initial 0) = (True, Fin 0)" by code_simp
  then show ?thesis
    using parameter_number_wraps [of "''65537''" expr_demo_env "ngc_initial 0" 0 "[]" "[]" NaN]
    by (simp add: is_digit_def less_eq_char_def digit_value_def)
qed

end
