(* ===== verification/ExprSubst.thy ===== *)
theory ExprSubst
  imports ExprTotal
begin

text \<open>
  \<open>grbl/ngc_expr.c\<close>: parameter references and formats in the text of comments. The message is built in
  two passes, one that counts its characters and one that writes them into the memory allocated for
  the count; a write beyond it, like a read beyond the end of the line, is \<open>Undefined\<close>.
\<close>

section \<open>The passes\<close>

definition N_DECIMAL_COORDVALUE_INCH :: nat where "N_DECIMAL_COORDVALUE_INCH = 4"
definition N_DECIMAL_COORDVALUE_MM :: nat where "N_DECIMAL_COORDVALUE_MM = 3"

definition ngc_float_decimals :: "bool \<Rightarrow> nat" where
  "ngc_float_decimals report_inches = (if report_inches then N_DECIMAL_COORDVALUE_INCH else N_DECIMAL_COORDVALUE_MM)"

text \<open>
  What both passes keep: how far a format has been read (0 outside of one), the decimals in force, the
  digit of the format being read, and the variable for the values.
\<close>

record format_state =
  parse_format :: nat
  decimals :: nat
  format_digit :: nat
  last_value :: fval

text \<open>The next character of a format. A complete one gives its length after the percent sign.\<close>

definition get_format :: "bool \<Rightarrow> char \<Rightarrow> format_state \<Rightarrow> nat option \<times> format_state" where
  "get_format inches c f =
     (if parse_format f = 1 then
        if c = CHR ''d'' then (Some 2, f\<lparr>decimals := 0, parse_format := 0\<rparr>)
        else if c = CHR ''f'' then (Some 2, f\<lparr>decimals := ngc_float_decimals inches, parse_format := 0\<rparr>)
        else (None, f\<lparr>parse_format := if c = CHR ''.'' then 2 else 0\<rparr>)
      else if parse_format f = 2 then
        if is_digit c then (None, f\<lparr>format_digit := digit_value c, parse_format := 3\<rparr>)
        else (None, f\<lparr>parse_format := 0\<rparr>)
      else if c = CHR ''f'' then (Some 4, f\<lparr>decimals := format_digit f, parse_format := 0\<rparr>)
      else (None, f\<lparr>parse_format := 0\<rparr>))"

definition print_value :: "fval \<Rightarrow> nat \<Rightarrow> string run" where
  "print_value v d =
     (case v of
        Fin x \<Rightarrow> (case ftoa x d of Some t \<Rightarrow> Done (if d = 0 then trim_float t else t) | None \<Rightarrow> Undefined)
      | _ \<Rightarrow> Undefined)"

text \<open>The text of the reference at a position, the position behind it and the value read.\<close>

definition reference_text :: "expr_env \<Rightarrow> ngc_state \<Rightarrow> string \<Rightarrow> nat \<Rightarrow> format_state \<Rightarrow> (string \<times> nat \<times> fval) run" where
  "reference_text env s line pos f =
     bind_run (ngc_read_parameter env s (real_value env s line) line pos (last_value f) True)
       (\<lambda>(status, pos, v).
          if status = Status_OK then bind_run (print_value v (decimals f)) (\<lambda>t. Done (t, pos, v))
          else Done (''N/A'', pos, v))"

fun count_chars ::
  "nat \<Rightarrow> expr_env \<Rightarrow> ngc_state \<Rightarrow> bool \<Rightarrow> string \<Rightarrow> nat \<Rightarrow> format_state \<Rightarrow> nat \<Rightarrow> (nat \<times> format_state) run" where
  "count_chars 0 env s inches line pos f len = NoFuel"
| "count_chars (Suc n) env s inches line pos f len =
     (if length line < pos then Undefined
      else
        let c = char_at line pos
        in if c = CHR 0x00 then Done (len, f)
           else if parse_format f \<noteq> 0 then
             let (complete, f) = get_format inches c f
             in count_chars n env s inches line (pos + 1) f (case complete of Some k \<Rightarrow> len + k | None \<Rightarrow> len)
           else if c = CHR ''%'' then count_chars n env s inches line (pos + 1) (f\<lparr>parse_format := 1\<rparr>) len
           else if c = CHR ''#'' then
             bind_run (reference_text env s line pos f) (\<lambda>(t, pos, v).
               count_chars n env s inches line pos (f\<lparr>last_value := v\<rparr>) (len + length t))
           else count_chars n env s inches line (pos + 1) f (len + 1))"

text \<open>Text written into memory for \<open>room\<close> characters and a terminator.\<close>

definition append_text :: "nat \<Rightarrow> string \<Rightarrow> string \<Rightarrow> string run" where
  "append_text room out t = (if length (out @ t) \<le> room then Done (out @ t) else Undefined)"

text \<open>The characters of the format read last, up to the first terminator of the array.\<close>

definition format_text :: "string \<Rightarrow> string" where
  "format_text fmt = takeWhile (\<lambda>c. c \<noteq> CHR 0x00) fmt"

fun put_chars ::
  "nat \<Rightarrow> expr_env \<Rightarrow> ngc_state \<Rightarrow> bool \<Rightarrow> string \<Rightarrow> nat \<Rightarrow> nat \<Rightarrow> format_state \<Rightarrow> string \<Rightarrow> string \<Rightarrow> string run" where
  "put_chars 0 env s inches line room pos f fmt out = NoFuel"
| "put_chars (Suc n) env s inches line room pos f fmt out =
     (if length line < pos then Undefined
      else
        let c = char_at line pos
        in if c = CHR 0x00 then Done out
           else if parse_format f \<noteq> 0 then
             let fmt = fmt[parse_format f := c]; (complete, f) = get_format inches c f
             in if complete = None \<and> parse_format f = 0
                then bind_run (append_text room out (format_text fmt)) (\<lambda>out.
                       put_chars n env s inches line room (pos + 1) f fmt out)
                else put_chars n env s inches line room (pos + 1) f fmt out
           else if c = CHR ''%''
           then put_chars n env s inches line room (pos + 1) (f\<lparr>parse_format := 1\<rparr>) (fmt[0 := c]) out
           else if c = CHR ''#'' then
             bind_run (reference_text env s line pos f) (\<lambda>(t, pos, v).
               bind_run (append_text room out t) (\<lambda>out.
                 put_chars n env s inches line room pos (f\<lparr>last_value := v\<rparr>) fmt out))
           else bind_run (append_text room out [c]) (\<lambda>out. put_chars n env s inches line room (pos + 1) f fmt out))"

declare count_chars.simps(2) [simp del] put_chars.simps(2) [simp del]

text \<open>
  The message, \<open>None\<close> when there is no memory for it. Each pass of a loop is further on in the line, so
  that its length is enough fuel.
\<close>

definition ngc_substitute_parameters :: "expr_env \<Rightarrow> ngc_state \<Rightarrow> bool \<Rightarrow> bool \<Rightarrow> string \<Rightarrow> string option run" where
  "ngc_substitute_parameters env s inches memory line =
     (let line = dropWhile (\<lambda>c. c = CHR '' '') line;
          f = \<lparr>parse_format = 0, decimals = ngc_float_decimals inches, format_digit = 0, last_value = ee_junk env\<rparr>
      in bind_run (count_chars (length line + 1) env s inches line 0 f 0) (\<lambda>(len, f).
           if memory
           then bind_run (put_chars (length line + 1) env s inches line len 0 f
                  (replicate 5 CHR 0x00) []) (\<lambda>out. Done (Some out))
           else Done None))"

text \<open>A comment: the message for it, and the text left of the comment itself.\<close>

definition ngc_process_comment ::
  "expr_env \<Rightarrow> ngc_state \<Rightarrow> bool \<Rightarrow> bool \<Rightarrow> bool \<Rightarrow> string \<Rightarrow> (string option \<times> string) run" where
  "ngc_process_comment env s inches memory ngc_debug_out comment =
     (if map CAPS (take 6 comment) = ''DEBUG,'' then
        if ngc_debug_out
        then bind_run (ngc_substitute_parameters env s inches memory (drop 6 comment)) (\<lambda>m. Done (m, take 6 comment))
        else Done (None, [])
      else if map CAPS (take 6 comment) = ''PRINT,''
      then bind_run (ngc_substitute_parameters env s inches memory (drop 6 comment)) (\<lambda>m. Done (m, take 6 comment))
      else Done (None, comment))"

section \<open>The counted characters are those written\<close>

text \<open>What the variable for the values holds before a reference does not matter for its text.\<close>

lemma parameter_any_value:
  "ngc_read_parameter env s rd line pos v True = ngc_read_parameter env s rd line pos w True \<or>
   (\<exists>status p. status \<noteq> Status_OK \<and> ngc_read_parameter env s rd line pos v True = Done (status, p, v)
     \<and> ngc_read_parameter env s rd line pos w True = Done (status, p, w))"
proof (cases "char_at line pos = CHR ''#'' \<and> char_at line (pos + 1) = CHR ''<''")
  case True
  show ?thesis
  proof (cases "ngc_read_name line (pos + 1)")
    case (Done r)
    obtain status p name where r: "r = (status, p, name)" using prod_cases3 by blast
    obtain found x where g: "ngc_named_param_get (ee_named_ro env) name s = (found, x)" by fastforce
    then have "found \<Longrightarrow> x \<noteq> None" by (auto simp: ngc_named_param_get_def Let_def split: if_splits option.splits)
    then show ?thesis
      using True Done r g by (cases x) (auto simp: ngc_read_parameter_def Let_def)
  qed (use True in \<open>auto simp: ngc_read_parameter_def\<close>)
next
  case False
  show ?thesis
  proof (cases "char_at line pos = CHR ''#''")
    case True
    then show ?thesis using False
      by (cases "ngc_read_integer_value env rd (pos + 1)") (auto simp: ngc_read_parameter_def Let_def split: prod.splits)
  qed (auto simp: ngc_read_parameter_def)
qed

lemma reference_any_value:
  assumes "decimals f = decimals g" "reference_text env s line pos f = Done (t, p, v)"
  shows "\<exists>w. reference_text env s line pos g = Done (t, p, w)"
proof -
  let ?read = "\<lambda>v. ngc_read_parameter env s (real_value env s line) line pos v True"
  consider (same) "?read (last_value f) = ?read (last_value g)"
    | (failing) status q where "status \<noteq> Status_OK" "?read (last_value f) = Done (status, q, last_value f)"
        "?read (last_value g) = Done (status, q, last_value g)"
    using parameter_any_value by blast
  then show ?thesis
  proof cases
    case same
    then have "reference_text env s line pos f = reference_text env s line pos g"
      unfolding reference_text_def assms(1) by simp
    then have "reference_text env s line pos g = Done (t, p, v)" using assms(2) by simp
    then show ?thesis by blast
  qed (use assms(2) in \<open>simp add: reference_text_def\<close>)
qed

lemma no_percent: "CHR ''%'' \<notin> set line \<Longrightarrow> char_at line pos \<noteq> CHR ''%''"
  by (auto simp: char_at_def dest: nth_mem split: if_splits)

lemma count_then_put:
  assumes "CHR ''%'' \<notin> set line"
  shows "count_chars n env s inches line pos f (length out) = Done (len, f') \<Longrightarrow> parse_format f = 0 \<Longrightarrow> parse_format g = 0
    \<Longrightarrow> decimals g = decimals f \<Longrightarrow> len \<le> room
    \<Longrightarrow> length out \<le> len \<and> parse_format f' = 0 \<and> decimals f' = decimals f
      \<and> (\<exists>out'. put_chars n env s inches line room pos g fmt out = Done out' \<and> length out' = len)"
proof (induction n arbitrary: pos f g out)
  case (Suc n)
  show ?case
  proof (cases "length line < pos \<or> char_at line pos = CHR 0x00")
    case True
    then show ?thesis using Suc.prems by (auto simp: count_chars.simps(2) put_chars.simps(2) Let_def split: if_splits)
  next
    case False
    note pct = no_percent [OF assms, of pos]
    show ?thesis
    proof (cases "char_at line pos = CHR ''#''")
      case True
      then obtain t p v where t: "reference_text env s line pos f = Done (t, p, v)"
          and c: "count_chars n env s inches line p (f\<lparr>last_value := v\<rparr>) (length (out @ t)) = Done (len, f')"
        using Suc.prems(1,2) False by (auto simp: count_chars.simps(2) Let_def bind_run_Done split: prod.splits)
      obtain w where w: "reference_text env s line pos g = Done (t, p, w)"
        using reference_any_value [OF _ t, of g] Suc.prems(4) by auto
      have "length (out @ t) \<le> len \<and> parse_format f' = 0 \<and> decimals f' = decimals f \<and>
          (\<exists>out'. put_chars n env s inches line room p (g\<lparr>last_value := w\<rparr>) fmt (out @ t) = Done out' \<and> length out' = len)"
        using Suc.IH [OF c, of "g\<lparr>last_value := w\<rparr>"] Suc.prems(2-5) by simp
      then show ?thesis
        using True False Suc.prems(3,5) w by (auto simp: put_chars.simps(2) Let_def append_text_def)
    next
      case plain: False
      then have "count_chars n env s inches line (pos + 1) f (length (out @ [char_at line pos])) = Done (len, f')"
        using Suc.prems(1,2) False pct by (simp add: count_chars.simps(2) Let_def)
      from Suc.IH [OF this, of g] have "length (out @ [char_at line pos]) \<le> len \<and> parse_format f' = 0 \<and> decimals f' = decimals f \<and>
          (\<exists>out'. put_chars n env s inches line room (pos + 1) g fmt (out @ [char_at line pos]) = Done out' \<and> length out' = len)"
        using Suc.prems(2-5) by simp
      then show ?thesis
        using plain False pct Suc.prems(3,5) by (auto simp: put_chars.simps(2) Let_def append_text_def)
    qed
  qed
qed simp

lemma trimmed_set: "set (dropWhile P xs) \<subseteq> set xs"
  by (auto dest: set_dropWhileD)

text \<open>
  C35. In a comment without a percent sign, the second pass of the substitution writes exactly as many
  characters as the first one has counted, whatever parameters the text refers to, whether they exist
  or not and whatever their values are: when the count succeeds, the message is built and has that
  length.
\<close>

theorem substitution_fits:
  assumes "CHR ''%'' \<notin> set line"
    and "count_chars (length (dropWhile (\<lambda>c. c = CHR '' '') line) + 1) env s inches (dropWhile (\<lambda>c. c = CHR '' '') line) 0
      \<lparr>parse_format = 0, decimals = ngc_float_decimals inches, format_digit = 0, last_value = ee_junk env\<rparr> 0 = Done (len, f)"
  shows "\<exists>out. ngc_substitute_parameters env s inches True line = Done (Some out) \<and> length out = len"
proof -
  let ?line = "dropWhile (\<lambda>c. c = CHR '' '') line"
  let ?f = "\<lparr>parse_format = 0, decimals = ngc_float_decimals inches, format_digit = 0, last_value = ee_junk env\<rparr>"
  have np: "CHR ''%'' \<notin> set ?line" using trimmed_set assms(1) by fast
  have c: "count_chars (length ?line + 1) env s inches ?line 0 ?f (length []) = Done (len, f)" using assms(2) by simp
  have k: "parse_format f = 0" "decimals f = decimals ?f"
    using count_then_put [OF np c, where g = ?f and room = len] by auto
  obtain out where "put_chars (length ?line + 1) env s inches ?line len 0 f (replicate 5 CHR 0x00) [] = Done out" "length out = len"
    using count_then_put [OF np c, where g = f and room = len and fmt = "replicate 5 CHR 0x00"] k by auto
  then show ?thesis using assms(2) by (simp add: ngc_substitute_parameters_def Let_def)
qed

lemma substitution_fits_witness:
  "\<exists>out. ngc_substitute_parameters expr_demo_env (ngc_initial 0) False True ''  x=#<x>'' = Done (Some out) \<and> length out = 5"
proof (rule substitution_fits)
  let ?f = "\<lparr>parse_format = 0, decimals = ngc_float_decimals False, format_digit = 0, last_value = ee_junk expr_demo_env\<rparr>"
  have "ngc_named_param_get (\<lambda>_. 0) ''x'' (ngc_initial 0) = (False, Some 0)" by code_simp
  moreover have "ngc_read_name ''x=#<x>'' 3 = Done (Status_OK, 6, ''x'')" by code_simp
  ultimately have "reference_text expr_demo_env (ngc_initial 0) ''x=#<x>'' 2 ?f = Done (''N/A'', 6, Fin 0)"
    by (simp add: reference_text_def ngc_read_parameter_def char_at_def expr_demo_env_def Let_def eval_nat_numeral)
  then show "count_chars (length (dropWhile (\<lambda>c. c = CHR '' '') ''  x=#<x>'') + 1) expr_demo_env (ngc_initial 0) False
      (dropWhile (\<lambda>c. c = CHR '' '') ''  x=#<x>'') 0 ?f 0 = Done (5, ?f\<lparr>last_value := Fin 0\<rparr>)"
    by (simp add: count_chars.simps(2) char_at_def eval_nat_numeral)
qed simp

section \<open>Percent signs\<close>

definition plain_text :: "string \<Rightarrow> bool" where
  "plain_text t \<longleftrightarrow> CHR ''%'' \<notin> set t \<and> CHR ''#'' \<notin> set t \<and> CHR 0x00 \<notin> set t"

lemma char_at_middle: "char_at (pre @ t) (length pre + n) = char_at t n"
  by (simp add: char_at_def nth_append)

lemma count_plain:
  "plain_text t \<Longrightarrow> parse_format f = 0 \<Longrightarrow>
    count_chars (length t + n) env s inches (pre @ t @ rest) (length pre) f len =
    count_chars n env s inches (pre @ t @ rest) (length pre + length t) f (len + length t)"
proof (induction t arbitrary: pre len)
  case (Cons c t)
  have ne: "c \<noteq> CHR ''%''" "c \<noteq> CHR ''#''" "c \<noteq> CHR 0x00" using Cons.prems(1) by (auto simp: plain_text_def)
  have "count_chars (Suc (length t + n)) env s inches (pre @ (c # t) @ rest) (length pre) f len =
      count_chars (length t + n) env s inches ((pre @ [c]) @ t @ rest) (length (pre @ [c])) f (len + 1)"
    using Cons.prems ne char_at_middle [of pre "c # t @ rest" 0] by (simp add: count_chars.simps(2))
  then show ?case using Cons.IH [of "pre @ [c]" "len + 1"] Cons.prems by (simp add: plain_text_def)
qed simp

lemma put_plain:
  "plain_text t \<Longrightarrow> parse_format f = 0 \<Longrightarrow> length out \<le> room \<Longrightarrow>
    put_chars (length t + n) env s inches (pre @ t @ rest) room (length pre) f fmt out =
    (if length (out @ t) \<le> room
     then put_chars n env s inches (pre @ t @ rest) room (length pre + length t) f fmt (out @ t) else Undefined)"
proof (induction t arbitrary: pre out)
  case (Cons c t)
  have ne: "c \<noteq> CHR ''%''" "c \<noteq> CHR ''#''" "c \<noteq> CHR 0x00" using Cons.prems(1) by (auto simp: plain_text_def)
  have "put_chars (Suc (length t + n)) env s inches (pre @ (c # t) @ rest) room (length pre) f fmt out =
      bind_run (append_text room out [c]) (\<lambda>out.
        put_chars (length t + n) env s inches ((pre @ [c]) @ t @ rest) room (length (pre @ [c])) f fmt out)"
    using Cons.prems ne char_at_middle [of pre "c # t @ rest" 0] by (simp add: put_chars.simps(2))
  then show ?case
    using Cons.IH [of "out @ [c]" "pre @ [c]"] Cons.prems by (simp add: plain_text_def append_text_def)
qed simp

lemma substitution_of_trimmed:
  assumes "line = [] \<or> hd line \<noteq> CHR '' ''"
    and "count_chars (length line + 1) env s inches line 0
      \<lparr>parse_format = 0, decimals = ngc_float_decimals inches, format_digit = 0, last_value = ee_junk env\<rparr> 0 = Done (len, f)"
  shows "ngc_substitute_parameters env s inches True line =
    bind_run (put_chars (length line + 1) env s inches line len 0 f (replicate 5 CHR 0x00) []) (\<lambda>out. Done (Some out))"
proof -
  have "dropWhile (\<lambda>c. c = CHR '' '') line = line" using assms(1) by (cases line) auto
  then show ?thesis using assms(2) by (simp add: ngc_substitute_parameters_def)
qed

text \<open>
  C36. A percent sign in a message that no format follows writes behind the memory of the message: the
  first pass counts neither the sign nor the character after it, and the second one writes both, so
  that a comment such as \<open>PRINT, 50% of it\<close> corrupts the heap.
\<close>

theorem percent_overruns:
  assumes "plain_text pre" "plain_text post" "pre = [] \<or> hd pre \<noteq> CHR '' ''"
    and "c \<notin> {CHR ''d'', CHR ''f'', CHR ''.'', CHR 0x00}"
  shows "ngc_substitute_parameters env s inches True (pre @ ''%'' @ [c] @ post) = Undefined"
proof -
  let ?f = "\<lparr>parse_format = 0, decimals = ngc_float_decimals inches, format_digit = 0, last_value = ee_junk env\<rparr>"
  let ?line = "pre @ ''%'' @ [c] @ post" and ?room = "length pre + length post"
  have at: "char_at ?line (length pre) = CHR ''%''" "char_at ?line (Suc (length pre)) = c"
    using char_at_middle [of pre "''%'' @ [c] @ post" 0] char_at_middle [of pre "''%'' @ [c] @ post" 1] by simp_all
  have end_at: "char_at ?line (length ?line) = CHR 0x00" by (simp add: char_at_def)
  have step: "count_chars (Suc (Suc n)) env s inches ?line (length pre) ?f len =
      count_chars n env s inches ?line (length pre + 2) ?f len" for n len
    using assms(4) at by (simp add: count_chars.simps(2) get_format_def)
  have l2: "(pre @ ''%'' @ [c]) @ post @ [] = ?line" "length (pre @ ''%'' @ [c]) = length pre + 2" by simp_all
  have "count_chars (length ?line + 1) env s inches ?line 0 ?f 0 =
      count_chars (length pre + Suc (Suc (length post + 1))) env s inches ?line 0 ?f 0" by simp
  also have "\<dots> = count_chars (Suc (Suc (length post + 1))) env s inches ?line (length pre) ?f (length pre)"
    using count_plain [OF assms(1), of ?f "Suc (Suc (length post + 1))" env s inches "[]" "''%'' @ [c] @ post" 0] by simp
  also have "\<dots> = count_chars (length post + 1) env s inches ?line (length pre + 2) ?f (length pre)" by (rule step)
  also have "\<dots> = count_chars 1 env s inches ?line (length ?line) ?f ?room"
    using count_plain [OF assms(2), of ?f 1 env s inches "pre @ ''%'' @ [c]" "[]" "length pre"] unfolding l2 by simp
  also have "\<dots> = Done (?room, ?f)" using end_at by (simp add: count_chars.simps(2))
  finally have count: "count_chars (length ?line + 1) env s inches ?line 0 ?f 0 = Done (?room, ?f)" .
  let ?fmt = "replicate 5 CHR 0x00" and ?fmt1 = "[CHR ''%'', c, CHR 0x00, CHR 0x00, CHR 0x00]"
  have put_step: "put_chars (Suc (Suc n)) env s inches ?line ?room (length pre) ?f ?fmt pre =
      bind_run (append_text ?room pre [CHR ''%'', c]) (\<lambda>out.
        put_chars n env s inches ?line ?room (length pre + 2) ?f ?fmt1 out)" for n
    using assms(4) at by (simp add: put_chars.simps(2) get_format_def format_text_def Let_def eval_nat_numeral)
  have "put_chars (length ?line + 1) env s inches ?line ?room 0 ?f ?fmt [] =
      put_chars (length pre + Suc (Suc (length post + 1))) env s inches ?line ?room 0 ?f ?fmt []" by simp
  also have "\<dots> = put_chars (Suc (Suc (length post + 1))) env s inches ?line ?room (length pre) ?f ?fmt pre"
    using put_plain [OF assms(1), of ?f "[]" ?room "Suc (Suc (length post + 1))" env s inches "[]" "''%'' @ [c] @ post" ?fmt] by simp
  also have "\<dots> = bind_run (append_text ?room pre [CHR ''%'', c]) (\<lambda>out.
      put_chars (length post + 1) env s inches ?line ?room (length pre + 2) ?f ?fmt1 out)"
    by (rule put_step)
  also have "\<dots> = Undefined"
    using put_plain [OF assms(2), of ?f "pre @ [CHR ''%'', c]" ?room 1 env s inches "pre @ ''%'' @ [c]" "[]" ?fmt1]
    unfolding l2 by (simp add: append_text_def)
  finally show ?thesis
    using substitution_of_trimmed [OF _ count] assms(3) by (cases pre) auto
qed

lemma percent_overruns_witness:
  "ngc_substitute_parameters expr_demo_env (ngc_initial 0) False True ''50% of it'' = Undefined"
  using percent_overruns [of "''50''" "''of it''" "CHR '' ''" expr_demo_env "ngc_initial 0" False] by (simp add: plain_text_def)

text \<open>
  A percent sign at the end of a message leaves the first pass within a format, which the second one
  takes up at the start of the line: the first character of the message is lost with the sign.
\<close>

lemma last_percent_eats_first:
  assumes "plain_text (c # t)" "c \<notin> {CHR '' '', CHR ''d'', CHR ''f'', CHR ''.''}"
  shows "ngc_substitute_parameters env s inches True (c # t @ ''%'') = Done (Some t)"
proof -
  let ?f = "\<lparr>parse_format = 0, decimals = ngc_float_decimals inches, format_digit = 0, last_value = ee_junk env\<rparr>"
  let ?line = "c # t @ ''%''" and ?f1 = "?f\<lparr>parse_format := 1\<rparr>"
  have t: "plain_text t" and c: "c \<noteq> CHR 0x00" using assms(1) by (auto simp: plain_text_def)
  have at: "char_at ?line (Suc (length t)) = CHR ''%''" "char_at ?line (Suc (Suc (length t))) = CHR 0x00" "char_at ?line 0 = c"
    by (simp_all add: char_at_def nth_append)
  have count_end: "count_chars (Suc (Suc n)) env s inches ?line (Suc (length t)) ?f len = Done (len, ?f1)" for n len
    using at by (simp add: count_chars.simps(2))
  have "count_chars (length ?line + 1) env s inches ?line 0 ?f 0 =
      count_chars (length (c # t) + Suc (Suc 0)) env s inches ?line 0 ?f 0" by simp
  also have "\<dots> = count_chars (Suc (Suc 0)) env s inches ?line (Suc (length t)) ?f (Suc (length t))"
    using count_plain [OF assms(1), of ?f "Suc (Suc 0)" env s inches "[]" "''%''" 0] by simp
  finally have count: "count_chars (length ?line + 1) env s inches ?line 0 ?f 0 = Done (Suc (length t), ?f1)"
    by (simp only: count_end)
  have first: "put_chars (Suc n) env s inches ?line (Suc (length t)) 0 ?f1 (replicate 5 CHR 0x00) [] =
      put_chars n env s inches ?line (Suc (length t)) 1 ?f ((replicate 5 CHR 0x00)[1 := c]) []" for n
    using assms(2) at(3) c by (simp add: put_chars.simps(2) get_format_def format_text_def append_text_def Let_def eval_nat_numeral)
  have put_end: "put_chars (Suc (Suc n)) env s inches ?line room (Suc (length t)) ?f fmt out = Done out" for n room fmt out
    using at by (simp add: put_chars.simps(2))
  have "put_chars (length ?line + 1) env s inches ?line (Suc (length t)) 0 ?f1 (replicate 5 CHR 0x00) [] =
      put_chars (length t + Suc (Suc 0)) env s inches ?line (Suc (length t)) 1 ?f ((replicate 5 CHR 0x00)[1 := c]) []"
    using first [of "length t + Suc (Suc 0)"] by simp
  also have "\<dots> = put_chars (Suc (Suc 0)) env s inches ?line (Suc (length t)) (Suc (length t)) ?f ((replicate 5 CHR 0x00)[1 := c]) t"
    using put_plain [OF t, of ?f "[]" "Suc (length t)" "Suc (Suc 0)" env s inches "[c]" "''%''" "(replicate 5 CHR 0x00)[1 := c]"]
    by simp
  finally show ?thesis
    using substitution_of_trimmed [OF _ count] assms(2) by (simp only: put_end) simp
qed

section \<open>It returns\<close>

text \<open>A failing reader may stop beyond the end of the line, but it never goes back.\<close>

definition onward :: "nat \<Rightarrow> (u8 \<times> nat \<times> 'a) run \<Rightarrow> bool" where
  "onward pos r \<longleftrightarrow> (\<forall>status p w. r = Done (status, p, w) \<longrightarrow> pos \<le> p)"

lemma onward_simps [simp]:
  "onward pos Undefined" "onward pos NoFuel" "onward pos (Done (status, p, w)) \<longleftrightarrow> pos \<le> p"
  by (auto simp: onward_def)

lemma onward_bind:
  assumes "onward pos r" "\<And>status p w. pos \<le> p \<Longrightarrow> onward pos (f (status, p, w))"
  shows "onward pos (bind_run r f)"
  using assms by (cases r) auto

lemma onward_later: "onward q r \<Longrightarrow> pos \<le> q \<Longrightarrow> onward pos r"
  by (cases r) auto

lemma read_operation_onward: "read_operation line pos = (status, p, op) \<Longrightarrow> pos \<le> p"
  by (auto simp: read_operation_def split: option.splits)

lemma read_operation_unary_onward: "read_operation_unary line pos = (status, p, op) \<Longrightarrow> pos \<le> p"
  by (auto simp: read_operation_unary_def split: option.splits)

lemma read_name_onward: "onward pos (ngc_read_name line pos)"
  by (simp add: ngc_read_name_def Let_def)

abbreviation onward_reader :: "reader \<Rightarrow> bool" where
  "onward_reader rd \<equiv> \<forall>pos v. onward pos (rd pos v)"

lemma read_integer_onward: "onward_reader rd \<Longrightarrow> onward pos (ngc_read_integer_value env rd pos)"
  unfolding ngc_read_integer_value_def by (rule onward_bind) (auto simp: Let_def split: fval.splits)

lemma read_parameter_onward:
  assumes "onward_reader rd"
  shows "onward pos (ngc_read_parameter env s rd line pos v check)"
    and "char_at line pos = CHR ''#'' \<Longrightarrow> onward (pos + 1) (ngc_read_parameter env s rd line pos v check)"
proof -
  have name: "onward (pos + 1) (bind_run (ngc_read_name line (pos + 1)) (\<lambda>(status, pos, name).
      if status \<noteq> Status_OK then Done (status, pos, v)
      else let (found, value) = ngc_named_param_get (ee_named_ro env) name s;
               v = (case value of Some x \<Rightarrow> Fin x | None \<Rightarrow> v)
           in Done (if found then Status_OK else Status_BadNumberFormat, pos, v)))"
    by (rule onward_bind [OF read_name_onward]) (auto simp: Let_def split: prod.splits)
  have number: "onward (pos + 1) (bind_run (ngc_read_integer_value env rd (pos + 1)) (\<lambda>(status, pos, param).
      if status \<noteq> Status_OK then Done (status, pos, v)
      else if param < 0 \<or> check \<and> \<not> ngc_param_exists (word_of_int param) then Done (Status_GcodeValueOutOfRange, pos, v)
      else let (found, value) = param_value env (word_of_int param) s
           in Done (if found then Status_OK else Status_GcodeValueOutOfRange, pos, value)))"
    by (rule onward_bind [OF read_integer_onward [OF assms]]) (auto split: prod.splits)
  show one: "onward (pos + 1) (ngc_read_parameter env s rd line pos v check)" if "char_at line pos = CHR ''#''"
    unfolding ngc_read_parameter_def using name number that by simp
  show "onward pos (ngc_read_parameter env s rd line pos v check)"
  proof (cases "char_at line pos = CHR ''#''")
    case True
    then show ?thesis using one onward_later by (metis le_add1)
  qed (simp add: ngc_read_parameter_def)
qed

lemma eval_loop_onward: "onward_reader rd \<Longrightarrow> onward pos (eval_loop n rd line pos vs ops k)"
proof (induction n arbitrary: pos vs ops k)
  case (Suc n)
  have "onward pos (bind_run (rd pos (vs ! k)) (\<lambda>(status, pos, v).
          if status \<noteq> Status_OK then Done (status, pos, vs)
          else
            let vs = vs[k := v]; (status, pos, op) = read_operation line pos
            in if status \<noteq> Status_OK then Done (status, pos, vs)
               else
                 let ops = ops[k := op]
                 in if precedence (ops ! k) > precedence (ops ! (k - 1)) then eval_loop n rd line pos vs ops (k + 1)
                    else
                      let (status, vs, ops, k) = reduce k vs ops
                      in if status \<noteq> Status_OK then Done (status, pos, vs) else eval_loop n rd line pos vs ops k))"
  proof (rule onward_bind)
    fix status p v assume p: "pos \<le> p"
    obtain status' p' op where o: "read_operation line p = (status', p', op)" using prod_cases3 by blast
    then have "onward pos (eval_loop n rd line p' ws os j)" for ws os j
      using Suc.IH [OF Suc.prems, of p'] onward_later p read_operation_onward [OF o] by (metis le_trans)
    then show "onward pos (case (status, p, v) of (status, pos, v) \<Rightarrow>
          if status \<noteq> Status_OK then Done (status, pos, vs)
          else
            let vs = vs[k := v]; (status, pos, op) = read_operation line pos
            in if status \<noteq> Status_OK then Done (status, pos, vs)
               else
                 let ops = ops[k := op]
                 in if precedence (ops ! k) > precedence (ops ! (k - 1)) then eval_loop n rd line pos vs ops (k + 1)
                    else
                      let (status, vs, ops, k) = reduce k vs ops
                      in if status \<noteq> Status_OK then Done (status, pos, vs) else eval_loop n rd line pos vs ops k)"
      using p read_operation_onward [OF o] o by (auto simp: Let_def simp del: eval_loop.simps reduce.simps split: prod.splits)
  qed (use Suc.prems in simp)
  then show ?case by simp
qed simp

lemma eval_expression_onward:
  assumes "onward_reader rd"
  shows "onward pos (eval_expression env rd line pos v)"
proof -
  have loop: "onward pos (eval_loop n rd line p vs ops k)" if "pos \<le> q" "q \<le> p" for n p q vs ops k
    using onward_later [OF eval_loop_onward [OF assms]] that le_trans by metis
  have "onward pos (rd (pos + 1) x)" for x using assms onward_later by (metis le_add1)
  then show ?thesis
    unfolding eval_expression_def Let_def
    by (auto simp del: eval_loop.simps intro!: onward_bind loop split: prod.splits dest!: read_operation_onward)
qed

lemma read_atan_onward: "onward_reader rd \<Longrightarrow> onward pos (read_atan env rd line pos v)"
  unfolding read_atan_def
  by (auto intro!: onward_bind onward_later [OF eval_expression_onward])

lemma read_exists_onward: "onward pos (read_exists env s line pos v)"
  by (simp add: read_exists_def Let_def)

lemma read_prm_onward:
  assumes "onward_reader rd"
  shows "onward pos (read_prm env rd line pos v)"
proof -
  have i: "onward pos (ngc_read_integer_value env rd (p + 1))" if "pos \<le> p" for p
    by (rule onward_later [OF read_integer_onward [OF assms]]) (use that in simp)
  show ?thesis
    unfolding read_prm_def Let_def
    by (rule onward_bind [OF i [OF order_refl]]) (auto intro!: onward_bind i [unfolded Suc_eq_plus1 [symmetric]] split: option.splits)
qed

lemma read_unary_onward:
  assumes "onward_reader rd"
  shows "onward pos (read_unary env s rd line pos v)"
proof -
  obtain status p op where o: "read_operation_unary line pos = (status, p, op)" using prod_cases3 by blast
  have p: "pos \<le> p" using read_operation_unary_onward [OF o] .
  have "onward pos (bind_run (eval_expression env rd line p v) (\<lambda>(status, pos, v).
             if status \<noteq> Status_OK then Done (status, pos, v)
             else if op = NGCUnaryOp_ATAN then read_atan env rd line pos v
             else bind_run (execute_unary v op) (\<lambda>(status, v). Done (status, pos, v))))"
  proof (rule onward_bind)
    show "onward pos (eval_expression env rd line p v)" using onward_later [OF eval_expression_onward [OF assms] p] .
    fix status q w assume q: "pos \<le> q"
    then have "onward pos (read_atan env rd line q w)" using onward_later [OF read_atan_onward [OF assms]] by blast
    moreover have "onward pos (bind_run (execute_unary w op) (\<lambda>(status, v). Done (status, q, v)))"
      using q by (cases "execute_unary w op") auto
    ultimately show "onward pos (case (status, q, w) of (status, pos, v) \<Rightarrow>
             if status \<noteq> Status_OK then Done (status, pos, v)
             else if op = NGCUnaryOp_ATAN then read_atan env rd line pos v
             else bind_run (execute_unary v op) (\<lambda>(status, v). Done (status, pos, v)))"
      using q by simp
  qed
  then show ?thesis
    using o p onward_later [OF read_exists_onward p] onward_later [OF read_prm_onward [OF assms] p]
    by (simp add: read_unary_def Let_def)
qed

lemma real_value_onward: "onward pos (ngc_read_real_value n env s line pos v)"
proof (induction n arbitrary: pos v)
  case (Suc n)
  let ?rd = "ngc_read_real_value n env s line"
  have rd: "onward_reader ?rd" using Suc.IH by blast
  have next_value: "onward pos (?rd (pos + 1) v)" using onward_later [OF Suc.IH] by (metis le_add1)
  have neg: "onward pos (bind_run (?rd (pos + 1) v) (\<lambda>(status, pos, v). Done (status, pos, fneg v)))"
    by (rule onward_bind [OF next_value]) simp
  have float: "onward pos (case read_float line pos of
      Some (pos, x) \<Rightarrow> Done (Status_OK, pos, Fin x) | None \<Rightarrow> Done (Status_BadNumberFormat, pos, v))"
    if "char_at line pos \<noteq> CHR 0x00"
    using read_float_inside [OF _ less_imp_le [OF char_at_inside [OF that]]] by (auto split: option.splits intro: less_imp_le)
  show ?case
    unfolding ngc_read_real_value.simps(2) Let_def
    using next_value neg float read_unary_onward [OF rd] eval_expression_onward [OF rd] read_parameter_onward(1) [OF rd]
    by (cases "char_at line pos = CHR 0x00") (auto intro!: onward_bind simp del: ngc_read_real_value.simps split: fval.splits)
qed simp

lemma reference_returns:
  assumes "char_at line pos = CHR ''#''"
  shows "reference_text env s line pos f \<noteq> NoFuel"
    and "reference_text env s line pos f = Done (t, p, v) \<Longrightarrow> pos < p"
proof -
  have rd: "onward_reader (real_value env s line)" unfolding real_value_def using real_value_onward by blast
  have "pos \<le> length line" using char_at_inside [of line pos] assms by simp
  then have "ngc_read_parameter env s (real_value env s line) line pos v True \<noteq> NoFuel" for v
    using read_parameter_inside(1) [OF advancing_later [OF real_value_advancing]] by blast
  moreover have "print_value x d \<noteq> NoFuel" for x d by (simp add: print_value_def split: fval.splits option.splits)
  ultimately show "reference_text env s line pos f \<noteq> NoFuel"
    by (auto simp: reference_text_def bind_run_NoFuel split: prod.splits if_splits)
  have "onward (pos + 1) (reference_text' :: (u8 \<times> nat \<times> fval) run)"
    if "reference_text' = ngc_read_parameter env s (real_value env s line) line pos (last_value f) True" for reference_text'
    using read_parameter_onward(2) [OF rd assms] that by simp
  then have "pos < q" if "ngc_read_parameter env s (real_value env s line) line pos (last_value f) True = Done (status, q, w)" for status q w
    using that by fastforce
  then show "reference_text env s line pos f = Done (t, p, v) \<Longrightarrow> pos < p"
    by (auto simp: reference_text_def bind_run_Done split: prod.splits if_splits)
qed

lemma count_returns: "0 < n \<Longrightarrow> length line < n + pos \<Longrightarrow> count_chars n env s inches line pos f len \<noteq> NoFuel"
proof (induction n arbitrary: pos f len)
  case (Suc n)
  have next_pass: "count_chars n env s inches line p g l \<noteq> NoFuel" if "pos < p" "pos < length line" for p g l
    using Suc.IH [of p g l] that Suc.prems by (cases n) auto
  show ?case
  proof (cases "length line < pos \<or> char_at line pos = CHR 0x00")
    case False
    then have "pos < length line" using char_at_inside by blast
    note n = next_pass [OF _ this]
    show ?thesis
    proof (cases "char_at line pos = CHR ''#'' \<and> parse_format f = 0")
      case True
      then show ?thesis
        using False n reference_returns [of line pos env s f]
        by (auto simp: count_chars.simps(2) Let_def bind_run_NoFuel split: prod.splits)
    qed (use False n in \<open>auto simp: count_chars.simps(2) Let_def split: prod.splits\<close>)
  qed (auto simp: count_chars.simps(2) Let_def)
qed simp

lemma put_returns: "0 < n \<Longrightarrow> length line < n + pos \<Longrightarrow> put_chars n env s inches line room pos f fmt out \<noteq> NoFuel"
proof (induction n arbitrary: pos f fmt out)
  case (Suc n)
  have append: "append_text room u t \<noteq> NoFuel" for u t by (simp add: append_text_def)
  have next_pass: "put_chars n env s inches line room p g m u \<noteq> NoFuel" if "pos < p" "pos < length line" for p g m u
    using Suc.IH [of p g m u] that Suc.prems by (cases n) auto
  show ?case
  proof (cases "length line < pos \<or> char_at line pos = CHR 0x00")
    case False
    then have "pos < length line" using char_at_inside by blast
    note n = next_pass [OF _ this]
    show ?thesis
    proof (cases "char_at line pos = CHR ''#'' \<and> parse_format f = 0")
      case True
      then show ?thesis
        using False n append reference_returns [of line pos env s f]
        by (auto simp: put_chars.simps(2) Let_def bind_run_NoFuel split: prod.splits)
    qed (use False n append in \<open>auto simp: put_chars.simps(2) Let_def bind_run_NoFuel split: prod.splits\<close>)
  qed (auto simp: put_chars.simps(2) Let_def)
qed simp

text \<open>
  The substitution ends on every line: each pass of its two loops is at least one character further
  on, also when a reference in the line cannot be read.
\<close>

theorem substitution_returns: "ngc_substitute_parameters env s inches memory line \<noteq> NoFuel"
  using count_returns put_returns
  by (auto simp: ngc_substitute_parameters_def Let_def bind_run_NoFuel split: prod.splits if_splits)

end
