(* ===== verification/Stepper.thy ===== *)
theory Stepper
  imports Planner Codes
begin

text \<open>
  \<open>grbl/stepper.c\<close>: the data of the step generator, the step interrupt and the functions that start
  and stop it. The buffers of blocks and segments are lists with the pointers as indices; the planner
  is part of the state, with the stepper's block pointer, its speed and its flag for a changed plan
  (\<open>pl_block\<close>, \<open>prep.current_speed\<close>, \<open>prep.recalculate.velocity_profile\<close>). The counters of the
  interrupt are words of 32 bits. A call of the hardware layer is an event of the trace. Following a
  null pointer is \<open>Undefined\<close>. The build has step smoothing, no spindle synchronisation, no backlash
  compensation and no jerk.
\<close>

section \<open>Data\<close>

definition SEGMENT_BUFFER_SIZE :: nat where "SEGMENT_BUFFER_SIZE = 10"
definition MAX_AMASS_LEVEL :: nat where "MAX_AMASS_LEVEL = 3"
definition Z_AXIS :: nat where "Z_AXIS = 2"

datatype ramp_type = Ramp_Accel | Ramp_Cruise | Ramp_Decel | Ramp_DecelOverride

record output_command =
  oc_is_digital :: bool
  oc_port :: u8
  oc_value :: int

text \<open>The data of a planner block that the interrupt needs; the planner block may be gone already.\<close>

record st_block =
  sb_steps :: "u32 list"
  sb_step_event_count :: u32
  sb_steps_per_mm :: real
  sb_millimeters :: real
  sb_programmed_rate :: real
  sb_message :: "string option"
  sb_output_commands :: "nat list"
  sb_direction :: "bool list"
  sb_overrides :: u32
  sb_backlash_motion :: bool
  sb_dynamic_rpm :: bool
  sb_offset_id :: nat
  sb_spindle :: nat

text \<open>The last two fields name the spindle whose function is to be called, if any.\<close>

record segment =
  sg_exec_block :: nat
  sg_cycles_per_tick :: u32
  sg_current_rate :: real
  sg_target_position :: real
  sg_n_step :: u32
  sg_spindle_pwm :: u32
  sg_spindle_rpm :: real
  sg_ramp_type :: ramp_type
  sg_spindle_sync :: bool
  sg_cruising :: bool
  sg_amass_level :: nat
  sg_update_pwm :: "nat option"
  sg_update_rpm :: "nat option"

record stepper =
  st_new_block :: bool
  st_dir_changed :: "bool list"
  st_step_out :: "bool list"
  st_dir_out :: "bool list"
  st_amass_level :: nat
  st_step_count :: u32
  st_step_event_count :: u32
  st_steps :: "u32 list"
  st_counter :: "u32 list"
  st_exec_block :: "nat option"
  st_exec_segment :: "nat option"

record prep_data =
  pr_hold_partial_block :: bool
  pr_parking :: bool
  pr_decel_override :: bool
  pr_ramp_type :: ramp_type
  pr_dt_remainder :: real
  pr_steps_remaining :: u32
  pr_steps_per_mm :: real
  pr_req_mm_increment :: real
  pr_last_st_block :: "nat option"
  pr_last_steps_remaining :: u32
  pr_last_steps_per_mm :: real
  pr_last_dt_remainder :: real
  pr_mm_complete :: real
  pr_maximum_speed :: real
  pr_exit_speed :: real
  pr_rate_multiplier :: real
  pr_accelerate_until :: real
  pr_decelerate_after :: real
  pr_target_position :: real
  pr_target_feed :: real
  pr_inv_feedrate :: real
  pr_current_spindle_rpm :: real

record spindle_param =
  spp_rpm :: real
  spp_rpm_overridden :: real
  spp_override_pct :: nat
  spp_override_disable :: bool
  spp_option_override_disable :: bool

datatype step_output =
    PulseStart bool "bool list" "bool list"
  | CyclesPerTick u32
  | StepperGoIdle bool
  | StepperWakeUp
  | StepperEnable "bool list" bool
  | DelayMs nat
  | AddDeenergizeTask nat
  | DeleteDeenergizeTask
  | DeleteSyncVelocityTask
  | AddSyncVelocityTask10 nat
  | DigitalOut u8 bool
  | AnalogOut u8 real
  | MessageTask string
  | MessageFreed string
  | ReportOffsetChanged
  | UpdatePwm nat u32
  | UpdatePwmOff nat
  | UpdateRpm nat real
  | SetExecState u32
  | ProbeConfigure

record stepgen =
  g_planner :: planner
  g_step_control :: step_control
  g_st :: stepper
  g_blocks :: "st_block list"
  g_segments :: "segment list"
  g_tail :: nat
  g_head :: nat
  g_prep_block :: nat
  g_hold_block :: st_block
  g_prep :: prep_data
  g_exec_fast_hold :: bool
  g_stepping :: bool
  g_isr_cycles :: u32
  g_amass_1 :: u32
  g_amass_2 :: u32
  g_amass_3 :: u32
  g_cycles_per_min :: real
  g_probing :: bool
  g_probe_position :: "int list"
  g_override_control :: u32
  g_steppers_deenergize :: bool
  g_commands :: "nat \<Rightarrow> output_command"
  g_spindles :: "nat \<Rightarrow> spindle_param"
  g_outputs :: "step_output list"

text \<open>What the step generator reads of the settings, the rest of the system and the hardware.\<close>

record step_env =
  se_state :: sys_state
  se_rt_exec_alarm :: u32
  se_probe_triggered :: bool
  se_probe_configure :: bool
  se_task_room :: bool
  se_idle_lock_time :: nat
  se_energize :: "bool list"
  se_enable_delay :: nat
  se_steppers_enabled :: bool
  se_is_homing :: bool
  se_homing_axis_lock :: "bool list"
  se_parking_enabled :: bool
  se_f_step_timer :: u32
  se_laser :: "nat \<Rightarrow> bool"
  se_rpm_min :: "nat \<Rightarrow> real"
  se_rpm_max :: "nat \<Rightarrow> real"
  se_get_pwm :: "nat \<Rightarrow> (real \<Rightarrow> u32) option"

section \<open>Access\<close>

definition step_emit :: "step_output \<Rightarrow> stepgen \<Rightarrow> stepgen" where
  "step_emit e g = g\<lparr>g_outputs := g_outputs g @ [e]\<rparr>"

definition upd_st :: "(stepper \<Rightarrow> stepper) \<Rightarrow> stepgen \<Rightarrow> stepgen" where
  "upd_st f g = g\<lparr>g_st := f (g_st g)\<rparr>"

definition upd_prep :: "(prep_data \<Rightarrow> prep_data) \<Rightarrow> stepgen \<Rightarrow> stepgen" where
  "upd_prep f g = g\<lparr>g_prep := f (g_prep g)\<rparr>"

definition upd_st_block :: "nat \<Rightarrow> (st_block \<Rightarrow> st_block) \<Rightarrow> stepgen \<Rightarrow> stepgen" where
  "upd_st_block i f g = g\<lparr>g_blocks := (g_blocks g)[i := f (g_blocks g ! i)]\<rparr>"

definition upd_segment :: "nat \<Rightarrow> (segment \<Rightarrow> segment) \<Rightarrow> stepgen \<Rightarrow> stepgen" where
  "upd_segment i f g = g\<lparr>g_segments := (g_segments g)[i := f (g_segments g ! i)]\<rparr>"

definition upd_planner :: "(planner \<Rightarrow> planner) \<Rightarrow> stepgen \<Rightarrow> stepgen" where
  "upd_planner f g = g\<lparr>g_planner := f (g_planner g)\<rparr>"

definition upd_control :: "(step_control \<Rightarrow> step_control) \<Rightarrow> stepgen \<Rightarrow> stepgen" where
  "upd_control f g = g\<lparr>g_step_control := f (g_step_control g)\<rparr>"

definition next_segment :: "stepgen \<Rightarrow> nat \<Rightarrow> nat" where
  "next_segment g i = (if i = length (g_segments g) - 1 then 0 else i + 1)"

definition next_st_block :: "stepgen \<Rightarrow> nat \<Rightarrow> nat" where
  "next_st_block g i = (if i = length (g_blocks g) - 1 then 0 else i + 1)"

section \<open>Starting and stopping\<close>

definition st_deenergize :: "step_env \<Rightarrow> stepgen \<Rightarrow> stepgen" where
  "st_deenergize e g =
     (if g_steppers_deenergize g
      then (step_emit (StepperEnable (se_energize e) True) g)\<lparr>g_steppers_deenergize := False\<rparr> else g)"

definition st_wake_up :: "step_env \<Rightarrow> stepgen \<Rightarrow> stepgen" where
  "st_wake_up e g =
     (let g = (upd_st (\<lambda>s. s\<lparr>st_dir_out := replicate N_AXIS False\<rparr>) g)
                \<lparr>g_stepping := True, g_steppers_deenergize := False\<rparr>;
          g = step_emit (StepperGoIdle True) g;
          g = (if \<not> se_steppers_enabled e \<and> se_enable_delay e \<noteq> 0
               then step_emit (DelayMs (se_enable_delay e)) (step_emit (StepperEnable (replicate N_AXIS True) False) g)
               else g)
      in step_emit StepperWakeUp g)"

definition st_go_idle :: "step_env \<Rightarrow> stepgen \<Rightarrow> stepgen" where
  "st_go_idle e g =
     (let g = step_emit DeleteSyncVelocityTask (step_emit (StepperGoIdle False) (g\<lparr>g_stepping := False\<rparr>))
      in if (se_idle_lock_time e \<noteq> 255 \<or> se_rt_exec_alarm e \<noteq> 0 \<or> se_state e = STATE_SLEEP)
            \<and> se_state e \<noteq> STATE_HOMING then
           (if se_idle_lock_time e = 0 \<or> se_state e = STATE_SLEEP
            then step_emit (StepperEnable (replicate N_AXIS False) True) g
            else
              let g = step_emit DeleteDeenergizeTask g;
                  g = (if se_task_room e then step_emit (AddDeenergizeTask (se_idle_lock_time e)) g else g)
              in g\<lparr>g_steppers_deenergize := se_task_room e\<rparr>)
         else step_emit (StepperEnable
                (if se_idle_lock_time e = 255 then replicate N_AXIS True else se_energize e) True) g)"

definition st_is_stepping :: "stepgen \<Rightarrow> bool" where
  "st_is_stepping g \<longleftrightarrow> g_stepping g \<and> st_exec_block (g_st g) \<noteq> None"

definition st_rpm_changed :: "real \<Rightarrow> stepgen \<Rightarrow> stepgen" where
  "st_rpm_changed rpm g = upd_prep (\<lambda>p. p\<lparr>pr_current_spindle_rpm := rpm\<rparr>) g"

section \<open>The step interrupt\<close>

text \<open>The pulses worked out by the previous interrupt go out; a finished segment is forgotten.\<close>

definition pulse_phase :: "stepgen \<Rightarrow> stepgen" where
  "pulse_phase g =
     (let s = g_st g
      in if st_exec_block s = None then g
         else upd_st (\<lambda>s. s\<lparr>st_new_block := False,
                st_exec_segment := (if st_step_count s = 0 then None else st_exec_segment s)\<rparr>)
                (step_emit (PulseStart (st_new_block s) (st_step_out s) (st_dir_out s)) g))"

definition run_command :: "output_command \<Rightarrow> step_output" where
  "run_command c = (if oc_is_digital c then DigitalOut (oc_port c) (oc_value c \<noteq> 0)
     else AnalogOut (oc_port c) (real_of_int (oc_value c)))"

text \<open>The first segment of a block: direction, reports, output commands, message and counters.\<close>

definition load_block :: "step_env \<Rightarrow> nat \<Rightarrow> stepgen \<Rightarrow> stepgen" where
  "load_block e k g =
     (let b = g_blocks g ! k; s = g_st g;
          changed = map2 (\<noteq>) (st_dir_out s) (sb_direction b);
          g = upd_st (\<lambda>s. s\<lparr>st_dir_changed := changed,
                st_dir_out := (if True \<in> set changed then sb_direction b else st_dir_out s)\<rparr>) g;
          g = (case st_exec_block s of
                 Some j \<Rightarrow> if sb_offset_id (g_blocks g ! j) \<noteq> sb_offset_id b then step_emit ReportOffsetChanged g else g
               | None \<Rightarrow> g);
          g = upd_st (\<lambda>s. s\<lparr>st_exec_block := Some k, st_step_event_count := sb_step_event_count b,
                st_new_block := True\<rparr>) g;
          g = (if bit (sb_overrides b) 14 then g\<lparr>g_override_control := sb_overrides b\<rparr> else g);
          g = fold (\<lambda>c g. step_emit (run_command (g_commands g c)) g) (sb_output_commands b) g;
          g = (case sb_message b of
                 Some m \<Rightarrow> step_emit (if se_task_room e then MessageTask m else MessageFreed m) g
               | None \<Rightarrow> g);
          g = upd_st_block k (\<lambda>b. b\<lparr>sb_output_commands := [], sb_message := None\<rparr>) g
      in upd_st (\<lambda>s. s\<lparr>st_counter := replicate N_AXIS (drop_bit 1 (st_step_event_count s))\<rparr>) g)"

definition load_segment :: "step_env \<Rightarrow> stepgen \<Rightarrow> stepgen" where
  "load_segment e g =
     (let seg = g_segments g ! g_tail g;
          g = upd_st (\<lambda>s. s\<lparr>st_exec_segment := Some (g_tail g)\<rparr>) g;
          g = (if sg_cycles_per_tick seg \<noteq> g_isr_cycles g
               then step_emit (CyclesPerTick (sg_cycles_per_tick seg)) (g\<lparr>g_isr_cycles := sg_cycles_per_tick seg\<rparr>)
               else g);
          g = upd_st (\<lambda>s. s\<lparr>st_step_count := sg_n_step seg\<rparr>) g;
          g = (if st_exec_block (g_st g) \<noteq> Some (sg_exec_block seg) then load_block e (sg_exec_block seg) g else g);
          b = g_blocks g ! sg_exec_block seg;
          g = upd_st (\<lambda>s. s\<lparr>st_amass_level := sg_amass_level seg,
                st_steps := map (drop_bit (sg_amass_level seg)) (sb_steps b)\<rparr>) g
      in case sg_update_pwm seg of
           Some _ \<Rightarrow> step_emit (UpdatePwm (sb_spindle b) (sg_spindle_pwm seg)) g
         | None \<Rightarrow> (case sg_update_rpm seg of
              Some _ \<Rightarrow> step_emit (UpdateRpm (sb_spindle b) (sg_spindle_rpm seg)) g
            | None \<Rightarrow> g))"

text \<open>The end of the segments. Without a block in execution the code follows a null pointer.\<close>

definition shut_down :: "step_env \<Rightarrow> stepgen \<Rightarrow> stepgen run" where
  "shut_down e g =
     (let g = st_go_idle e g
      in case st_exec_block (g_st g) of
           None \<Rightarrow> Undefined
         | Some k \<Rightarrow>
             let b = g_blocks g ! k;
                 g = (if sb_dynamic_rpm b \<and> se_laser e (sb_spindle b)
                      then step_emit (UpdatePwmOff (sb_spindle b)) (upd_prep (\<lambda>p. p\<lparr>pr_current_spindle_rpm := 0\<rparr>) g)
                      else g);
                 g = upd_st (\<lambda>s. s\<lparr>st_exec_block := None\<rparr>) (g\<lparr>g_isr_cycles := 0\<rparr>)
             in Done (step_emit (SetExecState EXEC_CYCLE_COMPLETE) g))"

definition probe_check :: "step_env \<Rightarrow> stepgen \<Rightarrow> stepgen" where
  "probe_check e g =
     (if g_probing g \<and> se_probe_triggered e
      then step_emit (SetExecState EXEC_MOTION_CANCEL)
             (g\<lparr>g_probing := False, g_probe_position := sys_position (g_planner g)\<rparr>)
      else g)"

text \<open>One axis of the line: its counter after the interrupt and whether it steps.\<close>

definition bresenham_axis :: "stepper \<Rightarrow> nat \<Rightarrow> u32 \<times> bool" where
  "bresenham_axis s i =
     (if i = Z_AXIS \<and> st_steps s ! i = 0 then (st_counter s ! i, False)
      else
        let c = st_counter s ! i + st_steps s ! i
        in if c > st_step_event_count s then (c - st_step_event_count s, True) else (c, False))"

definition step_position :: "bool \<Rightarrow> bool \<Rightarrow> int \<Rightarrow> int" where
  "step_position out back p = (if out then p + (if back then - 1 else 1) else p)"

definition bresenham :: "step_env \<Rightarrow> stepgen \<Rightarrow> stepgen" where
  "bresenham e g =
     (let s = g_st g; r = map (bresenham_axis s) [0..<N_AXIS]; out = map snd r;
          g = upd_planner (\<lambda>p. p\<lparr>sys_position :=
                map (\<lambda>i. step_position (out ! i) (st_dir_out s ! i) (sys_position p ! i)) [0..<N_AXIS]\<rparr>) g
      in upd_st (\<lambda>s. s\<lparr>st_counter := map fst r,
           st_step_out := (if se_is_homing e then map2 (\<and>) out (se_homing_axis_lock e) else out)\<rparr>) g)"

definition count_step :: "stepgen \<Rightarrow> stepgen" where
  "count_step g =
     (let n = st_step_count (g_st g); g = (if n = 0 then g else upd_st (\<lambda>s. s\<lparr>st_step_count := n - 1\<rparr>) g)
      in if st_step_count (g_st g) = 0 then g\<lparr>g_tail := next_segment g (g_tail g)\<rparr> else g)"

definition stepper_driver_interrupt_handler :: "step_env \<Rightarrow> stepgen \<Rightarrow> stepgen run" where
  "stepper_driver_interrupt_handler e g =
     (let g = pulse_phase g; tick = (\<lambda>g. Done (count_step (bresenham e (probe_check e g))))
      in if st_exec_segment (g_st g) = None then
           (if g_tail g \<noteq> g_head g then tick (load_segment e g) else shut_down e g)
         else tick g)"

section \<open>Reset\<close>

definition stepper_zero :: stepper where
  "stepper_zero = \<lparr>st_new_block = False, st_dir_changed = replicate N_AXIS False,
     st_step_out = replicate N_AXIS False, st_dir_out = replicate N_AXIS False, st_amass_level = 0,
     st_step_count = 0, st_step_event_count = 0, st_steps = replicate N_AXIS 0,
     st_counter = replicate N_AXIS 0, st_exec_block = None, st_exec_segment = None\<rparr>"

definition prep_zero :: prep_data where
  "prep_zero = \<lparr>pr_hold_partial_block = False, pr_parking = False, pr_decel_override = False,
     pr_ramp_type = Ramp_Accel, pr_dt_remainder = 0, pr_steps_remaining = 0, pr_steps_per_mm = 0,
     pr_req_mm_increment = 0, pr_last_st_block = None, pr_last_steps_remaining = 0,
     pr_last_steps_per_mm = 0, pr_last_dt_remainder = 0, pr_mm_complete = 0, pr_maximum_speed = 0,
     pr_exit_speed = 0, pr_rate_multiplier = 0, pr_accelerate_until = 0, pr_decelerate_after = 0,
     pr_target_position = 0, pr_target_feed = 0, pr_inv_feedrate = 0, pr_current_spindle_rpm = 0\<rparr>"

text \<open>The rings are linked anew; the links are the successors of the indices here.\<close>

definition st_reset :: "step_env \<Rightarrow> stepgen \<Rightarrow> stepgen" where
  "st_reset e g =
     (let g = (if se_probe_configure e then step_emit ProbeConfigure g else g);
          g = st_go_idle e g;
          l1 = se_f_step_timer e div 8000; l2 = push_bit 1 l1
      in g\<lparr>g_segments := map (\<lambda>s. s\<lparr>sg_amass_level := 0\<rparr>) (g_segments g), g_prep_block := 0,
           g_planner := (g_planner g)\<lparr>st_pl_block := None, st_current_speed := 0, st_velocity_profile := False\<rparr>,
           g_tail := 0, g_head := 0, g_prep := prep_zero, g_st := stepper_zero,
           g_amass_1 := l1, g_amass_2 := l2, g_amass_3 := push_bit 1 l2,
           g_cycles_per_min := real (unat (se_f_step_timer e)) * 60\<rparr>)"

section \<open>What the reports ask\<close>

text \<open>The offset in effect: that of the block in execution, or in a complete hold of the next one.\<close>

definition st_get_offset_id :: "bool \<Rightarrow> stepgen \<Rightarrow> int" where
  "st_get_offset_id hold_complete g =
     (case st_exec_block (g_st g) of
        Some k \<Rightarrow> int (sb_offset_id (g_blocks g ! k))
      | None \<Rightarrow>
          (if hold_complete then
             (case plan_get_current_block (g_planner g) of
                Some i \<Rightarrow> int (b_offset_id (pb_blocks (g_planner g) ! i))
              | None \<Rightarrow> - 1)
           else - 1))"

end
