(* ===== verification/StepperPrep.thy ===== *)
theory StepperPrep
  imports Stepper
begin

text \<open>
  \<open>grbl/stepper.c\<close>: the preparation of step segments from the planner's blocks, the replanning of a
  block in execution and the parking motion. Speeds, times and distances are real numbers; a
  conversion out of range of 32 bits, or of the quotient by zero, is \<open>Undefined\<close>. The loop over the
  ramps of a segment carries fuel. \<open>spindle_set_rpm\<close> is from \<open>grbl/spindle_control.c\<close>.
\<close>

section \<open>Constants\<close>

definition ACCELERATION_TICKS_PER_SECOND :: nat where "ACCELERATION_TICKS_PER_SECOND = 100"

definition DT_SEGMENT :: real where
  "DT_SEGMENT = 1 / (real ACCELERATION_TICKS_PER_SECOND * 60)"

definition REQ_MM_INCREMENT_SCALAR :: real where "REQ_MM_INCREMENT_SCALAR = 1.25"

section \<open>Replanning and parking\<close>

text \<open>Skipping the segments that already decelerate, up to the slot the head was at.\<close>

fun skip_decelerating :: "nat \<Rightarrow> nat \<Rightarrow> stepgen \<Rightarrow> nat \<Rightarrow> nat run" where
  "skip_decelerating 0 head g i = NoFuel"
| "skip_decelerating (Suc k) head g i =
     (if next_segment g i \<noteq> head \<and> sg_ramp_type (g_segments g ! i) = Ramp_Decel
      then skip_decelerating k head g (next_segment g i) else Done i)"

definition fast_hold_cut :: "stepgen \<Rightarrow> stepgen run" where
  "fast_hold_cut g =
     (let full = (next_segment g (g_head g) = g_tail g); g = g\<lparr>g_exec_fast_hold := full\<rparr>; n = st_step_count (g_st g)
      in if \<not> full then Done g
         else
           bind_run
             (if n < 3 then Done True
              else case st_exec_segment (g_st g) of
                None \<Rightarrow> Undefined | Some x \<Rightarrow> Done (n < drop_bit 3 (sg_n_step (g_segments g ! x))))
             (\<lambda>nearly_done.
                let i = next_segment g (g_tail g); i = (if nearly_done then next_segment g i else i)
                in bind_run (skip_decelerating (length (g_segments g)) (g_head g) g i) (\<lambda>i.
                     Done (upd_planner (\<lambda>p. p\<lparr>st_current_speed := sg_current_rate (g_segments g ! i)\<rparr>)
                       (g\<lparr>g_head := next_segment g i\<rparr>)))))"

definition update_plan_block_parameters :: "bool \<Rightarrow> stepgen \<Rightarrow> stepgen run" where
  "update_plan_block_parameters fast_hold g =
     bind_run (if fast_hold then fast_hold_cut g else Done g) (\<lambda>g.
       Done (upd_planner st_update_plan_block_parameters g))"

definition st_parking_setup_buffer :: "stepgen \<Rightarrow> stepgen" where
  "st_parking_setup_buffer g =
     (let p = g_prep g;
          g = (if pr_hold_partial_block p \<and> \<not> pr_parking p
               then upd_prep (\<lambda>p. p\<lparr>pr_last_st_block := Some (g_prep_block g), pr_last_steps_remaining := pr_steps_remaining p,
                      pr_last_dt_remainder := pr_dt_remainder p, pr_last_steps_per_mm := pr_steps_per_mm p\<rparr>)
                      (g\<lparr>g_hold_block := g_blocks g ! g_prep_block g\<rparr>)
               else g);
          g = upd_prep (\<lambda>p. p\<lparr>pr_parking := True\<rparr>) g
      in upd_planner (\<lambda>p. p\<lparr>st_velocity_profile := False, st_pl_block := None\<rparr>) g)"

definition st_parking_restore_buffer :: "stepgen \<Rightarrow> stepgen run" where
  "st_parking_restore_buffer g =
     bind_run
       (if pr_hold_partial_block (g_prep g) then
          case pr_last_st_block (g_prep g) of
            None \<Rightarrow> Undefined
          | Some k \<Rightarrow>
              let g = (upd_st_block k (\<lambda>_. g_hold_block g) g)\<lparr>g_prep_block := k\<rparr>;
                  g = upd_prep (\<lambda>p. p\<lparr>pr_steps_remaining := pr_last_steps_remaining p,
                        pr_dt_remainder := pr_last_dt_remainder p, pr_steps_per_mm := pr_last_steps_per_mm p,
                        pr_hold_partial_block := True, pr_parking := False, pr_decel_override := False,
                        pr_req_mm_increment := REQ_MM_INCREMENT_SCALAR / pr_last_steps_per_mm p\<rparr>) g
              in Done (upd_planner (\<lambda>p. p\<lparr>st_velocity_profile := True\<rparr>) g)
        else Done (upd_planner (\<lambda>p. p\<lparr>st_velocity_profile := False\<rparr>)
               (upd_prep (\<lambda>p. p\<lparr>pr_hold_partial_block := False, pr_parking := False, pr_decel_override := False\<rparr>) g)))
       (\<lambda>g. Done (upd_planner (\<lambda>p. p\<lparr>st_pl_block := None\<rparr>) g))"

section \<open>Loading a block\<close>

text \<open>A new block, whose data the interrupt will need after the planner has given it up.\<close>

definition load_plan_block :: "nat \<Rightarrow> stepgen \<Rightarrow> stepgen" where
  "load_plan_block i g =
     (let k = next_st_block g (g_prep_block g); b = pb_blocks (g_planner g) ! i;
          per_mm = real (b_step_event_count b) / b_millimeters b; rpm_rate = c_is_rpm_rate_adjusted (b_condition b);
          g = (upd_st_block k (\<lambda>sb. sb\<lparr>sb_steps := map (\<lambda>n. push_bit MAX_AMASS_LEVEL (word_of_nat n)) (b_steps b),
                 sb_step_event_count := push_bit MAX_AMASS_LEVEL (word_of_nat (b_step_event_count b)),
                 sb_direction := b_direction b, sb_programmed_rate := b_programmed_rate b,
                 sb_millimeters := b_millimeters b, sb_steps_per_mm := per_mm, sb_spindle := ls_hal (b_spindle b),
                 sb_output_commands := b_output_commands b, sb_overrides := b_overrides b,
                 sb_offset_id := b_offset_id b, sb_backlash_motion := c_backlash_motion (b_condition b),
                 sb_message := b_message b, sb_dynamic_rpm := rpm_rate \<or> ls_css (b_spindle b) \<noteq> None\<rparr>) g)
                \<lparr>g_prep_block := k\<rparr>;
          g = upd_planner (upd_block i (\<lambda>b. b\<lparr>b_message := None\<rparr>)) g;
          g = upd_prep (\<lambda>p. p\<lparr>pr_steps_per_mm := per_mm, pr_steps_remaining := word_of_nat (b_step_event_count b),
                pr_req_mm_increment := REQ_MM_INCREMENT_SCALAR / per_mm, pr_dt_remainder := 0, pr_target_position := 0,
                pr_rate_multiplier := b_rate_multiplier b\<rparr>) g;
          p = g_prep g;
          g = (if execute_hold (g_step_control g) \<or> pr_decel_override p
               then upd_prep (\<lambda>p. p\<lparr>pr_decel_override := False\<rparr>)
                      (upd_planner (\<lambda>q. (upd_block i (\<lambda>b. b\<lparr>b_entry_speed_sqr := pr_exit_speed p * pr_exit_speed p\<rparr>) q)
                         \<lparr>st_current_speed := pr_exit_speed p\<rparr>) g)
               else upd_planner (\<lambda>q. q\<lparr>st_current_speed := sqrt (b_entry_speed_sqr b)\<rparr>) g)
      in if rpm_rate
         then upd_prep (\<lambda>p. p\<lparr>pr_inv_feedrate :=
                (if c_is_laser_ppi_mode (b_condition b) then 1 else 1 / b_programmed_rate b)\<rparr>) g
         else g)"

text \<open>Either the block is in progress and only its profile is stale, or it is a new one.\<close>

definition load_or_resume :: "step_env \<Rightarrow> nat \<Rightarrow> stepgen \<Rightarrow> stepgen" where
  "load_or_resume e i g =
     (if st_velocity_profile (g_planner g) then
        upd_planner (\<lambda>p. p\<lparr>st_velocity_profile := False\<rparr>)
          (if se_parking_enabled e \<and> pr_parking (g_prep g) then g
           else upd_prep (\<lambda>p. p\<lparr>pr_hold_partial_block := False, pr_parking := False, pr_decel_override := False\<rparr>) g)
      else load_plan_block i g)"

section \<open>The velocity profile\<close>

definition hold_profile :: "planner_block \<Rightarrow> prep_data \<Rightarrow> prep_data" where
  "hold_profile b p =
     (let inv_2_accel = (1 / 2) / b_acceleration b;
          p = p\<lparr>pr_mm_complete := 0, pr_ramp_type := Ramp_Decel\<rparr>;
          decel_dist = b_millimeters b - inv_2_accel * b_entry_speed_sqr b
      in if decel_dist < - (1 / 10000)
         then p\<lparr>pr_exit_speed := sqrt (b_entry_speed_sqr b - 2 * b_acceleration b * b_millimeters b)\<rparr>
         else p\<lparr>pr_mm_complete := (if decel_dist < 1 / 10000 then 0 else decel_dist), pr_exit_speed := 0\<rparr>)"

text \<open>The profile to an exit speed, for a nominal speed.\<close>

definition ramp_profile :: "planner_block \<Rightarrow> real \<Rightarrow> real \<Rightarrow> prep_data \<Rightarrow> prep_data" where
  "ramp_profile b exit_speed_sqr nominal p =
     (let inv_2_accel = (1 / 2) / b_acceleration b; mm = b_millimeters b; entry = b_entry_speed_sqr b;
          nominal_sqr = nominal * nominal;
          p = p\<lparr>pr_mm_complete := 0, pr_ramp_type := Ramp_Accel, pr_accelerate_until := mm, pr_target_feed := nominal\<rparr>;
          intersect = (1 / 2) * (mm + inv_2_accel * (entry - exit_speed_sqr))
      in if entry > nominal_sqr then
           let p = p\<lparr>pr_accelerate_until := mm - inv_2_accel * (entry - nominal_sqr)\<rparr>
           in if pr_accelerate_until p \<le> 0
              then p\<lparr>pr_ramp_type := Ramp_Decel, pr_exit_speed := sqrt (entry - 2 * b_acceleration b * mm), pr_decel_override := True\<rparr>
              else p\<lparr>pr_decelerate_after := inv_2_accel * (nominal_sqr - exit_speed_sqr), pr_maximum_speed := nominal,
                     pr_ramp_type := Ramp_DecelOverride\<rparr>
         else if intersect > 0 then
           if intersect < mm then
             let p = p\<lparr>pr_decelerate_after := inv_2_accel * (nominal_sqr - exit_speed_sqr)\<rparr>
             in if pr_decelerate_after p < intersect then
                  let p = p\<lparr>pr_maximum_speed := nominal\<rparr>
                  in if entry = nominal_sqr then p\<lparr>pr_ramp_type := Ramp_Cruise\<rparr>
                     else p\<lparr>pr_accelerate_until := pr_accelerate_until p - inv_2_accel * (nominal_sqr - entry)\<rparr>
                else p\<lparr>pr_accelerate_until := intersect, pr_decelerate_after := intersect,
                       pr_maximum_speed := sqrt (2 * b_acceleration b * intersect + exit_speed_sqr)\<rparr>
           else p\<lparr>pr_ramp_type := Ramp_Decel\<rparr>
         else p\<lparr>pr_accelerate_until := 0, pr_maximum_speed := pr_exit_speed p\<rparr>)"

definition velocity_profile :: "step_env \<Rightarrow> nat \<Rightarrow> stepgen \<Rightarrow> stepgen" where
  "velocity_profile e i g =
     (let b = pb_blocks (g_planner g) ! i;
          g = (if execute_hold (g_step_control g) then upd_prep (hold_profile b) g
               else
                 let exit_sqr = (if execute_sys_motion (g_step_control g) then 0
                                 else plan_get_exec_block_exit_speed_sqr (g_planner g));
                     (nominal, q) = plan_compute_profile_nominal_speed b (g_planner g)
                 in upd_prep (\<lambda>p. ramp_profile b exit_sqr nominal (p\<lparr>pr_exit_speed := sqrt exit_sqr\<rparr>)) (g\<lparr>g_planner := q\<rparr>));
          g = (if se_state e \<noteq> STATE_HOMING \<and> se_laser e (ls_hal (b_spindle b))
               then upd_control (\<lambda>c. c\<lparr>update_spindle_rpm := True\<rparr>) g else g)
      in g\<lparr>g_exec_fast_hold := False\<rparr>)"

section \<open>The ramps of a segment\<close>

text \<open>
  The variables of the loop: the ramp, the speed, what is left of the block, the time of the segment so
  far and at most, and the time of the ramp.
\<close>

record ramp =
  rm_type :: ramp_type
  rm_speed :: real
  rm_mm :: real
  rm_dt :: real
  rm_dt_max :: real
  rm_time :: real

text \<open>One ramp for the time given, or to its end; \<open>mm\<close> is what was left at the start of the segment.\<close>

definition ramp_override :: "real \<Rightarrow> prep_data \<Rightarrow> real \<Rightarrow> ramp \<Rightarrow> ramp" where
  "ramp_override a p mm r =
     (let speed_var = a * rm_time r
      in if rm_speed r - pr_maximum_speed p \<le> speed_var
         then r\<lparr>rm_mm := pr_accelerate_until p,
                rm_time := 2 * (mm - pr_accelerate_until p) / (rm_speed r + pr_maximum_speed p),
                rm_type := Ramp_Cruise, rm_speed := pr_maximum_speed p\<rparr>
         else r\<lparr>rm_mm := rm_mm r - rm_time r * (rm_speed r - (1 / 2) * speed_var), rm_speed := rm_speed r - speed_var\<rparr>)"

definition ramp_accel :: "real \<Rightarrow> prep_data \<Rightarrow> real \<Rightarrow> ramp \<Rightarrow> ramp" where
  "ramp_accel a p mm r =
     (let speed_var = a * rm_time r; left = rm_mm r - rm_time r * (rm_speed r + (1 / 2) * speed_var)
      in if left < pr_accelerate_until p
         then r\<lparr>rm_mm := pr_accelerate_until p,
                rm_time := 2 * (mm - pr_accelerate_until p) / (rm_speed r + pr_maximum_speed p),
                rm_type := (if pr_accelerate_until p = pr_decelerate_after p then Ramp_Decel else Ramp_Cruise),
                rm_speed := pr_maximum_speed p\<rparr>
         else r\<lparr>rm_mm := left, rm_speed := rm_speed r + speed_var\<rparr>)"

definition ramp_cruise :: "prep_data \<Rightarrow> ramp \<Rightarrow> ramp" where
  "ramp_cruise p r =
     (let left = rm_mm r - pr_maximum_speed p * rm_time r
      in if left < pr_decelerate_after p
         then r\<lparr>rm_time := (rm_mm r - pr_decelerate_after p) / pr_maximum_speed p,
                rm_mm := pr_decelerate_after p, rm_type := Ramp_Decel\<rparr>
         else r\<lparr>rm_mm := left\<rparr>)"

definition ramp_decel :: "real \<Rightarrow> prep_data \<Rightarrow> ramp \<Rightarrow> ramp" where
  "ramp_decel a p r =
     (let speed_var = a * rm_time r; left = rm_mm r - rm_time r * (rm_speed r - (1 / 2) * speed_var)
      in if rm_speed r > speed_var \<and> left > pr_mm_complete p
         then r\<lparr>rm_mm := left, rm_speed := rm_speed r - speed_var\<rparr>
         else r\<lparr>rm_time := 2 * (rm_mm r - pr_mm_complete p) / (rm_speed r + pr_exit_speed p),
                rm_mm := pr_mm_complete p, rm_speed := pr_exit_speed p\<rparr>)"

definition ramp_step :: "real \<Rightarrow> prep_data \<Rightarrow> real \<Rightarrow> ramp \<Rightarrow> ramp" where
  "ramp_step a p mm r =
     (case rm_type r of
        Ramp_DecelOverride \<Rightarrow> ramp_override a p mm r
      | Ramp_Accel \<Rightarrow> ramp_accel a p mm r
      | Ramp_Cruise \<Rightarrow> ramp_cruise p r
      | Ramp_Decel \<Rightarrow> ramp_decel a p r)"

text \<open>The time of the segment is filled with ramps, and made longer when there is no step in it yet.\<close>

fun ramp_loop :: "nat \<Rightarrow> real \<Rightarrow> prep_data \<Rightarrow> real \<Rightarrow> real \<Rightarrow> ramp \<Rightarrow> ramp run" where
  "ramp_loop 0 a p mm minimum_mm r = NoFuel"
| "ramp_loop (Suc n) a p mm minimum_mm r =
     (let r = ramp_step a p mm r; r = r\<lparr>rm_dt := rm_dt r + rm_time r\<rparr>
      in if rm_dt r < rm_dt_max r then
           let r = r\<lparr>rm_time := rm_dt_max r - rm_dt r\<rparr>
           in if rm_mm r > pr_mm_complete p then ramp_loop n a p mm minimum_mm r else Done r
         else if rm_mm r > minimum_mm then
           let r = r\<lparr>rm_dt_max := rm_dt_max r + DT_SEGMENT\<rparr>; r = r\<lparr>rm_time := rm_dt_max r - rm_dt r\<rparr>
           in if rm_mm r > pr_mm_complete p then ramp_loop n a p mm minimum_mm r else Done r
         else Done r)"

declare ramp_loop.simps(2) [simp del]

definition segment_ramps :: "nat \<Rightarrow> real \<Rightarrow> real \<Rightarrow> real \<Rightarrow> prep_data \<Rightarrow> ramp run" where
  "segment_ramps fuel a mm speed p =
     (let minimum_mm = mm - pr_req_mm_increment p; minimum_mm = (if minimum_mm < 0 then 0 else minimum_mm)
      in ramp_loop fuel a p mm minimum_mm
           \<lparr>rm_type = pr_ramp_type p, rm_speed = speed, rm_mm = mm, rm_dt = 0, rm_dt_max = DT_SEGMENT, rm_time = DT_SEGMENT\<rparr>)"

section \<open>The spindle speed of a segment\<close>

definition spindle_set_rpm :: "step_env \<Rightarrow> nat \<Rightarrow> real \<Rightarrow> nat \<Rightarrow> stepgen \<Rightarrow> real \<times> stepgen" where
  "spindle_set_rpm e k rpm override_pct g =
     (let sp = g_spindles g k;
          rpm = (if override_pct \<noteq> 100 \<and> \<not> spp_option_override_disable sp then rpm * (1 / 100 * real override_pct) else rpm);
          rpm = (if rpm \<le> 0 then 0 else if rpm < se_rpm_min e k then se_rpm_min e k
                 else if rpm > se_rpm_max e k then se_rpm_max e k else rpm);
          sp = sp\<lparr>spp_rpm_overridden := rpm, spp_override_pct := override_pct,
                 spp_override_disable := spp_option_override_disable sp\<rparr>
      in (rpm, g\<lparr>g_spindles := (g_spindles g)(k := sp)\<rparr>))"

text \<open>The speed the segment is to have: of a surface speed, of the rate, or the programmed one.\<close>

definition segment_rpm :: "step_env \<Rightarrow> nat \<Rightarrow> stepgen \<Rightarrow> real \<times> stepgen" where
  "segment_rpm e i g =
     (let b = pb_blocks (g_planner g) ! i; sp = b_spindle b; k = ls_hal sp; p = g_prep g;
          pct = spp_override_pct (g_spindles g k)
      in if ls_on sp then
           (case ls_css sp of
              Some c \<Rightarrow>
                let npos = real (b_step_event_count b - unat (pr_steps_remaining p)) / real (b_step_event_count b)
                in spindle_set_rpm e k (ls_rpm sp + css_delta_rpm (css_mem (g_planner g) c) * npos) pct g
            | None \<Rightarrow>
                spindle_set_rpm e k
                  (if c_is_rpm_rate_adjusted (b_condition b) \<and> \<not> c_is_laser_ppi_mode (b_condition b)
                   then ls_rpm sp * st_current_speed (g_planner g) * pr_inv_feedrate p else ls_rpm sp) pct g)
         else (0, g\<lparr>g_spindles := (g_spindles g)(k := (g_spindles g k)\<lparr>spp_rpm := 0\<rparr>)\<rparr>))"

definition segment_spindle :: "step_env \<Rightarrow> nat \<Rightarrow> stepgen \<Rightarrow> stepgen" where
  "segment_spindle e i g =
     (if \<not> (update_spindle_rpm (g_step_control g) \<or> sb_dynamic_rpm (g_blocks g ! g_prep_block g)) then g
      else
        let k = ls_hal (b_spindle (pb_blocks (g_planner g) ! i)); (rpm, g) = segment_rpm e i g
        in if rpm = pr_current_spindle_rpm (g_prep g) then g
           else
             let g = upd_prep (\<lambda>p. p\<lparr>pr_current_spindle_rpm := rpm\<rparr>) g;
                 g = upd_segment (g_head g) (\<lambda>s. case se_get_pwm e k of
                       Some pwm \<Rightarrow> s\<lparr>sg_update_pwm := Some k, sg_spindle_pwm := pwm rpm\<rparr>
                     | None \<Rightarrow> s\<lparr>sg_update_rpm := Some k, sg_spindle_rpm := rpm\<rparr>) g
             in upd_control (\<lambda>c. c\<lparr>update_spindle_rpm := False\<rparr>) g)"

section \<open>A segment\<close>

definition to_uint32 :: "real \<Rightarrow> u32 run" where
  "to_uint32 x = (if - 1 < x \<and> x < 2 ^ 32 then Done (word_of_int (float_trunc x)) else Undefined)"

definition amass_level :: "stepgen \<Rightarrow> u32 \<Rightarrow> nat" where
  "amass_level g cycles =
     (if cycles < g_amass_1 g then 0 else if cycles < g_amass_2 g then 1 else if cycles < g_amass_3 g then 2 else 3)"

text \<open>The motion ends before the block does.\<close>

definition end_of_motion :: "step_env \<Rightarrow> stepgen \<Rightarrow> stepgen" where
  "end_of_motion e g =
     (let g = upd_control (\<lambda>c. c\<lparr>end_motion := True\<rparr>) g
      in if se_parking_enabled e \<and> \<not> pr_parking (g_prep g) then upd_prep (\<lambda>p. p\<lparr>pr_hold_partial_block := True\<rparr>) g else g)"

text \<open>The segment gets its level of smoothing, its steps and its rate, with synchronised motion its end as well.\<close>

definition fill_segment :: "nat \<Rightarrow> real \<Rightarrow> u32 \<Rightarrow> u32 \<Rightarrow> stepgen \<Rightarrow> stepgen" where
  "fill_segment i dt n_step cycles g =
     (let b = pb_blocks (g_planner g) ! i; p = g_prep g; level = amass_level g cycles;
          sync = (ls_synchronized (b_spindle b) \<and> \<not> c_units_per_rev (b_condition b));
          target = (if sync then pr_target_position p + dt * pr_target_feed p else pr_target_position p)
      in upd_prep (\<lambda>p. p\<lparr>pr_target_position := target\<rparr>)
           (upd_segment (g_head g) (\<lambda>s. s\<lparr>sg_spindle_sync := sync,
              sg_cruising := (if sync then pr_ramp_type p = Ramp_Cruise else sg_cruising s),
              sg_target_position := (if sync then target else sg_target_position s),
              sg_amass_level := level, sg_n_step := push_bit level n_step, sg_cycles_per_tick := drop_bit level cycles,
              sg_current_rate := st_current_speed (g_planner g), sg_ramp_type := pr_ramp_type p\<rparr>) g))"

text \<open>What follows a segment that ends where the profile does: the end of the motion or the next block.\<close>

definition after_segment :: "step_env \<Rightarrow> nat \<Rightarrow> real \<Rightarrow> stepgen \<Rightarrow> bool \<times> stepgen" where
  "after_segment e i mm_remaining g =
     (if mm_remaining \<le> pr_mm_complete (g_prep g) then
        let g = (if c_units_per_rev (b_condition (pb_blocks (g_planner g) ! i)) then step_emit DeleteSyncVelocityTask g else g)
        in if mm_remaining > 0 then (False, end_of_motion e g)
           else if execute_sys_motion (g_step_control g) then (False, upd_control (\<lambda>c. c\<lparr>end_motion := True\<rparr>) g)
           else (True, upd_planner (\<lambda>p. plan_discard_current_block (p\<lparr>st_pl_block := None\<rparr>)) g)
      else (True, g))"

text \<open>
  The steps of the segment and their rate; it is handed to the interrupt, and what is left of the block
  is noted. The flag tells whether the loop goes on.
\<close>

definition finish_segment :: "step_env \<Rightarrow> nat \<Rightarrow> real \<Rightarrow> real \<Rightarrow> stepgen \<Rightarrow> (bool \<times> stepgen) run" where
  "finish_segment e i mm_remaining dt g =
     (let p = g_prep g; h = g_head g; step_dist = pr_steps_per_mm p * mm_remaining
      in bind_run (to_uint32 (real_of_int \<lceil>step_dist\<rceil>)) (\<lambda>n_steps_remaining.
         let n_step = pr_steps_remaining p - n_steps_remaining; g = upd_segment h (\<lambda>s. s\<lparr>sg_n_step := n_step\<rparr>) g
         in if n_step = 0 \<and> execute_hold (g_step_control g) then Done (False, end_of_motion e g)
            else
              let dt = dt + pr_dt_remainder p; dist = real (unat (pr_steps_remaining p)) - step_dist; inv_rate = dt / dist
              in bind_run (if dist = 0 then Undefined else to_uint32 (real_of_int \<lceil>g_cycles_per_min g * inv_rate\<rceil>)) (\<lambda>cycles.
                   let g = fill_segment i dt n_step cycles g;
                       g = g\<lparr>g_head := next_segment g h\<rparr>;
                       g = upd_planner (upd_block i (\<lambda>b. b\<lparr>b_millimeters := mm_remaining\<rparr>)) g;
                       g = upd_prep (\<lambda>p. p\<lparr>pr_steps_remaining := n_steps_remaining,
                             pr_dt_remainder := (real (unat n_steps_remaining) - step_dist) * inv_rate\<rparr>) g
                   in Done (after_segment e i mm_remaining g))))"

definition prep_segment :: "nat \<Rightarrow> step_env \<Rightarrow> nat \<Rightarrow> stepgen \<Rightarrow> (bool \<times> stepgen) run" where
  "prep_segment fuel e i g =
     (let k = g_prep_block g;
          g = upd_segment (g_head g) (\<lambda>s. s\<lparr>sg_exec_block := k, sg_update_rpm := None, sg_update_pwm := None\<rparr>) g;
          b = pb_blocks (g_planner g) ! i
      in bind_run (segment_ramps fuel (b_acceleration b) (b_millimeters b) (st_current_speed (g_planner g)) (g_prep g)) (\<lambda>r.
           let g = upd_prep (\<lambda>p. p\<lparr>pr_ramp_type := rm_type r\<rparr>) (upd_planner (\<lambda>p. p\<lparr>st_current_speed := rm_speed r\<rparr>) g)
           in finish_segment e i (rm_mm r) (rm_dt r) (segment_spindle e i g)))"

text \<open>The block to prepare segments of: the one in work, or one that is loaded, if there is any.\<close>

definition prep_block :: "step_env \<Rightarrow> stepgen \<Rightarrow> (nat option \<times> stepgen)" where
  "prep_block e g =
     (case st_pl_block (g_planner g) of
        Some i \<Rightarrow> (Some i, g)
      | None \<Rightarrow>
          (let i = (if execute_sys_motion (g_step_control g) then Some (plan_get_system_motion_block (g_planner g))
                    else plan_get_current_block (g_planner g))
           in case i of
                None \<Rightarrow> (None, g)
              | Some i \<Rightarrow>
                  let g = upd_planner (\<lambda>p. p\<lparr>st_pl_block := Some i\<rparr>) g;
                      g = (if c_units_per_rev (b_condition (pb_blocks (g_planner g) ! i))
                           then step_emit (AddSyncVelocityTask10 i) g else g)
                  in (Some i, velocity_profile e i (load_or_resume e i g))))"

text \<open>A pass of the loop; the flag tells whether the loop goes on.\<close>

definition prep_pass :: "nat \<Rightarrow> step_env \<Rightarrow> stepgen \<Rightarrow> (bool \<times> stepgen) run" where
  "prep_pass fuel e g =
     (case prep_block e g of
        (None, g) \<Rightarrow> Done (False, g)
      | (Some i, g) \<Rightarrow> if g_exec_fast_hold g then Done (False, g) else prep_segment fuel e i g)"

fun prep_loop :: "nat \<Rightarrow> nat \<Rightarrow> step_env \<Rightarrow> stepgen \<Rightarrow> stepgen run" where
  "prep_loop 0 fuel e g = NoFuel"
| "prep_loop (Suc n) fuel e g =
     (if next_segment g (g_head g) = g_tail g then Done g
      else bind_run (prep_pass fuel e g) (\<lambda>(more, g). if more then prep_loop n fuel e g else Done g))"

text \<open>Every pass takes a slot of the ring, whose length is enough fuel.\<close>

definition st_prep_buffer :: "nat \<Rightarrow> step_env \<Rightarrow> stepgen \<Rightarrow> stepgen run" where
  "st_prep_buffer fuel e g =
     (if end_motion (g_step_control g) then Done g else prep_loop (length (g_segments g)) fuel e g)"

definition st_get_realtime_rate :: "step_env \<Rightarrow> stepgen \<Rightarrow> real" where
  "st_get_realtime_rate e g =
     (if se_state e AND (STATE_CYCLE OR STATE_HOMING OR STATE_HOLD OR STATE_JOG OR STATE_SAFETY_DOOR) \<noteq> 0
      then st_current_speed (g_planner g) * pr_rate_multiplier (g_prep g) else 0)"

end
