(* ===== verification/StepperLine.thy ===== *)
theory StepperLine
  imports Stepper
begin

text \<open>
  The step interrupt as a machine that works off a list of ticks, and the line it draws: at every
  interrupt every axis is within half a step of the straight line of the block, at the end it has made
  exactly its steps, whatever the levels of step smoothing of the segments are and whatever the main
  program adds meanwhile.
\<close>

section \<open>The ticks to come\<close>

text \<open>The segments from the tail of the ring to its head.\<close>

definition pending :: "stepgen \<Rightarrow> segment list" where
  "pending g =
     (let n = length (g_segments g)
      in map (\<lambda>j. g_segments g ! ((g_tail g + j) mod n)) [0..<(g_head g + n - g_tail g) mod n])"

text \<open>A tick: the block it belongs to and the level of smoothing.\<close>

type_synonym tick = "nat \<times> nat"

definition segment_ticks :: "segment \<Rightarrow> tick list" where
  "segment_ticks s = replicate (unat (sg_n_step s)) (sg_exec_block s, sg_amass_level s)"

definition in_segment :: "stepgen \<Rightarrow> bool" where
  "in_segment g \<longleftrightarrow> st_exec_block (g_st g) \<noteq> None \<and> st_exec_segment (g_st g) \<noteq> None \<and> st_step_count (g_st g) \<noteq> 0"

definition upcoming :: "stepgen \<Rightarrow> tick list" where
  "upcoming g =
     (if in_segment g
      then replicate (unat (st_step_count (g_st g))) (sg_exec_block (hd (pending g)), sg_amass_level (hd (pending g)))
        @ concat (map segment_ticks (tl (pending g)))
      else concat (map segment_ticks (pending g)))"

text \<open>What holds of the ring and of the segment in execution, which stays in the ring to its end.\<close>

definition segments_ok :: "stepgen \<Rightarrow> bool" where
  "segments_ok g \<longleftrightarrow>
     0 < length (g_segments g) \<and> g_tail g < length (g_segments g) \<and> g_head g < length (g_segments g)
     \<and> (\<forall>s \<in> set (pending g). sg_n_step s \<noteq> 0 \<and> sg_amass_level s \<le> MAX_AMASS_LEVEL
          \<and> sg_exec_block s < length (g_blocks g)
          \<and> length (sb_direction (g_blocks g ! sg_exec_block s)) = N_AXIS)
     \<and> length (st_dir_out (g_st g)) = N_AXIS
     \<and> (st_exec_segment (g_st g) \<noteq> None \<longrightarrow> st_exec_block (g_st g) \<noteq> None)
     \<and> (in_segment g \<longrightarrow> pending g \<noteq> [] \<and> st_exec_block (g_st g) = Some (sg_exec_block (hd (pending g)))
          \<and> st_amass_level (g_st g) = sg_amass_level (hd (pending g))
          \<and> st_steps (g_st g) = map (drop_bit (sg_amass_level (hd (pending g)))) (sb_steps (g_blocks g ! sg_exec_block (hd (pending g)))))"

lemma pending_Nil: "segments_ok g \<Longrightarrow> pending g = [] \<longleftrightarrow> g_tail g = g_head g"
proof -
  assume "segments_ok g"
  then have "(g_head g + length (g_segments g) - g_tail g) mod length (g_segments g) = 0 \<longleftrightarrow> g_tail g = g_head g"
    by (cases "g_tail g \<le> g_head g") (auto simp: segments_ok_def mod_if)
  then show ?thesis by (simp add: pending_def Let_def)
qed

lemma pending_Cons:
  assumes "g_tail g < length (g_segments g)" "g_head g < length (g_segments g)" "g_tail g \<noteq> g_head g"
  shows "pending g = g_segments g ! g_tail g # pending (g\<lparr>g_tail := next_segment g (g_tail g)\<rparr>)"
proof -
  define n where "n = length (g_segments g)"
  define t where "t = g_tail g"
  have l: "t < n" "g_head g < n" "t \<noteq> g_head g" using assms by (simp_all add: n_def t_def)
  have t': "next_segment g t = (t + 1) mod n" using l by (auto simp: next_segment_def n_def mod_if)
  have len: "(g_head g + n - t) mod n = Suc ((g_head g + n - (t + 1) mod n) mod n)"
    using l by (cases "t < g_head g") (auto simp: mod_if)
  have "(t + Suc j) mod n = ((t + 1) mod n + j) mod n" for j by (simp add: mod_add_left_eq)
  then show ?thesis
    using l by (simp add: pending_def Let_def t' len t_def [symmetric] n_def [symmetric] upt_conv_Cons map_Suc_upt [symmetric] del: upt_Suc)
qed

section \<open>What the parts of the interrupt change\<close>

text \<open>Outputs other than pulses.\<close>

definition is_pulse :: "step_output \<Rightarrow> bool" where
  "is_pulse x \<longleftrightarrow> (case x of PulseStart _ _ _ \<Rightarrow> True | _ \<Rightarrow> False)"

definition no_pulse :: "step_output list \<Rightarrow> bool" where
  "no_pulse xs \<longleftrightarrow> (\<forall>x \<in> set xs. \<not> is_pulse x)"

lemma no_pulse_simps [simp]:
  "no_pulse []" "no_pulse (x # xs) \<longleftrightarrow> \<not> is_pulse x \<and> no_pulse xs" "no_pulse (xs @ ys) \<longleftrightarrow> no_pulse xs \<and> no_pulse ys"
  by (auto simp: no_pulse_def)

lemma is_pulse_simps [simp]:
  "is_pulse (PulseStart n out dir)" "\<not> is_pulse (CyclesPerTick c)" "\<not> is_pulse (UpdatePwm k p)" "\<not> is_pulse (UpdateRpm k r)"
  "\<not> is_pulse ReportOffsetChanged" "\<not> is_pulse (MessageTask m)" "\<not> is_pulse (MessageFreed m)" "\<not> is_pulse (SetExecState x)"
  "\<not> is_pulse (run_command x1)"
  by (simp_all add: is_pulse_def run_command_def)

lemma emit_commands:
  "fold (\<lambda>c g. step_emit (run_command (g_commands g c)) g) cs g =
   g\<lparr>g_outputs := g_outputs g @ map (\<lambda>c. run_command (g_commands g c)) cs\<rparr>"
  by (induction cs arbitrary: g) (simp_all add: step_emit_def)

lemma direction_taken:
  "length d = length d' \<Longrightarrow> (if True \<in> set (map2 (\<noteq>) d d') then d' else d) = d'"
  by (induction d d' rule: list_induct2) (auto split: if_splits)

text \<open>The conditional outputs as lists, so that no case has to be split.\<close>

lemma emit_cases:
  "(case x of Some j \<Rightarrow> if P j then step_emit y h else h | None \<Rightarrow> h) =
    h\<lparr>g_outputs := g_outputs h @ (case x of Some j \<Rightarrow> if P j then [y] else [] | None \<Rightarrow> [])\<rparr>"
  "(case m of Some t \<Rightarrow> step_emit (q t) h | None \<Rightarrow> h) =
    h\<lparr>g_outputs := g_outputs h @ (case m of Some t \<Rightarrow> [q t] | None \<Rightarrow> [])\<rparr>"
  "(if b then h\<lparr>g_override_control := oc\<rparr> else h) = h\<lparr>g_override_control := (if b then oc else g_override_control h)\<rparr>"
  "(if c \<noteq> g_isr_cycles h then step_emit (CyclesPerTick c) (h\<lparr>g_isr_cycles := c\<rparr>) else h) =
    h\<lparr>g_isr_cycles := c, g_outputs := g_outputs h @ (if c \<noteq> g_isr_cycles h then [CyclesPerTick c] else [])\<rparr>"
  "(case x of Some _ \<Rightarrow> step_emit y h | None \<Rightarrow> (case z of Some _ \<Rightarrow> step_emit w h | None \<Rightarrow> h)) =
    h\<lparr>g_outputs := g_outputs h @ (case x of Some _ \<Rightarrow> [y] | None \<Rightarrow> (case z of Some _ \<Rightarrow> [w] | None \<Rightarrow> []))\<rparr>"
  by (simp_all add: step_emit_def split: option.split)

lemma load_block_effect:
  assumes "length (st_dir_out (g_st g)) = length (sb_direction (g_blocks g ! k))"
  shows "\<exists>outs oc d. load_block e k g = g\<lparr>g_st := (g_st g)\<lparr>st_dir_changed := d,
        st_dir_out := sb_direction (g_blocks g ! k), st_exec_block := Some k,
        st_step_event_count := sb_step_event_count (g_blocks g ! k), st_new_block := True,
        st_counter := replicate N_AXIS (drop_bit 1 (sb_step_event_count (g_blocks g ! k)))\<rparr>,
      g_blocks := (g_blocks g)[k := (g_blocks g ! k)\<lparr>sb_output_commands := [], sb_message := None\<rparr>],
      g_override_control := oc, g_outputs := g_outputs g @ outs\<rparr> \<and> no_pulse outs"
proof -
  let ?b = "g_blocks g ! k"
  let ?wco = "case st_exec_block (g_st g) of
      Some j \<Rightarrow> if sb_offset_id (g_blocks g ! j) \<noteq> sb_offset_id ?b then [ReportOffsetChanged] else [] | None \<Rightarrow> []"
  let ?msg = "case sb_message ?b of Some m \<Rightarrow> [if se_task_room e then MessageTask m else MessageFreed m] | None \<Rightarrow> []"
  let ?cmd = "map (\<lambda>c. run_command (g_commands g c)) (sb_output_commands ?b)"
  have "load_block e k g = g\<lparr>g_st := (g_st g)\<lparr>st_dir_changed := map2 (\<noteq>) (st_dir_out (g_st g)) (sb_direction ?b),
        st_dir_out := sb_direction ?b, st_exec_block := Some k,
        st_step_event_count := sb_step_event_count ?b, st_new_block := True,
        st_counter := replicate N_AXIS (drop_bit 1 (sb_step_event_count ?b))\<rparr>,
      g_blocks := (g_blocks g)[k := ?b\<lparr>sb_output_commands := [], sb_message := None\<rparr>],
      g_override_control := (if bit (sb_overrides ?b) 14 then sb_overrides ?b else g_override_control g),
      g_outputs := g_outputs g @ ?wco @ ?cmd @ ?msg\<rparr>"
    unfolding load_block_def Let_def emit_cases emit_commands direction_taken [OF assms] upd_st_def upd_st_block_def
    by (simp cong: option.case_cong)
  moreover have "no_pulse (?wco @ ?cmd @ ?msg)" by (auto simp: no_pulse_def split: option.splits)
  ultimately show ?thesis by blast
qed

text \<open>The block of a tick, reduced to what the line needs.\<close>

definition same_line :: "st_block \<Rightarrow> st_block \<Rightarrow> bool" where
  "same_line b b' \<longleftrightarrow> sb_steps b' = sb_steps b \<and> sb_step_event_count b' = sb_step_event_count b \<and> sb_direction b' = sb_direction b"

text \<open>The stepper when a tick of block \<open>k\<close> at level \<open>l\<close> is drawn.\<close>

definition drawing :: "stepgen \<Rightarrow> nat \<Rightarrow> nat \<Rightarrow> stepper" where
  "drawing g k l =
     (let s = g_st g; b = g_blocks g ! k;
          s = (if st_exec_block s \<noteq> Some k
               then s\<lparr>st_dir_out := sb_direction b, st_exec_block := Some k, st_step_event_count := sb_step_event_count b,
                      st_counter := replicate N_AXIS (drop_bit 1 (sb_step_event_count b))\<rparr> else s)
      in s\<lparr>st_steps := map (drop_bit l) (sb_steps b)\<rparr>)"

lemma drawing_fields:
  "st_counter (drawing g k l) = (if st_exec_block (g_st g) \<noteq> Some k
     then replicate N_AXIS (drop_bit 1 (sb_step_event_count (g_blocks g ! k))) else st_counter (g_st g))"
  "st_step_event_count (drawing g k l) = (if st_exec_block (g_st g) \<noteq> Some k
     then sb_step_event_count (g_blocks g ! k) else st_step_event_count (g_st g))"
  "st_dir_out (drawing g k l) = (if st_exec_block (g_st g) \<noteq> Some k
     then sb_direction (g_blocks g ! k) else st_dir_out (g_st g))"
  "st_exec_block (drawing g k l) = Some k"
  "st_steps (drawing g k l) = map (drop_bit l) (sb_steps (g_blocks g ! k))"
  unfolding drawing_def Let_def by simp_all

text \<open>The pulses of an axis, with those the next interrupt puts out.\<close>

definition pulses :: "stepgen \<Rightarrow> nat \<Rightarrow> nat" where
  "pulses g i = length (filter (\<lambda>x. case x of PulseStart _ out _ \<Rightarrow> out ! i | _ \<Rightarrow> False) (g_outputs g))"

definition pulses_due :: "stepgen \<Rightarrow> nat \<Rightarrow> nat" where
  "pulses_due g i = pulses g i + (if st_exec_block (g_st g) \<noteq> None \<and> st_step_out (g_st g) ! i then 1 else 0)"

lemma pulses_none: "no_pulse xs \<Longrightarrow> filter (\<lambda>x. case x of PulseStart _ out _ \<Rightarrow> out ! i | _ \<Rightarrow> False) xs = []"
  by (auto simp: no_pulse_def is_pulse_def filter_empty_conv split: step_output.splits)

text \<open>The segment that is loaded, and the pulses that have gone out before.\<close>

lemma pulse_phase_effect:
  "\<exists>n x. pulse_phase g = g\<lparr>g_st := (g_st g)\<lparr>st_new_block := n, st_exec_segment := x\<rparr>,
      g_outputs := g_outputs (pulse_phase g)\<rparr>
    \<and> (in_segment g \<longrightarrow> x = st_exec_segment (g_st g))
    \<and> (\<not> in_segment g \<longrightarrow> (st_exec_segment (g_st g) \<noteq> None \<longrightarrow> st_exec_block (g_st g) \<noteq> None) \<longrightarrow> x = None)
    \<and> pulses (pulse_phase g) i = pulses_due g i"
proof (cases "st_exec_block (g_st g)")
  case None
  then show ?thesis
    by (intro exI [of _ "st_new_block (g_st g)"] exI [of _ "st_exec_segment (g_st g)"])
      (simp add: pulse_phase_def in_segment_def pulses_due_def pulses_def)
next
  case (Some k)
  then show ?thesis
    by (intro exI [of _ False] exI [of _ "if st_step_count (g_st g) = 0 then None else st_exec_segment (g_st g)"])
      (auto simp add: pulse_phase_def in_segment_def pulses_due_def pulses_def Let_def upd_st_def step_emit_def)
qed

lemma load_segment_effect:
  fixes g
  defines "seg \<equiv> g_segments g ! g_tail g"
  defines "k \<equiv> sg_exec_block seg"
  assumes "length (st_dir_out (g_st g)) = length (sb_direction (g_blocks g ! k))"
  shows "\<exists>outs oc d n b x. load_segment e g = g\<lparr>g_st := (drawing g k (sg_amass_level seg))\<lparr>
        st_dir_changed := d, st_new_block := n, st_exec_segment := Some (g_tail g), st_step_count := sg_n_step seg,
        st_amass_level := sg_amass_level seg\<rparr>,
      g_blocks := (g_blocks g)[k := b], g_isr_cycles := x, g_override_control := oc, g_outputs := g_outputs g @ outs\<rparr>
    \<and> same_line (g_blocks g ! k) b \<and> no_pulse outs"
proof -
  let ?cyc = "if sg_cycles_per_tick seg \<noteq> g_isr_cycles g then [CyclesPerTick (sg_cycles_per_tick seg)] else []"
  define h where "h = g\<lparr>g_st := (g_st g)\<lparr>st_exec_segment := Some (g_tail g), st_step_count := sg_n_step seg\<rparr>,
    g_isr_cycles := sg_cycles_per_tick seg, g_outputs := g_outputs g @ ?cyc\<rparr>"
  define h2 where "h2 = (if st_exec_block (g_st h) \<noteq> Some k then load_block e k h else h)"
  define b where "b = g_blocks h2 ! k"
  define h3 where "h3 = upd_st (\<lambda>s. s\<lparr>st_amass_level := sg_amass_level seg,
      st_steps := map (drop_bit (sg_amass_level seg)) (sb_steps b)\<rparr>) h2"
  let ?pwm = "case sg_update_pwm seg of Some _ \<Rightarrow> [UpdatePwm (sb_spindle b) (sg_spindle_pwm seg)]
    | None \<Rightarrow> (case sg_update_rpm seg of Some _ \<Rightarrow> [UpdateRpm (sb_spindle b) (sg_spindle_rpm seg)] | None \<Rightarrow> [])"
  have h: "upd_st (\<lambda>s. s\<lparr>st_step_count := sg_n_step seg\<rparr>)
      (if sg_cycles_per_tick seg \<noteq> g_isr_cycles (upd_st (\<lambda>s. s\<lparr>st_exec_segment := Some (g_tail g)\<rparr>) g)
       then step_emit (CyclesPerTick (sg_cycles_per_tick seg))
         (upd_st (\<lambda>s. s\<lparr>st_exec_segment := Some (g_tail g)\<rparr>) g\<lparr>g_isr_cycles := sg_cycles_per_tick seg\<rparr>)
       else upd_st (\<lambda>s. s\<lparr>st_exec_segment := Some (g_tail g)\<rparr>) g) = h"
    unfolding emit_cases(4) by (simp add: h_def upd_st_def)
  have l: "load_segment e g = h3\<lparr>g_outputs := g_outputs h3 @ ?pwm\<rparr>"
    unfolding load_segment_def Let_def seg_def [symmetric] h k_def [symmetric] h2_def [symmetric] b_def [symmetric]
      h3_def [symmetric] by (rule emit_cases(5))
  have hk: "g_blocks h = g_blocks g" "st_dir_out (g_st h) = st_dir_out (g_st g)" "st_exec_block (g_st h) = st_exec_block (g_st g)"
    by (simp_all add: h_def)
  have "\<exists>outs oc d n c. h2 = h\<lparr>g_st := (let s = g_st h; b = g_blocks g ! k in if st_exec_block (g_st g) \<noteq> Some k
        then s\<lparr>st_dir_out := sb_direction b, st_exec_block := Some k, st_step_event_count := sb_step_event_count b,
               st_counter := replicate N_AXIS (drop_bit 1 (sb_step_event_count b))\<rparr> else s)\<lparr>st_dir_changed := d, st_new_block := n\<rparr>,
      g_blocks := (g_blocks g)[k := c], g_override_control := oc, g_outputs := g_outputs h @ outs\<rparr>
      \<and> same_line (g_blocks g ! k) c \<and> no_pulse outs"
  proof (cases "st_exec_block (g_st g) \<noteq> Some k")
    case True
    obtain outs oc d where b: "load_block e k h = h\<lparr>g_st := (g_st h)\<lparr>st_dir_changed := d,
        st_dir_out := sb_direction (g_blocks g ! k), st_exec_block := Some k,
        st_step_event_count := sb_step_event_count (g_blocks g ! k), st_new_block := True,
        st_counter := replicate N_AXIS (drop_bit 1 (sb_step_event_count (g_blocks g ! k)))\<rparr>,
      g_blocks := (g_blocks g)[k := (g_blocks g ! k)\<lparr>sb_output_commands := [], sb_message := None\<rparr>],
      g_override_control := oc, g_outputs := g_outputs h @ outs\<rparr>" "no_pulse outs"
      using load_block_effect [of h k e] assms(3) unfolding hk by blast
    show ?thesis
      by (rule exI [of _ outs], rule exI [of _ oc], rule exI [of _ d], rule exI [of _ True],
          rule exI [of _ "(g_blocks g ! k)\<lparr>sb_output_commands := [], sb_message := None\<rparr>"])
        (use True b in \<open>simp add: h2_def hk Let_def same_line_def\<close>)
  next
    case False
    show ?thesis
      by (rule exI [of _ "[]"], rule exI [of _ "g_override_control h"], rule exI [of _ "st_dir_changed (g_st h)"],
          rule exI [of _ "st_new_block (g_st h)"], rule exI [of _ "g_blocks g ! k"])
        (use False in \<open>simp add: h2_def h_def Let_def same_line_def\<close>)
  qed
  then obtain outs oc d n c where h2: "h2 = h\<lparr>g_st := (let s = g_st h; b = g_blocks g ! k in if st_exec_block (g_st g) \<noteq> Some k
        then s\<lparr>st_dir_out := sb_direction b, st_exec_block := Some k, st_step_event_count := sb_step_event_count b,
               st_counter := replicate N_AXIS (drop_bit 1 (sb_step_event_count b))\<rparr> else s)\<lparr>st_dir_changed := d, st_new_block := n\<rparr>,
      g_blocks := (g_blocks g)[k := c], g_override_control := oc, g_outputs := g_outputs h @ outs\<rparr>"
    "same_line (g_blocks g ! k) c" "no_pulse outs" by blast
  have bc: "sb_steps b = sb_steps (g_blocks g ! k)"
    using h2 by (cases "k < length (g_blocks g)") (simp_all add: b_def same_line_def not_less list_update_beyond)
  have np: "no_pulse ?pwm" by (simp split: option.split)
  show ?thesis
    by (rule exI [of _ "?cyc @ outs @ ?pwm"], rule exI [of _ oc], rule exI [of _ d], rule exI [of _ n],
        rule exI [of _ c], rule exI [of _ "sg_cycles_per_tick seg"])
      (use h2 np in \<open>simp add: l h3_def upd_st_def bc drawing_def Let_def h_def\<close>)
qed

section \<open>One interrupt\<close>

text \<open>What a tick that is drawn leaves, given the stepper \<open>s\<close> it is drawn with.\<close>

definition drawn :: "step_env \<Rightarrow> stepper \<Rightarrow> stepgen \<Rightarrow> stepgen \<Rightarrow> bool" where
  "drawn e s g g' \<longleftrightarrow>
     (let r = map (bresenham_axis s) [0..<N_AXIS]; out = map snd r
      in st_exec_block (g_st g') = st_exec_block s \<and> st_dir_out (g_st g') = st_dir_out s
         \<and> st_step_event_count (g_st g') = st_step_event_count s \<and> st_counter (g_st g') = map fst r
         \<and> st_step_out (g_st g') = (if se_is_homing e then map2 (\<and>) out (se_homing_axis_lock e) else out)
         \<and> sys_position (g_planner g') =
             map (\<lambda>i. step_position (out ! i) (st_dir_out s ! i) (sys_position (g_planner g) ! i)) [0..<N_AXIS])"

lemma probe_effect:
  "\<exists>b p outs. probe_check e g = g\<lparr>g_probing := b, g_probe_position := p, g_outputs := g_outputs g @ outs\<rparr> \<and> no_pulse outs"
proof (cases "g_probing g \<and> se_probe_triggered e")
  case True
  then show ?thesis
    by (intro exI [of _ False] exI [of _ "sys_position (g_planner g)"] exI [of _ "[SetExecState EXEC_MOTION_CANCEL]"])
      (simp add: probe_check_def step_emit_def)
next
  case False
  then show ?thesis
    by (intro exI [of _ "g_probing g"] exI [of _ "g_probe_position g"] exI [of _ "[]"]) (auto simp: probe_check_def)
qed

lemma tick_effect:
  fixes e :: step_env and h :: stepgen
  assumes ok: "g_tail h < length (g_segments h)" "g_head h < length (g_segments h)" "g_tail h \<noteq> g_head h"
    and count: "st_step_count (g_st h) \<noteq> 0" and exec: "st_exec_segment (g_st h) \<noteq> None"
  defines "g' \<equiv> count_step (bresenham e (probe_check e h))"
  shows "drawn e (g_st h) h g'" "g_blocks g' = g_blocks h" "g_segments g' = g_segments h" "g_head g' = g_head h"
    "st_step_count (g_st g') = st_step_count (g_st h) - 1" "st_exec_segment (g_st g') \<noteq> None"
    "st_amass_level (g_st g') = st_amass_level (g_st h)" "st_steps (g_st g') = st_steps (g_st h)"
    "g_tail g' = (if st_step_count (g_st h) = 1 then next_segment h (g_tail h) else g_tail h)"
    "pulses g' i = pulses h i"
proof -
  obtain b p outs where pr: "probe_check e h = h\<lparr>g_probing := b, g_probe_position := p, g_outputs := g_outputs h @ outs\<rparr>" "no_pulse outs"
    using probe_effect by blast
  note defs = g'_def count_step_def bresenham_def upd_st_def upd_planner_def Let_def pr(1)
  have one: "st_step_count (g_st h) - 1 = 0 \<longleftrightarrow> st_step_count (g_st h) = 1" by (simp add: right_minus_eq)
  show "drawn e (g_st h) h g'" using count by (simp add: defs drawn_def)
  show "g_blocks g' = g_blocks h" "g_segments g' = g_segments h" "g_head g' = g_head h"
    "st_step_count (g_st g') = st_step_count (g_st h) - 1" "st_exec_segment (g_st g') \<noteq> None"
    "st_amass_level (g_st g') = st_amass_level (g_st h)" "st_steps (g_st g') = st_steps (g_st h)"
    using count exec by (simp_all add: defs)
  show "g_tail g' = (if st_step_count (g_st h) = 1 then next_segment h (g_tail h) else g_tail h)"
    using count by (simp add: defs one next_segment_def)
  show "pulses g' i = pulses h i" using count pulses_none [OF pr(2)] by (simp add: defs pulses_def)
qed

text \<open>The ticks left after one is drawn in the first segment of the ring.\<close>

lemma tick_upcoming:
  fixes e :: step_env and h :: stepgen
  assumes ok: "g_tail h < length (g_segments h)" "g_head h < length (g_segments h)" "g_tail h \<noteq> g_head h"
    and t: "pending h = seg # rest" "st_exec_block (g_st h) = Some (sg_exec_block seg)" "st_exec_segment (g_st h) \<noteq> None"
    and count: "st_step_count (g_st h) \<noteq> 0"
    and data: "length (st_dir_out (g_st h)) = N_AXIS" "st_amass_level (g_st h) = sg_amass_level seg"
      "st_steps (g_st h) = map (drop_bit (sg_amass_level seg)) (sb_steps (g_blocks h ! sg_exec_block seg))"
    and segs: "\<forall>s \<in> set (pending h). sg_n_step s \<noteq> 0 \<and> sg_amass_level s \<le> MAX_AMASS_LEVEL
          \<and> sg_exec_block s < length (g_blocks h) \<and> length (sb_direction (g_blocks h ! sg_exec_block s)) = N_AXIS"
  defines "g' \<equiv> count_step (bresenham e (probe_check e h))"
  shows "segments_ok g'"
    and "upcoming g' = replicate (unat (st_step_count (g_st h)) - 1) (sg_exec_block seg, sg_amass_level seg) @ concat (map segment_ticks rest)"
proof -
  note te = tick_effect [OF ok count t(3), of e, folded g'_def]
  let ?n = "st_step_count (g_st h)"
  have st: "st_exec_block (g_st g') = Some (sg_exec_block seg)" "st_dir_out (g_st g') = st_dir_out (g_st h)"
    using te(1) t(2) by (simp_all add: drawn_def Let_def)
  have rest: "pending (h\<lparr>g_tail := next_segment h (g_tail h)\<rparr>) = rest" using pending_Cons [OF ok] t(1) by simp
  have pend: "pending g' = (if ?n = 1 then rest else seg # rest)"
    using te(3,4,9) rest t(1) by (simp add: pending_def Let_def)
  have nxt: "next_segment h (g_tail h) < length (g_segments h)" using ok by (auto simp: next_segment_def)
  have un: "unat (?n - 1) = unat ?n - 1" using count unat_sub [of 1 ?n] by (simp add: unat_gt_0 [symmetric] Suc_leI word_le_nat_alt)
  show "segments_ok g'"
    unfolding segments_ok_def in_segment_def
    using ok nxt te(2-9) st data segs pend t(1) by (auto simp: segments_ok_def split: if_splits)
  show "upcoming g' = replicate (unat ?n - 1) (sg_exec_block seg, sg_amass_level seg) @ concat (map segment_ticks rest)"
  proof (cases "?n = 1")
    case True
    then show ?thesis using te(5) pend by (simp add: upcoming_def in_segment_def)
  next
    case False
    then have "?n - 1 \<noteq> 0" by (simp add: right_minus_eq)
    then show ?thesis using False te(5,6) st(1) pend un by (simp add: upcoming_def in_segment_def)
  qed
qed

text \<open>
  An interrupt takes the first of the ticks to come and draws it; the pulses it puts out are those due
  before.
\<close>

lemma isr_tick:
  assumes "segments_ok g" "upcoming g = (k, l) # u"
  shows "\<exists>g'. stepper_driver_interrupt_handler e g = Done g' \<and> segments_ok g' \<and> upcoming g' = u
    \<and> drawn e (drawing g k l) g g' \<and> length (g_blocks g') = length (g_blocks g)
    \<and> (\<forall>j. same_line (g_blocks g ! j) (g_blocks g' ! j)) \<and> pulses g' i = pulses_due g i"
proof -
  let ?p = "pulse_phase g"
  obtain n x where p: "?p = g\<lparr>g_st := (g_st g)\<lparr>st_new_block := n, st_exec_segment := x\<rparr>, g_outputs := g_outputs ?p\<rparr>"
      "in_segment g \<longrightarrow> x = st_exec_segment (g_st g)" "\<not> in_segment g \<longrightarrow> x = None" "pulses ?p i = pulses_due g i"
    using pulse_phase_effect [of g i] assms(1) unfolding segments_ok_def by metis
  have f: "g_tail ?p = g_tail g" "g_head ?p = g_head g" "g_segments ?p = g_segments g" "g_blocks ?p = g_blocks g"
    "g_planner ?p = g_planner g" "g_st ?p = (g_st g)\<lparr>st_new_block := n, st_exec_segment := x\<rparr>"
    by (subst p(1), simp)+
  have pend: "pending ?p = pending g" by (simp add: pending_def f)
  note ok = assms(1) [unfolded segments_ok_def]
  have "pending g \<noteq> []" using assms(2) ok by (auto simp: upcoming_def split: if_splits)
  then obtain seg rest where seg: "pending g = seg # rest" by (cases "pending g") auto
  then have ne: "g_tail g \<noteq> g_head g" using pending_Nil [OF assms(1)] by auto
  then have hd: "seg = g_segments g ! g_tail g" using pending_Cons [of g] ok seg by simp
  have s0: "sg_n_step seg \<noteq> 0" "sg_exec_block seg < length (g_blocks g)"
    "length (sb_direction (g_blocks g ! sg_exec_block seg)) = N_AXIS" using ok seg by auto
  show ?thesis
  proof (cases "in_segment g")
    case True
    then have x: "x \<noteq> None" "st_step_count (g_st g) \<noteq> 0" using p(2) by (auto simp: in_segment_def)
    let ?g = "count_step (bresenham e (probe_check e ?p))"
    have kl: "k = sg_exec_block seg" "l = sg_amass_level seg"
        "u = replicate (unat (st_step_count (g_st g)) - 1) (k, l) @ concat (map segment_ticks rest)"
      using assms(2) True seg x(2) by (cases "unat (st_step_count (g_st g))"; auto simp: upcoming_def unat_eq_0)+
    have inn: "st_exec_block (g_st g) = Some k" "st_amass_level (g_st g) = l"
        "st_steps (g_st g) = map (drop_bit l) (sb_steps (g_blocks g ! k))"
      using ok True seg kl by auto
    have isr: "stepper_driver_interrupt_handler e g = Done ?g"
      using x(1) by (auto simp: stepper_driver_interrupt_handler_def Let_def f)
    have draw: "drawn e (drawing g k l) g ?g"
    proof -
      have "drawn e (g_st ?p) ?p ?g" by (rule tick_effect) (use ok ne x in \<open>auto simp: f\<close>)
      moreover have "bresenham_axis (drawing g k l) = bresenham_axis (g_st ?p)"
        using inn by (simp add: fun_eq_iff bresenham_axis_def drawing_def Let_def f)
      ultimately show ?thesis using inn by (simp add: drawn_def Let_def drawing_def f)
    qed
    have te: "g_blocks ?g = g_blocks ?p" "pulses ?g i = pulses ?p i"
      by (rule tick_effect; use ok ne x in \<open>auto simp: f\<close>)+
    have "segments_ok ?g" "upcoming ?g = u"
      using tick_upcoming [of ?p seg rest e] ok ne x seg kl inn by (auto simp: f pend)
    then show ?thesis using isr draw te p(4) by (intro exI [of _ ?g]) (auto simp: f same_line_def)
  next
    case False
    then have x: "x = None" using p(3) by blast
    have up: "concat (map segment_ticks (pending g)) = (k, l) # u" using assms(2) False by (simp add: upcoming_def)
    have kl: "k = sg_exec_block seg" "l = sg_amass_level seg"
        "u = replicate (unat (sg_n_step seg) - 1) (k, l) @ concat (map segment_ticks rest)"
      using up seg s0(1) by (cases "unat (sg_n_step seg)"; auto simp: segment_ticks_def unat_eq_0)+
    have dl: "length (st_dir_out (g_st ?p)) = length (sb_direction (g_blocks ?p ! sg_exec_block (g_segments ?p ! g_tail ?p)))"
      using ok s0 hd by (simp add: f)
    obtain outs oc d m b y where ld: "load_segment e ?p = ?p\<lparr>g_st := (drawing ?p k l)\<lparr>
        st_dir_changed := d, st_new_block := m, st_exec_segment := Some (g_tail g), st_step_count := sg_n_step seg,
        st_amass_level := l\<rparr>,
      g_blocks := (g_blocks g)[k := b], g_isr_cycles := y, g_override_control := oc, g_outputs := g_outputs ?p @ outs\<rparr>"
        "same_line (g_blocks g ! k) b" "no_pulse outs"
      using load_segment_effect [OF dl, of e] unfolding f hd [symmetric] kl(1,2) [symmetric] by blast
    let ?h = "load_segment e ?p"
    have hf: "g_tail ?h = g_tail g" "g_head ?h = g_head g" "g_segments ?h = g_segments g" "g_planner ?h = g_planner g"
      "g_blocks ?h = (g_blocks g)[k := b]" "g_st ?h = (drawing ?p k l)\<lparr>
        st_dir_changed := d, st_new_block := m, st_exec_segment := Some (g_tail g), st_step_count := sg_n_step seg,
        st_amass_level := l\<rparr>" "pulses ?h i = pulses ?p i"
      using pulses_none [OF ld(3)] by (simp_all add: ld(1) f pulses_def)
    have sl: "same_line (g_blocks g ! j) ((g_blocks g)[k := b] ! j)" for j
      using ld(2) by (cases "j < length (g_blocks g)"; cases "j = k") (auto simp: same_line_def list_update_beyond)
    have pendh: "pending ?h = pending g" by (simp add: pending_def hf)
    let ?g = "count_step (bresenham e (probe_check e ?h))"
    have isr: "stepper_driver_interrupt_handler e g = Done ?g"
      using x ne by (simp add: stepper_driver_interrupt_handler_def Let_def f)
    have dp: "bresenham_axis (g_st ?h) = bresenham_axis (drawing g k l)" "st_dir_out (g_st ?h) = st_dir_out (drawing g k l)"
      "st_exec_block (g_st ?h) = st_exec_block (drawing g k l)" "st_exec_block (g_st ?h) = Some k"
      "st_step_event_count (g_st ?h) = st_step_event_count (drawing g k l)"
      "st_steps (g_st ?h) = map (drop_bit l) (sb_steps (g_blocks g ! k))" "length (st_dir_out (g_st ?h)) = N_AXIS"
      using s0(3) ok by (auto simp: fun_eq_iff bresenham_axis_def hf drawing_def Let_def f kl(1))
    have draw: "drawn e (drawing g k l) g ?g"
    proof -
      have "drawn e (g_st ?h) ?h ?g" by (rule tick_effect) (use ok ne s0 in \<open>auto simp: hf\<close>)
      then show ?thesis using dp by (simp add: drawn_def Let_def hf(4))
    qed
    have te: "g_blocks ?g = g_blocks ?h" "pulses ?g i = pulses ?h i"
      by (rule tick_effect; use ok ne s0 in \<open>auto simp: hf\<close>)+
    have "sb_steps ((g_blocks g)[k := b] ! k) = sb_steps (g_blocks g ! k)" using sl [of k] by (simp add: same_line_def)
    moreover have "length (sb_direction ((g_blocks g)[k := b] ! j)) = length (sb_direction (g_blocks g ! j))" for j
      using sl [of j] by (simp add: same_line_def)
    ultimately have "segments_ok ?g \<and> upcoming ?g = u"
      using tick_upcoming [of ?h seg rest e] ok ne s0 seg dp(4,6,7) unfolding pendh hf kl(1,2) [symmetric] kl(3) by auto
    then show ?thesis using isr draw te p(4) hf(7) sl by (intro exI [of _ ?g]) (auto simp: hf(5))
  qed
qed

section \<open>The line\<close>

text \<open>A block of \<open>c\<close> step events with \<open>n ! i\<close> steps on axis \<open>i\<close>, scaled for the smoothing.\<close>

definition line_data_ok :: "st_block \<Rightarrow> nat \<Rightarrow> nat list \<Rightarrow> bool" where
  "line_data_ok b c n \<longleftrightarrow>
     0 < c \<and> c < 2 ^ 28 \<and> unat (sb_step_event_count b) = 8 * c \<and> length (sb_steps b) = N_AXIS
     \<and> (\<forall>i < N_AXIS. n ! i \<le> c \<and> unat (sb_steps b ! i) = 8 * n ! i)"

text \<open>The part of a step event a tick makes, in eighths.\<close>

definition eighths :: "tick \<Rightarrow> nat" where
  "eighths t = 2 ^ (MAX_AMASS_LEVEL - snd t)"

lemma bresenham_axis_step:
  assumes "unat (st_counter s ! i) \<le> e" "unat (st_steps s ! i) \<le> e" "unat (st_step_event_count s) = e" "2 * e < 2 ^ 32"
  shows "unat (fst (bresenham_axis s i)) \<le> e"
    and "e * of_bool (snd (bresenham_axis s i)) + unat (fst (bresenham_axis s i)) = unat (st_counter s ! i) + unat (st_steps s ! i)"
proof -
  let ?c = "st_counter s ! i" and ?q = "st_steps s ! i" and ?e = "st_step_event_count s"
  have sum: "unat (?c + ?q) = unat ?c + unat ?q" using assms by (simp add: unat_word_ariths)
  have sub: "unat (?c + ?q - ?e) = unat (?c + ?q) - unat ?e" if "?c + ?q > ?e"
    using that by (intro unat_sub) simp
  have gt: "?c + ?q > ?e \<longleftrightarrow> e < unat ?c + unat ?q" using sum assms(3) by (simp add: word_less_nat_alt)
  show "unat (fst (bresenham_axis s i)) \<le> e"
    using assms sum sub gt by (auto simp: bresenham_axis_def Let_def)
  show "e * of_bool (snd (bresenham_axis s i)) + unat (fst (bresenham_axis s i)) = unat ?c + unat ?q"
    using assms sum sub gt by (auto simp: bresenham_axis_def Let_def)
qed

lemma unat_drop_bit: "unat (drop_bit l (w :: u32)) = unat w div 2 ^ l"
  using unat_drop_bit_eq [of l w] by (simp add: drop_bit_eq_div)

text \<open>
  After \<open>d\<close> eighths of step events each axis has made its share of steps, its counter what is left of
  it, starting in the middle.
\<close>

definition on_line ::
  "bool \<Rightarrow> nat \<Rightarrow> nat \<Rightarrow> nat list \<Rightarrow> bool list \<Rightarrow> int list \<Rightarrow> (nat \<Rightarrow> nat) \<Rightarrow> nat \<Rightarrow> stepgen \<Rightarrow> bool" where
  "on_line homing k c n dir start p0 d g \<longleftrightarrow>
     (let s = drawing g k 0
      in unat (st_step_event_count s) = 8 * c \<and> st_dir_out s = dir \<and> length (sys_position (g_planner g)) = N_AXIS
         \<and> (\<forall>i < N_AXIS. unat (st_counter s ! i) \<le> 8 * c
             \<and> (\<exists>m. 8 * c * m + unat (st_counter s ! i) = 4 * c + n ! i * d
                 \<and> sys_position (g_planner g) ! i = start ! i + (if dir ! i then - int m else int m)
                 \<and> (homing \<or> pulses_due g i = p0 i + m))))"

lemma on_line_start:
  assumes "line_data_ok (g_blocks g ! k) c n" "st_exec_block (g_st g) \<noteq> Some k" "length (sys_position (g_planner g)) = N_AXIS"
  shows "on_line homing k c n (sb_direction (g_blocks g ! k)) (sys_position (g_planner g)) (pulses_due g) 0 g"
proof -
  have "unat (drop_bit 1 (sb_step_event_count (g_blocks g ! k))) = 4 * c"
    using assms(1) by (simp add: line_data_ok_def unat_drop_bit)
  then show ?thesis
    using assms by (auto simp: on_line_def drawing_def Let_def line_data_ok_def intro!: exI [of _ 0])
qed

lemma on_line_tick:
  assumes data: "line_data_ok (g_blocks g ! k) c n" and l: "l \<le> MAX_AMASS_LEVEL"
    and line: "on_line homing k c n dir start p0 d g"
    and drawn: "drawn e (drawing g k l) g g'" and p: "\<And>i. pulses g' i = pulses_due g i"
    and h: "se_is_homing e \<longrightarrow> homing"
  shows "on_line homing k c n dir start p0 (d + eighths (k, l)) g'"
proof -
  let ?s = "drawing g k l" and ?t = "drawing g k 0"
  have same: "st_counter ?s = st_counter ?t" "st_step_event_count ?s = st_step_event_count ?t" "st_dir_out ?s = st_dir_out ?t"
    "st_exec_block ?s = Some k" "st_steps ?s = map (drop_bit l) (sb_steps (g_blocks g ! k))"
    by (simp_all only: drawing_fields)
  note dr = drawn [unfolded drawn_def Let_def]
  have s': "st_counter (drawing g' k 0) = map (fst \<circ> bresenham_axis ?s) [0..<N_AXIS]"
    "st_step_event_count (drawing g' k 0) = st_step_event_count ?t" "st_dir_out (drawing g' k 0) = st_dir_out ?t"
    using dr same by (simp_all add: drawing_def Let_def)
  have on: "unat (st_step_event_count ?t) = 8 * c" "st_dir_out ?t = dir" "length (sys_position (g_planner g)) = N_AXIS"
    using line by (simp_all add: on_line_def Let_def)
  have axis: "unat (st_counter (drawing g' k 0) ! i) \<le> 8 * c \<and>
      (\<exists>m. 8 * c * m + unat (st_counter (drawing g' k 0) ! i) = 4 * c + n ! i * (d + eighths (k, l))
        \<and> sys_position (g_planner g') ! i = start ! i + (if dir ! i then - int m else int m)
        \<and> (homing \<or> pulses_due g' i = p0 i + m))" if i: "i < N_AXIS" for i
  proof -
    obtain m where m: "unat (st_counter ?t ! i) \<le> 8 * c" "8 * c * m + unat (st_counter ?t ! i) = 4 * c + n ! i * d"
        "sys_position (g_planner g) ! i = start ! i + (if dir ! i then - int m else int m)" "homing \<or> pulses_due g i = p0 i + m"
      using line i by (auto simp: on_line_def Let_def)
    have b: "n ! i \<le> c" "unat (sb_steps (g_blocks g ! k) ! i) = 8 * n ! i" "length (sb_steps (g_blocks g ! k)) = N_AXIS" "c < 2 ^ 28"
      using data i by (auto simp: line_data_ok_def)
    have q: "unat (st_steps ?s ! i) = n ! i * eighths (k, l)"
    proof -
      have e: "eighths (k, l) * 2 ^ l = 8"
        using l power_add [of "2 :: nat" "MAX_AMASS_LEVEL - l" l] by (simp add: eighths_def MAX_AMASS_LEVEL_def)
      have "8 * n ! i = n ! i * eighths (k, l) * 2 ^ l" by (simp add: mult.assoc e)
      from arg_cong [OF this, of "\<lambda>x. x div 2 ^ l"] have "8 * n ! i div 2 ^ l = n ! i * eighths (k, l)" by simp
      then show ?thesis using same(5) b i by (simp add: unat_drop_bit)
    qed
    have "eighths (k, l) \<le> 8" using power_increasing [of "3 - l" 3 "2 :: nat"] by (simp add: eighths_def MAX_AMASS_LEVEL_def)
    then have ql: "unat (st_steps ?s ! i) \<le> 8 * c" unfolding q using mult_le_mono [OF b(1), of "eighths (k, l)" 8] by simp
    let ?r = "bresenham_axis ?s i" and ?o = "of_bool (snd (bresenham_axis ?s i)) :: nat"
    have st: "unat (fst ?r) \<le> 8 * c" "8 * c * ?o + unat (fst ?r) = unat (st_counter ?t ! i) + n ! i * eighths (k, l)"
      using bresenham_axis_step [of ?s i "8 * c"] m(1) on(1) b(4) ql q unfolding same(1,2) by auto
    have c': "st_counter (drawing g' k 0) ! i = fst ?r" using i by (simp add: s'(1))
    have "8 * c * (m + ?o) + unat (fst ?r) = 4 * c + n ! i * (d + eighths (k, l))"
      using st(2) m(2) by (simp add: distrib_left)
    moreover have "sys_position (g_planner g') ! i = start ! i + (if dir ! i then - int (m + ?o) else int (m + ?o))"
      using dr i m(3) same(3) on(2) by (simp add: step_position_def)
    moreover have "homing \<or> pulses_due g' i = p0 i + (m + ?o)"
      using dr i m(4) h p [of i] same(4) by (auto simp: pulses_due_def)
    ultimately show ?thesis using st(1) unfolding c' by blast
  qed
  have "length (sys_position (g_planner g')) = N_AXIS" using dr by simp
  then show ?thesis using axis on s' by (simp add: on_line_def Let_def)
qed

section \<open>Interrupts and the main program\<close>

text \<open>
  What the main program may do between two interrupts while a motion runs: fill further segments into
  the ring and use blocks that are not in use.
\<close>

definition main_keeps :: "stepgen \<Rightarrow> stepgen \<Rightarrow> bool" where
  "main_keeps g g' \<longleftrightarrow>
     segments_ok g' \<and> g_st g' = g_st g \<and> sys_position (g_planner g') = sys_position (g_planner g)
     \<and> pulses g' = pulses g \<and> length (g_blocks g') = length (g_blocks g)
     \<and> (\<exists>more. upcoming g' = upcoming g @ more)
     \<and> (\<forall>k. Some k = st_exec_block (g_st g) \<or> k \<in> fst ` set (upcoming g) \<longrightarrow> same_line (g_blocks g ! k) (g_blocks g' ! k))"

text \<open>Interrupts with the main program at work between them; the flag says whether a homing cycle may be under way.\<close>

inductive interrupts :: "bool \<Rightarrow> nat \<Rightarrow> stepgen \<Rightarrow> stepgen \<Rightarrow> bool" for homing where
  none: "interrupts homing 0 g g"
| step: "interrupts homing n g g1 \<Longrightarrow> main_keeps g1 g2 \<Longrightarrow> (se_is_homing e \<longrightarrow> homing)
    \<Longrightarrow> stepper_driver_interrupt_handler e g2 = Done g3 \<Longrightarrow> interrupts homing (Suc n) g g3"

inductive_cases interrupts_SucE: "interrupts homing (Suc n) g g'"

lemma main_keeps_refl: "segments_ok g \<Longrightarrow> main_keeps g g"
  by (simp add: main_keeps_def same_line_def)

lemma on_line_main:
  assumes "on_line homing k c n dir start p0 d g" "main_keeps g g'" "same_line (g_blocks g ! k) (g_blocks g' ! k)"
  shows "on_line homing k c n dir start p0 d g'"
proof -
  have "drawing g' k 0 = drawing g k 0" using assms(2,3) by (simp add: main_keeps_def drawing_def same_line_def Let_def)
  moreover have "sys_position (g_planner g') = sys_position (g_planner g)" "pulses_due g' = pulses_due g"
    using assms(2) by (simp_all add: main_keeps_def pulses_due_def fun_eq_iff)
  ultimately show ?thesis using assms(1) by (simp add: on_line_def Let_def)
qed

lemma line_drawn:
  assumes ok: "segments_ok g" and up: "upcoming g = map (Pair k) ls @ rest"
    and data: "line_data_ok (g_blocks g ! k) c n" and new: "st_exec_block (g_st g) \<noteq> Some k"
    and pos: "length (sys_position (g_planner g)) = N_AXIS" and ls: "\<forall>l \<in> set ls. l \<le> MAX_AMASS_LEVEL"
  shows "interrupts homing j g g' \<Longrightarrow> j \<le> length ls \<Longrightarrow>
    segments_ok g' \<and> (\<exists>more. upcoming g' = map (Pair k) (drop j ls) @ rest @ more)
      \<and> line_data_ok (g_blocks g' ! k) c n \<and> (0 < j \<longrightarrow> st_exec_block (g_st g') = Some k)
      \<and> on_line homing k c n (sb_direction (g_blocks g ! k)) (sys_position (g_planner g)) (pulses_due g)
          (sum_list (map (\<lambda>l. eighths (k, l)) (take j ls))) g'"
proof (induction j arbitrary: g')
  case 0
  then have "g' = g" by (auto elim: interrupts.cases)
  then show ?case using ok up data on_line_start [OF data new pos] by simp
next
  case (Suc j)
  obtain g1 g2 e where s: "interrupts homing j g g1" "main_keeps g1 g2" "se_is_homing e \<longrightarrow> homing"
      "stepper_driver_interrupt_handler e g2 = Done g'" using Suc.prems(1) by (rule interrupts_SucE)
  have j: "j < length ls" using Suc.prems(2) by simp
  obtain more where IH: "segments_ok g1" "upcoming g1 = map (Pair k) (drop j ls) @ rest @ more" "line_data_ok (g_blocks g1 ! k) c n"
      "on_line homing k c n (sb_direction (g_blocks g ! k)) (sys_position (g_planner g)) (pulses_due g)
          (sum_list (map (\<lambda>l. eighths (k, l)) (take j ls))) g1"
    using Suc.IH [OF s(1)] j by auto
  have dj: "drop j ls = ls ! j # drop (Suc j) ls" using j by (simp add: Cons_nth_drop_Suc)
  have k: "same_line (g_blocks g1 ! k) (g_blocks g2 ! k)" using s(2) IH(2) dj by (simp add: main_keeps_def image_iff)
  obtain more2 where m: "segments_ok g2" "upcoming g2 = (k, ls ! j) # map (Pair k) (drop (Suc j) ls) @ rest @ more @ more2"
    using s(2) IH(2) dj by (auto simp: main_keeps_def)
  have d2: "line_data_ok (g_blocks g2 ! k) c n" using IH(3) k by (simp add: line_data_ok_def same_line_def)
  have t: "\<exists>g'. stepper_driver_interrupt_handler e g2 = Done g' \<and> segments_ok g'
      \<and> upcoming g' = map (Pair k) (drop (Suc j) ls) @ rest @ more @ more2
      \<and> drawn e (drawing g2 k (ls ! j)) g2 g' \<and> length (g_blocks g') = length (g_blocks g2)
      \<and> (\<forall>j. same_line (g_blocks g2 ! j) (g_blocks g' ! j)) \<and> pulses g' i = pulses_due g2 i" for i
    using isr_tick [OF m] by blast
  then have g': "segments_ok g'" "upcoming g' = map (Pair k) (drop (Suc j) ls) @ rest @ more @ more2"
      "drawn e (drawing g2 k (ls ! j)) g2 g'" "same_line (g_blocks g2 ! k) (g_blocks g' ! k)" "\<And>i. pulses g' i = pulses_due g2 i"
    using s(4) by auto
  have "ls ! j \<le> MAX_AMASS_LEVEL" using ls j by simp
  note on_line_tick [OF d2 this on_line_main [OF IH(4) s(2) k] g'(3,5) s(3)]
  moreover have "line_data_ok (g_blocks g' ! k) c n" using d2 g'(4) by (simp add: line_data_ok_def same_line_def)
  moreover have "st_exec_block (g_st g') = Some k" using g'(3) by (simp add: drawn_def Let_def drawing_fields)
  moreover have "sum_list (map (\<lambda>l. eighths (k, l)) (take (Suc j) ls)) =
      sum_list (map (\<lambda>l. eighths (k, l)) (take j ls)) + eighths (k, ls ! j)" using j by (simp add: take_Suc_conv_app_nth)
  ultimately show ?case using g'(1,2) by auto
qed

text \<open>As long as there are ticks the interrupts run, none of them into a null pointer.\<close>

lemma interrupts_exist:
  fixes e :: step_env
  assumes "segments_ok g"
  shows "upcoming g = ts @ rest \<Longrightarrow> \<exists>g'. interrupts (se_is_homing e) (length ts) g g' \<and> segments_ok g' \<and> upcoming g' = rest"
proof (induction ts arbitrary: rest rule: rev_induct)
  case Nil
  then show ?case using assms interrupts.none by auto
next
  case (snoc t ts)
  then obtain g1 where g1: "interrupts (se_is_homing e) (length ts) g g1" "segments_ok g1" "upcoming g1 = t # rest" by auto
  obtain g2 where g2: "stepper_driver_interrupt_handler e g1 = Done g2" "segments_ok g2" "upcoming g2 = rest"
    using isr_tick [OF g1(2), of "fst t" "snd t" rest e] g1(3) by auto
  show ?case using interrupts.step [OF g1(1) main_keeps_refl [OF g1(2)] _ g2(1)] g2 by auto
qed

section \<open>A concrete block\<close>

text \<open>Two step events with steps (2, 1, 0, 0, 0), the second axis backwards, in a segment of four ticks at level 1.\<close>

definition st_block_demo :: st_block where
  "st_block_demo = \<lparr>sb_steps = [16, 8, 0, 0, 0], sb_step_event_count = 16, sb_steps_per_mm = 100, sb_millimeters = 1 / 50,
     sb_programmed_rate = 500, sb_message = None, sb_output_commands = [], sb_direction = [False, True, False, False, False],
     sb_overrides = 0, sb_backlash_motion = False, sb_dynamic_rpm = False, sb_offset_id = 0, sb_spindle = 0\<rparr>"

definition segment_demo :: segment where
  "segment_demo = \<lparr>sg_exec_block = 0, sg_cycles_per_tick = 1000, sg_current_rate = 500, sg_target_position = 0, sg_n_step = 4,
     sg_spindle_pwm = 0, sg_spindle_rpm = 0, sg_ramp_type = Ramp_Cruise, sg_spindle_sync = False, sg_cruising = False,
     sg_amass_level = 1, sg_update_pwm = None, sg_update_rpm = None\<rparr>"

definition stepgen_demo :: stepgen where
  "stepgen_demo = \<lparr>g_planner = planner_zero,
     g_step_control = \<lparr>end_motion = False, execute_hold = False, execute_sys_motion = False, update_spindle_rpm = False\<rparr>,
     g_st = stepper_zero, g_blocks = [st_block_demo, st_block_demo], g_segments = replicate 3 segment_demo,
     g_tail = 0, g_head = 1, g_prep_block = 0, g_hold_block = st_block_demo, g_prep = prep_zero,
     g_exec_fast_hold = False, g_stepping = True, g_isr_cycles = 0, g_amass_1 = 1000, g_amass_2 = 2000, g_amass_3 = 4000,
     g_cycles_per_min = 600000000, g_probing = False, g_probe_position = replicate 5 0, g_override_control = 0,
     g_steppers_deenergize = False, g_commands = (\<lambda>_. \<lparr>oc_is_digital = True, oc_port = 0, oc_value = 0\<rparr>),
     g_spindles = (\<lambda>_. \<lparr>spp_rpm = 0, spp_rpm_overridden = 0, spp_override_pct = 100, spp_override_disable = False,
       spp_option_override_disable = False\<rparr>), g_outputs = []\<rparr>"

definition step_env_demo :: step_env where
  "step_env_demo = \<lparr>se_state = STATE_CYCLE, se_rt_exec_alarm = 0, se_probe_triggered = False, se_probe_configure = False,
     se_task_room = True, se_idle_lock_time = 25, se_energize = replicate 5 False, se_enable_delay = 0,
     se_steppers_enabled = True, se_is_homing = False, se_homing_axis_lock = replicate 5 True, se_parking_enabled = False,
     se_f_step_timer = 10000000, se_laser = (\<lambda>_. False), se_rpm_min = (\<lambda>_. 0), se_rpm_max = (\<lambda>_. 1000),
     se_get_pwm = (\<lambda>_. None)\<rparr>"

lemma all_axes: "(\<forall>i < N_AXIS. P i) \<longleftrightarrow> P 0 \<and> P 1 \<and> P 2 \<and> P 3 \<and> P 4"
  by (auto simp: N_AXIS_def less_Suc_eq numeral_eq_Suc)

lemma stepgen_demo:
  "segments_ok stepgen_demo" "upcoming stepgen_demo = map (Pair 0) [1, 1, 1, 1] @ []"
  "line_data_ok (g_blocks stepgen_demo ! 0) 2 [2, 1, 0, 0, 0]" "st_exec_block (g_st stepgen_demo) \<noteq> Some 0"
  "length (sys_position (g_planner stepgen_demo)) = N_AXIS" "sys_position (g_planner stepgen_demo) = [0, 0, 0, 0, 0]"
  "sb_direction (g_blocks stepgen_demo ! 0) = [False, True, False, False, False]"
proof -
  have "[0..<1] = [0 :: nat]" by simp
  then have p: "pending stepgen_demo = [segment_demo]"
    by (simp add: pending_def stepgen_demo_def Let_def)
  have i: "\<not> in_segment stepgen_demo" by (simp add: in_segment_def stepgen_demo_def stepper_zero_def)
  show "segments_ok stepgen_demo"
    unfolding segments_ok_def p using i
    by (simp add: stepgen_demo_def stepper_zero_def segment_demo_def st_block_demo_def N_AXIS_def MAX_AMASS_LEVEL_def)
  have "replicate 4 t = [t, t, t, t]" for t :: tick by (simp add: numeral_eq_Suc)
  then show "upcoming stepgen_demo = map (Pair 0) [1, 1, 1, 1] @ []"
    using i by (simp add: upcoming_def p segment_ticks_def segment_demo_def)
  show "line_data_ok (g_blocks stepgen_demo ! 0) 2 [2, 1, 0, 0, 0]"
    by (simp add: line_data_ok_def stepgen_demo_def st_block_demo_def all_axes) (simp add: N_AXIS_def)
  have "replicate 5 x = [x, x, x, x, x]" for x :: int by (simp add: numeral_eq_Suc)
  then show "sys_position (g_planner stepgen_demo) = [0, 0, 0, 0, 0]" by (simp add: stepgen_demo_def planner_zero_def)
qed (simp_all add: stepgen_demo_def stepper_zero_def st_block_demo_def planner_zero_def N_AXIS_def)

lemma demo_interrupts: "j \<le> 4 \<Longrightarrow> \<exists>g'. interrupts False j stepgen_demo g'"
  using interrupts_exist [OF stepgen_demo(1), of "take j (map (Pair 0) [1, 1, 1, 1])" "drop j (map (Pair 0) [1, 1, 1, 1])" step_env_demo]
    stepgen_demo(2) by (simp add: step_env_demo_def) blast

section \<open>What the interrupt draws\<close>



text \<open>When all the step events of a block have been made, so have all its steps.\<close>

lemma line_complete:
  assumes "on_line homing k c n dir start p0 (8 * c) g" "0 < c" "i < N_AXIS"
  shows "sys_position (g_planner g) ! i = start ! i + (if dir ! i then - int (n ! i) else int (n ! i))
    \<and> (\<not> homing \<longrightarrow> pulses_due g i = p0 i + n ! i)"
proof -
  obtain m q where m: "q \<le> 8 * c" "8 * c * m + q = 4 * c + n ! i * (8 * c)"
      "sys_position (g_planner g) ! i = start ! i + (if dir ! i then - int m else int m)"
      "homing \<or> pulses_due g i = p0 i + m"
    using assms(1,3) unfolding on_line_def Let_def by blast
  have "m = n ! i"
  proof (rule ccontr)
    assume "m \<noteq> n ! i"
    then consider "m + 1 \<le> n ! i" | "n ! i + 1 \<le> m" by linarith
    then show False
    proof cases
      case 1
      then have "8 * c * (m + 1) \<le> 8 * c * n ! i" by (rule mult_le_mono2)
      then show False using m(1,2) assms(2) by (simp add: algebra_simps)
    next
      case 2
      then have "8 * c * (n ! i + 1) \<le> 8 * c * m" by (rule mult_le_mono2)
      then show False using m(2) assms(2) by (simp add: algebra_simps)
    qed
  qed
  then show ?thesis using m(3,4) by auto
qed



end
