(* ===== verification/StepperSegments.thy ===== *)
theory StepperSegments
  imports StepperPrep StepperLine
begin

text \<open>
  The segments prepared from a block: every one has at least one step, together they have the steps of
  the block, and the block the interrupt works with is the planner's. So the interrupt makes the steps
  of the planner's block.
\<close>

section \<open>The distance of a segment\<close>

text \<open>
  What keeps the ramps from running past the end of the block: the distances of the profile lie before
  it, and a deceleration to a lower feed rate is the one of the acceleration of the block.
\<close>

definition profile_bounds :: "prep_data \<Rightarrow> ramp_type \<Rightarrow> real \<Rightarrow> bool" where
  "profile_bounds p t mm \<longleftrightarrow> 0 \<le> pr_mm_complete p \<and>
     (case t of
        Ramp_Decel \<Rightarrow> True
      | Ramp_Cruise \<Rightarrow> pr_mm_complete p < mm \<longrightarrow> pr_mm_complete p \<le> pr_decelerate_after p
      | _ \<Rightarrow> pr_mm_complete p \<le> pr_accelerate_until p \<and> 0 \<le> pr_maximum_speed p
           \<and> (pr_mm_complete p < pr_accelerate_until p \<longrightarrow> pr_mm_complete p \<le> pr_decelerate_after p))"

text \<open>The speed a deceleration to a lower feed rate has where it is.\<close>

definition override_speed :: "real \<Rightarrow> prep_data \<Rightarrow> ramp_type \<Rightarrow> real \<Rightarrow> real \<Rightarrow> bool" where
  "override_speed a p t v mm \<longleftrightarrow>
     (t = Ramp_DecelOverride \<longrightarrow> v * v = pr_maximum_speed p * pr_maximum_speed p + 2 * a * (mm - pr_accelerate_until p))"

definition ramp_fits :: "real \<Rightarrow> prep_data \<Rightarrow> ramp \<Rightarrow> bool" where
  "ramp_fits a p r \<longleftrightarrow> pr_mm_complete p \<le> rm_mm r \<and> profile_bounds p (rm_type r) (rm_mm r)
     \<and> override_speed a p (rm_type r) (rm_speed r) (rm_mm r)"

lemmas ramp_defs = ramp_step_def ramp_override_def ramp_accel_def ramp_cruise_def ramp_decel_def Let_def

lemma ramp_step_fits:
  assumes "0 < a" "ramp_fits a p r" "pr_mm_complete p < rm_mm r"
  shows "ramp_fits a p (ramp_step a p mm r)"
proof (cases "rm_type r")
  case Ramp_DecelOverride
  let ?M = "pr_maximum_speed p" and ?t = "rm_time r" and ?v = "rm_speed r"
  let ?mm = "rm_mm r - ?t * (?v - 1 / 2 * (a * ?t))"
  have "(?v - a * ?t) * (?v - a * ?t) = ?v * ?v - 2 * a * (?t * (?v - 1 / 2 * (a * ?t)))" by (simp add: algebra_simps)
  then have energy: "(?v - a * ?t) * (?v - a * ?t) = ?M * ?M + 2 * a * (?mm - pr_accelerate_until p)"
    using assms(2) Ramp_DecelOverride by (simp add: ramp_fits_def override_speed_def algebra_simps)
  have b: "0 \<le> ?M" "pr_mm_complete p \<le> pr_accelerate_until p" using assms(2) Ramp_DecelOverride by (simp_all add: ramp_fits_def profile_bounds_def)
  have "pr_mm_complete p \<le> ?mm" if "\<not> ?v - ?M \<le> a * ?t"
  proof -
    have "?M * ?M \<le> (?v - a * ?t) * (?v - a * ?t)" using that b(1) by (intro mult_mono) auto
    then have "0 \<le> 2 * a * (?mm - pr_accelerate_until p)" using energy by simp
    then show ?thesis using assms(1) b(2) by (simp add: zero_le_mult_iff)
  qed
  then show ?thesis
    using Ramp_DecelOverride assms(2) energy
    by (simp add: ramp_defs ramp_fits_def profile_bounds_def override_speed_def)
qed (use assms in \<open>auto simp: ramp_defs ramp_fits_def profile_bounds_def override_speed_def\<close>)

lemma ramp_fits_time [simp]:
  "ramp_fits a p (r\<lparr>rm_dt := x\<rparr>) = ramp_fits a p r" "ramp_fits a p (r\<lparr>rm_time := x\<rparr>) = ramp_fits a p r"
  "ramp_fits a p (r\<lparr>rm_dt_max := x\<rparr>) = ramp_fits a p r"
  by (simp_all add: ramp_fits_def)

text \<open>A segment ends with the profile, or it is at least as long as asked for.\<close>

lemma ramp_loop_fits:
  assumes "0 < a"
  shows "ramp_loop n a p mm minimum_mm r = Done r' \<Longrightarrow> ramp_fits a p r \<Longrightarrow> pr_mm_complete p < rm_mm r \<Longrightarrow>
    ramp_fits a p r' \<and> (rm_mm r' \<le> pr_mm_complete p \<or> rm_mm r' \<le> minimum_mm)"
proof (induction n arbitrary: r)
  case (Suc n)
  let ?q = "ramp_step a p mm r"
  let ?r = "?q\<lparr>rm_dt := rm_dt ?q + rm_time ?q\<rparr>"
  have fits: "ramp_fits a p ?r" using ramp_step_fits [OF assms Suc.prems(2,3)] by simp
  show ?case
  proof (cases "rm_dt ?r < rm_dt_max ?r")
    case True
    let ?n = "?r\<lparr>rm_time := rm_dt_max ?r - rm_dt ?r\<rparr>"
    show ?thesis
      using Suc.IH [of ?n] Suc.prems(1) True fits by (auto simp: ramp_loop.simps(2) Let_def split: if_splits)
  next
    case False
    let ?x = "?r\<lparr>rm_dt_max := rm_dt_max ?r + DT_SEGMENT\<rparr>"
    let ?n = "?x\<lparr>rm_time := rm_dt_max ?x - rm_dt ?x\<rparr>"
    show ?thesis
      using Suc.IH [of ?n] Suc.prems(1) False fits by (auto simp: ramp_loop.simps(2) Let_def split: if_splits)
  qed
qed simp

lemma segment_ramps_fits:
  assumes "0 < a" "profile_bounds p (pr_ramp_type p) mm" "override_speed a p (pr_ramp_type p) v mm" "pr_mm_complete p < mm"
    and "segment_ramps fuel a mm v p = Done r"
  shows "ramp_fits a p r" "rm_mm r = pr_mm_complete p \<or> rm_mm r \<le> mm - pr_req_mm_increment p"
proof -
  let ?r = "\<lparr>rm_type = pr_ramp_type p, rm_speed = v, rm_mm = mm, rm_dt = 0, rm_dt_max = DT_SEGMENT, rm_time = DT_SEGMENT\<rparr>"
  have "ramp_fits a p ?r" using assms(2-4) by (simp add: ramp_fits_def)
  then have l: "ramp_fits a p r \<and> (rm_mm r \<le> pr_mm_complete p \<or>
      rm_mm r \<le> (if mm - pr_req_mm_increment p < 0 then 0 else mm - pr_req_mm_increment p))"
    using ramp_loop_fits [OF assms(1), where r = ?r] assms(4,5) by (auto simp: segment_ramps_def Let_def)
  then show "ramp_fits a p r" by blast
  have "0 \<le> pr_mm_complete p" "pr_mm_complete p \<le> rm_mm r" using l by (simp_all add: ramp_fits_def profile_bounds_def)
  then show "rm_mm r = pr_mm_complete p \<or> rm_mm r \<le> mm - pr_req_mm_increment p" using l by (auto split: if_splits)
qed

section \<open>The steps of a segment\<close>

text \<open>The steps left are those of the distance left, rounded up.\<close>

definition steps_left :: "real \<Rightarrow> real \<Rightarrow> nat" where
  "steps_left per_mm mm = nat \<lceil>per_mm * mm\<rceil>"

lemma steps_left_less:
  assumes "0 < per_mm" "0 < mm" "0 \<le> mm'" "mm' = 0 \<or> mm' \<le> mm - REQ_MM_INCREMENT_SCALAR / per_mm"
  shows "steps_left per_mm mm' < steps_left per_mm mm"
proof (cases "mm' = 0")
  case True
  have "0 < \<lceil>per_mm * mm\<rceil>" using assms(1,2) by simp
  then show ?thesis using True by (simp add: steps_left_def)
next
  case False
  then have "per_mm * mm' \<le> per_mm * mm - 1"
    using assms(4) mult_left_mono [of mm' "mm - REQ_MM_INCREMENT_SCALAR / per_mm" per_mm] assms(1)
    by (simp add: REQ_MM_INCREMENT_SCALAR_def right_diff_distrib)
  then have "\<lceil>per_mm * mm'\<rceil> \<le> \<lceil>per_mm * mm - 1\<rceil>" by (rule ceiling_mono)
  then have "\<lceil>per_mm * mm'\<rceil> < \<lceil>per_mm * mm\<rceil>" by simp
  moreover have "0 \<le> \<lceil>per_mm * mm'\<rceil>" using assms(1,3) by (simp add: order_less_le_trans [of "- 1" 0])
  moreover have "0 < per_mm * mm" using assms(1,2) by simp
  ultimately show ?thesis by (simp add: steps_left_def)
qed

lemma to_uint32_Done:
  assumes "to_uint32 (real_of_int n) = Done w" "0 \<le> n"
  shows "int (unat w) = n"
proof -
  have w: "w = word_of_int n" "real_of_int n < 2 ^ 32"
    using assms by (auto simp: to_uint32_def float_trunc_def split: if_splits)
  then have "real_of_int n < real_of_int (2 ^ 32)" by simp
  then have "n < 2 ^ 32" by (simp only: of_int_less_iff)
  then show ?thesis using assms(2) w(1) by (simp add: unsigned_of_int take_bit_int_eq_self)
qed

text \<open>
  Preparing a block: how far it is, and that the profile fits it. No hold and no system motion is
  under way, so that the profile ends with the block.
\<close>

definition in_progress :: "nat \<Rightarrow> stepgen \<Rightarrow> bool" where
  "in_progress i g \<longleftrightarrow>
     (let b = pb_blocks (g_planner g) ! i; p = g_prep g
      in st_pl_block (g_planner g) = Some i \<and> i < length (pb_blocks (g_planner g))
         \<and> \<not> execute_hold (g_step_control g) \<and> \<not> execute_sys_motion (g_step_control g) \<and> \<not> g_exec_fast_hold g
         \<and> 0 < b_acceleration b \<and> 0 < b_millimeters b \<and> 0 < pr_steps_per_mm p
         \<and> pr_req_mm_increment p = REQ_MM_INCREMENT_SCALAR / pr_steps_per_mm p
         \<and> pr_mm_complete p = 0 \<and> profile_bounds p (pr_ramp_type p) (b_millimeters b)
         \<and> override_speed (b_acceleration b) p (pr_ramp_type p) (st_current_speed (g_planner g)) (b_millimeters b)
         \<and> unat (pr_steps_remaining p) = steps_left (pr_steps_per_mm p) (b_millimeters b) \<and> unat (pr_steps_remaining p) < 2 ^ 28)"

text \<open>The segment a pass adds, with \<open>m\<close> steps at level \<open>l\<close>, and what the pass leaves alone.\<close>

definition adds_segment :: "nat \<Rightarrow> nat \<Rightarrow> stepgen \<Rightarrow> stepgen \<Rightarrow> bool" where
  "adds_segment m l g g' \<longleftrightarrow>
     (\<exists>s. g_segments g' = (g_segments g)[g_head g := s] \<and> g_head g' = next_segment g (g_head g)
        \<and> sg_exec_block s = g_prep_block g \<and> sg_amass_level s = l \<and> unat (sg_n_step s) = m * 2 ^ l)
     \<and> 0 < m \<and> l \<le> MAX_AMASS_LEVEL \<and> m + unat (pr_steps_remaining (g_prep g')) = unat (pr_steps_remaining (g_prep g))
     \<and> g_st g' = g_st g \<and> g_tail g' = g_tail g \<and> g_blocks g' = g_blocks g \<and> g_prep_block g' = g_prep_block g
     \<and> sys_position (g_planner g') = sys_position (g_planner g) \<and> pulses g' = pulses g"

lemma set_rpm_effect: "\<exists>x sp. spindle_set_rpm e k rpm pct g = (x, g\<lparr>g_spindles := sp\<rparr>)"
  unfolding spindle_set_rpm_def Let_def by blast

lemma segment_rpm_effect: "\<exists>x sp. segment_rpm e i g = (x, g\<lparr>g_spindles := sp\<rparr>)"
proof (cases "ls_on (b_spindle (pb_blocks (g_planner g) ! i))")
  case True
  show ?thesis
  proof (cases "ls_css (b_spindle (pb_blocks (g_planner g) ! i))")
    case None
    show ?thesis unfolding segment_rpm_def Let_def if_P [OF True] None option.case by (rule set_rpm_effect)
  next
    case (Some c)
    show ?thesis unfolding segment_rpm_def Let_def if_P [OF True] Some option.case by (rule set_rpm_effect)
  qed
next
  case False
  show ?thesis unfolding segment_rpm_def Let_def if_not_P [OF False] by blast
qed

lemma spindle_effect:
  "\<exists>p sp seg c. segment_spindle e i g = g\<lparr>g_prep := (g_prep g)\<lparr>pr_current_spindle_rpm := p\<rparr>, g_spindles := sp,
      g_segments := (g_segments g)[g_head g := seg], g_step_control := c\<rparr>
    \<and> sg_exec_block seg = sg_exec_block (g_segments g ! g_head g)
    \<and> execute_hold c = execute_hold (g_step_control g) \<and> execute_sys_motion c = execute_sys_motion (g_step_control g)"
    (is "?effect (segment_spindle e i g)")
proof -
  have same: "?effect (g\<lparr>g_spindles := s\<rparr>)" for s
    by (rule exI [of _ "pr_current_spindle_rpm (g_prep g)"], rule exI [of _ s], rule exI [of _ "g_segments g ! g_head g"],
        rule exI [of _ "g_step_control g"]) simp
  have none: "?effect g" using same [of "g_spindles g"] by simp
  obtain rpm sp where r: "segment_rpm e i g = (rpm, g\<lparr>g_spindles := sp\<rparr>)" using segment_rpm_effect by blast
  define k where "k = ls_hal (b_spindle (pb_blocks (g_planner g) ! i))"
  define seg where "seg = (case se_get_pwm e k of
            Some pwm \<Rightarrow> (g_segments g ! g_head g)\<lparr>sg_update_pwm := Some k, sg_spindle_pwm := pwm rpm\<rparr>
          | None \<Rightarrow> (g_segments g ! g_head g)\<lparr>sg_update_rpm := Some k, sg_spindle_rpm := rpm\<rparr>)"
  have seg: "sg_exec_block seg = sg_exec_block (g_segments g ! g_head g)" by (simp add: seg_def split: option.split)
  define new where "new = g\<lparr>g_prep := (g_prep g)\<lparr>pr_current_spindle_rpm := rpm\<rparr>, g_spindles := sp,
      g_segments := (g_segments g)[g_head g := seg], g_step_control := (g_step_control g)\<lparr>update_spindle_rpm := False\<rparr>\<rparr>"
  have "?effect new"
    by (rule exI [of _ rpm], rule exI [of _ sp], rule exI [of _ seg],
        rule exI [of _ "(g_step_control g)\<lparr>update_spindle_rpm := False\<rparr>"]) (simp add: new_def seg)
  moreover have "segment_spindle e i g = g \<or> segment_spindle e i g = g\<lparr>g_spindles := sp\<rparr> \<or> segment_spindle e i g = new"
    unfolding segment_spindle_def Let_def r k_def [symmetric]
    by (simp add: new_def upd_prep_def upd_segment_def upd_control_def seg_def cong: option.case_cong)
  ultimately show ?thesis using none same [of sp] by metis
qed

lemma unat_push_bit: "unat (push_bit l (w :: u32)) = unat w * 2 ^ l" if "unat w < 2 ^ 28" "l \<le> MAX_AMASS_LEVEL"
proof -
  have "(2 :: nat) ^ l \<le> 2 ^ 3" using that(2) by (intro power_increasing) (simp_all add: MAX_AMASS_LEVEL_def)
  then have "unat w * 2 ^ l \<le> unat w * 2 ^ 3" by (rule mult_le_mono2)
  also have "\<dots> < 2 ^ 32" using that(1) by simp
  finally have "unat w * 2 ^ l < 2 ^ 32" .
  then show ?thesis by (simp add: unsigned_push_bit_eq push_bit_eq_mult [of l "unat w"] take_bit_nat_eq_self)
qed

lemma amass_level_le: "amass_level g c \<le> MAX_AMASS_LEVEL"
  by (simp add: amass_level_def MAX_AMASS_LEVEL_def)

text \<open>A segment is filled without touching anything else but the position of synchronised motion.\<close>

lemma fill_segment_effect:
  "\<exists>s y. fill_segment i dt n cycles g = g\<lparr>g_segments := (g_segments g)[g_head g := s], g_prep := (g_prep g)\<lparr>pr_target_position := y\<rparr>\<rparr>
    \<and> sg_exec_block s = sg_exec_block (g_segments g ! g_head g)
    \<and> sg_amass_level s = amass_level g cycles \<and> sg_n_step s = push_bit (amass_level g cycles) n"
proof (cases "ls_synchronized (b_spindle (pb_blocks (g_planner g) ! i)) \<and> \<not> c_units_per_rev (b_condition (pb_blocks (g_planner g) ! i))")
  case True
  show ?thesis unfolding fill_segment_def Let_def simp_thms(6) if_P [OF True] upd_prep_def upd_segment_def
    by (rule exI, rule exI, rule conjI, simp) simp
next
  case False
  show ?thesis unfolding fill_segment_def Let_def if_not_P [OF False] upd_prep_def upd_segment_def
    by (rule exI, rule exI [of _ "pr_target_position (g_prep g)"], rule conjI, simp) simp
qed

text \<open>The end of a block, or its continuation.\<close>

lemma after_segment_effect:
  assumes "pr_mm_complete (g_prep g) = 0" "0 \<le> mm" "\<not> execute_sys_motion (g_step_control g)"
  shows "\<exists>outs q. after_segment e i mm g = (True, g\<lparr>g_outputs := g_outputs g @ outs, g_planner := q\<rparr>) \<and> no_pulse outs
    \<and> sys_position q = sys_position (g_planner g)
    \<and> (mm = 0 \<longrightarrow> st_pl_block q = None) \<and> (mm \<noteq> 0 \<longrightarrow> q = g_planner g)"
proof (cases "mm = 0")
  case True
  let ?outs = "if c_units_per_rev (b_condition (pb_blocks (g_planner g) ! i)) then [DeleteSyncVelocityTask] else []"
  let ?q = "plan_discard_current_block (g_planner g\<lparr>st_pl_block := None\<rparr>)"
  have "sys_position ?q = sys_position (g_planner g)" "st_pl_block ?q = None"
    by (simp_all add: plan_discard_current_block_def Let_def upd_block_def)
  then show ?thesis
    using True assms by (intro exI [of _ ?outs] exI [of _ ?q])
      (simp add: after_segment_def step_emit_def upd_planner_def is_pulse_def)
next
  case False
  then show ?thesis
    using assms by (intro exI [of _ "[]"] exI [of _ "g_planner g"]) (simp add: after_segment_def)
qed

lemma finish_segment_effect:
  assumes "finish_segment e i mm dt h = Done (cont, g')" "\<not> execute_hold (g_step_control h)" "\<not> execute_sys_motion (g_step_control h)"
    and "pr_mm_complete (g_prep h) = 0" "0 < pr_steps_per_mm (g_prep h)" "0 \<le> mm"
    and "steps_left (pr_steps_per_mm (g_prep h)) mm < unat (pr_steps_remaining (g_prep h))"
    and "unat (pr_steps_remaining (g_prep h)) < 2 ^ 28" "g_head h < length (g_segments h)"
  shows "\<exists>m s w x y outs q. cont \<and> g' = h\<lparr>g_segments := (g_segments h)[g_head h := s], g_head := next_segment h (g_head h),
      g_prep := (g_prep h)\<lparr>pr_steps_remaining := w, pr_dt_remainder := x, pr_target_position := y\<rparr>, g_planner := q,
      g_outputs := g_outputs h @ outs\<rparr> \<and> no_pulse outs
    \<and> sg_exec_block s = sg_exec_block (g_segments h ! g_head h) \<and> sg_amass_level s \<le> MAX_AMASS_LEVEL
    \<and> unat (sg_n_step s) = m * 2 ^ sg_amass_level s \<and> 0 < m \<and> m + unat w = unat (pr_steps_remaining (g_prep h))
    \<and> unat w = steps_left (pr_steps_per_mm (g_prep h)) mm \<and> sys_position q = sys_position (g_planner h)
    \<and> (mm = 0 \<longrightarrow> st_pl_block q = None) \<and> (mm \<noteq> 0 \<longrightarrow> q = upd_block i (\<lambda>b. b\<lparr>b_millimeters := mm\<rparr>) (g_planner h))"
proof -
  let ?p = "g_prep h" and ?R = "pr_steps_remaining (g_prep h)"
  let ?dist = "pr_steps_per_mm ?p * mm"
  have nn: "0 \<le> \<lceil>?dist\<rceil>" using assms(5,6) by (simp add: order_less_le_trans [of "- 1" 0])
  obtain w where w: "to_uint32 (real_of_int \<lceil>?dist\<rceil>) = Done w"
    using assms(1) by (auto simp: finish_segment_def Let_def bind_run_iff)
  have uw: "unat w = steps_left (pr_steps_per_mm ?p) mm"
    using arg_cong [OF to_uint32_Done [OF w nn], of nat] unfolding steps_left_def nat_int .
  have "w \<le> ?R" using uw assms(7) by (simp add: word_le_nat_alt)
  then have un: "unat (?R - w) = unat ?R - unat w" by (rule unat_sub)
  then have "unat (?R - w) \<noteq> 0" using uw assms(7) by simp
  then have n: "?R - w \<noteq> 0" by (simp only: unat_eq_0 not_False_eq_True)
  define h1 where "h1 = upd_segment (g_head h) (\<lambda>s. s\<lparr>sg_n_step := ?R - w\<rparr>) h"
  have h1: "h1 = h\<lparr>g_segments := (g_segments h)[g_head h := (g_segments h ! g_head h)\<lparr>sg_n_step := ?R - w\<rparr>]\<rparr>"
    by (simp add: h1_def upd_segment_def)
  define dt1 where "dt1 = dt + pr_dt_remainder ?p"
  define rate where "rate = dt1 / (real (unat ?R) - ?dist)"
  obtain cycles where c: "after_segment e i mm (upd_prep (\<lambda>p. p\<lparr>pr_steps_remaining := w,
      pr_dt_remainder := (real (unat w) - ?dist) * rate\<rparr>) (upd_planner (upd_block i (\<lambda>b. b\<lparr>b_millimeters := mm\<rparr>))
        ((fill_segment i dt1 (?R - w) cycles h1)\<lparr>g_head := next_segment (fill_segment i dt1 (?R - w) cycles h1) (g_head h)\<rparr>))) = (cont, g')"
    using assms(1,2) n
    unfolding finish_segment_def Let_def w bind_run.simps h1_def [symmetric] dt1_def [symmetric] rate_def [symmetric]
    by (auto simp: bind_run_iff)
  obtain s y where f: "fill_segment i dt1 (?R - w) cycles h1 = h1\<lparr>g_segments := (g_segments h1)[g_head h1 := s],
        g_prep := (g_prep h1)\<lparr>pr_target_position := y\<rparr>\<rparr>"
      "sg_exec_block s = sg_exec_block (g_segments h1 ! g_head h1)"
      "sg_amass_level s = amass_level h1 cycles" "sg_n_step s = push_bit (amass_level h1 cycles) (?R - w)"
    using fill_segment_effect by blast
  define x where "x = (real (unat w) - ?dist) * rate"
  have nxt: "next_segment (h1\<lparr>g_segments := (g_segments h1)[g_head h1 := s], g_prep := p\<rparr>) j = next_segment h j" for p j
    by (simp add: next_segment_def h1)
  define h2 where "h2 = h\<lparr>g_segments := (g_segments h)[g_head h := s], g_head := next_segment h (g_head h),
      g_planner := upd_block i (\<lambda>b. b\<lparr>b_millimeters := mm\<rparr>) (g_planner h),
      g_prep := ?p\<lparr>pr_target_position := y, pr_steps_remaining := w, pr_dt_remainder := x\<rparr>\<rparr>"
  have h2: "after_segment e i mm h2 = (cont, g')"
    using c unfolding f(1) nxt by (simp add: h1 h2_def upd_prep_def upd_planner_def x_def)
  have h2f: "pr_mm_complete (g_prep h2) = 0" "\<not> execute_sys_motion (g_step_control h2)"
    "sys_position (g_planner h2) = sys_position (g_planner h)"
    using assms(3,4) by (simp_all add: h2_def upd_block_def)
  obtain outs q where a: "after_segment e i mm h2 = (True, h2\<lparr>g_outputs := g_outputs h2 @ outs, g_planner := q\<rparr>)" "no_pulse outs"
      "sys_position q = sys_position (g_planner h)" "mm = 0 \<longrightarrow> st_pl_block q = None" "mm \<noteq> 0 \<longrightarrow> q = g_planner h2"
    using after_segment_effect [OF h2f(1) assms(6) h2f(2), of e i] unfolding h2f(3) by blast
  have g': "cont" "g' = h2\<lparr>g_outputs := g_outputs h2 @ outs, g_planner := q\<rparr>" using h2 [unfolded a(1)] by simp_all
  have seg: "sg_exec_block s = sg_exec_block (g_segments h ! g_head h)" "sg_amass_level s \<le> MAX_AMASS_LEVEL"
    using f(2,3) amass_level_le assms(9) by (simp_all add: h1)
  have "unat (?R - w) < 2 ^ 28" using un assms(8) by simp
  then have ns: "unat (sg_n_step s) = (unat ?R - unat w) * 2 ^ sg_amass_level s"
    using unat_push_bit [of "?R - w" "sg_amass_level s"] f(3,4) seg(2) un by simp
  show ?thesis
    by (rule exI [of _ "unat ?R - unat w"], rule exI [of _ s], rule exI [of _ w], rule exI [of _ x], rule exI [of _ y],
        rule exI [of _ outs], rule exI [of _ q])
      (use g' a(2-) seg ns uw assms(7) in \<open>simp add: h2_def\<close>)
qed

text \<open>
  A pass over a block in progress adds a segment with at least one step; then the block is in progress
  as before, or all its steps are in segments and it is given up.
\<close>

lemma prep_segment_effect:
  assumes "in_progress i g" "prep_segment fuel e i g = Done (cont, g')" "g_head g < length (g_segments g)"
  shows "cont" "\<exists>m l. adds_segment m l g g'"
    "in_progress i g' \<or> st_pl_block (g_planner g') = None \<and> unat (pr_steps_remaining (g_prep g')) = 0"
proof -
  define b where "b = pb_blocks (g_planner g) ! i"
  note ip = assms(1) [unfolded in_progress_def Let_def b_def [symmetric]]
  define g1 where "g1 = upd_segment (g_head g) (\<lambda>s. s\<lparr>sg_exec_block := g_prep_block g, sg_update_rpm := None, sg_update_pwm := None\<rparr>) g"
  have g1: "g1 = g\<lparr>g_segments := (g_segments g)[g_head g :=
      (g_segments g ! g_head g)\<lparr>sg_exec_block := g_prep_block g, sg_update_rpm := None, sg_update_pwm := None\<rparr>]\<rparr>"
    by (simp add: g1_def upd_segment_def)
  obtain r where r: "segment_ramps fuel (b_acceleration b) (b_millimeters b) (st_current_speed (g_planner g)) (g_prep g) = Done r"
      "finish_segment e i (rm_mm r) (rm_dt r) (segment_spindle e i (upd_prep (\<lambda>p. p\<lparr>pr_ramp_type := rm_type r\<rparr>)
        (upd_planner (\<lambda>p. p\<lparr>st_current_speed := rm_speed r\<rparr>) g1))) = Done (cont, g')"
    using assms(2) unfolding prep_segment_def Let_def g1_def [symmetric] by (auto simp: bind_run_iff g1 b_def)
  have fit: "ramp_fits (b_acceleration b) (g_prep g) r" "rm_mm r = 0 \<or> rm_mm r \<le> b_millimeters b - pr_req_mm_increment (g_prep g)"
    using segment_ramps_fits [OF _ _ _ _ r(1)] ip by simp_all
  then have mm: "0 \<le> rm_mm r" using ip by (simp add: ramp_fits_def)
  have less: "steps_left (pr_steps_per_mm (g_prep g)) (rm_mm r) < unat (pr_steps_remaining (g_prep g))"
    using steps_left_less [of "pr_steps_per_mm (g_prep g)" "b_millimeters b" "rm_mm r"] ip fit(2) mm by simp
  define g2 where "g2 = upd_prep (\<lambda>p. p\<lparr>pr_ramp_type := rm_type r\<rparr>) (upd_planner (\<lambda>p. p\<lparr>st_current_speed := rm_speed r\<rparr>) g1)"
  obtain rpm sp seg c where h: "segment_spindle e i g2 = g2\<lparr>g_prep := (g_prep g2)\<lparr>pr_current_spindle_rpm := rpm\<rparr>, g_spindles := sp,
      g_segments := (g_segments g2)[g_head g2 := seg], g_step_control := c\<rparr>"
    "sg_exec_block seg = sg_exec_block (g_segments g2 ! g_head g2)"
    "execute_hold c = execute_hold (g_step_control g2)" "execute_sys_motion c = execute_sys_motion (g_step_control g2)"
    using spindle_effect by blast
  have g2: "g2 = g\<lparr>g_segments := (g_segments g)[g_head g :=
      (g_segments g ! g_head g)\<lparr>sg_exec_block := g_prep_block g, sg_update_rpm := None, sg_update_pwm := None\<rparr>],
      g_planner := (g_planner g)\<lparr>st_current_speed := rm_speed r\<rparr>, g_prep := (g_prep g)\<lparr>pr_ramp_type := rm_type r\<rparr>\<rparr>"
    by (simp add: g2_def g1 upd_prep_def upd_planner_def)
  define h where "h = g\<lparr>g_segments := (g_segments g)[g_head g := seg], g_spindles := sp, g_step_control := c,
      g_planner := (g_planner g)\<lparr>st_current_speed := rm_speed r\<rparr>,
      g_prep := (g_prep g)\<lparr>pr_ramp_type := rm_type r, pr_current_spindle_rpm := rpm\<rparr>\<rparr>"
  have hs: "segment_spindle e i g2 = h" unfolding h(1) by (simp add: g2 h_def)
  have hf: "g_segments h = (g_segments g)[g_head g := seg]" "g_head h = g_head g" "g_step_control h = c"
    "g_planner h = (g_planner g)\<lparr>st_current_speed := rm_speed r\<rparr>"
    "g_prep h = (g_prep g)\<lparr>pr_ramp_type := rm_type r, pr_current_spindle_rpm := rpm\<rparr>" by (simp_all add: h_def)
  have cc: "\<not> execute_hold c" "\<not> execute_sys_motion c" "sg_exec_block seg = g_prep_block g"
    using h(2-4) ip assms(3) by (simp_all add: g2)
  note fin = finish_segment_effect [OF r(2) [folded g2_def, unfolded hs]]
  obtain m s w x y outs q where f: "cont"
      "g' = h\<lparr>g_segments := (g_segments h)[g_head h := s], g_head := next_segment h (g_head h),
      g_prep := (g_prep h)\<lparr>pr_steps_remaining := w, pr_dt_remainder := x, pr_target_position := y\<rparr>, g_planner := q,
      g_outputs := g_outputs h @ outs\<rparr>" "no_pulse outs"
      "sg_exec_block s = g_prep_block g" "sg_amass_level s \<le> MAX_AMASS_LEVEL"
      "unat (sg_n_step s) = m * 2 ^ sg_amass_level s" "0 < m" "m + unat w = unat (pr_steps_remaining (g_prep g))"
      "unat w = steps_left (pr_steps_per_mm (g_prep g)) (rm_mm r)" "sys_position q = sys_position (g_planner g)"
      "rm_mm r = 0 \<longrightarrow> st_pl_block q = None"
      "rm_mm r \<noteq> 0 \<longrightarrow> q = upd_block i (\<lambda>b. b\<lparr>b_millimeters := rm_mm r\<rparr>) (g_planner h)"
    using fin cc ip mm less assms(3) unfolding hf by (force simp: nth_list_update)
  have nxt: "next_segment h j = next_segment g j" for j by (simp add: next_segment_def h_def)
  show "cont" by (rule f(1))
  have "adds_segment m (sg_amass_level s) g g'"
    using f(3-8,10) pulses_none [OF f(3)] unfolding adds_segment_def nxt f(2) h_def
    by (auto simp: pulses_def fun_eq_iff nxt [unfolded h_def])
  then show "\<exists>m l. adds_segment m l g g'" by blast
  show "in_progress i g' \<or> st_pl_block (g_planner g') = None \<and> unat (pr_steps_remaining (g_prep g')) = 0"
  proof (cases "rm_mm r = 0")
    case True
    then show ?thesis using f(9,11) by (simp add: f(2) steps_left_def)
  next
    case False
    then have q: "q = upd_block i (\<lambda>b. b\<lparr>b_millimeters := rm_mm r\<rparr>) ((g_planner g)\<lparr>st_current_speed := rm_speed r\<rparr>)"
      using f(12) by (simp add: hf)
    have gf: "g_planner g' = q" "g_step_control g' = c" "g_exec_fast_hold g' = g_exec_fast_hold g"
      "g_prep g' = (g_prep g)\<lparr>pr_ramp_type := rm_type r, pr_current_spindle_rpm := rpm, pr_steps_remaining := w,
         pr_dt_remainder := x, pr_target_position := y\<rparr>" by (simp_all add: f(2) h_def)
    have "in_progress i g'"
      using ip cc False mm fit(1) f(8,9)
      by (simp add: in_progress_def gf q upd_block_def b_def ramp_fits_def profile_bounds_def override_speed_def Let_def cong: ramp_type.case_cong)
    then show ?thesis by blast
  qed
qed

end
