(* ===== verification/Spec2Isabelle.thy ===== *)
theory Spec2Isabelle
  imports Override Checksum Codec Url Inspector StateReach NgcMacros FlowReach RtuSend PlannerLimits ExprSubst
    StepperSegments
begin

text \<open>
  Verification of the motion controller firmware of the Inspector arm (grblHAL for the ESP32, under
  \<open>src/fw/grblhal_esp32/main\<close>), built theory by theory. (Plan and contents below.)
\<close>

end
